(* ===== verification/AW_Prelude.thy ===== *)
theory AW_Prelude
  imports Complex_Main "HOL-Library.Word" "HOL-Library.Sublist"
begin

text \<open>
  The prelude: what the components share.

  A C++ \<open>std::string\<close> is a HOL \<open>string\<close>: a list of bytes, \<open>char\<close> being the 8-bit
  code unit. The character classes are those of \<open><cctype>\<close> in the "C" locale, which is the
  locale the program runs in (nothing under src/ calls \<open>setlocale\<close>), so a byte from 0x80 on is
  in no class and no case mapping moves it. Positions in a string are \<open>nat\<close>, and
  \<open>std::string::npos\<close> is \<open>None\<close>.
\<close>

section \<open>Types the components share\<close>

type_synonym u8 = "8 word"
type_synonym u32 = "32 word"
type_synonym u64 = "64 word"

named_theorems aw_char "character classes, unfolded to byte ranges"

section \<open>Character classes of the C locale\<close>

definition code :: "char \<Rightarrow> nat" where
  "code c = of_char c"

definition is_space :: "char \<Rightarrow> bool" where
  "is_space c \<longleftrightarrow> code c = 32 \<or> (9 \<le> code c \<and> code c \<le> 13)"

definition is_digit :: "char \<Rightarrow> bool" where
  "is_digit c \<longleftrightarrow> 48 \<le> code c \<and> code c \<le> 57"

definition is_upper :: "char \<Rightarrow> bool" where
  "is_upper c \<longleftrightarrow> 65 \<le> code c \<and> code c \<le> 90"

definition is_lower :: "char \<Rightarrow> bool" where
  "is_lower c \<longleftrightarrow> 97 \<le> code c \<and> code c \<le> 122"

definition is_alpha :: "char \<Rightarrow> bool" where
  "is_alpha c \<longleftrightarrow> is_upper c \<or> is_lower c"

definition is_alnum :: "char \<Rightarrow> bool" where
  "is_alnum c \<longleftrightarrow> is_alpha c \<or> is_digit c"

definition to_lower_c :: "char \<Rightarrow> char" where
  "to_lower_c c = (if is_upper c then char_of (code c + 32) else c)"

definition to_upper_c :: "char \<Rightarrow> char" where
  "to_upper_c c = (if is_lower c then char_of (code c - 32) else c)"

definition lower_s :: "string \<Rightarrow> string" where
  "lower_s s = map to_lower_c s"

lemmas char_class_defs [aw_char] =
  is_space_def is_digit_def is_upper_def is_lower_def is_alpha_def is_alnum_def

lemma code_less_256: "code c < 256"
  by (simp add: code_def)

lemma code_inj: "code c = code d \<longleftrightarrow> c = d"
  by (simp add: code_def)

lemma code_char_of: "n < 256 \<Longrightarrow> code (char_of n) = n"
  by (simp add: code_def)

lemma code_to_lower: "code (to_lower_c c) = (if is_upper c then code c + 32 else code c)"
  by (auto simp: to_lower_c_def code_char_of aw_char)

lemma code_to_upper: "code (to_upper_c c) = (if is_lower c then code c - 32 else code c)"
  by (auto simp: to_upper_c_def code_char_of aw_char)

lemma to_lower_c_idem [simp]: "to_lower_c (to_lower_c c) = to_lower_c c"
  unfolding code_inj [symmetric] by (auto simp: code_to_lower aw_char)

lemma to_upper_c_idem [simp]: "to_upper_c (to_upper_c c) = to_upper_c c"
  unfolding code_inj [symmetric] by (auto simp: code_to_upper aw_char)

lemma to_lower_to_upper [simp]: "to_lower_c (to_upper_c c) = to_lower_c c"
  unfolding code_inj [symmetric] by (auto simp: code_to_lower code_to_upper aw_char)

lemma is_space_to_upper [simp]: "is_space (to_upper_c c) = is_space c"
  by (auto simp: code_to_upper aw_char)

lemma is_alpha_to_upper [simp]: "is_alpha (to_upper_c c) = is_alpha c"
  by (auto simp: code_to_upper aw_char)

lemma is_space_to_lower [simp]: "is_space (to_lower_c c) = is_space c"
  by (auto simp: code_to_lower aw_char)

lemma is_alpha_to_lower [simp]: "is_alpha (to_lower_c c) = is_alpha c"
  by (auto simp: code_to_lower aw_char)

lemma is_alnum_to_lower [simp]: "is_alnum (to_lower_c c) = is_alnum c"
  by (auto simp: code_to_lower aw_char)

lemma alpha_not_space: "is_alpha c \<Longrightarrow> \<not> is_space c"
  by (auto simp: aw_char)

lemma to_upper_not_alpha: "\<not> is_alpha c \<Longrightarrow> to_upper_c c = c"
  by (simp add: to_upper_c_def is_alpha_def)

lemma to_lower_not_alpha: "\<not> is_alpha c \<Longrightarrow> to_lower_c c = c"
  by (simp add: to_lower_c_def is_alpha_def)

lemma lower_s_simps [simp]:
  "lower_s [] = []" "lower_s (c # s) = to_lower_c c # lower_s s"
  "lower_s (s @ t) = lower_s s @ lower_s t"
  "length (lower_s s) = length s" "lower_s (lower_s s) = lower_s s"
  by (simp_all add: lower_s_def)

lemma lower_s_drop_take: "lower_s (drop n s) = drop n (lower_s s)" "lower_s (take n s) = take n (lower_s s)"
  by (simp_all add: lower_s_def drop_map take_map)

section \<open>Strings: find, prefix, trim, getline\<close>

text \<open>\<open>std::string::find(needle, pos)\<close>: the least position at or after \<open>pos\<close>.\<close>

fun sfind0 :: "'a list \<Rightarrow> 'a list \<Rightarrow> nat option" where
  "sfind0 nd [] = (if nd = [] then Some 0 else None)"
| "sfind0 nd (c # cs) = (if prefix nd (c # cs) then Some 0 else map_option Suc (sfind0 nd cs))"

definition sfind :: "'a list \<Rightarrow> 'a list \<Rightarrow> nat \<Rightarrow> nat option" where
  "sfind nd hay pos =
     (if length hay < pos then None else map_option (\<lambda>k. k + pos) (sfind0 nd (drop pos hay)))"

definition occurs_at :: "'a list \<Rightarrow> 'a list \<Rightarrow> nat \<Rightarrow> bool" where
  "occurs_at nd hay p \<longleftrightarrow> p + length nd \<le> length hay \<and> take (length nd) (drop p hay) = nd"

lemma occurs_at_prefix: "p \<le> length hay \<Longrightarrow> occurs_at nd hay p \<longleftrightarrow> prefix nd (drop p hay)"
  (is "_ \<Longrightarrow> ?l \<longleftrightarrow> ?r")
proof
  assume "?l"
  then show "?r" by (metis occurs_at_def take_is_prefix)
next
  assume p: "p \<le> length hay" and "?r"
  then obtain zs where z: "drop p hay = nd @ zs" by (auto simp: prefix_def)
  then have "length hay - p = length nd + length zs" by (metis length_append length_drop)
  with p z show "?l" by (simp add: occurs_at_def)
qed

lemma occurs_at_Cons: "occurs_at nd (c # cs) (Suc k) \<longleftrightarrow> occurs_at nd cs k"
  by (simp add: occurs_at_def)

lemma occurs_at_0: "occurs_at nd hay 0 \<longleftrightarrow> prefix nd hay"
  using occurs_at_prefix [of 0 hay nd] by simp

lemma occurs_at_drop: "pos \<le> length hay \<Longrightarrow> occurs_at nd (drop pos hay) k \<longleftrightarrow> occurs_at nd hay (k + pos)"
  by (auto simp: occurs_at_def add_ac)

lemma sfind0_None: "sfind0 nd hay = None \<longleftrightarrow> (\<forall>k. \<not> occurs_at nd hay k)"
proof (induction hay)
  case Nil
  then show ?case by (auto simp: occurs_at_def)
next
  case (Cons c cs)
  have "(\<forall>k. \<not> occurs_at nd (c # cs) k) \<longleftrightarrow>
      \<not> occurs_at nd (c # cs) 0 \<and> (\<forall>k. \<not> occurs_at nd (c # cs) (Suc k))"
    by (metis not0_implies_Suc)
  with Cons show ?case by (simp add: occurs_at_Cons occurs_at_0)
qed

lemma sfind0_Some:
  "sfind0 nd hay = Some k \<longleftrightarrow> occurs_at nd hay k \<and> (\<forall>j < k. \<not> occurs_at nd hay j)"
proof (induction hay arbitrary: k)
  case Nil
  then show ?case by (auto simp: occurs_at_def)
next
  case (Cons c cs)
  show ?case
  proof (cases "prefix nd (c # cs)")
    case True
    then have "occurs_at nd (c # cs) 0" by (simp add: occurs_at_0)
    with True show ?thesis by (cases k) auto
  next
    case False
    then have z: "\<not> occurs_at nd (c # cs) 0" by (simp add: occurs_at_0)
    show ?thesis
    proof (cases k)
      case 0
      with False z show ?thesis by auto
    next
      case (Suc j)
      have "(\<forall>i < Suc j. \<not> occurs_at nd (c # cs) i) \<longleftrightarrow> (\<forall>i < j. \<not> occurs_at nd cs i)"
        using z by (metis Suc_less_eq not0_implies_Suc occurs_at_Cons)
      with Suc False Cons show ?thesis by (auto simp: occurs_at_Cons)
    qed
  qed
qed

lemma sfind_Some:
  "sfind nd hay pos = Some p \<longleftrightarrow>
     pos \<le> p \<and> occurs_at nd hay p \<and> (\<forall>q. pos \<le> q \<and> q < p \<longrightarrow> \<not> occurs_at nd hay q)"
  (is "?l \<longleftrightarrow> ?r")
proof (cases "length hay < pos")
  case True
  then show ?thesis by (auto simp: sfind_def occurs_at_def)
next
  case False
  then have le: "pos \<le> length hay" by simp
  have l: "?l \<longleftrightarrow> pos \<le> p \<and> sfind0 nd (drop pos hay) = Some (p - pos)"
    using False by (auto simp: sfind_def)
  have "(\<forall>j < p - pos. \<not> occurs_at nd hay (j + pos)) \<longleftrightarrow>
      (\<forall>q. pos \<le> q \<and> q < p \<longrightarrow> \<not> occurs_at nd hay q)" if "pos \<le> p"
  proof (intro iffI allI impI)
    fix q
    assume *: "\<forall>j < p - pos. \<not> occurs_at nd hay (j + pos)" and q: "pos \<le> q \<and> q < p"
    then have "q - pos < p - pos" by linarith
    with * have "\<not> occurs_at nd hay (q - pos + pos)" by blast
    with q show "\<not> occurs_at nd hay q" by simp
  qed auto
  with l show ?thesis by (auto simp: sfind0_Some occurs_at_drop [OF le])
qed

lemma sfind_None: "sfind nd hay pos = None \<longleftrightarrow> (\<forall>q \<ge> pos. \<not> occurs_at nd hay q)"
proof (cases "length hay < pos")
  case True
  then show ?thesis by (auto simp: sfind_def occurs_at_def)
next
  case False
  then show ?thesis
    by (auto simp: sfind_def sfind0_None occurs_at_drop)
       (metis le_add_diff_inverse2)
qed

definition starts_with :: "string \<Rightarrow> string \<Rightarrow> bool" where
  "starts_with p s \<longleftrightarrow> take (length p) s = p"

definition ends_with :: "string \<Rightarrow> string \<Rightarrow> bool" where
  "ends_with p s \<longleftrightarrow> length p \<le> length s \<and> drop (length s - length p) s = p"

text \<open>The two loops that pop matching bytes off the front and the back.\<close>

definition trim_by :: "(char \<Rightarrow> bool) \<Rightarrow> string \<Rightarrow> string" where
  "trim_by P s = rev (dropWhile P (rev (dropWhile P s)))"

lemma set_trim_by: "set (trim_by P s) \<subseteq> set s"
  unfolding trim_by_def by (metis dual_order.trans set_dropWhileD set_rev subsetI)

lemma trim_by_ends: "trim_by P s \<noteq> [] \<Longrightarrow> \<not> P (hd (trim_by P s)) \<and> \<not> P (last (trim_by P s))"
proof -
  assume ne: "trim_by P s \<noteq> []"
  let ?d = "dropWhile P s"
  have l: "\<not> P (last (trim_by P s))"
    using ne hd_dropWhile [of P "rev ?d"] by (auto simp: trim_by_def last_rev)
  have p: "prefix (trim_by P s) ?d"
    using suffix_dropWhile [of P "rev ?d"] by (simp add: trim_by_def suffix_to_prefix)
  then obtain zs where z: "?d = trim_by P s @ zs" by (auto simp: prefix_def)
  then have "?d \<noteq> []" "hd (trim_by P s) = hd ?d" using ne by (simp_all only: hd_append2 append_is_Nil_conv) simp_all
  with l show ?thesis using hd_dropWhile [of P s] by simp
qed

text \<open>
  \<open>std::getline(stream, line, d)\<close>: \<open>None\<close> when the stream is at its end, otherwise the bytes
  up to the delimiter, which is consumed.
\<close>

definition getline :: "char \<Rightarrow> string \<Rightarrow> (string \<times> string) option" where
  "getline d s =
     (if s = [] then None
      else Some (takeWhile (\<lambda>c. c \<noteq> d) s, tl (dropWhile (\<lambda>c. c \<noteq> d) s)))"

lemma getline_shorter: "getline d s = Some (l, r) \<Longrightarrow> length r < length s"
proof -
  assume "getline d s = Some (l, r)"
  then have "s \<noteq> []" and "r = tl (dropWhile (\<lambda>c. c \<noteq> d) s)"
    by (auto simp: getline_def split: if_splits)
  moreover have "length (dropWhile (\<lambda>c. c \<noteq> d) s) \<le> length s" by (simp add: length_dropWhile_le)
  ultimately show ?thesis by (cases s) auto
qed

function getlines :: "char \<Rightarrow> string \<Rightarrow> string list" where
  "getlines d s = (case getline d s of None \<Rightarrow> [] | Some (l, r) \<Rightarrow> l # getlines d r)"
  by pat_completeness auto
termination
  by (relation "measure (\<lambda>(d, s). length s)") (auto dest: getline_shorter)

declare getlines.simps [simp del]

lemma getline_cut:
  "d \<notin> set l \<Longrightarrow> getline d (l @ d # r) = Some (l, r)"
  by (induction l) (auto simp: getline_def)

section \<open>Decimal and hexadecimal numbers\<close>

definition digit_char :: "nat \<Rightarrow> char" where
  "digit_char n = char_of (48 + n)"

function show_nat :: "nat \<Rightarrow> string" where
  "show_nat n = (if n < 10 then [digit_char n] else show_nat (n div 10) @ [digit_char (n mod 10)])"
  by pat_completeness auto
termination
  by (relation "measure id") auto

declare show_nat.simps [simp del]

text \<open>\<open>std::to_string(int)\<close> and \<open>operator<<(int)\<close>.\<close>

definition show_int :: "int \<Rightarrow> string" where
  "show_int i = (if i < 0 then CHR ''-'' # show_nat (nat (- i)) else show_nat (nat i))"

fun digits_value :: "nat \<Rightarrow> string \<Rightarrow> nat" where
  "digits_value acc [] = acc"
| "digits_value acc (c # cs) = digits_value (10 * acc + (code c - 48)) cs"

text \<open>
  \<open>std::stoi(s, &pos)\<close>: leading white space, an optional sign, then the longest run of digits;
  what follows is ignored and \<open>pos\<close> tells where it starts. It throws (\<open>None\<close>) when there is
  no digit or the value does not fit an \<open>int\<close>.
\<close>

definition stoi :: "string \<Rightarrow> (int \<times> nat) option" where
  "stoi s =
     (let t = dropWhile is_space s;
          neg = (case t of c # _ \<Rightarrow> c = CHR ''-'' | [] \<Rightarrow> False);
          u = (case t of c # r \<Rightarrow> if c = CHR ''-'' \<or> c = CHR ''+'' then r else t | [] \<Rightarrow> t);
          ds = takeWhile is_digit u;
          m = int (digits_value 0 ds);
          v = (if neg then - m else m)
      in if ds = [] \<or> v < - (2 ^ 31) \<or> 2 ^ 31 \<le> v then None
         else Some (v, length s - length u + length ds))"

lemma code_digit_char: "n < 10 \<Longrightarrow> code (digit_char n) = 48 + n"
  by (simp add: digit_char_def code_char_of)

lemma is_digit_digit_char: "n < 10 \<Longrightarrow> is_digit (digit_char n)"
  by (simp add: is_digit_def code_digit_char)

lemma show_nat_digits: "\<forall>c \<in> set (show_nat n). is_digit c"
proof (induction n rule: show_nat.induct)
  case (1 n)
  then show ?case by (subst show_nat.simps) (auto simp: is_digit_digit_char)
qed

lemma show_nat_nonempty [simp]: "show_nat n \<noteq> []"
  by (subst show_nat.simps) simp

lemma digits_value_append: "digits_value acc (s @ t) = digits_value (digits_value acc s) t"
  by (induction acc s rule: digits_value.induct) auto

lemma digits_value_show_nat [simp]: "digits_value 0 (show_nat n) = n"
proof (induction n rule: show_nat.induct)
  case (1 n)
  show ?case
  proof (cases "n < 10")
    case True
    then show ?thesis by (subst show_nat.simps) (simp add: code_digit_char)
  next
    case False
    with 1 have "digits_value 0 (show_nat (n div 10)) = n div 10" by simp
    with False show ?thesis
      by (subst show_nat.simps) (simp add: digits_value_append code_digit_char)
  qed
qed

lemma digit_not_space: "is_digit c \<Longrightarrow> \<not> is_space c \<and> c \<noteq> CHR ''-'' \<and> c \<noteq> CHR ''+'' \<and> c \<noteq> CHR 0x0A"
  by (auto simp: aw_char code_def)

lemma takeWhile_all: "\<forall>c \<in> set s. P c \<Longrightarrow> takeWhile P s = s"
  by (induction s) auto

lemma stoi_show_nat:
  assumes "n < 2 ^ 31"
  shows "stoi (show_nat n) = Some (int n, length (show_nat n))"
proof -
  let ?s = "show_nat n"
  obtain c r where cr: "?s = c # r" by (cases "?s") auto
  then have c: "is_digit c" using show_nat_digits [of n] by auto
  have tw: "takeWhile is_digit (c # r) = c # r"
    unfolding cr [symmetric] by (rule takeWhile_all [OF show_nat_digits])
  have v: "digits_value 0 (c # r) = n"
    unfolding cr [symmetric] by simp
  have dw: "dropWhile is_space (c # r) = c # r"
    using digit_not_space [OF c] by simp
  have "int n < 2 ^ 31" using assms by (metis of_nat_less_iff of_nat_numeral of_nat_power)
  then show ?thesis
    unfolding cr stoi_def dw Let_def list.case using digit_not_space [OF c]
    by (simp only: tw v if_False simp_thms) simp
qed

definition hex_digits :: string where
  "hex_digits = ''0123456789abcdef''"

definition hex_char :: "nat \<Rightarrow> char" where
  "hex_char n = hex_digits ! (n mod 16)"

lemma length_hex_digits [simp]: "length hex_digits = 16"
  by (simp add: hex_digits_def)

lemma distinct_hex_digits: "distinct hex_digits"
  by (simp add: hex_digits_def)

lemma hex_char_inj: "hex_char m = hex_char n \<longleftrightarrow> m mod 16 = n mod 16"
  by (simp add: hex_char_def nth_eq_iff_index_eq [OF distinct_hex_digits])

lemma hex_char_in: "hex_char n \<in> set hex_digits"
  by (simp add: hex_char_def)

section \<open>Options and results\<close>

fun all_some :: "'a option list \<Rightarrow> 'a list option" where
  "all_some [] = Some []"
| "all_some (None # xs) = None"
| "all_some (Some x # xs) = map_option (\<lambda>ys. x # ys) (all_some xs)"

lemma all_some_map: "all_some (map (\<lambda>x. Some (f x)) xs) = Some (map f xs)"
  by (induction xs) auto

text \<open>Sequencing of fallible code: a result is \<open>Inl\<close> the exception or \<open>Inr\<close> the value.\<close>

definition bind_r :: "'e + 'a \<Rightarrow> ('a \<Rightarrow> 'e + 'b) \<Rightarrow> 'e + 'b" where
  "bind_r r f = (case r of Inl e \<Rightarrow> Inl e | Inr a \<Rightarrow> f a)"

lemma bind_r_simps [simp]: "bind_r (Inl e) f = Inl e" "bind_r (Inr a) f = f a"
  by (simp_all add: bind_r_def)

fun map_r :: "('a \<Rightarrow> 'e + 'b) \<Rightarrow> 'a list \<Rightarrow> 'e + 'b list" where
  "map_r f [] = Inr []"
| "map_r f (x # xs) = bind_r (f x) (\<lambda>y. bind_r (map_r f xs) (\<lambda>ys. Inr (y # ys)))"

lemma map_r_inverse: "(\<And>x. x \<in> set xs \<Longrightarrow> f (g x) = Inr x) \<Longrightarrow> map_r f (map g xs) = Inr xs"
  by (induction xs) auto

end
