(* ===== verification/Step_Systems.thy ===== *)
theory Step_Systems
  imports Main
begin

text \<open>
  What the step relations of the thread models share: a property every step preserves holds along every
  run, and a run from a trap never gets free.
\<close>

locale step_system =
  fixes step :: "'s \<Rightarrow> 's \<Rightarrow> bool" and inv :: "'s \<Rightarrow> bool"
  assumes step_inv: "step s t \<Longrightarrow> inv s \<Longrightarrow> inv t"
begin

lemma run_inv: "step\<^sup>*\<^sup>* s t \<Longrightarrow> inv s \<Longrightarrow> inv t"
  by (induction rule: rtranclp_induct) (blast intro: step_inv)+

end

locale step_trap = step_system step stuck
  for step :: "'s \<Rightarrow> 's \<Rightarrow> bool" and stuck :: "'s \<Rightarrow> bool" +
  fixes free :: "'s \<Rightarrow> bool"
  assumes stuck_not_free: "stuck s \<Longrightarrow> \<not> free s"
begin

lemma never_free: "stuck s \<Longrightarrow> \<not> (\<exists>t. step\<^sup>*\<^sup>* s t \<and> free t)"
  using run_inv stuck_not_free by blast

lemma reaches_trap:
  assumes "step\<^sup>*\<^sup>* s t" "stuck t"
  shows "\<exists>t. step\<^sup>*\<^sup>* s t \<and> stuck t \<and> \<not> (\<exists>u. step\<^sup>*\<^sup>* t u \<and> free u)"
  using assms never_free by blast

end

end
