(* ===== verification/Cfloat.thy ===== *)
theory Cfloat
  imports AW_Prelude
begin

text \<open>
  C++ \<open>float\<close> and \<open>double\<close>.

  A floating-point value is a finite rational, an infinity or NaN. An arithmetic operation is the
  exact rational operation followed by IEEE 754 rounding (to nearest, ties to even) to the
  precision and exponent range of the type: \<open>f32\<close> for \<open>float\<close>, \<open>f64\<close> for \<open>double\<close>, with
  gradual underflow and overflow to infinity. The one thing the representation leaves out is the
  sign of zero, which no comparison of the program can see. The lemmas say that rounding is exact
  on representable values (so the integers up to \<open>2 ^ p\<close> convert exactly) and never takes a value
  to zero unless it is below the least subnormal.
\<close>

section \<open>Values and rounding\<close>

datatype fl = Fin rat | PInf | NInf | NaN

fun is_finite :: "fl \<Rightarrow> bool" where
  "is_finite (Fin q) = True"
| "is_finite _ = False"

text \<open>The number of bits of an integer, and from it \<open>floor (log2 q)\<close> for a positive \<open>q\<close>.\<close>

function bits :: "int \<Rightarrow> nat" where
  "bits n = (if n \<le> 0 then 0 else Suc (bits (n div 2)))"
  by pat_completeness auto
termination
  by (relation "measure nat") auto

declare bits.simps [simp del]

definition ilog2 :: "rat \<Rightarrow> int" where
  "ilog2 q = (if 1 \<le> q then int (bits \<lfloor>q\<rfloor>) - 1 else - int (bits (\<lceil>1 / q\<rceil> - 1)))"

text \<open>Round to the nearest integer, ties to the even one.\<close>

definition round_even :: "rat \<Rightarrow> int" where
  "round_even q =
     (let f = \<lfloor>q\<rfloor>; r = q - of_int f
      in if r < 1 / 2 then f else if 1 / 2 < r then f + 1 else if even f then f else f + 1)"

definition two_pow :: "int \<Rightarrow> rat" where
  "two_pow e = (if 0 \<le> e then 2 ^ nat e else 1 / 2 ^ nat (- e))"

definition fround :: "nat \<Rightarrow> int \<Rightarrow> int \<Rightarrow> rat \<Rightarrow> fl" where
  "fround p emin emax q =
     (if q = 0 then Fin 0
      else let e = max (ilog2 \<bar>q\<bar>) emin;
               u = two_pow (e - int p + 1);
               r = of_int (round_even (q / u)) * u
           in if \<bar>r\<bar> < two_pow (emax + 1) then Fin r else if 0 < r then PInf else NInf)"

definition f32 :: "rat \<Rightarrow> fl" where
  "f32 q = fround 24 (- 126) 127 q"

definition f64 :: "rat \<Rightarrow> fl" where
  "f64 q = fround 53 (- 1022) 1023 q"

section \<open>Comparisons and arithmetic\<close>

fun fl_lt :: "fl \<Rightarrow> fl \<Rightarrow> bool" where
  "fl_lt (Fin a) (Fin b) = (a < b)"
| "fl_lt (Fin a) PInf = True"
| "fl_lt NInf (Fin b) = True"
| "fl_lt NInf PInf = True"
| "fl_lt _ _ = False"

fun fl_eq :: "fl \<Rightarrow> fl \<Rightarrow> bool" where
  "fl_eq NaN _ = False"
| "fl_eq _ NaN = False"
| "fl_eq a b = (a = b)"

definition fl_le :: "fl \<Rightarrow> fl \<Rightarrow> bool" where
  "fl_le a b \<longleftrightarrow> fl_lt a b \<or> fl_eq a b"

fun fl_abs :: "fl \<Rightarrow> fl" where
  "fl_abs (Fin a) = Fin \<bar>a\<bar>"
| "fl_abs NaN = NaN"
| "fl_abs _ = PInf"

text \<open>\<open>std::max(a, b)\<close> is \<open>a < b ? b : a\<close>.\<close>

definition fl_max :: "fl \<Rightarrow> fl \<Rightarrow> fl" where
  "fl_max a b = (if fl_lt a b then b else a)"

definition inf_of_sign :: "rat \<Rightarrow> fl" where
  "inf_of_sign s = (if 0 < s then PInf else if s < 0 then NInf else NaN)"

fun fl_sign :: "fl \<Rightarrow> rat" where
  "fl_sign (Fin a) = sgn a"
| "fl_sign PInf = 1"
| "fl_sign NInf = -1"
| "fl_sign NaN = 0"

definition fl_mul :: "(rat \<Rightarrow> fl) \<Rightarrow> fl \<Rightarrow> fl \<Rightarrow> fl" where
  "fl_mul rd a b =
     (case (a, b) of
        (NaN, _) \<Rightarrow> NaN | (_, NaN) \<Rightarrow> NaN
      | (Fin x, Fin y) \<Rightarrow> rd (x * y)
      | _ \<Rightarrow> inf_of_sign (fl_sign a * fl_sign b))"

fun fl_add :: "(rat \<Rightarrow> fl) \<Rightarrow> fl \<Rightarrow> fl \<Rightarrow> fl" where
  "fl_add rd (Fin x) (Fin y) = rd (x + y)"
| "fl_add rd NaN _ = NaN"
| "fl_add rd _ NaN = NaN"
| "fl_add rd PInf NInf = NaN"
| "fl_add rd NInf PInf = NaN"
| "fl_add rd PInf _ = PInf"
| "fl_add rd NInf _ = NInf"
| "fl_add rd _ PInf = PInf"
| "fl_add rd _ NInf = NInf"

fun fl_neg :: "fl \<Rightarrow> fl" where
  "fl_neg (Fin q) = Fin (- q)"
| "fl_neg PInf = NInf"
| "fl_neg NInf = PInf"
| "fl_neg NaN = NaN"

definition fl_sub :: "(rat \<Rightarrow> fl) \<Rightarrow> fl \<Rightarrow> fl \<Rightarrow> fl" where
  "fl_sub rd a b = fl_add rd a (fl_neg b)"

text \<open>
  Division of finite values; a zero divisor gives NaN for \<open>0 / 0\<close> and an infinity of the
  dividend's sign otherwise (the divisors of the program are integers converted to \<open>float\<close>, so
  a zero divisor is \<open>+0\<close>).
\<close>

fun fl_div :: "(rat \<Rightarrow> fl) \<Rightarrow> fl \<Rightarrow> fl \<Rightarrow> fl" where
  "fl_div rd (Fin x) (Fin y) = (if y = 0 then inf_of_sign x else rd (x / y))"
| "fl_div rd NaN _ = NaN"
| "fl_div rd _ NaN = NaN"
| "fl_div rd (Fin x) _ = Fin 0"
| "fl_div rd a (Fin y) = (if y < 0 then inf_of_sign (- fl_sign a) else a)"
| "fl_div rd _ _ = NaN"

text \<open>\<open>static_cast<float>(double)\<close>.\<close>

fun to_f32 :: "fl \<Rightarrow> fl" where
  "to_f32 (Fin q) = f32 q"
| "to_f32 x = x"

text \<open>
  \<open>static_cast<int>\<close> of a floating value: truncation towards zero; a value whose truncation is no
  \<open>int\<close> is undefined behaviour (\<open>None\<close>).
\<close>

definition trunc :: "rat \<Rightarrow> int" where
  "trunc q = (if 0 \<le> q then \<lfloor>q\<rfloor> else \<lceil>q\<rceil>)"

fun fl_to_int :: "fl \<Rightarrow> int option" where
  "fl_to_int (Fin q) = (let i = trunc q in if - (2 ^ 31) \<le> i \<and> i < 2 ^ 31 then Some i else None)"
| "fl_to_int _ = None"

text \<open>\<open>static_cast<int>\<close> of a 64-bit integer keeps the low 32 bits, in two's complement.\<close>

definition to_int32 :: "int \<Rightarrow> int" where
  "to_int32 i = sint (word_of_int i :: 32 word)"

section \<open>What rounding does\<close>

lemma bits_bounds: "0 < n \<Longrightarrow> 2 ^ (bits n - 1) \<le> n \<and> n < 2 ^ bits n \<and> 0 < bits n"
proof (induction n rule: bits.induct)
  case (1 n)
  show ?case
  proof (cases "n = 1")
    case True
    then show ?thesis by (simp add: bits.simps)
  next
    case False
    with "1.prems" have n2: "0 < n div 2" by simp
    with "1" have ih: "2 ^ (bits (n div 2) - 1) \<le> n div 2" "n div 2 < 2 ^ bits (n div 2)"
      "0 < bits (n div 2)" by auto
    have b: "bits n = Suc (bits (n div 2))"
      using "1.prems" by (simp add: bits.simps [of n])
    have lo: "(2::int) ^ bits (n div 2) = 2 * 2 ^ (bits (n div 2) - 1)"
      using ih(3) by (metis Suc_pred' power_Suc)
    have "2 * (n div 2) \<le> n" and "n < 2 * (n div 2) + 2" by auto
    with ih lo b show ?thesis by simp
  qed
qed

lemma two_pow_pos [simp]: "0 < two_pow e"
  by (simp add: two_pow_def)

lemma two_pow_nonzero [simp]: "two_pow e \<noteq> 0"
  by (metis two_pow_pos less_irrefl)

lemma two_pow_nat: "two_pow (int n) = 2 ^ n"
  by (simp add: two_pow_def)

lemma two_pow_powi: "two_pow e = 2 powi e"
  by (auto simp: two_pow_def power_int_def inverse_eq_divide power_one_over)

lemma two_pow_add: "two_pow (a + b) = two_pow a * two_pow b"
  by (simp add: two_pow_powi power_int_add)

lemma two_pow_mono: "a \<le> b \<Longrightarrow> two_pow a \<le> two_pow b"
  by (simp add: two_pow_powi power_int_increasing)

lemma two_pow_less_iff: "two_pow a < two_pow b \<longleftrightarrow> a < b"
proof
  show "two_pow a < two_pow b \<Longrightarrow> a < b" using two_pow_mono [of b a] by linarith
  show "a < b \<Longrightarrow> two_pow a < two_pow b"
    by (simp add: two_pow_powi power_int_strict_increasing)
qed

lemma ilog2_bounds:
  assumes "0 < q"
  shows "two_pow (ilog2 q) \<le> q \<and> q < two_pow (ilog2 q + 1)"
proof (cases "1 \<le> q")
  case True
  let ?n = "\<lfloor>q\<rfloor>"
  have n: "0 < ?n" using True by simp
  note b = bits_bounds [OF n]
  have e: "ilog2 q = int (bits ?n - 1)" "ilog2 q + 1 = int (bits ?n)"
    using True b by (auto simp: ilog2_def)
  have "(2::rat) ^ (bits ?n - 1) = of_int (2 ^ (bits ?n - 1))" by simp
  also have "\<dots> \<le> of_int ?n" using b by (simp only: of_int_le_iff)
  also have "\<dots> \<le> q" by simp
  finally have lo: "(2::rat) ^ (bits ?n - 1) \<le> q" .
  have "?n + 1 \<le> 2 ^ bits ?n" using b by simp
  then have "of_int (?n + 1) \<le> (of_int (2 ^ bits ?n) :: rat)" by (simp only: of_int_le_iff)
  then have hi: "q < 2 ^ bits ?n" using floor_correct [of q] by simp
  from lo hi e show ?thesis by (simp only: two_pow_nat simp_thms)
next
  case False
  with assms have q: "1 < 1 / q" by simp
  let ?n = "\<lceil>1 / q\<rceil> - 1"
  have n: "0 < ?n" using q by simp
  note b = bits_bounds [OF n]
  have e: "- ilog2 q = int (bits ?n)" "- (ilog2 q + 1) = int (bits ?n - 1)"
    using False b by (auto simp: ilog2_def)
  have inv: "two_pow x = 1 / two_pow (- x)" for x
    by (simp add: two_pow_powi power_int_minus divide_inverse)
  have "\<lceil>1 / q\<rceil> \<le> 2 ^ bits ?n" using b by simp
  then have "1 / q \<le> of_int (2 ^ bits ?n)" by (simp add: ceiling_le_iff)
  then have lo: "1 / 2 ^ bits ?n \<le> q" using assms by (simp add: field_simps)
  have "2 ^ (bits ?n - 1) < \<lceil>1 / q\<rceil>" using b by simp
  then have "(of_int (2 ^ (bits ?n - 1)) :: rat) < 1 / q" by (simp add: less_ceiling_iff)
  then have hi: "q < 1 / 2 ^ (bits ?n - 1)" using assms by (simp add: field_simps)
  show ?thesis
    using lo hi e inv [of "ilog2 q"] inv [of "ilog2 q + 1"] by (simp only: two_pow_nat simp_thms)
qed

lemma round_even_of_int [simp]: "round_even (of_int i) = i"
  by (simp add: round_even_def)

lemma round_even_error: "\<bar>of_int (round_even q) - q\<bar> \<le> 1 / 2"
proof -
  have "of_int \<lfloor>q\<rfloor> \<le> q" "q < of_int \<lfloor>q\<rfloor> + 1" using floor_correct [of q] by simp_all
  then show ?thesis by (simp add: round_even_def Let_def abs_if) linarith
qed

lemma round_even_ge_1: "1 \<le> q \<Longrightarrow> 1 \<le> round_even q"
proof -
  assume "1 \<le> q"
  then have "1 \<le> \<lfloor>q\<rfloor>" by simp
  then show ?thesis by (auto simp: round_even_def Let_def)
qed

lemma round_even_minus: "round_even (- q) = - round_even q"
proof (cases "q \<in> \<int>")
  case True
  then obtain i where "q = of_int i" by (auto elim: Ints_cases)
  then show ?thesis by (metis of_int_minus round_even_of_int)
next
  case False
  then have "\<lfloor>- q\<rfloor> = - \<lfloor>q\<rfloor> - 1"
    by (metis ceiling_altdef ceiling_def diff_minus_eq_add minus_diff_eq minus_minus uminus_add_conv_diff
        add.commute floor_of_int Ints_of_int)
  then show ?thesis by (auto simp: round_even_def Let_def)
qed

text \<open>
  A value is representable at precision \<open>p\<close> when it is an integer of at most \<open>p\<close> bits times a
  power of two in range; rounding gives it back.
\<close>

lemma fround_representable:
  assumes q: "q = of_int m * two_pow k" and m: "\<bar>m\<bar> < 2 ^ p"
    and k: "emin - int p + 1 \<le> k" and hi: "\<bar>q\<bar> < two_pow (emax + 1)"
  shows "fround p emin emax q = Fin q"
proof (cases "q = 0")
  case True
  then show ?thesis by (simp add: fround_def)
next
  case False
  define e where "e = max (ilog2 \<bar>q\<bar>) emin"
  define u where "u = two_pow (e - int p + 1)"
  have b: "two_pow (ilog2 \<bar>q\<bar>) \<le> \<bar>q\<bar>" using ilog2_bounds [of "\<bar>q\<bar>"] False by simp
  have "\<bar>of_int m :: rat\<bar> < 2 ^ p"
    using m by (metis of_int_abs of_int_less_iff of_int_numeral of_int_power)
  then have "\<bar>q\<bar> < two_pow (int p) * two_pow k"
    by (simp add: q abs_mult two_pow_nat mult_strict_right_mono abs_of_pos [OF two_pow_pos])
  with b have "two_pow (ilog2 \<bar>q\<bar>) < two_pow (int p + k)" by (simp add: two_pow_add)
  then have "ilog2 \<bar>q\<bar> < int p + k" by (simp only: two_pow_less_iff)
  with k have ek: "e - int p + 1 \<le> k" by (auto simp: e_def)
  then have "two_pow k = two_pow (k - (e - int p + 1)) * u"
    by (simp add: u_def flip: two_pow_add)
  moreover have "two_pow (k - (e - int p + 1)) = of_int (2 ^ nat (k - (e - int p + 1)))"
    using ek by (simp add: two_pow_def)
  ultimately have qu: "q = of_int (m * 2 ^ nat (k - (e - int p + 1))) * u"
    by (simp add: q)
  moreover have u0: "u \<noteq> 0" by (simp add: u_def)
  ultimately have "q / u = of_int (m * 2 ^ nat (k - (e - int p + 1)))"
    by (metis nonzero_mult_div_cancel_right)
  then have "of_int (round_even (q / u)) * u = q"
    using qu by (metis round_even_of_int)
  with False hi show ?thesis
    unfolding fround_def Let_def e_def [symmetric] u_def [symmetric] by simp
qed

lemma fround_of_int:
  assumes "\<bar>i\<bar> < 2 ^ p" and "int p \<le> emax" "emin - int p + 1 \<le> 0"
  shows "fround p emin emax (of_int i) = Fin (of_int i)"
proof (rule fround_representable [where m = i and k = 0])
  have "\<bar>of_int i :: rat\<bar> < two_pow (int p)"
    using assms(1) by (metis two_pow_nat of_int_abs of_int_less_iff of_int_numeral of_int_power)
  also have "\<dots> \<le> two_pow (emax + 1)" using assms(2) by (intro two_pow_mono) simp
  finally show "\<bar>of_int i :: rat\<bar> < two_pow (emax + 1)" .
qed (use assms in \<open>auto simp: two_pow_def\<close>)

lemma f32_of_int: "\<bar>i\<bar> < 2 ^ 24 \<Longrightarrow> f32 (of_int i) = Fin (of_int i)"
  unfolding f32_def by (rule fround_of_int) auto

lemma f64_of_int: "\<bar>i\<bar> < 2 ^ 53 \<Longrightarrow> f64 (of_int i) = Fin (of_int i)"
  unfolding f64_def by (rule fround_of_int) auto

lemma fround_zero [simp]: "fround p emin emax 0 = Fin 0"
  by (simp add: fround_def)

lemma fround_pos:
  assumes "two_pow emin \<le> q" and "1 \<le> p"
  shows "fround p emin emax q = PInf \<or> (\<exists>r > 0. fround p emin emax q = Fin r)"
proof -
  have q: "0 < q" using assms(1) two_pow_pos [of emin] by linarith
  define e where "e = max (ilog2 \<bar>q\<bar>) emin"
  define u where "u = two_pow (e - int p + 1)"
  have "two_pow e \<le> q"
    using assms ilog2_bounds [OF q] q by (auto simp: e_def max_def)
  moreover have "u \<le> two_pow e" unfolding u_def using assms(2) by (intro two_pow_mono) simp
  ultimately have "1 \<le> q / u" by (simp add: u_def)
  then have "1 \<le> round_even (q / u)" by (rule round_even_ge_1)
  then have "0 < of_int (round_even (q / u)) * u" by (simp add: u_def)
  with q show ?thesis
    unfolding fround_def Let_def e_def [symmetric] u_def [symmetric] by auto
qed

lemma round_even_ge: "of_int n \<le> q \<Longrightarrow> n \<le> round_even q"
proof -
  assume "of_int n \<le> q"
  then have "n \<le> \<lfloor>q\<rfloor>" by (simp add: le_floor_iff)
  then show ?thesis by (auto simp: round_even_def Let_def)
qed

text \<open>A normal positive value rounds to a normal positive value.\<close>

lemma fround_normal:
  assumes "two_pow emin \<le> q" and "1 \<le> p"
  shows "fround p emin emax q = PInf \<or> (\<exists>r \<ge> two_pow emin. fround p emin emax q = Fin r)"
proof -
  have q: "0 < q" using assms(1) two_pow_pos [of emin] by linarith
  define e where "e = max (ilog2 \<bar>q\<bar>) emin"
  define u where "u = two_pow (e - int p + 1)"
  have e: "two_pow e \<le> q" "two_pow emin \<le> two_pow e"
    using assms ilog2_bounds [OF q] q by (auto simp: e_def max_def intro: two_pow_mono)
  have "two_pow (int (p - 1)) * u = two_pow e"
    unfolding u_def two_pow_add [symmetric] using assms(2) by (simp add: of_nat_diff)
  then have n: "of_int (2 ^ (p - 1)) * u = two_pow e" by (simp add: two_pow_nat)
  have u: "0 < u" by (simp add: u_def)
  have "of_int (2 ^ (p - 1)) \<le> q / u" using n e(1) u by (simp add: pos_le_divide_eq)
  then have "2 ^ (p - 1) \<le> round_even (q / u)" by (rule round_even_ge)
  then have "of_int (2 ^ (p - 1)) * u \<le> of_int (round_even (q / u)) * u"
    using u by (intro mult_right_mono) (simp_all only: of_int_le_iff less_imp_le)
  then have r: "two_pow emin \<le> of_int (round_even (q / u)) * u" using n e(2) by linarith
  moreover have "0 < of_int (round_even (q / u)) * u" using r two_pow_pos [of emin] by linarith
  ultimately show ?thesis
    using q unfolding fround_def Let_def e_def [symmetric] u_def [symmetric] by auto
qed

section \<open>Integers that fit\<close>

definition in_int :: "int \<Rightarrow> bool" where
  "in_int i \<longleftrightarrow> - (2 ^ 31) \<le> i \<and> i < 2 ^ 31"

lemma to_int32_id: "in_int i \<Longrightarrow> to_int32 i = i"
  unfolding to_int32_def in_int_def
  by (simp add: sint_sbintrunc' signed_take_bit_int_eq_self)

end
