(* ===== verification/Sha256.thy ===== *)
theory Sha256
  imports AW_Prelude
begin

text \<open>
  \<open>src/util/sha256.cpp\<close>, the incremental SHA-256 that pins the downloaded models.

  The object \<open>Sha256\<close> is the record \<open>sha\<close>: \<open>state_\<close> is \<open>sha_st\<close> (eight 32-bit words),
  \<open>total_len_\<close> is \<open>sha_total\<close> (64 bits, wrapping), and \<open>buffer_\<close> with \<open>buffer_len_\<close> is
  \<open>sha_buf\<close>, the first \<open>buffer_len_\<close> bytes of the 64-byte array (the code never reads the
  others). \<open>sha_update\<close> and \<open>sha_hex_digest\<close> follow the methods statement by statement; the
  padding loop of \<open>hex_digest\<close> stops only when the buffer holds 56 bytes, so it is a
  \<open>partial_function\<close> and its termination is a theorem.

  The abstraction is \<open>sha_repr s m\<close>: the object has absorbed the message \<open>m\<close>. The
  specification of the digest is \<open>sha_spec\<close>: pad the whole message as FIPS 180-4 says and fold
  the compression function over its 64-byte blocks.
\<close>

unbundle bit_operations_syntax

section \<open>The compression function\<close>

definition sha_K :: "u32 list" where
  "sha_K = concat [
    [0x428a2f98, 0x71374491, 0xb5c0fbcf, 0xe9b5dba5, 0x3956c25b, 0x59f111f1],
    [0x923f82a4, 0xab1c5ed5, 0xd807aa98, 0x12835b01, 0x243185be, 0x550c7dc3],
    [0x72be5d74, 0x80deb1fe, 0x9bdc06a7, 0xc19bf174, 0xe49b69c1, 0xefbe4786],
    [0x0fc19dc6, 0x240ca1cc, 0x2de92c6f, 0x4a7484aa, 0x5cb0a9dc, 0x76f988da],
    [0x983e5152, 0xa831c66d, 0xb00327c8, 0xbf597fc7, 0xc6e00bf3, 0xd5a79147],
    [0x06ca6351, 0x14292967, 0x27b70a85, 0x2e1b2138, 0x4d2c6dfc, 0x53380d13],
    [0x650a7354, 0x766a0abb, 0x81c2c92e, 0x92722c85, 0xa2bfe8a1, 0xa81a664b],
    [0xc24b8b70, 0xc76c51a3, 0xd192e819, 0xd6990624, 0xf40e3585, 0x106aa070],
    [0x19a4c116, 0x1e376c08, 0x2748774c, 0x34b0bcb5, 0x391c0cb3, 0x4ed8aa4a],
    [0x5b9cca4f, 0x682e6ff3, 0x748f82ee, 0x78a5636f, 0x84c87814, 0x8cc70208],
    [0x90befffa, 0xa4506ceb, 0xbef9a3f7, 0xc67178f2]]"

definition rotr :: "u32 \<Rightarrow> nat \<Rightarrow> u32" where
  "rotr x n = drop_bit n x OR push_bit (32 - n) x"

definition sha_H0 :: "u32 list" where
  "sha_H0 = [0x6a09e667, 0xbb67ae85, 0x3c6ef372, 0xa54ff53a,
             0x510e527f, 0x9b05688c, 0x1f83d9ab, 0x5be0cd19]"

text \<open>The sixteen big-endian words of a block, and the schedule's loop from 16 to 63.\<close>

definition block_word :: "u8 list \<Rightarrow> nat \<Rightarrow> u32" where
  "block_word block i =
     push_bit 24 (ucast (block ! (i * 4))) OR push_bit 16 (ucast (block ! (i * 4 + 1))) OR
     push_bit 8 (ucast (block ! (i * 4 + 2))) OR ucast (block ! (i * 4 + 3))"

definition sched_step :: "u32 list \<Rightarrow> nat \<Rightarrow> u32 list" where
  "sched_step w i =
     (let s0 = rotr (w ! (i - 15)) 7 XOR rotr (w ! (i - 15)) 18 XOR drop_bit 3 (w ! (i - 15));
          s1 = rotr (w ! (i - 2)) 17 XOR rotr (w ! (i - 2)) 19 XOR drop_bit 10 (w ! (i - 2))
      in w @ [w ! (i - 16) + s0 + w ! (i - 7) + s1])"

definition schedule :: "u8 list \<Rightarrow> u32 list" where
  "schedule block = foldl sched_step (map (block_word block) [0..<16]) [16..<64]"

text \<open>The eight working variables \<open>a\<close> to \<open>h\<close>, and one turn of the round loop.\<close>

type_synonym vars8 = "u32 \<times> u32 \<times> u32 \<times> u32 \<times> u32 \<times> u32 \<times> u32 \<times> u32"

fun round_step :: "u32 list \<Rightarrow> vars8 \<Rightarrow> nat \<Rightarrow> vars8" where
  "round_step w (a, b, c, d, e, f, g, h) i =
     (let s1 = rotr e 6 XOR rotr e 11 XOR rotr e 25;
          ch = (e AND f) XOR (NOT e AND g);
          t1 = h + s1 + ch + sha_K ! i + w ! i;
          s0 = rotr a 2 XOR rotr a 13 XOR rotr a 22;
          maj = (a AND b) XOR (a AND c) XOR (b AND c);
          t2 = s0 + maj
      in (t1 + t2, a, b, c, d + t1, e, f, g))"

fun add_vars :: "u32 list \<Rightarrow> vars8 \<Rightarrow> u32 list" where
  "add_vars st (a, b, c, d, e, f, g, h) = map2 (+) st [a, b, c, d, e, f, g, h]"

definition process_block :: "u32 list \<Rightarrow> u8 list \<Rightarrow> u32 list" where
  "process_block st block =
     (let w = schedule block;
          v0 = (st ! 0, st ! 1, st ! 2, st ! 3, st ! 4, st ! 5, st ! 6, st ! 7)
      in add_vars st (foldl (round_step w) v0 [0..<64]))"

section \<open>The object and its methods\<close>

record sha =
  sha_st :: "u32 list"
  sha_total :: u64
  sha_buf :: "u8 list"

definition sha_init :: sha where
  "sha_init = \<lparr>sha_st = sha_H0, sha_total = 0, sha_buf = []\<rparr>"

text \<open>The loop \<open>while (len >= sizeof(buffer_))\<close>: whole blocks straight from the input.\<close>

function absorb_blocks :: "u32 list \<Rightarrow> u8 list \<Rightarrow> u32 list \<times> u8 list" where
  "absorb_blocks st p =
     (if 64 \<le> length p then absorb_blocks (process_block st (take 64 p)) (drop 64 p) else (st, p))"
  by pat_completeness auto
termination
  by (relation "measure (\<lambda>(st, p). length p)") auto

declare absorb_blocks.simps [simp del]

definition sha_update :: "sha \<Rightarrow> u8 list \<Rightarrow> sha" where
  "sha_update s p =
     (let total = sha_total s + of_nat (length p);
          (st1, buf1, p1) =
            (if sha_buf s \<noteq> [] then
               let fill = min (length p) (64 - length (sha_buf s));
                   b = sha_buf s @ take fill p
               in if length b = 64 then (process_block (sha_st s) b, [], drop fill p)
                  else (sha_st s, b, drop fill p)
             else (sha_st s, sha_buf s, p));
          (st2, p2) = absorb_blocks st1 p1
      in \<lparr>sha_st = st2, sha_total = total, sha_buf = (if p2 \<noteq> [] then p2 else buf1)\<rparr>)"

text \<open>\<open>while (buffer_len_ != 56) { update(&zero, 1); total_len_ -= 1; }\<close>\<close>

partial_function (option) pad_zeros :: "sha \<Rightarrow> sha option" where
  "pad_zeros s =
     (if length (sha_buf s) \<noteq> 56
      then pad_zeros (let s' = sha_update s [0] in s'\<lparr>sha_total := sha_total s' - 1\<rparr>)
      else Some s)"

definition len_be :: "u64 \<Rightarrow> u8 list" where
  "len_be bit_len = map (\<lambda>i. ucast (drop_bit (56 - i * 8) bit_len)) [0..<8]"

definition word_hex :: "u32 \<Rightarrow> string" where
  "word_hex s = map (\<lambda>k. hex_char (unat (drop_bit (28 - 4 * k) s AND 0xf))) [0..<8]"

definition sha_hex_digest :: "sha \<Rightarrow> string option" where
  "sha_hex_digest s =
     (let bit_len = sha_total s * 8;
          s1 = sha_update s [0x80];
          s2 = s1\<lparr>sha_total := sha_total s1 - 1\<rparr>
      in case pad_zeros s2 of
           None \<Rightarrow> None
         | Some s3 \<Rightarrow>
             let s4 = sha_update s3 (len_be bit_len)
             in Some (concat (map word_hex (sha_st s4))))"

text \<open>\<open>sha256_hex\<close>: a string's bytes at once.\<close>

definition bytes_of :: "string \<Rightarrow> u8 list" where
  "bytes_of s = map (\<lambda>c. of_nat (code c)) s"

definition sha256_hex :: "string \<Rightarrow> string option" where
  "sha256_hex data = sha_hex_digest (sha_update sha_init (bytes_of data))"

text \<open>
  \<open>sha256_file_hex\<close>: the file as \<open>ifstream\<close> delivers it, \<open>None\<close> when it cannot be opened,
  otherwise the chunks its reads return (each up to \<open>1 << 20\<close> bytes, an empty read updating
  nothing) and whether the stream went bad. The empty string is the error value.
\<close>

definition sha256_file_hex :: "(u8 list list \<times> bool) option \<Rightarrow> string option" where
  "sha256_file_hex file =
     (case file of
        None \<Rightarrow> Some []
      | Some (chunks, bad) \<Rightarrow>
          let h = foldl (\<lambda>s c. if c \<noteq> [] then sha_update s c else s) sha_init chunks
          in if bad then Some [] else sha_hex_digest h)"

section \<open>The specification\<close>

text \<open>FIPS 180-4, 5.1.1 and 6.2: padding to whole blocks, then the fold over the blocks.\<close>

function sha_blocks :: "u8 list \<Rightarrow> u8 list list" where
  "sha_blocks p = (if 64 \<le> length p then take 64 p # sha_blocks (drop 64 p) else [])"
  by pat_completeness auto
termination
  by (relation "measure length") auto

declare sha_blocks.simps [simp del]

definition sha_zeros :: "nat \<Rightarrow> nat" where
  "sha_zeros n = (119 - n mod 64) mod 64"

definition sha_padded :: "u8 list \<Rightarrow> u8 list" where
  "sha_padded m = m @ [0x80] @ replicate (sha_zeros (length m)) 0 @ len_be (of_nat (length m) * 8)"

definition sha_spec :: "u8 list \<Rightarrow> string" where
  "sha_spec m = concat (map word_hex (foldl process_block sha_H0 (sha_blocks (sha_padded m))))"

text \<open>The abstraction relation: \<open>s\<close> is an object that has absorbed exactly \<open>m\<close>.\<close>

definition sha_repr :: "sha \<Rightarrow> u8 list \<Rightarrow> bool" where
  "sha_repr s m \<longleftrightarrow>
     (sha_st s, sha_buf s) = absorb_blocks sha_H0 m \<and> sha_total s = of_nat (length m)"

section \<open>Lemmas\<close>

lemma absorb_rest: "length (snd (absorb_blocks st p)) = length p mod 64"
proof (induction st p rule: absorb_blocks.induct)
  case (1 st p)
  then show ?case
    by (subst absorb_blocks.simps) (auto simp: le_mod_geq)
qed

lemma absorb_rest_less: "length (snd (absorb_blocks st p)) < 64"
  by (simp add: absorb_rest)

lemma absorb_append:
  "absorb_blocks st (p @ q) =
     (case absorb_blocks st p of (st', r) \<Rightarrow> absorb_blocks st' (r @ q))"
proof (induction st p rule: absorb_blocks.induct)
  case (1 st p)
  show ?case
  proof (cases "64 \<le> length p")
    case True
    with 1 show ?thesis
      by (subst absorb_blocks.simps, subst (3) absorb_blocks.simps) auto
  next
    case False
    then show ?thesis by (subst (2) absorb_blocks.simps) simp
  qed
qed

lemma absorb_short: "length p < 64 \<Longrightarrow> absorb_blocks st p = (st, p)"
  by (subst absorb_blocks.simps) simp

lemma absorb_fill:
  assumes "length r < 64"
  shows "absorb_blocks st (r @ q) =
    (let fill = min (length q) (64 - length r); b = r @ take fill q
     in if length b = 64 then absorb_blocks (process_block st b) (drop fill q) else (st, b))"
proof (cases "64 \<le> length r + length q")
  case True
  then have "take 64 (r @ q) = r @ take (64 - length r) q" "drop 64 (r @ q) = drop (64 - length r) q"
    using assms by auto
  then show ?thesis using True assms
    by (subst absorb_blocks.simps) (auto simp: min_def Let_def)
next
  case False
  with assms show ?thesis by (simp add: absorb_short min_def Let_def)
qed

lemma sha_update_absorb:
  assumes "length (sha_buf s) < 64"
  shows "(sha_st (sha_update s p), sha_buf (sha_update s p)) =
      absorb_blocks (sha_st s) (sha_buf s @ p)"
    and "sha_total (sha_update s p) = sha_total s + of_nat (length p)"
proof -
  show "sha_total (sha_update s p) = sha_total s + of_nat (length p)"
    by (simp add: sha_update_def Let_def split: prod.splits)
  show "(sha_st (sha_update s p), sha_buf (sha_update s p)) =
      absorb_blocks (sha_st s) (sha_buf s @ p)"
    using assms absorb_fill [OF assms, of "sha_st s" p]
    by (auto simp: sha_update_def Let_def absorb_short split: prod.splits if_splits)
qed

lemma sha_repr_init: "sha_repr sha_init []"
  by (simp add: sha_repr_def sha_init_def absorb_short)

lemma sha_repr_buf: "sha_repr s m \<Longrightarrow> length (sha_buf s) = length m mod 64"
  unfolding sha_repr_def by (metis absorb_rest snd_conv)

lemma sha_repr_update: "sha_repr s m \<Longrightarrow> sha_repr (sha_update s p) (m @ p)"
proof -
  assume r: "sha_repr s m"
  then have len: "length (sha_buf s) < 64" by (simp add: sha_repr_buf)
  from r have m: "absorb_blocks sha_H0 m = (sha_st s, sha_buf s)" by (simp add: sha_repr_def)
  have t: "sha_total s = of_nat (length m)" using r by (simp add: sha_repr_def)
  have "(sha_st (sha_update s p), sha_buf (sha_update s p)) = absorb_blocks sha_H0 (m @ p)"
    unfolding absorb_append [of sha_H0 m p] m prod.case by (rule sha_update_absorb(1) [OF len])
  with sha_update_absorb(2) [OF len, of p] t show ?thesis by (simp add: sha_repr_def)
qed

text \<open>The objects with a message of length \<open>n\<close> in their words, whatever the total counter says.\<close>

definition sha_core :: "sha \<Rightarrow> u8 list \<Rightarrow> bool" where
  "sha_core s m \<longleftrightarrow> (sha_st s, sha_buf s) = absorb_blocks sha_H0 m"

lemma sha_core_buf: "sha_core s m \<Longrightarrow> length (sha_buf s) = length m mod 64"
  unfolding sha_core_def by (metis absorb_rest snd_conv)

lemma sha_core_total [simp]: "sha_core (s\<lparr>sha_total := t\<rparr>) m = sha_core s m"
  by (simp add: sha_core_def)

lemma sha_core_update: "sha_core s m \<Longrightarrow> sha_core (sha_update s p) (m @ p)"
proof -
  assume r: "sha_core s m"
  then have len: "length (sha_buf s) < 64" by (simp add: sha_core_buf)
  from r have m: "absorb_blocks sha_H0 m = (sha_st s, sha_buf s)" by (simp add: sha_core_def)
  show ?thesis
    unfolding sha_core_def absorb_append [of sha_H0 m p] m prod.case
    by (rule sha_update_absorb(1) [OF len])
qed

lemma pad_need: "x < 64 \<Longrightarrow> (120 - x) mod 64 = (if x \<le> 56 then 56 - x else 120 - x)" for x :: nat
  by (auto simp: le_mod_geq)

lemma pad_zeros_terminates:
  assumes "sha_core s m"
  shows "\<exists>s'. pad_zeros s = Some s' \<and> sha_core s' (m @ replicate ((120 - length m mod 64) mod 64) 0)"
  using assms
proof (induction "(120 - length m mod 64) mod 64" arbitrary: s m)
  case 0
  have "length m mod 64 < 64" by simp
  with 0(1) have "length m mod 64 = 56" by (simp add: pad_need split: if_splits)
  with 0 sha_core_buf [OF 0(2)] show ?case by (simp add: pad_zeros.simps [of s])
next
  case (Suc k)
  have l: "length m mod 64 < 64" by simp
  with Suc.hyps(2) have ne: "length m mod 64 \<noteq> 56" by auto
  let ?s = "let s' = sha_update s [0] in s'\<lparr>sha_total := sha_total s' - 1\<rparr>"
  have core: "sha_core ?s (m @ [0])"
    using Suc.prems by (simp add: Let_def sha_core_update)
  have k: "k = (120 - length (m @ [0 :: u8]) mod 64) mod 64"
  proof -
    define y where "y = length m mod 64"
    have y: "y < 64" "y \<noteq> 56" "Suc k = (if y \<le> 56 then 56 - y else 120 - y)"
      using l ne Suc.hyps(2) pad_need [OF l] by (simp_all add: y_def)
    have s: "length (m @ [0 :: u8]) mod 64 = (if y = 63 then 0 else Suc y)"
      by (simp add: y_def mod_Suc)
    show ?thesis
    proof (cases "y = 63")
      case True
      with y s show ?thesis by simp
    next
      case False
      with y(1) have "Suc y < 64" by simp
      from pad_need [OF this] y False show ?thesis unfolding s by (auto split: if_splits)
    qed
  qed
  from Suc.hyps(1) [OF k core] obtain s' where
    s': "pad_zeros ?s = Some s'" "sha_core s' ((m @ [0]) @ replicate k 0)" using k by auto
  have "pad_zeros s = pad_zeros ?s"
    using ne sha_core_buf [OF Suc.prems] by (simp only: pad_zeros.simps [of s] if_True simp_thms not_True_eq_False)
  with s' Suc.hyps(2) [symmetric] show ?case by auto
qed

lemma foldl_sha_blocks: "foldl process_block st (sha_blocks p) = fst (absorb_blocks st p)"
proof (induction st p rule: absorb_blocks.induct)
  case (1 st p)
  then show ?case by (subst absorb_blocks.simps, subst sha_blocks.simps) auto
qed

lemma sha_hex_digest_spec:
  assumes "sha_repr s m"
  shows "sha_hex_digest s = Some (sha_spec m)"
proof -
  let ?s1 = "sha_update s [0x80]"
  let ?s2 = "?s1\<lparr>sha_total := sha_total ?s1 - 1\<rparr>"
  have "sha_core s m" using assms by (simp add: sha_repr_def sha_core_def)
  then have c: "sha_core ?s2 (m @ [0x80])" by (simp add: sha_core_update)
  have z: "(120 - length (m @ [0x80 :: u8]) mod 64) mod 64 = sha_zeros (length m)"
    unfolding sha_zeros_def by (simp add: mod_Suc)
  obtain s3 where s3: "pad_zeros ?s2 = Some s3"
    "sha_core s3 ((m @ [0x80]) @ replicate (sha_zeros (length m)) 0)"
    using pad_zeros_terminates [OF c] z by auto
  have t: "sha_total s = of_nat (length m)" using assms by (simp add: sha_repr_def)
  have "sha_core (sha_update s3 (len_be (sha_total s * 8))) (sha_padded m)"
    using sha_core_update [OF s3(2)] t by (simp add: sha_padded_def)
  then have "sha_st (sha_update s3 (len_be (sha_total s * 8))) =
      foldl process_block sha_H0 (sha_blocks (sha_padded m))"
    unfolding foldl_sha_blocks sha_core_def by (metis fst_conv)
  with s3(1) show ?thesis
    by (simp add: sha_hex_digest_def sha_spec_def Let_def)
qed

lemma length_sched_fold: "length (foldl sched_step w is) = length w + length is"
  by (induction "is" arbitrary: w) (auto simp: sched_step_def Let_def)

lemma length_process_block: "length st = 8 \<Longrightarrow> length (process_block st b) = 8"
proof -
  assume "length st = 8"
  moreover have "length (add_vars st v) = min (length st) 8" for v
    by (cases "(st, v)" rule: add_vars.cases) simp
  ultimately show ?thesis by (simp add: process_block_def Let_def)
qed

lemma length_fold_process: "length st = 8 \<Longrightarrow> length (foldl process_block st bs) = 8"
  by (induction bs arbitrary: st) (auto simp: length_process_block)

lemma sha_spec_shape: "length (sha_spec m) = 64 \<and> set (sha_spec m) \<subseteq> set hex_digits"
proof -
  have l: "length (foldl process_block sha_H0 bs) = 8" for bs
    by (rule length_fold_process) (simp add: sha_H0_def)
  have "length (concat (map word_hex ws)) = 8 * length ws" for ws
    by (induction ws) (auto simp: word_hex_def)
  then have "length (sha_spec m) = 64" by (simp add: sha_spec_def l)
  moreover have "set (sha_spec m) \<subseteq> set hex_digits"
    by (auto simp: sha_spec_def word_hex_def hex_char_in)
  ultimately show ?thesis by simp
qed

section \<open>The interface of an incremental hash\<close>

text \<open>
  What a caller of the class may rely on: after any sequence of updates the digest is that of
  the concatenated data. The chunked reader is such a caller.
\<close>

locale incremental_hash =
  fixes hinit :: 's
    and hupd :: "'s \<Rightarrow> 'b list \<Rightarrow> 's"
    and hfin :: "'s \<Rightarrow> 'd option"
    and hrepr :: "'s \<Rightarrow> 'b list \<Rightarrow> bool"
    and hspec :: "'b list \<Rightarrow> 'd"
  assumes repr_init: "hrepr hinit []"
    and repr_upd: "hrepr s m \<Longrightarrow> hrepr (hupd s p) (m @ p)"
    and repr_fin: "hrepr s m \<Longrightarrow> hfin s = Some (hspec m)"
begin

lemma repr_fold: "hrepr s m \<Longrightarrow> hrepr (foldl hupd s cs) (m @ concat cs)"
proof (induction cs arbitrary: s m)
  case (Cons c cs)
  from Cons.IH [OF repr_upd [OF Cons.prems, of c]] show ?case by simp
qed simp

lemma repr_fold_skip:
  "hrepr s m \<Longrightarrow> hrepr (foldl (\<lambda>s c. if c \<noteq> [] then hupd s c else s) s cs) (m @ concat cs)"
proof (induction cs arbitrary: s m)
  case (Cons c cs)
  show ?case
  proof (cases "c = []")
    case True
    with Cons.IH [OF Cons.prems] show ?thesis by simp
  next
    case False
    with Cons.IH [OF repr_upd [OF Cons.prems, of c]] show ?thesis by simp
  qed
qed simp

lemma fin_updates: "hfin (foldl hupd hinit cs) = Some (hspec (concat cs))"
  using repr_fin [OF repr_fold [OF repr_init]] by simp

lemma fin_updates_skip:
  "hfin (foldl (\<lambda>s c. if c \<noteq> [] then hupd s c else s) hinit cs) = Some (hspec (concat cs))"
  using repr_fin [OF repr_fold_skip [OF repr_init]] by simp

end

interpretation sha: incremental_hash sha_init sha_update sha_hex_digest sha_repr sha_spec
  by unfold_locales (auto simp: sha_repr_init sha_repr_update sha_hex_digest_spec)

lemma sha256_hex_eq: "sha256_hex data = Some (sha_spec (bytes_of data))"
  unfolding sha256_hex_def using sha.fin_updates [of "[bytes_of data]"] by simp

lemma sha256_file_hex_eq:
  "sha256_file_hex None = Some []"
  "sha256_file_hex (Some (chunks, bad)) = Some (if bad then [] else sha_spec (concat chunks))"
  by (simp_all add: sha256_file_hex_def sha.fin_updates_skip)

lemma sha_spec_nonempty: "sha_spec m \<noteq> []"
  using sha_spec_shape [of m] by auto

section \<open>Properties\<close>


text \<open>The streaming file hash equals the one-shot hash of the file's content for every way
  the reads may cut it, and it is the empty string exactly when the file cannot be opened or the
  stream goes bad, a value no digest has.\<close>

theorem file_hash_streaming:
  "sha256_file_hex (Some (map bytes_of chunks, False)) = sha256_hex (concat chunks) \<and>
   (sha256_file_hex file = Some [] \<longleftrightarrow> (case file of None \<Rightarrow> True | Some (cs, bad) \<Rightarrow> bad))"
proof -
  have "concat (map bytes_of chunks) = bytes_of (concat chunks)"
    by (induction chunks) (simp_all add: bytes_of_def)
  moreover have "sha256_file_hex file = Some [] \<longleftrightarrow> (case file of None \<Rightarrow> True | Some (cs, bad) \<Rightarrow> bad)"
    by (auto simp: sha256_file_hex_eq sha_spec_nonempty split: option.split)
  ultimately show ?thesis by (simp add: sha256_file_hex_eq sha256_hex_eq)
qed

end
