(* ===== verification/Wer.thy ===== *)
theory Wer
  imports AW_Prelude Cfloat
begin

text \<open>
  The word error rate of the benchmark (src/src/bench/wer.cpp, wer.h): the scoring
  normalisation \<open>normalize_words\<close>, the two-row Levenshtein distance of \<open>word_error_rate\<close> with its
  index loops as written, and the specification it is proved against, the least cost of an edit
  script between the two word lists.
\<close>

section \<open>Scoring normalisation\<close>

text \<open>The lambda \<open>flush\<close>: trims apostrophes at the edges and pushes what is left.\<close>

definition flush_word :: "string list \<Rightarrow> string \<Rightarrow> string list" where
  "flush_word ws current =
     (let w = trim_by (\<lambda>c. c = CHR 0x27) current in if w \<noteq> [] then ws @ [w] else ws)"

fun nw_loop :: "string list \<Rightarrow> string \<Rightarrow> string \<Rightarrow> string list" where
  "nw_loop ws current [] = flush_word ws current"
| "nw_loop ws current (c # cs) =
     (if is_alnum c then nw_loop ws (current @ [to_lower_c c]) cs
      else if c = CHR 0x27 then nw_loop ws (current @ [c]) cs
      else if 0x80 \<le> code c then nw_loop ws (current @ [c]) cs
      else nw_loop (flush_word ws current) [] cs)"

definition normalize_words :: "string \<Rightarrow> string list" where
  "normalize_words text = nw_loop [] [] text"

section \<open>The distance\<close>

text \<open>The inner loop body for one \<open>j\<close> and the outer loop body for one \<open>i\<close>; \<open>(prev, cur)\<close> are the
  two rows, swapped at the end of the outer body.\<close>

definition wer_cell :: "'a \<Rightarrow> 'a list \<Rightarrow> nat list \<Rightarrow> nat list \<Rightarrow> nat \<Rightarrow> nat list" where
  "wer_cell r hyp prev cur j =
     (let substitution = prev ! (j - 1) + (if r = hyp ! (j - 1) then 0 else 1);
          deletion = prev ! j + 1;
          insertion = cur ! (j - 1) + 1
      in cur[j := min (min substitution deletion) insertion])"

definition wer_row :: "'a list \<Rightarrow> 'a list \<Rightarrow> nat list \<times> nat list \<Rightarrow> nat \<Rightarrow> nat list \<times> nat list" where
  "wer_row ref hyp rows i =
     (let prev = fst rows;
          cur = (snd rows)[0 := i];
          cur' = foldl (wer_cell (ref ! (i - 1)) hyp prev) cur [1..<length hyp + 1]
      in (cur', prev))"

definition wer_distance :: "'a list \<Rightarrow> 'a list \<Rightarrow> nat" where
  "wer_distance ref hyp =
     (let prev = [0..<length hyp + 1];
          cur = replicate (length hyp + 1) 0
      in fst (foldl (wer_row ref hyp) (prev, cur) [1..<length ref + 1]) ! length hyp)"

definition word_error_rate :: "string \<Rightarrow> string \<Rightarrow> fl" where
  "word_error_rate reference hypothesis =
     (let ref = normalize_words reference;
          hyp = normalize_words hypothesis
      in if ref = [] then (if hyp = [] then Fin 0 else Fin 1)
         else fl_div f64 (f64 (of_nat (wer_distance ref hyp))) (f64 (of_nat (length ref))))"

section \<open>Specification: edit scripts\<close>

text \<open>
  \<open>edit_cost k xs ys\<close>: some script of keeps, substitutions, deletions and insertions turns \<open>xs\<close>
  into \<open>ys\<close> with \<open>k\<close> operations that are not keeps. Scripts grow at the end, as the rows do.
\<close>

inductive edit_cost :: "nat \<Rightarrow> 'a list \<Rightarrow> 'a list \<Rightarrow> bool" where
  base: "edit_cost 0 [] []"
| keep: "edit_cost k xs ys \<Longrightarrow> edit_cost k (xs @ [a]) (ys @ [a])"
| subst: "edit_cost k xs ys \<Longrightarrow> edit_cost (Suc k) (xs @ [a]) (ys @ [b])"
| delete: "edit_cost k xs ys \<Longrightarrow> edit_cost (Suc k) (xs @ [a]) ys"
| insert: "edit_cost k xs ys \<Longrightarrow> edit_cost (Suc k) xs (ys @ [b])"

text \<open>The recurrence on prefixes that the rows tabulate.\<close>

fun lev :: "'a list \<Rightarrow> 'a list \<Rightarrow> nat \<Rightarrow> nat \<Rightarrow> nat" where
  "lev xs ys 0 j = j"
| "lev xs ys (Suc i) 0 = Suc i"
| "lev xs ys (Suc i) (Suc j) =
     min (min (lev xs ys i j + (if xs ! i = ys ! j then 0 else 1)) (lev xs ys i (Suc j) + 1))
         (lev xs ys (Suc i) j + 1)"

lemma lev_0_right [simp]: "lev xs ys i 0 = i"
  by (cases i) auto

section \<open>The rows compute the recurrence\<close>

lemma wer_cells:
  assumes prev: "\<And>j. j \<le> n \<Longrightarrow> prev ! j = lev ref hyp i j"
    and n: "n \<le> length hyp" "length cur = length hyp + 1"
    and z: "cur ! 0 = Suc i"
  shows "length (foldl (wer_cell (ref ! i) hyp prev) cur [1..<n + 1]) = length hyp + 1 \<and>
    (\<forall>j \<le> n. foldl (wer_cell (ref ! i) hyp prev) cur [1..<n + 1] ! j = lev ref hyp (Suc i) j)"
  using assms
proof (induction n)
  case 0
  then show ?case by simp
next
  case (Suc n)
  let ?c = "foldl (wer_cell (ref ! i) hyp prev) cur [1..<n + 1]"
  have IH: "length ?c = length hyp + 1" "\<And>j. j \<le> n \<Longrightarrow> ?c ! j = lev ref hyp (Suc i) j"
    using Suc.IH [OF Suc.prems(1)] Suc.prems(2-4) by auto
  have step: "foldl (wer_cell (ref ! i) hyp prev) cur [1..<Suc n + 1] =
      wer_cell (ref ! i) hyp prev ?c (Suc n)"
    by simp
  have "prev ! n = lev ref hyp i n" "prev ! Suc n = lev ref hyp i (Suc n)"
    using Suc.prems(1) by auto
  then have cell: "wer_cell (ref ! i) hyp prev ?c (Suc n) = ?c[Suc n := lev ref hyp (Suc i) (Suc n)]"
    using IH(2) [of n] by (simp add: wer_cell_def Let_def)
  show ?case
    unfolding step cell using IH Suc.prems(2)
    by (auto simp: nth_list_update le_Suc_eq)
qed

definition wer_table :: "'a list \<Rightarrow> 'a list \<Rightarrow> nat \<Rightarrow> nat list \<times> nat list" where
  "wer_table ref hyp n =
     foldl (wer_row ref hyp) ([0..<length hyp + 1], replicate (length hyp + 1) 0) [1..<n + 1]"

lemma wer_table_0: "wer_table ref hyp 0 = ([0..<length hyp + 1], replicate (length hyp + 1) 0)"
  by (simp add: wer_table_def)

lemma wer_table_Suc: "wer_table ref hyp (Suc n) = wer_row ref hyp (wer_table ref hyp n) (Suc n)"
  by (simp add: wer_table_def)

lemma wer_rows:
  assumes "n \<le> length ref"
  shows "length (fst (wer_table ref hyp n)) = length hyp + 1 \<and>
    length (snd (wer_table ref hyp n)) = length hyp + 1 \<and>
    (\<forall>j \<le> length hyp. fst (wer_table ref hyp n) ! j = lev ref hyp n j)"
  using assms
proof (induction n)
  case 0
  have "[0..<length hyp + 1] ! j = j" if "j \<le> length hyp" for j
    using that nth_upt [of 0 j "length hyp + 1"] by simp
  then show ?case by (simp del: upt_Suc add: wer_table_0)
next
  case (Suc n)
  define R where "R = wer_table ref hyp n"
  have IH: "length (fst R) = length hyp + 1" "length (snd R) = length hyp + 1"
    "\<And>j. j \<le> length hyp \<Longrightarrow> fst R ! j = lev ref hyp n j"
    using Suc by (auto simp: R_def)
  have z: "(snd R)[0 := Suc n] ! 0 = Suc n" using IH(2) by simp
  have l: "length ((snd R)[0 := Suc n]) = length hyp + 1" using IH(2) by simp
  note cells = wer_cells [OF IH(3) order_refl l z]
  have "wer_table ref hyp (Suc n) =
      (foldl (wer_cell (ref ! n) hyp (fst R)) ((snd R)[0 := Suc n]) [1..<length hyp + 1], fst R)"
    by (simp del: upt_Suc add: wer_table_Suc wer_row_def Let_def R_def)
  with cells IH show ?case by (simp only: fst_conv snd_conv) blast
qed

lemma wer_distance_lev: "wer_distance ref hyp = lev ref hyp (length ref) (length hyp)"
  using wer_rows [of "length ref" ref hyp] by (simp add: wer_distance_def wer_table_def Let_def)

section \<open>The recurrence is the least script cost\<close>

lemma lev_script:
  "i \<le> length xs \<Longrightarrow> j \<le> length ys \<Longrightarrow> edit_cost (lev xs ys i j) (take i xs) (take j ys)"
proof (induction xs ys i j rule: lev.induct)
  case (1 xs ys j)
  then show ?case
  proof (induction j)
    case 0
    show ?case by (simp add: edit_cost.base)
  next
    case (Suc j)
    then show ?case using edit_cost.insert [of j "[]" "take j ys" "ys ! j"]
      by (simp add: take_Suc_conv_app_nth)
  qed
next
  case (2 xs ys i)
  have "edit_cost n (take n xs) []" if "n \<le> length xs" for n
    using that
  proof (induction n)
    case 0
    show ?case by (simp add: edit_cost.base)
  next
    case (Suc n)
    then show ?case using edit_cost.delete [of n "take n xs" "[]" "xs ! n"]
      by (simp add: take_Suc_conv_app_nth)
  qed
  from this [of "Suc i"] 2 show ?case by simp
next
  case (3 xs ys i j)
  have x: "take (Suc i) xs = take i xs @ [xs ! i]" and y: "take (Suc j) ys = take j ys @ [ys ! j]"
    using 3 by (simp_all add: take_Suc_conv_app_nth)
  let ?s = "lev xs ys i j + (if xs ! i = ys ! j then 0 else 1)"
  have le: "i \<le> length xs" "j \<le> length ys" "Suc i \<le> length xs" "Suc j \<le> length ys"
    using 3 by auto
  note H = "3.IH"(1) [OF le(1) le(2)] "3.IH"(2) [OF le(1) le(4)] "3.IH"(3) [OF le(3) le(2)]
  have s: "edit_cost ?s (take (Suc i) xs) (take (Suc j) ys)"
    using edit_cost.keep [OF H(1), of "xs ! i"] edit_cost.subst [OF H(1), of "xs ! i" "ys ! j"]
    unfolding x y by auto
  have d: "edit_cost (lev xs ys i (Suc j) + 1) (take (Suc i) xs) (take (Suc j) ys)"
    using edit_cost.delete [OF H(2), of "xs ! i"] unfolding x by simp
  have n: "edit_cost (lev xs ys (Suc i) j + 1) (take (Suc i) xs) (take (Suc j) ys)"
    using edit_cost.insert [OF H(3), of "ys ! j"] unfolding y by simp
  show ?case using s d n by (simp add: min_def)
qed

lemma lev_diff: "lev xs ys i j \<le> lev xs ys (Suc i) j + 1 \<and> lev xs ys i j \<le> lev xs ys i (Suc j) + 1"
proof (induction "i + j" arbitrary: i j rule: less_induct)
  case less
  have a: "lev xs ys i j \<le> lev xs ys (Suc i) j + 1"
  proof (cases j)
    case 0
    then show ?thesis by simp
  next
    case (Suc j')
    have "lev xs ys i j' \<le> lev xs ys i (Suc j') + 1" "lev xs ys i j' \<le> lev xs ys (Suc i) j' + 1"
      using less [of i j'] Suc by auto
    moreover have "lev xs ys i (Suc j') \<le> lev xs ys i j' + 1"
      by (cases i) auto
    ultimately show ?thesis using Suc by auto
  qed
  have b: "lev xs ys i j \<le> lev xs ys i (Suc j) + 1"
  proof (cases i)
    case 0
    then show ?thesis by simp
  next
    case (Suc i')
    have "lev xs ys i' j \<le> lev xs ys (Suc i') j + 1" "lev xs ys i' j \<le> lev xs ys i' (Suc j) + 1"
      using less [of i' j] Suc by auto
    moreover have "lev xs ys (Suc i') j \<le> lev xs ys i' j + 1"
      by (cases j) auto
    ultimately show ?thesis using Suc by auto
  qed
  from a b show ?case ..
qed

lemma lev_prefix_cong:
  "i \<le> length xs \<Longrightarrow> j \<le> length ys \<Longrightarrow> lev (xs @ u) (ys @ v) i j = lev xs ys i j"
  by (induction xs ys i j rule: lev.induct) (auto simp: nth_append)

lemma lev_least: "edit_cost k xs ys \<Longrightarrow> lev xs ys (length xs) (length ys) \<le> k"
proof (induction rule: edit_cost.induct)
  case base
  show ?case by simp
next
  case (keep k xs ys a)
  then show ?case using lev_prefix_cong [of "length xs" xs "length ys" ys "[a]" "[a]"]
    by (auto simp: nth_append min_le_iff_disj)
next
  case (subst k xs ys a b)
  then show ?case using lev_prefix_cong [of "length xs" xs "length ys" ys "[a]" "[b]"]
    by (auto simp: nth_append min_le_iff_disj)
next
  case (delete k xs ys a)
  have e: "lev (xs @ [a]) ys (length xs) (length ys) = lev xs ys (length xs) (length ys)"
    using lev_prefix_cong [of "length xs" xs "length ys" ys "[a]" "[]"] by simp
  have "lev (xs @ [a]) ys (Suc (length xs)) (length ys) \<le> lev (xs @ [a]) ys (length xs) (length ys) + 1"
    by (cases "length ys") auto
  with delete e show ?case by simp
next
  case (insert k xs ys b)
  have e: "lev xs (ys @ [b]) (length xs) (length ys) = lev xs ys (length xs) (length ys)"
    using lev_prefix_cong [of "length xs" xs "length ys" ys "[]" "[b]"] by simp
  have "lev xs (ys @ [b]) (length xs) (Suc (length ys)) \<le> lev xs (ys @ [b]) (length xs) (length ys) + 1"
    by (cases "length xs") auto
  with insert e show ?case by simp
qed

lemma wer_distance_script: "edit_cost (wer_distance ref hyp) ref hyp"
  using lev_script [of "length ref" ref "length hyp" hyp] by (simp add: wer_distance_lev)

lemma wer_distance_least: "edit_cost k ref hyp \<Longrightarrow> wer_distance ref hyp \<le> k"
  using lev_least [of k ref hyp] by (simp add: wer_distance_lev)

lemma edit_cost_0: "edit_cost 0 xs ys \<longleftrightarrow> xs = ys"
proof
  assume "edit_cost 0 xs ys"
  then show "xs = ys" by (induction "0 :: nat" xs ys rule: edit_cost.induct) auto
next
  have "edit_cost 0 xs xs"
    by (induction xs rule: rev_induct) (auto intro: edit_cost.intros)
  then show "xs = ys \<Longrightarrow> edit_cost 0 xs ys" by simp
qed

lemma edit_cost_sym: "edit_cost k xs ys \<Longrightarrow> edit_cost k ys xs"
  by (induction rule: edit_cost.induct) (auto intro: edit_cost.intros)

lemma edit_cost_max: "edit_cost (max (length xs) (length ys)) xs ys"
proof (induction xs arbitrary: ys rule: rev_induct)
  case Nil
  show ?case by (induction ys rule: rev_induct) (auto intro: edit_cost.intros)
next
  case (snoc a xs)
  show ?case
  proof (cases ys rule: rev_cases)
    case Nil
    then show ?thesis using edit_cost.delete [OF snoc.IH [of "[]"]] by simp
  next
    case (snoc ys' b)
    then show ?thesis using edit_cost.subst [OF snoc.IH [of ys']] by simp
  qed
qed

lemma wer_distance_0: "wer_distance ref hyp = 0 \<longleftrightarrow> ref = hyp"
proof
  assume "wer_distance ref hyp = 0"
  then show "ref = hyp" using wer_distance_script [of ref hyp] by (simp add: edit_cost_0)
next
  assume "ref = hyp"
  then show "wer_distance ref hyp = 0" using wer_distance_least [of 0 ref hyp] by (simp add: edit_cost_0)
qed

lemma lev_sym: "wer_distance xs ys = wer_distance ys xs"
  using wer_distance_least [OF edit_cost_sym [OF wer_distance_script [of xs ys]]]
    wer_distance_least [OF edit_cost_sym [OF wer_distance_script [of ys xs]]]
  by simp

lemma wer_distance_max: "wer_distance ref hyp \<le> max (length ref) (length hyp)"
  by (rule wer_distance_least [OF edit_cost_max])

section \<open>The rate\<close>

lemma word_error_rate_value:
  assumes "normalize_words r \<noteq> []"
    and "length (normalize_words r) < 2 ^ 53" "length (normalize_words h) < 2 ^ 53"
  shows "word_error_rate r h =
    f64 (of_nat (wer_distance (normalize_words r) (normalize_words h)) / of_nat (length (normalize_words r)))"
proof -
  let ?d = "wer_distance (normalize_words r) (normalize_words h)"
  have "?d < 2 ^ 53"
    using wer_distance_max [of "normalize_words r" "normalize_words h"] assms(2,3) by (auto simp: max_def split: if_splits)
  then have a: "f64 (of_nat n) = Fin (of_nat n)" if "n < 2 ^ 53" for n
    using that f64_of_int [of "int n"] by simp
  have "f64 (of_nat ?d) = Fin (of_nat ?d)"
    "f64 (of_nat (length (normalize_words r))) = Fin (of_nat (length (normalize_words r)))"
    using a [OF \<open>?d < 2 ^ 53\<close>] a [OF assms(2)] by simp_all
  with assms(1) show ?thesis by (simp add: word_error_rate_def Let_def)
qed

lemma f64_ratio_pos:
  assumes "0 < d" "0 < n" "n < 2 ^ 53"
  shows "f64 (of_nat d / of_nat n) \<noteq> Fin 0"
proof -
  have n: "of_nat n < (2 :: rat) ^ 53"
    using assms(3) by (metis of_nat_less_iff of_nat_numeral of_nat_power)
  have "two_pow (- 1022) \<le> two_pow (- 53)" by (rule two_pow_mono) simp
  also have "\<dots> = 1 / 2 ^ 53" by (simp add: two_pow_def)
  also have "\<dots> \<le> 1 / of_nat n" using n assms(2) by (intro divide_left_mono) auto
  also have "\<dots> \<le> of_nat d / of_nat n" using assms(1) by (intro divide_right_mono) auto
  finally have "two_pow (- 1022) \<le> of_nat d / of_nat n" .
  from fround_pos [OF this, of 53 1023] show ?thesis unfolding f64_def by force
qed

section \<open>Words\<close>

definition scored_char :: "char \<Rightarrow> bool" where
  "scored_char c \<longleftrightarrow> (is_alnum c \<and> \<not> is_upper c) \<or> c = CHR 0x27 \<or> 0x80 \<le> code c"

definition scored_word :: "string \<Rightarrow> bool" where
  "scored_word w \<longleftrightarrow> w \<noteq> [] \<and> (\<forall>c \<in> set w. scored_char c) \<and> hd w \<noteq> CHR 0x27 \<and> last w \<noteq> CHR 0x27"

lemma flush_word_scored:
  "\<lbrakk>\<forall>w \<in> set ws. scored_word w; \<forall>c \<in> set cur. scored_char c\<rbrakk> \<Longrightarrow>
     \<forall>w \<in> set (flush_word ws cur). scored_word w"
  using trim_by_ends [of "\<lambda>c. c = CHR 0x27" cur] set_trim_by [of "\<lambda>c. c = CHR 0x27" cur]
  by (auto simp: flush_word_def Let_def scored_word_def)

lemma nw_loop_scored:
  "\<lbrakk>\<forall>w \<in> set ws. scored_word w; \<forall>c \<in> set cur. scored_char c\<rbrakk> \<Longrightarrow>
     \<forall>w \<in> set (nw_loop ws cur s). scored_word w"
proof (induction ws cur s rule: nw_loop.induct)
  case (1 ws cur)
  then show ?case using flush_word_scored by simp
next
  case (2 ws cur c cs)
  have "is_alnum c \<Longrightarrow> scored_char (to_lower_c c)"
    by (auto simp: scored_char_def code_to_lower aw_char)
  moreover have "\<forall>w \<in> set (flush_word ws cur). scored_word w"
    using flush_word_scored 2(5,6) by blast
  ultimately show ?case using 2 by (auto simp: scored_char_def)
qed

lemma nw_loop_case: "nw_loop ws cur (lower_s s) = nw_loop ws cur s"
proof (induction ws cur s rule: nw_loop.induct)
  case (2 ws cur c cs)
  then show ?case by (cases "is_alnum c") (auto simp: to_lower_not_alpha is_alnum_def)
qed simp

section \<open>Properties\<close>

text \<open>C33: For a reference of at least one word (and fewer than 2^53 words on both sides) the word
  error rate is the least number of word substitutions, deletions and insertions that turn the
  reference into the hypothesis, divided by the reference length and rounded once to a double:
  the two rolling rows compute the edit distance.\<close>

theorem wer_is_edit_distance:
  assumes "normalize_words r \<noteq> []"
    and "length (normalize_words r) < 2 ^ 53" "length (normalize_words h) < 2 ^ 53"
  shows "\<exists>d. edit_cost d (normalize_words r) (normalize_words h) \<and>
    (\<forall>k. edit_cost k (normalize_words r) (normalize_words h) \<longrightarrow> d \<le> k) \<and>
    word_error_rate r h = f64 (of_nat d / of_nat (length (normalize_words r)))"
  using wer_distance_script wer_distance_least word_error_rate_value [OF assms] by blast

lemma wer_example_words:
  "normalize_words ''Don't stop!'' = [''don't'', ''stop'']" "normalize_words ''don't go'' = [''don't'', ''go'']"
  by code_simp+

theorem wer_is_edit_distance_witness:
  "\<exists>d. edit_cost d (normalize_words ''Don't stop!'') (normalize_words ''don't go'') \<and>
    (\<forall>k. edit_cost k (normalize_words ''Don't stop!'') (normalize_words ''don't go'') \<longrightarrow> d \<le> k) \<and>
    word_error_rate ''Don't stop!'' ''don't go'' = f64 (of_nat d / of_nat (length (normalize_words ''Don't stop!'')))"
  by (rule wer_is_edit_distance) (simp_all add: wer_example_words)

text \<open>The rate is zero exactly when the two texts have the same words after scoring
  normalisation; letter case never counts, and every word compared is non-empty, lower case, free
  of ASCII punctuation other than apostrophes, and has no apostrophe at an edge.\<close>

theorem wer_zero_iff:
  assumes "length (normalize_words r) < 2 ^ 53" "length (normalize_words h) < 2 ^ 53"
  shows "(word_error_rate r h = Fin 0 \<longleftrightarrow> normalize_words r = normalize_words h) \<and>
    word_error_rate (lower_s r) h = word_error_rate r h \<and>
    list_all scored_word (normalize_words r)"
proof -
  have "word_error_rate r h = Fin 0 \<longleftrightarrow> normalize_words r = normalize_words h"
  proof (cases "normalize_words r = []")
    case True
    then show ?thesis by (auto simp: word_error_rate_def)
  next
    case False
    let ?d = "wer_distance (normalize_words r) (normalize_words h)"
    have "?d = 0 \<Longrightarrow> word_error_rate r h = Fin 0"
      using word_error_rate_value [OF False assms] by (simp add: f64_def)
    moreover have "0 < ?d \<Longrightarrow> word_error_rate r h \<noteq> Fin 0"
      using word_error_rate_value [OF False assms] f64_ratio_pos [of ?d] False assms(1) by simp
    ultimately show ?thesis by (metis wer_distance_0 neq0_conv)
  qed
  moreover have "normalize_words (lower_s r) = normalize_words r"
    by (simp add: normalize_words_def nw_loop_case)
  ultimately show ?thesis
    using nw_loop_scored [of "[]" "[]" r] by (simp add: word_error_rate_def normalize_words_def list_all_iff)
qed

theorem wer_zero_iff_witness:
  "(word_error_rate ''Don't stop!'' ''don't go'' = Fin 0 \<longleftrightarrow>
      normalize_words ''Don't stop!'' = normalize_words ''don't go'') \<and>
    word_error_rate (lower_s ''Don't stop!'') ''don't go'' = word_error_rate ''Don't stop!'' ''don't go'' \<and>
    list_all scored_word (normalize_words ''Don't stop!'')"
  by (rule wer_zero_iff) (simp_all add: wer_example_words)

end
