(* ===== verification/Config_Records.thy ===== *)
theory Config_Records
  imports AW_Prelude Cfloat
begin

text \<open>
  The configuration structs of src/src/config/config.h with their default member initialisers.
  An \<open>int\<close> member is a HOL \<open>int\<close> (the loaders keep it in the 32-bit range), a \<open>float\<close> member a
  single-precision value of \<open>Cfloat\<close>, a \<open>std::optional<std::string>\<close> a \<open>string option\<close> and a
  \<open>std::vector<std::string>\<close> a \<open>string list\<close>.
\<close>

section \<open>The sections\<close>

record model_config =
  md_size :: string
  md_device :: string
  md_compute_type :: string
  md_beam_size :: int
  md_language :: string
  md_num_threads :: int

record audio_config =
  au_sample_rate :: int
  au_channels :: int
  au_buffer_size :: int
  au_device :: "string option"
  au_output_device :: "string option"
  au_vad_enabled :: bool
  au_vad_threshold :: fl
  au_silence_duration :: fl
  au_max_duration :: fl
  au_mute_other_apps :: bool

record hotkey_config =
  hk_mode :: string
  hk_trigger :: "string list"
  hk_cancel :: "string list"
  hk_escape_to_cancel :: bool

record output_config =
  ou_method :: string
  ou_auto_paste :: bool
  ou_paste_delay :: fl
  ou_ending_action :: string
  ou_lowercase :: bool
  ou_also_copy :: bool

record formatting_config =
  fm_remove_fillers :: bool
  fm_spoken_commands :: bool
  fm_dictionary :: "string list"

record feedback_config =
  fb_enabled :: bool
  fb_frequency_start :: int
  fb_frequency_stop :: int
  fb_frequency_error :: int
  fb_duration :: fl
  fb_volume :: fl

record daemon_config =
  dm_log_level :: string
  dm_log_file :: "string option"
  dm_pid_file :: string
  dm_work_dir :: string

record tray_config =
  ty_enabled :: bool

record avatar_config =
  av_enabled :: bool
  av_character :: string
  av_size :: int

record config =
  c_model :: model_config
  c_audio :: audio_config
  c_hotkeys :: hotkey_config
  c_output :: output_config
  c_formatting :: formatting_config
  c_feedback :: feedback_config
  c_daemon :: daemon_config
  c_tray :: tray_config
  c_avatar :: avatar_config

section \<open>The defaults\<close>

definition default_model :: model_config where
  "default_model = \<lparr>md_size = ''distil-large-v3'', md_device = ''cuda'', md_compute_type = ''float16'',
     md_beam_size = 1, md_language = ''en'', md_num_threads = 4\<rparr>"

definition default_audio :: audio_config where
  "default_audio = \<lparr>au_sample_rate = 16000, au_channels = 1, au_buffer_size = 1024,
     au_device = None, au_output_device = None, au_vad_enabled = True,
     au_vad_threshold = f32 (1 / 2), au_silence_duration = f32 (3 / 10),
     au_max_duration = f32 600, au_mute_other_apps = False\<rparr>"

definition default_hotkeys :: hotkey_config where
  "default_hotkeys = \<lparr>hk_mode = ''push_to_talk'', hk_trigger = [''shift+super''],
     hk_cancel = [''esc''], hk_escape_to_cancel = True\<rparr>"

definition default_output :: output_config where
  "default_output = \<lparr>ou_method = ''inject'', ou_auto_paste = True, ou_paste_delay = f32 (5 / 100),
     ou_ending_action = ''none'', ou_lowercase = False, ou_also_copy = True\<rparr>"

definition default_formatting :: formatting_config where
  "default_formatting = \<lparr>fm_remove_fillers = True, fm_spoken_commands = True, fm_dictionary = []\<rparr>"

definition default_feedback :: feedback_config where
  "default_feedback = \<lparr>fb_enabled = True, fb_frequency_start = 800, fb_frequency_stop = 400,
     fb_frequency_error = 600, fb_duration = f32 (1 / 10), fb_volume = f32 (3 / 10)\<rparr>"

definition default_daemon :: daemon_config where
  "default_daemon = \<lparr>dm_log_level = ''info'', dm_log_file = None,
     dm_pid_file = ''/tmp/autowhisper.pid'', dm_work_dir = ''/opt/autowhisper''\<rparr>"

definition default_tray :: tray_config where
  "default_tray = \<lparr>ty_enabled = True\<rparr>"

definition default_avatar :: avatar_config where
  "default_avatar = \<lparr>av_enabled = False, av_character = ''echo'', av_size = 96\<rparr>"

definition default_config :: config where
  "default_config = \<lparr>c_model = default_model, c_audio = default_audio, c_hotkeys = default_hotkeys,
     c_output = default_output, c_formatting = default_formatting, c_feedback = default_feedback,
     c_daemon = default_daemon, c_tray = default_tray, c_avatar = default_avatar\<rparr>"

lemmas config_defaults =
  default_config_def default_model_def default_audio_def default_hotkeys_def default_output_def
  default_formatting_def default_feedback_def default_daemon_def default_tray_def default_avatar_def

end
