(* ===== verification/Transcript_Pipeline.thy ===== *)
theory Transcript_Pipeline
  imports AW_Prelude Config_Records
begin

text \<open>
  The transcript clean-up between recognition and output
  (src/src/pipeline/transcript_pipeline.cpp): dictionary replacements, filler removal, spoken line
  breaks and the normalisation that follows them. Each stage is a loop that searches from a
  position, edits the string in place and moves the position on; the loops are functions whose
  measure is the text still to the right of the position, which every edit shortens.
\<close>

section \<open>Searching and punching holes\<close>

definition is_word_char :: "char \<Rightarrow> bool" where
  "is_word_char c \<longleftrightarrow> is_alnum c \<or> c = CHR 0x27 \<or> c = CHR ''-''"

text \<open>The two boundary tests of a match at \<open>[pos, end)\<close>.\<close>

definition word_bounded :: "string \<Rightarrow> nat \<Rightarrow> nat \<Rightarrow> bool" where
  "word_bounded hay pos end' \<longleftrightarrow>
     (pos = 0 \<or> \<not> is_word_char (hay ! (pos - 1))) \<and>
     (length hay \<le> end' \<or> \<not> is_word_char (hay ! end'))"

lemma sfind_bounds: "sfind nd hay pos = Some p \<Longrightarrow> pos \<le> p \<and> p + length nd \<le> length hay"
  by (auto simp: sfind_Some occurs_at_def)

function find_phrase_loop :: "string \<Rightarrow> string \<Rightarrow> string \<Rightarrow> nat \<Rightarrow> nat option" where
  "find_phrase_loop hay lower_hay needle pos =
     (case sfind needle lower_hay pos of
        None \<Rightarrow> None
      | Some p \<Rightarrow> if word_bounded hay p (p + length needle) then Some p
                  else find_phrase_loop hay lower_hay needle (p + 1))"
  by pat_completeness auto
termination
  by (relation "measure (\<lambda>(hay, lower_hay, needle, pos). Suc (length lower_hay) - pos)")
     (auto dest: sfind_bounds)

declare find_phrase_loop.simps [simp del]

definition find_phrase :: "string \<Rightarrow> string \<Rightarrow> nat \<Rightarrow> nat option" where
  "find_phrase hay needle from =
     (if needle = [] then None else find_phrase_loop hay (lower_s hay) needle from)"

text \<open>The loops \<open>while (end < size && isspace(out[end])) end++\<close> and
  \<open>while (begin > 0 && isspace(out[begin - 1])) begin--\<close>.\<close>

definition skip_spaces :: "string \<Rightarrow> nat \<Rightarrow> nat" where
  "skip_spaces out end' = end' + length (takeWhile is_space (drop end' out))"

fun back_spaces :: "string \<Rightarrow> nat \<Rightarrow> nat" where
  "back_spaces out 0 = 0"
| "back_spaces out (Suc n) = (if is_space (out ! n) then back_spaces out n else Suc n)"

text \<open>\<open>out.replace(begin, end - begin, with)\<close>.\<close>

definition replace_range :: "string \<Rightarrow> nat \<Rightarrow> nat \<Rightarrow> string \<Rightarrow> string" where
  "replace_range out begin' end' w = take begin' out @ w @ drop end' out"

definition erase_word_hole :: "string \<Rightarrow> nat \<Rightarrow> nat \<Rightarrow> string \<times> nat" where
  "erase_word_hole out begin0 end0 =
     (let end1 = (if end0 < length out \<and> (out ! end0 = CHR '','' \<or> out ! end0 = CHR '';'') then end0 + 1 else end0);
          end2 = skip_spaces out end1;
          begin1 = back_spaces out begin0;
          word_after = (end2 < length out \<and> is_word_char (out ! end2));
          glue = (if word_after \<and> 0 < begin1 \<and> out ! (begin1 - 1) \<noteq> CHR 0x0A then '' '' else [])
      in (replace_range out begin1 end2 glue, begin1 + length glue))"

section \<open>The stages\<close>

record dictionary_entry =
  de_from :: string
  de_to :: string

definition parse_dictionary_entry :: "string \<Rightarrow> dictionary_entry option" where
  "parse_dictionary_entry raw =
     (case sfind ''=>'' raw 0 of
        None \<Rightarrow> None
      | Some sep \<Rightarrow>
          let from = trim_by is_space (take sep raw);
              to = trim_by is_space (drop (sep + 2) raw)
          in if from = [] then None else Some \<lparr>de_from = from, de_to = to\<rparr>)"

record pipeline =
  tp_config :: formatting_config
  tp_language :: string
  tp_dictionary :: "dictionary_entry list"

definition make_pipeline :: "formatting_config \<Rightarrow> string \<Rightarrow> pipeline" where
  "make_pipeline cfg language =
     \<lparr>tp_config = cfg, tp_language = language,
      tp_dictionary = List.map_filter parse_dictionary_entry (fm_dictionary cfg)\<rparr>"

text \<open>A whole-word, case-insensitive occurrence of a lower-case phrase.\<close>

definition phrase_at :: "string \<Rightarrow> string \<Rightarrow> nat \<Rightarrow> bool" where
  "phrase_at hay needle p \<longleftrightarrow>
     occurs_at needle (lower_s hay) p \<and> word_bounded hay p (p + length needle)"

lemma find_phrase_loop_spec:
  "lhay = lower_s hay \<Longrightarrow>
   (case find_phrase_loop hay lhay nd pos of
      None \<Rightarrow> \<forall>q \<ge> pos. \<not> phrase_at hay nd q
    | Some p \<Rightarrow> pos \<le> p \<and> phrase_at hay nd p \<and> (\<forall>q. pos \<le> q \<and> q < p \<longrightarrow> \<not> phrase_at hay nd q))"
proof (induction hay lhay nd pos rule: find_phrase_loop.induct)
  case (1 hay lhay nd pos)
  show ?case
  proof (cases "sfind nd lhay pos")
    case None
    then have "find_phrase_loop hay lhay nd pos = None" by (subst find_phrase_loop.simps) simp
    with None 1(2) show ?thesis by (auto simp: sfind_None phrase_at_def)
  next
    case (Some p)
    note p = Some [unfolded sfind_Some]
    show ?thesis
    proof (cases "word_bounded hay p (p + length nd)")
      case True
      with Some have "find_phrase_loop hay lhay nd pos = Some p" by (subst find_phrase_loop.simps) simp
      with p True 1(2) show ?thesis by (auto simp: phrase_at_def)
    next
      case False
      with Some have e: "find_phrase_loop hay lhay nd pos = find_phrase_loop hay lhay nd (p + 1)"
        by (subst find_phrase_loop.simps) simp
      have no: "\<not> phrase_at hay nd q" if "pos \<le> q" "q < p + 1" for q
        using p False that 1(2) by (cases "q = p") (auto simp: phrase_at_def)
      from 1(1) [OF Some False 1(2)] no p show ?thesis
        unfolding e by (auto split: option.splits) (meson not_less)+
    qed
  qed
qed

lemma find_phrase_Some:
  "find_phrase hay nd pos = Some p \<longleftrightarrow>
     nd \<noteq> [] \<and> pos \<le> p \<and> phrase_at hay nd p \<and> (\<forall>q. pos \<le> q \<and> q < p \<longrightarrow> \<not> phrase_at hay nd q)"
proof (cases "nd = []")
  case True
  then show ?thesis by (simp add: find_phrase_def)
next
  case False
  then have e: "find_phrase hay nd pos = find_phrase_loop hay (lower_s hay) nd pos"
    by (simp add: find_phrase_def)
  show ?thesis
  proof (cases "find_phrase_loop hay (lower_s hay) nd pos")
    case None
    with find_phrase_loop_spec [OF refl, where hay = hay and nd = nd and pos = pos] e show ?thesis by auto
  next
    case (Some q)
    with find_phrase_loop_spec [OF refl, where hay = hay and nd = nd and pos = pos] have q: "pos \<le> q" "phrase_at hay nd q"
      "\<forall>r. pos \<le> r \<and> r < q \<longrightarrow> \<not> phrase_at hay nd r" by auto
    have "q = p" if "pos \<le> p" "phrase_at hay nd p" "\<forall>r. pos \<le> r \<and> r < p \<longrightarrow> \<not> phrase_at hay nd r"
      using q that by (meson linorder_neqE_nat)
    with e Some q False show ?thesis by auto
  qed
qed

lemma find_phrase_None:
  "find_phrase hay nd pos = None \<longleftrightarrow> nd = [] \<or> (\<forall>q \<ge> pos. \<not> phrase_at hay nd q)"
  using find_phrase_loop_spec [OF refl, where hay = hay and nd = nd and pos = pos]
  by (auto simp: find_phrase_def split: option.splits)

lemma find_phrase_bounds:
  "find_phrase hay nd pos = Some p \<Longrightarrow> pos \<le> p \<and> p + length nd \<le> length hay \<and> nd \<noteq> []"
  by (auto simp: find_phrase_Some phrase_at_def occurs_at_def)

lemma skip_spaces_le: "n \<le> length out \<Longrightarrow> n \<le> skip_spaces out n \<and> skip_spaces out n \<le> length out"
  unfolding skip_spaces_def using length_takeWhile_le [of is_space "drop n out"] by auto

lemma back_spaces_le: "back_spaces out n \<le> n"
  by (induction out n rule: back_spaces.induct) auto

lemma length_replace_range:
  "\<lbrakk>b \<le> length out; e \<le> length out\<rbrakk> \<Longrightarrow> length (replace_range out b e w) = b + length w + (length out - e)"
  by (simp add: replace_range_def)

lemma erase_word_hole_measure:
  assumes "erase_word_hole out b e = (out', pos)" "b < e" "e \<le> length out"
  shows "length out' - pos < length out - b" "pos \<le> length out'"
proof -
  define e1 where "e1 = (if e < length out \<and> (out ! e = CHR '','' \<or> out ! e = CHR '';'') then e + 1 else e)"
  define e2 where "e2 = skip_spaces out e1"
  define b1 where "b1 = back_spaces out b"
  define glue where "glue = (if (e2 < length out \<and> is_word_char (out ! e2)) \<and> 0 < b1 \<and> out ! (b1 - 1) \<noteq> CHR 0x0A
    then '' '' else [])"
  have e1: "e \<le> e1" "e1 \<le> length out" using assms(3) by (auto simp: e1_def)
  then have e2: "e \<le> e2" "e2 \<le> length out" using skip_spaces_le [OF e1(2)] by (auto simp: e2_def)
  have b1: "b1 \<le> b" by (simp add: b1_def back_spaces_le)
  have out': "out' = replace_range out b1 e2 glue" and pos: "pos = b1 + length glue"
    using assms(1) by (auto simp: erase_word_hole_def Let_def e1_def e2_def b1_def glue_def)
  have l: "length out' = b1 + length glue + (length out - e2)"
    unfolding out' using b1 e2 assms by (intro length_replace_range) auto
  show "length out' - pos < length out - b" "pos \<le> length out'"
    using l pos e2 assms by auto
qed

lemma find_hole_measure:
  assumes "find_phrase out nd pos = Some p"
  shows "length (fst (erase_word_hole out p (p + length nd))) - snd (erase_word_hole out p (p + length nd))
    < length out - pos"
proof -
  note b = find_phrase_bounds [OF assms]
  then have "p < p + length nd" by (cases nd) auto
  from erase_word_hole_measure(1) [OF prod.collapse [symmetric] this] b show ?thesis
    by (meson diff_le_mono2 less_le_trans)
qed

subsection \<open>The dictionary\<close>

definition dict_replacement :: "dictionary_entry \<Rightarrow> char \<Rightarrow> string" where
  "dict_replacement e c =
     (if is_lower (de_to e ! 0) \<and> is_upper c
      then (de_to e)[0 := to_upper_c (de_to e ! 0)] else de_to e)"

lemma length_dict_replacement [simp]: "length (dict_replacement e c) = length (de_to e)"
  by (simp add: dict_replacement_def)

function dict_loop :: "dictionary_entry \<Rightarrow> string \<Rightarrow> nat \<Rightarrow> string" where
  "dict_loop e out pos =
     (case find_phrase out (lower_s (de_from e)) pos of
        None \<Rightarrow> out
      | Some p \<Rightarrow>
          if de_to e = [] then
            dict_loop e (fst (erase_word_hole out p (p + length (de_from e))))
                        (snd (erase_word_hole out p (p + length (de_from e))))
          else
            (let r = dict_replacement e (out ! p)
             in dict_loop e (replace_range out p (p + length (de_from e)) r) (p + length r)))"
  by pat_completeness auto
termination
proof (relation "measure (\<lambda>(e, out, pos). length out - pos)", goal_cases)
  case (2 e out pos p)
  with find_hole_measure [OF 2(1)] show ?case by (simp add: split_beta)
next
  case (3 e out pos p r)
  note b = find_phrase_bounds [OF 3(1)]
  then have "0 < length (de_from e)" by (cases "de_from e") auto
  with b show ?case by (simp add: length_replace_range del: length_greater_0_conv) linarith
qed auto

declare dict_loop.simps [simp del]

definition apply_dictionary :: "pipeline \<Rightarrow> string \<Rightarrow> string" where
  "apply_dictionary tp text = foldl (\<lambda>out e. dict_loop e out 0) text (tp_dictionary tp)"

subsection \<open>Fillers\<close>

definition kEnglishFillers :: "string list" where
  "kEnglishFillers = [''um'', ''uh'', ''uhm'', ''erm'', ''hmm'', ''mhm'']"

function filler_loop :: "string \<Rightarrow> string \<Rightarrow> nat \<Rightarrow> string" where
  "filler_loop f out pos =
     (case find_phrase out f pos of
        None \<Rightarrow> out
      | Some p \<Rightarrow> filler_loop f (fst (erase_word_hole out p (p + length f)))
                             (snd (erase_word_hole out p (p + length f))))"
  by pat_completeness auto
termination
proof (relation "measure (\<lambda>(f, out, pos). length out - pos)", goal_cases)
  case (2 f out pos p)
  with find_hole_measure [OF 2(1)] show ?case by (simp add: split_beta)
qed auto

declare filler_loop.simps [simp del]

definition remove_fillers :: "pipeline \<Rightarrow> string \<Rightarrow> string" where
  "remove_fillers tp text =
     (if tp_language tp \<noteq> ''en'' \<and> tp_language tp \<noteq> ''auto'' \<and> tp_language tp \<noteq> [] then text
      else foldl (\<lambda>out f. filler_loop f out 0) text kEnglishFillers)"

subsection \<open>Spoken commands\<close>

definition spoken_command_table :: "(string \<times> string) list" where
  "spoken_command_table =
     [(''new paragraph'', [CHR 0x0A, CHR 0x0A]), (''new line'', [CHR 0x0A]), (''newline'', [CHR 0x0A])]"

definition clause_mark :: "char \<Rightarrow> bool" where
  "clause_mark c \<longleftrightarrow> c = CHR '','' \<or> c = CHR ''.'' \<or> c = CHR '';'' \<or> c = CHR '':''"

definition left_boundary :: "string \<Rightarrow> nat \<Rightarrow> bool" where
  "left_boundary out left' \<longleftrightarrow>
     left' = 0 \<or> clause_mark (out ! (left' - 1)) \<or> out ! (left' - 1) = CHR 0x0A"

definition right_boundary :: "string \<Rightarrow> nat \<Rightarrow> bool" where
  "right_boundary out right' \<longleftrightarrow>
     length out \<le> right' \<or> clause_mark (out ! right') \<or> out ! right' = CHR 0x0A \<or> is_upper (out ! right')"

text \<open>The part of the loop body after the boundary tests: where the erased range ends.\<close>

definition command_erase_end :: "string \<Rightarrow> nat \<Rightarrow> nat" where
  "command_erase_end out right' =
     (if right' < length out \<and> clause_mark (out ! right') then skip_spaces out (right' + 1) else right')"

definition own_clause :: "string \<Rightarrow> nat \<Rightarrow> nat \<Rightarrow> bool" where
  "own_clause out begin' end' \<longleftrightarrow>
     left_boundary out (back_spaces out begin') \<and> right_boundary out (skip_spaces out end')"

function command_loop :: "string \<Rightarrow> string \<Rightarrow> string \<Rightarrow> nat \<Rightarrow> string" where
  "command_loop phrase repl out pos =
     (case find_phrase out phrase pos of
        None \<Rightarrow> out
      | Some p \<Rightarrow>
          (let end' = p + length phrase;
               left' = back_spaces out p;
               right' = skip_spaces out end'
           in if \<not> own_clause out p end' then command_loop phrase repl out end'
              else command_loop phrase repl
                     (replace_range out left' (command_erase_end out right') repl) (left' + length repl)))"
  by pat_completeness auto

lemma command_erase_end_le:
  "r \<le> length out \<Longrightarrow> r \<le> command_erase_end out r \<and> command_erase_end out r \<le> length out"
  using skip_spaces_le [of "r + 1" out] by (auto simp: command_erase_end_def)

lemma command_range:
  assumes "find_phrase out phrase pos = Some p"
  shows "back_spaces out p \<le> p \<and> p + length phrase \<le> command_erase_end out (skip_spaces out (p + length phrase)) \<and>
    command_erase_end out (skip_spaces out (p + length phrase)) \<le> length out \<and> phrase \<noteq> [] \<and> pos \<le> p"
proof -
  note b = find_phrase_bounds [OF assms]
  then have s: "p + length phrase \<le> skip_spaces out (p + length phrase)"
    "skip_spaces out (p + length phrase) \<le> length out"
    using skip_spaces_le by auto
  from command_erase_end_le [OF s(2)] s(1) back_spaces_le [of out p] b show ?thesis by auto
qed

termination command_loop
proof (relation "measure (\<lambda>(phrase, repl, out, pos). length out - pos)", goal_cases)
  case (2 phrase repl out pos p e l r)
  note b = find_phrase_bounds [OF 2(1)]
  then have "0 < length phrase" by (cases phrase) auto
  then show ?case using b 2(2) by (simp del: length_greater_0_conv) linarith
next
  case (3 phrase repl out pos p e l r)
  note c = command_range [OF 3(1)]
  then have "0 < length phrase" by (cases phrase) auto
  with c 3(2-4) show ?case by (simp add: length_replace_range del: length_greater_0_conv) linarith
qed auto

declare command_loop.simps [simp del]

definition apply_spoken_commands :: "string \<Rightarrow> string" where
  "apply_spoken_commands text =
     foldl (\<lambda>out cmd. command_loop (fst cmd) (snd cmd) out 0) text spoken_command_table"

subsection \<open>Normalisation\<close>

definition is_blank :: "char \<Rightarrow> bool" where
  "is_blank c \<longleftrightarrow> c = CHR '' '' \<or> c = CHR 0x09"

definition closing_mark :: "char \<Rightarrow> bool" where
  "closing_mark c \<longleftrightarrow> c = CHR '','' \<or> c = CHR ''.'' \<or> c = CHR ''!'' \<or> c = CHR ''?'' \<or>
     c = CHR '';'' \<or> c = CHR '':'' \<or> c = CHR 0x0A"

text \<open>The first loop, on the text from position \<open>i\<close>; \<open>i = j - 1; continue;\<close> resumes at \<open>j\<close>.\<close>

function collapse_loop :: "string \<Rightarrow> string \<Rightarrow> string" where
  "collapse_loop out [] = out"
| "collapse_loop out (c # cs) =
     (if is_blank c then
        (let rest = dropWhile is_blank cs;
             at_edge = (out = [] \<or> last out = CHR 0x0A);
             before_punct = (rest \<noteq> [] \<and> closing_mark (hd rest))
         in collapse_loop (if \<not> at_edge \<and> \<not> before_punct then out @ '' '' else out) rest)
      else collapse_loop (out @ [c]) cs)"
  by pat_completeness auto
termination
  by (relation "measure (\<lambda>(out, cs). length cs)") (auto simp: le_imp_less_Suc length_dropWhile_le)

definition trim_right :: "string \<Rightarrow> string" where
  "trim_right s = rev (dropWhile is_space (rev s))"

fun capitalize_loop :: "bool \<Rightarrow> string \<Rightarrow> string" where
  "capitalize_loop cap [] = []"
| "capitalize_loop cap (c # cs) =
     (if is_alpha c then (if cap then to_upper_c c else c) # capitalize_loop False cs
      else if c = CHR ''.'' \<or> c = CHR ''!'' \<or> c = CHR ''?'' \<or> c = CHR 0x0A then c # capitalize_loop True cs
      else if \<not> is_space c \<and> c \<noteq> CHR 0x22 \<and> c \<noteq> CHR 0x27 then c # capitalize_loop False cs
      else c # capitalize_loop cap cs)"

definition normalize :: "string \<Rightarrow> string" where
  "normalize text = capitalize_loop True (trim_right (collapse_loop [] text))"

definition process :: "pipeline \<Rightarrow> string \<Rightarrow> string" where
  "process tp text =
     (let out1 = (if tp_dictionary tp \<noteq> [] then apply_dictionary tp text else text);
          out2 = (if fm_remove_fillers (tp_config tp) then remove_fillers tp out1 else out1);
          out3 = (if fm_spoken_commands (tp_config tp) then apply_spoken_commands out2 else out2)
      in normalize out3)"

end
