(* ===== verification/Transcript_Laws.thy ===== *)
theory Transcript_Laws
  imports Transcript_Pipeline
begin

text \<open>
  What the stages of the transcript pipeline do to the words of a text. \<open>words_of\<close> is the
  specification's view: the maximal runs of word characters. The in-place edits of the stages are
  shown to act on that list: a filler stage is a filter, a dictionary entry a substitution, and
  normalisation changes letter case and white space only.
\<close>

section \<open>The words of a text\<close>

fun word_split :: "string \<Rightarrow> string \<Rightarrow> string list" where
  "word_split cur [] = (if cur = [] then [] else [cur])"
| "word_split cur (c # cs) =
     (if is_word_char c then word_split (cur @ [c]) cs
      else (if cur = [] then [] else [cur]) @ word_split [] cs)"

definition words_of :: "string \<Rightarrow> string list" where
  "words_of s = word_split [] s"

definition word_cut :: "string \<Rightarrow> string \<Rightarrow> bool" where
  "word_cut a b \<longleftrightarrow> a = [] \<or> b = [] \<or> \<not> is_word_char (last a) \<or> \<not> is_word_char (hd b)"

lemma space_not_word: "is_space c \<Longrightarrow> \<not> is_word_char c"
  by (auto simp: is_word_char_def aw_char code_def)

lemma word_split_sep:
  "\<not> is_word_char c \<Longrightarrow> word_split cur (a @ c # b) = word_split cur a @ word_split [] b"
  by (induction cur a rule: word_split.induct) auto

lemma words_of_Nil [simp]: "words_of [] = []"
  by (simp add: words_of_def)

lemma words_of_sep: "\<not> is_word_char c \<Longrightarrow> words_of (a @ c # b) = words_of a @ words_of b"
  by (simp add: words_of_def word_split_sep)

lemma words_of_append: "word_cut a b \<Longrightarrow> words_of (a @ b) = words_of a @ words_of b"
proof -
  assume c: "word_cut a b"
  show ?thesis
  proof (cases "a = [] \<or> b = []")
    case False
    then obtain a' x y b' where ab: "a = a' @ [x]" "b = y # b'"
      by (metis neq_Nil_conv rev_exhaust)
    show ?thesis
    proof (cases "is_word_char x")
      case True
      with c ab have "\<not> is_word_char y" by (simp add: word_cut_def)
      from words_of_sep [OF this, of a b'] words_of_sep [OF this, of "[]" b'] ab show ?thesis by simp
    next
      case False
      from words_of_sep [OF this, of a' b] words_of_sep [OF this, of a' "[]"] ab show ?thesis by simp
    qed
  qed auto
qed

lemma words_of_seps: "\<forall>c \<in> set s. \<not> is_word_char c \<Longrightarrow> words_of s = []"
  by (induction s) (auto simp: words_of_def)

lemma word_split_word: "\<forall>c \<in> set w. is_word_char c \<Longrightarrow> word_split cur w = (if cur @ w = [] then [] else [cur @ w])"
  by (induction w arbitrary: cur) auto

lemma words_of_word: "\<lbrakk>\<forall>c \<in> set w. is_word_char c; w \<noteq> []\<rbrakk> \<Longrightarrow> words_of w = [w]"
  by (simp add: words_of_def word_split_word)

text \<open>A word of a text is a run of word characters with no word character on either side.\<close>

lemma word_split_at:
  "\<lbrakk>w \<in> set (word_split cur s); \<forall>c \<in> set cur. is_word_char c\<rbrakk> \<Longrightarrow>
   w \<noteq> [] \<and> (\<forall>c \<in> set w. is_word_char c) \<and>
   (\<exists>a b. cur @ s = a @ w @ b \<and> (a = [] \<or> \<not> is_word_char (last a)) \<and> (b = [] \<or> \<not> is_word_char (hd b)))"
proof (induction cur s rule: word_split.induct)
  case (1 cur)
  then show ?case by (auto split: if_splits intro: exI [where x = "[]"])
next
  case (2 cur c cs)
  show ?case
  proof (cases "is_word_char c")
    case True
    with 2(1) [OF True] 2(3,4) show ?thesis by auto
  next
    case False
    then consider "w = cur" "cur \<noteq> []" | "w \<in> set (word_split [] cs)"
      using 2(3) by (auto split: if_splits)
    then show ?thesis
    proof cases
      case 1
      have "cur @ c # cs = [] @ w @ (c # cs)" using 1 by simp
      with 1 2(4) False show ?thesis by (metis list.sel(1))
    next
      case i: 2
      from 2(2) [OF False i] obtain a b where ab: "w \<noteq> []" "\<forall>c \<in> set w. is_word_char c"
        "cs = a @ w @ b" "a = [] \<or> \<not> is_word_char (last a)" "b = [] \<or> \<not> is_word_char (hd b)"
        by auto
      have "cur @ c # cs = (cur @ c # a) @ w @ b" "\<not> is_word_char (last (cur @ c # a))"
        using ab(3,4) False by auto
      with ab show ?thesis by blast
    qed
  qed
qed

lemma words_of_at:
  "w \<in> set (words_of s) \<Longrightarrow> w \<noteq> [] \<and> (\<forall>c \<in> set w. is_word_char c) \<and>
   (\<exists>a b. s = a @ w @ b \<and> (a = [] \<or> \<not> is_word_char (last a)) \<and> (b = [] \<or> \<not> is_word_char (hd b)))"
  using word_split_at [of w "[]" s] by (simp add: words_of_def)

lemma occurs_at_append: "occurs_at w (u @ w @ r) (length u)"
  by (simp add: occurs_at_def)

lemma word_bounded_split:
  "word_bounded (u @ w @ r) (length u) (length u + length w) \<longleftrightarrow>
     (u = [] \<or> \<not> is_word_char (last u)) \<and> (r = [] \<or> \<not> is_word_char (hd r))"
proof -
  have "u \<noteq> [] \<Longrightarrow> (u @ w @ r) ! (length u - 1) = last u"
    by (simp add: nth_append last_conv_nth)
  moreover have "r \<noteq> [] \<Longrightarrow> (u @ w @ r) ! (length u + length w) = hd r"
    by (simp add: nth_append hd_conv_nth)
  ultimately show ?thesis by (auto simp: word_bounded_def)
qed

text \<open>A word of a segment cut off from its surroundings is found by the phrase search.\<close>

lemma word_phrase_at:
  assumes "word_cut x (s @ y)" "word_cut (x @ s) y" "w \<in> set (words_of s)"
  shows "\<exists>q. length x \<le> q \<and> q + length w \<le> length x + length s \<and> phrase_at (x @ s @ y) (lower_s w) q"
proof -
  from words_of_at [OF assms(3)] obtain a b where ab: "w \<noteq> []" "\<forall>c \<in> set w. is_word_char c"
    "s = a @ w @ b" "a = [] \<or> \<not> is_word_char (last a)" "b = [] \<or> \<not> is_word_char (hd b)" by auto
  have t: "x @ s @ y = (x @ a) @ w @ (b @ y)" using ab(3) by simp
  have l: "x @ a = [] \<or> \<not> is_word_char (last (x @ a))"
    using assms(1) ab by (cases "a = []") (auto simp: word_cut_def)
  have r: "b @ y = [] \<or> \<not> is_word_char (hd (b @ y))"
    using assms(2) ab by (cases "b = []") (auto simp: word_cut_def)
  have "occurs_at (lower_s w) (lower_s (x @ s @ y)) (length (x @ a))"
    unfolding t using occurs_at_append [of "lower_s w" "lower_s (x @ a)" "lower_s (b @ y)"] by simp
  moreover have "word_bounded (x @ s @ y) (length (x @ a)) (length (x @ a) + length w)"
    unfolding t word_bounded_split using l r by simp
  ultimately have "phrase_at (x @ s @ y) (lower_s w) (length (x @ a))" by (simp add: phrase_at_def)
  then show ?thesis using ab(3) by (intro exI [where x = "length (x @ a)"]) simp
qed

lemma word_char_lower: "is_word_char (to_lower_c c) = is_word_char c"
  by (auto simp: is_word_char_def to_lower_c_def aw_char code_char_of code_inj [symmetric])

lemma phrase_at_split:
  assumes "phrase_at out f p" "f \<noteq> []" "\<forall>c \<in> set f. is_word_char c"
  obtains u w r where "out = u @ w @ r" "length u = p" "lower_s w = f" "w \<noteq> []"
    "\<forall>c \<in> set w. is_word_char c" "u = [] \<or> \<not> is_word_char (last u)" "r = [] \<or> \<not> is_word_char (hd r)"
proof -
  let ?u = "take p out" and ?w = "take (length f) (drop p out)" and ?r = "drop (p + length f) out"
  have o: "occurs_at f (lower_s out) p" and b: "word_bounded out p (p + length f)"
    using assms(1) by (auto simp: phrase_at_def)
  have le: "p + length f \<le> length out" using o by (simp add: occurs_at_def)
  have out: "out = ?u @ ?w @ ?r" by (metis append_take_drop_id drop_drop add.commute)
  have lw: "length ?w = length f" "length ?u = p" using le by auto
  have w: "lower_s ?w = f" using o by (simp add: occurs_at_def lower_s_drop_take)
  then have "\<forall>c \<in> set ?w. is_word_char c"
    using assms(3) by (metis (no_types, lifting) image_eqI list.set_map lower_s_def word_char_lower)
  moreover have "(?u = [] \<or> \<not> is_word_char (last ?u)) \<and> (?r = [] \<or> \<not> is_word_char (hd ?r))"
    using b word_bounded_split [of ?u ?w ?r] unfolding out [symmetric] lw by blast
  moreover have "?w \<noteq> []" using lw assms(2) by fastforce
  ultimately show thesis using that out w lw(2) by blast
qed

section \<open>Holes\<close>

lemma drop_skip_spaces: "n \<le> length out \<Longrightarrow> drop (skip_spaces out n) out = dropWhile is_space (drop n out)"
  by (simp add: skip_spaces_def dropWhile_eq_drop add.commute)

lemma take_back_spaces: "n \<le> length out \<Longrightarrow> take (back_spaces out n) out = trim_right (take n out)"
proof (induction out n rule: back_spaces.induct)
  case (2 out n)
  then show ?case by (auto simp: take_Suc_conv_app_nth trim_right_def)
qed (simp add: trim_right_def)

lemma trim_right_split:
  obtains z where "s = trim_right s @ z" "\<forall>c \<in> set z. is_space c"
proof -
  have "s = rev (dropWhile is_space (rev s)) @ rev (takeWhile is_space (rev s))"
    by (metis rev_append rev_rev_ident takeWhile_dropWhile_id)
  moreover have "\<forall>c \<in> set (rev (takeWhile is_space (rev s))). is_space c"
    by (auto dest: set_takeWhileD)
  ultimately show thesis using that unfolding trim_right_def by blast
qed

lemma trim_right_last: "trim_right s \<noteq> [] \<Longrightarrow> \<not> is_space (last (trim_right s))"
  using hd_dropWhile [of is_space "rev s"] by (simp add: trim_right_def last_rev)

lemma word_cut_seps: "\<lbrakk>z \<noteq> []; \<not> is_word_char (hd z)\<rbrakk> \<Longrightarrow> word_cut a z"
  by (simp add: word_cut_def)

lemma words_of_app_seps: "\<forall>c \<in> set z. \<not> is_word_char c \<Longrightarrow> words_of (a @ z) = words_of a"
  using words_of_append [of a z] words_of_seps [of z] by (cases z) (auto simp: word_cut_def)

lemma words_of_seps_app: "\<forall>c \<in> set z. \<not> is_word_char c \<Longrightarrow> words_of (z @ a) = words_of a"
  using words_of_append [of z a] words_of_seps [of z] by (cases z rule: rev_cases) (auto simp: word_cut_def)

lemma words_of_trim_right: "words_of (trim_right s) = words_of s"
  using trim_right_split [of s] words_of_app_seps space_not_word by metis

text \<open>
  Erasing \<open>w\<close> out of \<open>u @ w @ r\<close> keeps the words of \<open>u\<close> before the new position and those of \<open>r\<close>
  after it, and never joins two words; the test \<open>out[begin - 1] != '\n'\<close> of the code decides
  nothing, since the character before the hole is not white space.
\<close>

lemma erase_word_hole_words:
  assumes "erase_word_hole (u @ w @ r) (length u) (length u + length w) = (out, pos)"
  shows "\<exists>A D. out = A @ D \<and> pos = length A \<and> words_of A = words_of u \<and> words_of D = words_of r \<and> word_cut A D"
proof -
  let ?s = "u @ w @ r"
  let ?e0 = "length u + length w"
  define e1 where "e1 = (if ?e0 < length ?s \<and> (?s ! ?e0 = CHR '','' \<or> ?s ! ?e0 = CHR '';'') then ?e0 + 1 else ?e0)"
  define e2 where "e2 = skip_spaces ?s e1"
  define b1 where "b1 = back_spaces ?s (length u)"
  define wa where "wa \<longleftrightarrow> e2 < length ?s \<and> is_word_char (?s ! e2)"
  define glue where "glue = (if wa \<and> 0 < b1 \<and> ?s ! (b1 - 1) \<noteq> CHR 0x0A then '' '' else [])"
  have op: "out = take b1 ?s @ glue @ drop e2 ?s" "pos = b1 + length glue"
    using assms by (auto simp: erase_word_hole_def Let_def replace_range_def e1_def e2_def b1_def glue_def wa_def)
  have A: "take b1 ?s = trim_right u" unfolding b1_def by (subst take_back_spaces) simp_all
  have b1: "b1 = length (trim_right u)"
    using A back_spaces_le [of ?s "length u"] by (metis (no_types, lifting) A b1_def le_add1 le_trans length_append length_take min.absorb2)
  have "\<exists>z. drop e1 ?s = drop (length z) r \<and> r = z @ drop (length z) r \<and> (\<forall>c \<in> set z. \<not> is_word_char c)"
  proof (cases "?e0 < length ?s \<and> (?s ! ?e0 = CHR '','' \<or> ?s ! ?e0 = CHR '';'')")
    case True
    then obtain c r' where r: "r = c # r'" "c = CHR '','' \<or> c = CHR '';''"
      by (cases r) (auto simp: nth_append)
    with True have "e1 = ?e0 + 1" by (simp add: e1_def)
    then have "drop e1 ?s = drop (length [c]) r" "r = [c] @ drop (length [c]) r" "\<forall>x \<in> set [c]. \<not> is_word_char x"
      using r by (auto simp: is_word_char_def aw_char code_def)
    then show ?thesis by blast
  next
    case False
    then show ?thesis by (intro exI [where x = "[]"]) (auto simp: e1_def)
  qed
  then obtain z where z: "drop e1 ?s = drop (length z) r" "r = z @ drop (length z) r" "\<forall>c \<in> set z. \<not> is_word_char c"
    by blast
  have e1: "e1 \<le> length ?s" by (auto simp: e1_def simp del: length_append) simp_all
  have D: "drop e2 ?s = dropWhile is_space (drop e1 ?s)" unfolding e2_def by (rule drop_skip_spaces [OF e1])
  have "words_of (drop e2 ?s) = words_of (takeWhile is_space (drop e1 ?s) @ dropWhile is_space (drop e1 ?s))"
    unfolding D by (subst words_of_seps_app) (auto dest: set_takeWhileD simp: space_not_word)
  also have "\<dots> = words_of (drop (length z) r)" using z(1) by simp
  also have "\<dots> = words_of (z @ drop (length z) r)" using words_of_seps_app [OF z(3)] by simp
  also have "\<dots> = words_of r" using z(2) by simp
  finally have wD: "words_of (drop e2 ?s) = words_of r" .
  have nl: "?s ! (b1 - 1) \<noteq> CHR 0x0A" if "0 < b1"
  proof -
    have "?s ! (b1 - 1) = last (trim_right u)"
      using that b1 A by (metis diff_less last_conv_nth length_greater_0_conv less_one nth_take)
    moreover have "\<not> is_space (last (trim_right u))" using trim_right_last that b1 by blast
    ultimately show ?thesis by (auto simp: aw_char code_def)
  qed
  have wa: "wa \<longleftrightarrow> drop e2 ?s \<noteq> [] \<and> is_word_char (hd (drop e2 ?s))"
    unfolding wa_def using hd_drop_conv_nth [of e2 ?s] by (cases "e2 < length ?s") (simp_all del: drop_append)
  have cut: "word_cut (trim_right u @ glue) (drop e2 ?s)"
  proof (cases "wa \<and> 0 < b1")
    case True
    with nl have "glue = '' ''" by (simp add: glue_def)
    then show ?thesis by (simp add: word_cut_def is_word_char_def aw_char code_def)
  next
    case False
    then have "glue = []" "\<not> wa \<or> trim_right u = []" using b1 by (auto simp: glue_def)
    then show ?thesis using wa by (auto simp: word_cut_def)
  qed
  have wA: "words_of (trim_right u @ glue) = words_of u"
    by (subst words_of_app_seps) (auto simp: glue_def is_word_char_def aw_char code_def words_of_trim_right)
  show ?thesis
    using op A b1 wA wD cut by (intro exI [where x = "trim_right u @ glue"] exI [where x = "drop e2 ?s"]) simp
qed

section \<open>Dictionary entries substitute words\<close>

text \<open>What an entry whose spoken side is one word does to a word.\<close>

definition dict_word :: "dictionary_entry \<Rightarrow> string \<Rightarrow> string list" where
  "dict_word e w = (if lower_s w = lower_s (de_from e) then words_of (dict_replacement e (hd w)) else [w])"

definition one_word :: "string \<Rightarrow> bool" where
  "one_word w \<longleftrightarrow> w \<noteq> [] \<and> (\<forall>c \<in> set w. is_word_char c)"

definition subst_words :: "dictionary_entry \<Rightarrow> string list \<Rightarrow> string list" where
  "subst_words e ws = concat (map (dict_word e) ws)"

lemma subst_words_append [simp]: "subst_words e (xs @ ys) = subst_words e xs @ subst_words e ys"
  by (simp add: subst_words_def)

lemma subst_words_none: "\<forall>w \<in> set ws. lower_s w \<noteq> lower_s (de_from e) \<Longrightarrow> subst_words e ws = ws"
  by (induction ws) (auto simp: subst_words_def dict_word_def)

lemma dict_loop_words:
  assumes "one_word (de_from e)" "word_cut (take pos out) (drop pos out)" "pos \<le> length out"
  shows "words_of (dict_loop e out pos) = words_of (take pos out) @ subst_words e (words_of (drop pos out))"
  using assms
proof (induction e out pos rule: dict_loop.induct)
  case (1 e out pos)
  let ?f = "lower_s (de_from e)" and ?n = "length (de_from e)"
  have f: "?f \<noteq> []" "\<forall>c \<in> set ?f. is_word_char c"
    using 1(3) by (auto simp: one_word_def lower_s_def word_char_lower)
  show ?case
  proof (cases "find_phrase out ?f pos")
    case None
    then have no: "\<not> phrase_at out ?f q" if "pos \<le> q" for q using that f by (auto simp: find_phrase_None)
    have "lower_s w \<noteq> ?f" if w: "w \<in> set (words_of (drop pos out))" for w
    proof
      assume "lower_s w = ?f"
      with word_phrase_at [of "take pos out" "drop pos out" "[]" w] w 1(4,5)
      show False using no by (auto simp: word_cut_def)
    qed
    then have "subst_words e (words_of (drop pos out)) = words_of (drop pos out)" by (intro subst_words_none) blast
    moreover have "dict_loop e out pos = out" using None by (subst dict_loop.simps) simp
    ultimately show ?thesis using words_of_append [OF 1(4)] by simp
  next
    case (Some p)
    then have p: "pos \<le> p" "phrase_at out ?f p" "\<And>q. pos \<le> q \<Longrightarrow> q < p \<Longrightarrow> \<not> phrase_at out ?f q"
      by (auto simp: find_phrase_Some)
    obtain u w r where s: "out = u @ w @ r" "length u = p" "lower_s w = ?f" "w \<noteq> []"
      "\<forall>c \<in> set w. is_word_char c" "u = [] \<or> \<not> is_word_char (last u)" "r = [] \<or> \<not> is_word_char (hd r)"
      using phrase_at_split [OF p(2) f] by metis
    have n: "?n = length w" using s(3) by (metis lower_s_simps(4))
    define x where "x = take pos u"
    define g where "g = drop pos u"
    have u: "u = x @ g" by (simp add: x_def g_def)
    have lx: "length x = pos" using p(1) s(2) by (simp add: x_def)
    have xs: "take pos out = x" "drop pos out = g @ w @ r" using lx s(1) u by auto
    have cx: "word_cut x (g @ w @ r)" using 1(4) xs by simp
    have cg: "word_cut (x @ g) (w @ r)" using s(6) u by (auto simp: word_cut_def)
    have cw: "word_cut g (w @ r)" "word_cut w r"
      using s(6,7) u by (cases "g = []", auto simp: word_cut_def)
    have cxg: "word_cut x g" using cx by (cases "g = []") (auto simp: word_cut_def)
    have ng: "lower_s v \<noteq> ?f" if v: "v \<in> set (words_of g)" for v
    proof
      assume "lower_s v = ?f"
      with word_phrase_at [of x g "w @ r" v] v cx cg obtain q where
        q: "length x \<le> q" "q + length v \<le> length x + length g" "phrase_at out ?f q"
        using s(1) u by auto
      moreover have "v \<noteq> []" using words_of_at [OF v] by simp
      ultimately have "q < p" using s(2) u by (cases v) auto
      with q p(3) lx show False by auto
    qed
    have ww: "words_of w = [w]" using words_of_word s(4,5) by simp
    have wd: "words_of (drop pos out) = words_of g @ [w] @ words_of r"
      using xs words_of_append [OF cw(1)] words_of_append [OF cw(2)] ww by simp
    have sg: "subst_words e (words_of g) = words_of g" using ng by (intro subst_words_none) blast
    have sw: "subst_words e [w] = words_of (dict_replacement e (hd w))"
      using s(3) by (simp add: subst_words_def dict_word_def)
    have goal: "words_of (take pos out) @ subst_words e (words_of (drop pos out)) =
        words_of u @ words_of (dict_replacement e (hd w)) @ subst_words e (words_of r)"
      using wd sg sw xs u words_of_append [OF cxg] by (simp del: append.simps)
    show ?thesis
    proof (cases "de_to e = []")
      case True
      obtain out' pos' where h: "erase_word_hole out p (p + ?n) = (out', pos')" by fastforce
      from erase_word_hole_words [of u w r out' pos'] h s(1,2) n obtain A D where
        AD: "out' = A @ D" "pos' = length A" "words_of A = words_of u" "words_of D = words_of r" "word_cut A D"
        by auto
      have "dict_loop e out pos = dict_loop e out' pos'"
        using Some True h by (subst dict_loop.simps) simp
      also have "words_of \<dots> = words_of u @ subst_words e (words_of r)"
        using 1(1) [OF Some True] 1(3) h AD by simp
      finally show ?thesis using goal True by (simp add: dict_replacement_def)
    next
      case False
      let ?t = "dict_replacement e (out ! p)"
      have hd: "out ! p = hd w" using s(1,2,4) by (metis append_Cons hd_append2 hd_conv_nth list.exhaust_sel nth_append_length)
      have e: "dict_loop e out pos = dict_loop e (u @ ?t @ r) (p + length ?t)"
        using Some False n s(1,2) by (subst dict_loop.simps) (simp add: Let_def replace_range_def)
      have cut: "word_cut (u @ ?t) r" "word_cut u ?t" using s(6,7) by (auto simp: word_cut_def)
      have "words_of (dict_loop e (u @ ?t @ r) (p + length ?t)) = words_of (u @ ?t) @ subst_words e (words_of r)"
        using 1(2) [OF Some False refl] 1(3) n s(1,2) cut by (simp add: replace_range_def)
      then show ?thesis unfolding e goal using words_of_append [OF cut(2)] hd by simp
    qed
  qed
qed

lemma dict_loop_words_0: "one_word (de_from e) \<Longrightarrow> words_of (dict_loop e out 0) = subst_words e (words_of out)"
  using dict_loop_words [of e 0 out] by (simp add: word_cut_def)

lemma dictionary_words:
  "\<forall>e \<in> set es. one_word (de_from e) \<Longrightarrow>
   words_of (foldl (\<lambda>out e. dict_loop e out 0) t es) = foldl (\<lambda>ws e. subst_words e ws) (words_of t) es"
  by (induction es arbitrary: t) (auto simp: dict_loop_words_0)

section \<open>Fillers are filtered\<close>

text \<open>A filler is a deletion entry.\<close>

lemma filler_loop_dict:
  "lower_s f = f \<Longrightarrow> filler_loop f out pos = dict_loop \<lparr>de_from = f, de_to = []\<rparr> out pos"
proof (induction f out pos rule: filler_loop.induct)
  case (1 f out pos)
  then show ?case
    by (subst filler_loop.simps, subst dict_loop.simps) (auto split: option.split)
qed

lemma subst_words_filler:
  "lower_s f = f \<Longrightarrow> subst_words \<lparr>de_from = f, de_to = []\<rparr> ws = filter (\<lambda>w. lower_s w \<noteq> f) ws"
  by (induction ws) (auto simp: subst_words_def dict_word_def dict_replacement_def)

lemma filler_loop_words:
  "\<lbrakk>one_word f; lower_s f = f\<rbrakk> \<Longrightarrow> words_of (filler_loop f out 0) = filter (\<lambda>w. lower_s w \<noteq> f) (words_of out)"
  by (simp add: filler_loop_dict dict_loop_words_0 subst_words_filler)

lemma fillers_words:
  "\<forall>f \<in> set fs. one_word f \<and> lower_s f = f \<Longrightarrow>
   words_of (foldl (\<lambda>out f. filler_loop f out 0) t fs) = filter (\<lambda>w. lower_s w \<notin> set fs) (words_of t)"
proof (induction fs arbitrary: t)
  case (Cons f fs)
  then show ?case by (auto simp: filler_loop_words intro!: filter_cong)
qed simp

lemma english_fillers: "\<forall>f \<in> set kEnglishFillers. one_word f \<and> lower_s f = f"
  by (simp add: kEnglishFillers_def one_word_def is_word_char_def to_lower_c_def aw_char code_def)

section \<open>Spoken commands\<close>

lemma command_loop_length: "length repl \<le> length phrase \<Longrightarrow> length (command_loop phrase repl out pos) \<le> length out"
proof (induction phrase repl out pos rule: command_loop.induct)
  case (1 phrase repl out pos)
  show ?case
  proof (cases "find_phrase out phrase pos")
    case None
    then show ?thesis by (subst command_loop.simps) simp
  next
    case (Some p)
    let ?e = "p + length phrase"
    let ?x = "command_erase_end out (skip_spaces out ?e)"
    note c = command_range [OF Some]
    show ?thesis
    proof (cases "own_clause out p ?e")
      case True
      have "length (replace_range out (back_spaces out p) ?x repl) \<le> length out"
        using c 1(3) by (subst length_replace_range) auto
      moreover have "length (command_loop phrase repl (replace_range out (back_spaces out p) ?x repl)
          (back_spaces out p + length repl)) \<le> length (replace_range out (back_spaces out p) ?x repl)"
        using 1(2) [OF Some refl refl refl] True 1(3) by simp
      ultimately show ?thesis using Some True by (subst command_loop.simps) (simp add: Let_def)
    next
      case False
      then show ?thesis using 1(1) [OF Some refl refl refl] 1(3) Some
        by (subst command_loop.simps) (simp add: Let_def)
    qed
  qed
qed

text \<open>Two whole-word occurrences of a command phrase never overlap.\<close>

definition no_overlap :: "string \<Rightarrow> bool" where
  "no_overlap phrase \<longleftrightarrow>
     (\<forall>k \<in> {1..<length phrase}. is_word_char (phrase ! (k - 1)) \<or> phrase ! k \<noteq> phrase ! 0)"

lemma phrase_at_nth:
  "phrase_at out f p \<Longrightarrow> i < length f \<Longrightarrow> p + length f \<le> length out \<and> to_lower_c (out ! (p + i)) = f ! i"
  by (auto simp: phrase_at_def occurs_at_def lower_s_def list_eq_iff_nth_eq)

lemma no_overlap_skip:
  assumes "no_overlap f" "phrase_at out f p" "p < q" "q < p + length f"
  shows "\<not> phrase_at out f q"
proof
  assume q: "phrase_at out f q"
  let ?k = "q - p"
  have k: "1 \<le> ?k" "?k < length f" "0 < length f" using assms(3,4) by auto
  have "to_lower_c (out ! (p + (?k - 1))) = f ! (?k - 1)" "to_lower_c (out ! (p + ?k)) = f ! ?k"
    using phrase_at_nth [OF assms(2), of "?k - 1"] phrase_at_nth [OF assms(2), of ?k] k by linarith+
  moreover have "to_lower_c (out ! (q + 0)) = f ! 0" using phrase_at_nth [OF q] k by blast
  ultimately have "to_lower_c (out ! (q - 1)) = f ! (?k - 1)" "f ! ?k = f ! 0"
    using k assms(3) by auto
  moreover have "\<not> is_word_char (out ! (q - 1))"
    using q assms(3) by (auto simp: phrase_at_def word_bounded_def)
  ultimately show False using assms(1) k unfolding no_overlap_def
    by (metis atLeastLessThan_iff word_char_lower)
qed

text \<open>An occurrence of a phrase that forms its own clause.\<close>

definition command_at :: "string \<Rightarrow> string \<Rightarrow> nat \<Rightarrow> bool" where
  "command_at out phrase p \<longleftrightarrow> phrase_at out phrase p \<and> own_clause out p (p + length phrase)"

lemma command_loop_same:
  assumes "no_overlap phrase" "length repl < length phrase"
  shows "command_loop phrase repl out pos = out \<longleftrightarrow> (\<forall>p \<ge> pos. \<not> command_at out phrase p)"
  using assms
proof (induction phrase repl out pos rule: command_loop.induct)
  case (1 phrase repl out pos)
  have ne: "phrase \<noteq> []" using 1(4) by auto
  show ?case
  proof (cases "find_phrase out phrase pos")
    case None
    then have "command_loop phrase repl out pos = out" by (subst command_loop.simps) simp
    with None ne show ?thesis by (auto simp: find_phrase_None command_at_def)
  next
    case (Some p)
    note p = Some [unfolded find_phrase_Some]
    let ?e = "p + length phrase"
    let ?x = "command_erase_end out (skip_spaces out ?e)"
    note c = command_range [OF Some]
    show ?thesis
    proof (cases "own_clause out p ?e")
      case True
      let ?o = "replace_range out (back_spaces out p) ?x repl"
      have "command_loop phrase repl out pos = command_loop phrase repl ?o (back_spaces out p + length repl)"
        using Some True by (subst command_loop.simps) (simp add: Let_def)
      moreover have "length ?o < length out"
        using c 1(4) by (subst length_replace_range) auto
      moreover have "length (command_loop phrase repl ?o (back_spaces out p + length repl)) \<le> length ?o"
        using 1(4) by (intro command_loop_length) simp
      ultimately have "command_loop phrase repl out pos \<noteq> out" by (metis not_less)
      with True p show ?thesis by (auto simp: command_at_def)
    next
      case False
      have "command_loop phrase repl out pos = command_loop phrase repl out ?e"
        using Some False by (subst command_loop.simps) (simp add: Let_def)
      moreover have "\<not> command_at out phrase q" if "pos \<le> q" "q < ?e" for q
      proof (cases "q \<le> p")
        case True
        then show ?thesis using p that False by (cases "q = p") (auto simp: command_at_def)
      next
        case False
        then show ?thesis using no_overlap_skip [OF 1(3)] p that by (auto simp: command_at_def)
      qed
      moreover have "command_loop phrase repl out ?e = out \<longleftrightarrow> (\<forall>q \<ge> ?e. \<not> command_at out phrase q)"
        using 1(1) [OF Some refl refl refl] False 1(3,4) by simp
      ultimately show ?thesis using p by (metis le_add1 le_trans not_less)
    qed
  qed
qed

lemma command_loop_shrinks:
  "length repl < length phrase \<Longrightarrow> command_loop phrase repl out pos \<noteq> out \<Longrightarrow>
   length (command_loop phrase repl out pos) < length out"
proof (induction phrase repl out pos rule: command_loop.induct)
  case (1 phrase repl out pos)
  show ?case
  proof (cases "find_phrase out phrase pos")
    case None
    with 1(4) show ?thesis by (subst (asm) command_loop.simps) simp
  next
    case (Some p)
    let ?e = "p + length phrase"
    let ?o = "replace_range out (back_spaces out p) (command_erase_end out (skip_spaces out ?e)) repl"
    note c = command_range [OF Some]
    show ?thesis
    proof (cases "own_clause out p ?e")
      case True
      have "command_loop phrase repl out pos = command_loop phrase repl ?o (back_spaces out p + length repl)"
        using Some True by (subst command_loop.simps) (simp add: Let_def)
      moreover have "length ?o < length out"
        using c 1(3) by (subst length_replace_range) auto
      moreover have "length (command_loop phrase repl ?o (back_spaces out p + length repl)) \<le> length ?o"
        using 1(3) by (intro command_loop_length) simp
      ultimately show ?thesis by simp
    next
      case False
      then have "command_loop phrase repl out pos = command_loop phrase repl out ?e"
        using Some by (subst command_loop.simps) (simp add: Let_def)
      with 1(1) [OF Some refl refl refl] False 1(3,4) show ?thesis by simp
    qed
  qed
qed

lemma command_table_ok: "\<forall>c \<in> set spoken_command_table. no_overlap (fst c) \<and> length (snd c) < length (fst c)"
proof -
  have a: "no_overlap f \<longleftrightarrow> (\<forall>k \<in> set [1..<length f]. is_word_char (f ! (k - 1)) \<or> f ! k \<noteq> f ! 0)" for f
    by (simp only: no_overlap_def set_upt)
  show ?thesis unfolding a spoken_command_table_def by code_simp
qed

lemma command_fold_same:
  "\<forall>c \<in> set cs. no_overlap (fst c) \<and> length (snd c) < length (fst c) \<Longrightarrow>
   length (foldl (\<lambda>out cmd. command_loop (fst cmd) (snd cmd) out 0) t cs) \<le> length t \<and>
   (foldl (\<lambda>out cmd. command_loop (fst cmd) (snd cmd) out 0) t cs = t \<longleftrightarrow>
     (\<forall>c \<in> set cs. \<forall>p. \<not> command_at t (fst c) p))"
proof (induction cs arbitrary: t)
  case (Cons c cs)
  let ?u = "command_loop (fst c) (snd c) t 0"
  let ?F = "\<lambda>t. foldl (\<lambda>out cmd. command_loop (fst cmd) (snd cmd) out 0) t cs"
  have IH: "length (?F ?u) \<le> length ?u" "?F ?u = ?u \<longleftrightarrow> (\<forall>c \<in> set cs. \<forall>p. \<not> command_at ?u (fst c) p)"
    using Cons by auto
  have same: "?u = t \<longleftrightarrow> (\<forall>p. \<not> command_at t (fst c) p)"
    using command_loop_same [of "fst c" "snd c" t 0] Cons(2) by simp
  have le: "length ?u \<le> length t" using command_loop_length Cons(2) by (simp add: less_imp_le)
  have lt: "?u \<noteq> t \<Longrightarrow> length ?u < length t" using command_loop_shrinks Cons(2) by simp
  show ?case
  proof (cases "?u = t")
    case True
    with IH same show ?thesis by simp
  next
    case False
    with lt IH(1) have "length (?F ?u) < length t" by simp
    then show ?thesis using False same by auto
  qed
qed simp

section \<open>Normalisation\<close>

text \<open>The collapse loop without its accumulator; \<open>e\<close> is the test \<open>at_edge\<close>.\<close>

function collapse :: "bool \<Rightarrow> string \<Rightarrow> string" where
  "collapse e [] = []"
| "collapse e (c # cs) =
     (if is_blank c then
        (let rest = dropWhile is_blank cs
         in if \<not> e \<and> \<not> (rest \<noteq> [] \<and> closing_mark (hd rest)) then CHR '' '' # collapse False rest
            else collapse e rest)
      else c # collapse (c = CHR 0x0A) cs)"
  by pat_completeness auto
termination
  by (relation "measure (\<lambda>(e, cs). length cs)") (auto simp: le_imp_less_Suc length_dropWhile_le)

lemma blank_newline: "is_blank c \<Longrightarrow> c \<noteq> CHR 0x0A"
  by (auto simp: is_blank_def)

lemma blank_not_word: "is_blank c \<Longrightarrow> \<not> is_word_char c"
  by (auto simp: is_blank_def is_word_char_def aw_char code_def)

lemma collapse_loop_collapse:
  "collapse_loop out cs = out @ collapse (out = [] \<or> last out = CHR 0x0A) cs"
  by (induction out cs rule: collapse_loop.induct) (auto simp: Let_def)

text \<open>
  Tidy text: a blank is a single space, not at the start of a line, and the character after it
  (when there is one) is neither a blank nor a closing mark nor a newline.
\<close>

fun tidy :: "bool \<Rightarrow> string \<Rightarrow> bool" where
  "tidy e [] = True"
| "tidy e (c # cs) =
     ((is_blank c \<longrightarrow> c = CHR '' '' \<and> \<not> e \<and> (cs \<noteq> [] \<longrightarrow> \<not> is_blank (hd cs) \<and> \<not> closing_mark (hd cs))) \<and>
      tidy (c = CHR 0x0A) cs)"

lemma collapse_hd:
  "\<lbrakk>cs \<noteq> []; \<not> is_blank (hd cs)\<rbrakk> \<Longrightarrow> collapse e cs \<noteq> [] \<and> hd (collapse e cs) = hd cs"
  by (cases cs) auto

lemma collapse_rest_hd:
  "rest = dropWhile is_blank cs \<Longrightarrow> collapse e rest \<noteq> [] \<Longrightarrow>
     rest \<noteq> [] \<and> hd (collapse e rest) = hd rest \<and> \<not> is_blank (hd rest)"
  using hd_dropWhile [of is_blank cs] collapse_hd [of rest e] by (cases "rest = []") auto

lemma tidy_collapse: "tidy e (collapse e cs)"
proof (induction e cs rule: collapse.induct)
  case (2 e c cs)
  let ?r = "dropWhile is_blank cs"
  show ?case
  proof (cases "is_blank c \<and> \<not> e \<and> \<not> (?r \<noteq> [] \<and> closing_mark (hd ?r))")
    case True
    with 2(1) [OF _ refl] have "tidy False (collapse False ?r)" by auto
    with True collapse_rest_hd [OF refl, of False cs] show ?thesis
      by (auto simp: Let_def)
  next
    case False
    then show ?thesis using 2 blank_newline by (cases "is_blank c") (auto simp: Let_def)
  qed
qed simp

lemma tidy_collapse_id: "tidy e cs \<Longrightarrow> collapse e cs = cs"
proof (induction e cs rule: tidy.induct)
  case (2 e c cs)
  show ?case
  proof (cases "is_blank c")
    case True
    with 2(2) have d: "dropWhile is_blank cs = cs" by (cases cs) auto
    have "c \<noteq> CHR 0x0A" using True by (rule blank_newline)
    with 2 True d show ?thesis by (auto simp: Let_def)
  qed (use 2 in auto)
qed simp

lemma tidy_prefix: "tidy e (a @ b) \<Longrightarrow> tidy e a"
  by (induction e a rule: tidy.induct) (auto simp: hd_append split: if_splits)

lemma char_eq_code: "c = d \<longleftrightarrow> code c = code d"
  by (simp add: code_inj)

lemma code_marks:
  "code (CHR '' '') = 32" "code (CHR 0x09) = 9" "code (CHR 0x0A) = 10" "code (CHR '','') = 44"
  "code (CHR ''.'') = 46" "code (CHR ''!'') = 33" "code (CHR ''?'') = 63" "code (CHR '';'') = 59"
  "code (CHR '':'') = 58" "code (CHR 0x22) = 34" "code (CHR 0x27) = 39"
  by (simp_all add: code_def)

lemma to_upper_code_small: "n < 65 \<Longrightarrow> code (to_upper_c c) = n \<longleftrightarrow> code c = n"
  by (auto simp: code_to_upper aw_char)

lemma to_upper_marks [simp]:
  "is_blank (to_upper_c c) = is_blank c" "closing_mark (to_upper_c c) = closing_mark c"
  "to_upper_c c = CHR 0x0A \<longleftrightarrow> c = CHR 0x0A"
  by (simp_all add: is_blank_def closing_mark_def char_eq_code code_marks to_upper_code_small
        del: code_inj)

lemma to_upper_blank [simp]: "is_blank c \<Longrightarrow> to_upper_c c = c"
  by (auto simp: is_blank_def to_upper_c_def aw_char code_marks)

text \<open>One turn of the capitalisation loop: the byte written and the next flag.\<close>

definition cap_char :: "bool \<Rightarrow> char \<Rightarrow> char" where
  "cap_char cap c = (if is_alpha c \<and> cap then to_upper_c c else c)"

definition cap_next :: "bool \<Rightarrow> char \<Rightarrow> bool" where
  "cap_next cap c =
     (if is_alpha c then False
      else if c = CHR ''.'' \<or> c = CHR ''!'' \<or> c = CHR ''?'' \<or> c = CHR 0x0A then True
      else if \<not> is_space c \<and> c \<noteq> CHR 0x22 \<and> c \<noteq> CHR 0x27 then False else cap)"

lemma capitalize_Cons: "capitalize_loop cap (c # cs) = cap_char cap c # capitalize_loop (cap_next cap c) cs"
  by (simp add: cap_char_def cap_next_def)

declare capitalize_loop.simps(2) [simp del]
declare capitalize_Cons [simp]

lemma cap_char_idem [simp]: "cap_char cap (cap_char cap c) = cap_char cap c"
  by (simp add: cap_char_def)

lemma cap_next_cap [simp]: "cap_next cap (cap_char cap c) = cap_next cap c"
proof (cases "is_alpha c")
  case True
  then have "is_alpha (cap_char cap c)" by (simp add: cap_char_def)
  with True show ?thesis unfolding cap_next_def by (simp only: if_True)
next
  case False
  then have "cap_char cap c = c" by (simp add: cap_char_def)
  then show ?thesis by simp
qed

lemma cap_char_marks [simp]:
  "is_blank (cap_char cap c) = is_blank c" "closing_mark (cap_char cap c) = closing_mark c"
  "cap_char cap c = CHR 0x0A \<longleftrightarrow> c = CHR 0x0A" "is_blank c \<Longrightarrow> cap_char cap c = c"
  "is_space (cap_char cap c) = is_space c" "to_lower_c (cap_char cap c) = to_lower_c c"
  by (simp_all add: cap_char_def)

lemma capitalize_Nil [simp]: "capitalize_loop cap s = [] \<longleftrightarrow> s = []"
  by (cases s) auto

lemma capitalize_hd: "s \<noteq> [] \<Longrightarrow> hd (capitalize_loop cap s) = cap_char cap (hd s)"
  by (cases s) auto

lemma tidy_capitalize: "tidy e s \<Longrightarrow> tidy e (capitalize_loop cap s)"
  by (induction e s arbitrary: cap rule: tidy.induct) (auto simp: capitalize_hd)

lemma capitalize_idem: "capitalize_loop cap (capitalize_loop cap s) = capitalize_loop cap s"
  by (induction s arbitrary: cap) auto

lemma capitalize_lower: "lower_s (capitalize_loop cap s) = lower_s s"
  by (induction s arbitrary: cap) auto

lemma last_capitalize: "s \<noteq> [] \<Longrightarrow> is_space (last (capitalize_loop cap s)) = is_space (last s)"
  by (induction s arbitrary: cap) auto

lemma trim_right_id: "s = [] \<or> \<not> is_space (last s) \<Longrightarrow> trim_right s = s"
  by (cases s rule: rev_cases) (auto simp: trim_right_def)

lemma trim_right_cases: "trim_right s = [] \<or> \<not> is_space (last (trim_right s))"
  using trim_right_last by blast

lemma tidy_trim: "tidy e s \<Longrightarrow> tidy e (trim_right s)"
  by (metis trim_right_split tidy_prefix)

lemma normalize_eq: "normalize t = capitalize_loop True (trim_right (collapse True t))"
  by (simp add: normalize_def collapse_loop_collapse)

definition normal_form :: "string \<Rightarrow> bool" where
  "normal_form s \<longleftrightarrow> tidy True s \<and> (s = [] \<or> \<not> is_space (last s)) \<and> capitalize_loop True s = s"

lemma normalize_normal: "normal_form (normalize t)"
  unfolding normal_form_def normalize_eq
  using tidy_capitalize [OF tidy_trim [OF tidy_collapse]] trim_right_cases [of "collapse True t"]
    last_capitalize [of "trim_right (collapse True t)" True]
  by (auto simp: capitalize_idem)

lemma normalize_id: "normal_form s \<Longrightarrow> normalize s = s"
  unfolding normal_form_def normalize_eq by (simp add: tidy_collapse_id trim_right_id)

subsection \<open>Words survive normalisation up to case\<close>

lemma words_of_lower: "words_of (lower_s s) = map lower_s (words_of s)"
proof -
  have "word_split (lower_s cur) (lower_s s) = map lower_s (word_split cur s)" for cur
  proof (induction cur s rule: word_split.induct)
    case (1 cur)
    then show ?case by (cases cur) auto
  next
    case (2 cur c cs)
    then show ?case by (cases cur) (auto simp: word_char_lower)
  qed
  from this [of "[]"] show ?thesis by (simp add: words_of_def)
qed

lemma word_split_blanks: "word_split [] (dropWhile is_blank s) = word_split [] s"
  by (induction s) (auto simp: blank_not_word)

lemma closing_not_word: "closing_mark c \<Longrightarrow> \<not> is_word_char c"
  by (auto simp: closing_mark_def is_word_char_def aw_char code_def)

lemma word_split_blank:
  "is_blank c \<Longrightarrow> word_split cur (c # cs) = (if cur = [] then [] else [cur]) @ word_split [] (dropWhile is_blank cs)"
  by (simp add: blank_not_word word_split_blanks)

lemma word_split_closing:
  "rest \<noteq> [] \<Longrightarrow> closing_mark (hd rest) \<Longrightarrow>
   word_split cur rest = (if cur = [] then [] else [cur]) @ word_split [] rest"
  by (cases rest) (auto simp: closing_not_word)

lemma word_split_collapse: "(e \<Longrightarrow> cur = []) \<Longrightarrow> word_split cur (collapse e s) = word_split cur s"
proof (induction e s arbitrary: cur rule: collapse.induct)
  case (2 e c cs)
  let ?r = "dropWhile is_blank cs"
  show ?case
  proof (cases "is_blank c")
    case b: True
    note R = word_split_blank [OF b, of cur cs]
    show ?thesis
    proof (cases "\<not> e \<and> \<not> (?r \<noteq> [] \<and> closing_mark (hd ?r))")
      case True
      have "word_split [] (collapse False ?r) = word_split [] ?r"
        using 2(1) [OF b refl, of "[]"] True by simp
      moreover have "\<not> is_word_char (CHR '' '')" by (simp add: is_word_char_def aw_char code_def)
      ultimately show ?thesis unfolding R using b True by (simp add: Let_def)
    next
      case False
      then have "word_split cur (collapse e ?r) = word_split cur ?r"
        using 2(2) [OF b refl, of cur] 2(4) by blast
      moreover have "word_split cur ?r = (if cur = [] then [] else [cur]) @ word_split [] ?r"
        using False 2(4) word_split_closing [of ?r cur] by (cases "cur = []") auto
      ultimately show ?thesis unfolding R using b False by (auto simp: Let_def)
    qed
  next
    case False
    have "\<not> is_word_char (CHR 0x0A)" by (simp add: is_word_char_def aw_char code_def)
    with False 2 show ?thesis by (cases "c = CHR 0x0A") auto
  qed
qed simp

lemma words_of_normalize: "map lower_s (words_of (normalize t)) = map lower_s (words_of t)"
proof -
  have "map lower_s (words_of (normalize t)) = words_of (lower_s (trim_right (collapse True t)))"
    unfolding normalize_eq words_of_lower [symmetric] capitalize_lower ..
  also have "\<dots> = map lower_s (words_of (collapse True t))"
    unfolding words_of_lower words_of_trim_right ..
  also have "words_of (collapse True t) = words_of t"
    unfolding words_of_def by (rule word_split_collapse) simp
  finally show ?thesis .
qed

section \<open>Properties\<close>

definition filler_language :: "string \<Rightarrow> bool" where
  "filler_language l \<longleftrightarrow> l = ''en'' \<or> l = ''auto'' \<or> l = []"

lemma remove_fillers_words:
  "words_of (remove_fillers tp t) =
     (if filler_language (tp_language tp) then filter (\<lambda>w. lower_s w \<notin> set kEnglishFillers) (words_of t)
      else words_of t)"
  using fillers_words [OF english_fillers] by (auto simp: remove_fillers_def filler_language_def)


definition example_pipeline :: pipeline where
  "example_pipeline =
     make_pipeline (default_formatting\<lparr>fm_spoken_commands := False,
       fm_dictionary := [''teh => the'', ''plz =>'']\<rparr>) ''en''"





text \<open>The phrase search returns the leftmost whole-word, case-insensitive occurrence at or
  after its start position, and nothing exactly when there is none.\<close>

theorem find_phrase_leftmost:
  "find_phrase hay nd pos =
     (if nd \<noteq> [] \<and> (\<exists>q. pos \<le> q \<and> phrase_at hay nd q)
      then Some (LEAST q. pos \<le> q \<and> phrase_at hay nd q) else None)"
proof (cases "find_phrase hay nd pos")
  case None
  then show ?thesis by (auto simp: find_phrase_None)
next
  case (Some p)
  then have p: "nd \<noteq> []" "pos \<le> p \<and> phrase_at hay nd p" "\<And>q. pos \<le> q \<and> phrase_at hay nd q \<Longrightarrow> p \<le> q"
    using not_less by (auto simp: find_phrase_Some)
  from Least_equality [of "\<lambda>q. pos \<le> q \<and> phrase_at hay nd q", OF p(2,3)] p(1,2) Some
  show ?thesis by auto
qed

end
