(* ===== verification/Hotkey.thy ===== *)
theory Hotkey
  imports AW_Prelude Config_Records
begin

text \<open>
  The hotkey manager: src/src/hotkey/hotkey.h, hotkey_common.cpp and the event sources of
  platform/hotkey_x11.cpp and hotkey_win32.cpp.

  A handler takes the manager's state to a new state and the events it sends to the callback; the
  mutex makes each handler atomic, so a history is a sequence of handler calls. Key symbols, virtual
  key codes and their names are the platform's: they are parameters.
\<close>

section \<open>Key combinations\<close>

datatype hotkey_event = START | STOP | CANCEL

record key_combo =
  kc_mods :: "string set"
  kc_key :: string
  kc_mod_only :: bool

definition combo_parts :: "string \<Rightarrow> string list" where
  "combo_parts s =
     filter (\<lambda>p. p \<noteq> []) (map (\<lambda>p. trim_by (\<lambda>c. c = CHR '' '') (lower_s p)) (getlines (CHR ''+'') s))"

definition normalize_mod :: "string \<Rightarrow> string" where
  "normalize_mod p =
     (if p = ''ctrl'' \<or> p = ''control'' then ''ctrl''
      else if p = ''alt'' \<or> p = ''option'' then ''alt''
      else if p = ''shift'' then ''shift''
      else if p = ''super'' \<or> p = ''win'' \<or> p = ''cmd'' \<or> p = ''meta'' then ''super''
      else p)"

definition valid_mods :: "string list" where
  "valid_mods = [''ctrl'', ''alt'', ''shift'', ''super'']"

text \<open>\<open>KeyCombo::parse\<close>; \<open>None\<close> is the \<open>runtime_error\<close>.\<close>

definition combo_parse :: "string \<Rightarrow> key_combo option" where
  "combo_parse s =
     (let parts = combo_parts s;
          ns = map normalize_mod parts
      in if parts = [] then None
         else if list_all (\<lambda>p. p \<in> set valid_mods) ns
           then Some \<lparr>kc_mods = set ns, kc_key = [], kc_mod_only = True\<rparr>
         else if \<not> list_all (\<lambda>p. p \<in> set valid_mods) (butlast ns) then None
         else Some \<lparr>kc_mods = set (butlast ns), kc_key = last ns, kc_mod_only = False\<rparr>)"

section \<open>The manager\<close>

record hotkey_manager =
  hm_config :: hotkey_config
  hm_callback :: bool
  hm_triggers :: "key_combo list"
  hm_cancels :: "key_combo list"
  hm_pressed :: "string set"
  hm_trig :: bool
  hm_active :: "key_combo option"
  hm_running :: bool

text \<open>The constructor parses every combination; one bad combination makes it throw.\<close>

definition make_manager :: "hotkey_config \<Rightarrow> bool \<Rightarrow> hotkey_manager option" where
  "make_manager cfg callback =
     (if list_all (\<lambda>s. combo_parse s \<noteq> None) (hk_trigger cfg @ hk_cancel cfg)
      then Some \<lparr>hm_config = cfg, hm_callback = callback,
        hm_triggers = map (the \<circ> combo_parse) (hk_trigger cfg),
        hm_cancels = map (the \<circ> combo_parse) (hk_cancel cfg),
        hm_pressed = {}, hm_trig = False, hm_active = None, hm_running = False\<rparr>
      else None)"

definition reset_input_state :: "hotkey_manager \<Rightarrow> hotkey_manager" where
  "reset_input_state st = st\<lparr>hm_pressed := {}, hm_trig := False, hm_active := None\<rparr>"

definition hm_set_config :: "hotkey_config \<Rightarrow> hotkey_manager \<Rightarrow> hotkey_manager" where
  "hm_set_config cfg st =
     (let triggers = List.map_filter combo_parse (hk_trigger cfg);
          cancels = List.map_filter combo_parse (hk_cancel cfg);
          st1 = st\<lparr>hm_config := cfg, hm_triggers := triggers, hm_cancels := cancels\<rparr>
      in st1\<lparr>hm_pressed := {}, hm_trig := False, hm_active := None\<rparr>)"

definition send_event :: "hotkey_event \<Rightarrow> hotkey_manager \<Rightarrow> hotkey_manager \<times> hotkey_event list" where
  "send_event ev st = (st, if hm_callback st then [ev] else [])"

definition normalize_alias :: "string \<Rightarrow> string" where
  "normalize_alias k = (if k = ''enter'' then ''return'' else if k = ''escape'' then ''esc'' else k)"

definition check_combo :: "hotkey_manager \<Rightarrow> key_combo \<Rightarrow> string \<Rightarrow> bool" where
  "check_combo st combo key_name =
     (if kc_mods combo \<noteq> hm_pressed st then False
      else let combo_key = normalize_alias (kc_key combo);
               incoming = normalize_alias key_name;
               no_underscore = filter (\<lambda>c. c \<noteq> CHR ''_'') combo_key
           in incoming = combo_key \<or> incoming = no_underscore)"

fun any_trigger :: "hotkey_manager \<Rightarrow> string \<Rightarrow> key_combo list \<Rightarrow> key_combo option" where
  "any_trigger st key_name [] = None"
| "any_trigger st key_name (combo # cs) =
     (if kc_mod_only combo then
        (if kc_mods combo = hm_pressed st then Some combo else any_trigger st key_name cs)
      else if key_name \<noteq> [] \<and> check_combo st combo key_name then Some combo
      else any_trigger st key_name cs)"

definition check_any_trigger :: "hotkey_manager \<Rightarrow> string \<Rightarrow> key_combo option" where
  "check_any_trigger st key_name = any_trigger st key_name (hm_triggers st)"

definition check_any_cancel :: "hotkey_manager \<Rightarrow> string \<Rightarrow> bool" where
  "check_any_cancel st key_name \<longleftrightarrow>
     list_ex (\<lambda>combo. \<not> kc_mod_only combo \<and> check_combo st combo key_name) (hm_cancels st)"

section \<open>The handlers\<close>

definition on_modifier_press :: "string \<Rightarrow> hotkey_manager \<Rightarrow> hotkey_manager \<times> hotkey_event list" where
  "on_modifier_press m st =
     (if \<not> hm_running st then (st, [])
      else let st1 = st\<lparr>hm_pressed := insert m (hm_pressed st)\<rparr>
           in case check_any_trigger st1 [] of
                Some combo \<Rightarrow>
                  if kc_mod_only combo \<and> \<not> hm_trig st1
                  then send_event START (st1\<lparr>hm_trig := True, hm_active := Some combo\<rparr>)
                  else (st1, [])
              | None \<Rightarrow> (st1, []))"

definition on_modifier_release :: "string \<Rightarrow> hotkey_manager \<Rightarrow> hotkey_manager \<times> hotkey_event list" where
  "on_modifier_release m st =
     (if \<not> hm_running st then (st, [])
      else let st1 = st\<lparr>hm_pressed := hm_pressed st - {m}\<rparr>
           in case hm_active st1 of
                Some combo \<Rightarrow>
                  if kc_mod_only combo \<and> hk_mode (hm_config st1) = ''push_to_talk'' \<and> hm_trig st1 \<and>
                     m \<in> kc_mods combo
                  then send_event STOP (st1\<lparr>hm_trig := False, hm_active := None\<rparr>)
                  else (st1, [])
              | None \<Rightarrow> (st1, []))"

definition on_key_press :: "string \<Rightarrow> hotkey_manager \<Rightarrow> hotkey_manager \<times> hotkey_event list" where
  "on_key_press key_name st =
     (if \<not> hm_running st then (st, [])
      else if hk_escape_to_cancel (hm_config st) \<and> (key_name = ''esc'' \<or> key_name = ''escape'')
        then send_event CANCEL (st\<lparr>hm_trig := False\<rparr>)
      else if check_any_cancel st key_name
        then send_event CANCEL (st\<lparr>hm_trig := False\<rparr>)
      else case check_any_trigger st key_name of
             None \<Rightarrow> (st, [])
           | Some combo \<Rightarrow>
               if kc_mod_only combo then (st, [])
               else if hk_mode (hm_config st) = ''toggle'' then
                 (if hm_trig st then send_event STOP (st\<lparr>hm_trig := False\<rparr>)
                  else send_event START (st\<lparr>hm_trig := True, hm_active := Some combo\<rparr>))
               else if \<not> hm_trig st then send_event START (st\<lparr>hm_trig := True, hm_active := Some combo\<rparr>)
               else (st, []))"

definition on_key_release :: "string \<Rightarrow> hotkey_manager \<Rightarrow> hotkey_manager \<times> hotkey_event list" where
  "on_key_release key_name st =
     (if \<not> hm_running st then (st, [])
      else case hm_active st of
             Some combo \<Rightarrow>
               if \<not> kc_mod_only combo \<and> hk_mode (hm_config st) = ''push_to_talk'' \<and> hm_trig st \<and>
                  check_combo st combo key_name
               then send_event STOP (st\<lparr>hm_trig := False, hm_active := None\<rparr>)
               else (st, [])
           | None \<Rightarrow> (st, []))"

datatype key_input = ModDown string | ModUp string | KeyDown string | KeyUp string

fun hotkey_step :: "key_input \<Rightarrow> hotkey_manager \<Rightarrow> hotkey_manager \<times> hotkey_event list" where
  "hotkey_step (ModDown m) st = on_modifier_press m st"
| "hotkey_step (ModUp m) st = on_modifier_release m st"
| "hotkey_step (KeyDown k) st = on_key_press k st"
| "hotkey_step (KeyUp k) st = on_key_release k st"

fun hotkey_run :: "key_input list \<Rightarrow> hotkey_manager \<Rightarrow> hotkey_manager \<times> hotkey_event list" where
  "hotkey_run [] st = (st, [])"
| "hotkey_run (i # is) st =
     (let (st1, ev1) = hotkey_step i st; (st2, ev2) = hotkey_run is st1 in (st2, ev1 @ ev2))"

section \<open>Event sources\<close>

subsection \<open>Windows: the low-level keyboard hook\<close>

datatype vk_name =
    VK_SHIFT | VK_LSHIFT | VK_RSHIFT | VK_CONTROL | VK_LCONTROL | VK_RCONTROL
  | VK_MENU | VK_LMENU | VK_RMENU | VK_LWIN | VK_RWIN | VK_F1 | VK_F24
  | VK_ESCAPE | VK_SPACE | VK_RETURN | VK_TAB | VK_BACK | VK_DELETE | VK_UP | VK_DOWN | VK_LEFT | VK_RIGHT

text \<open>The parameter \<open>vk\<close> is the header's numbering of the virtual keys.\<close>

definition win32_vk_to_modifier :: "(vk_name \<Rightarrow> nat) \<Rightarrow> nat \<Rightarrow> string" where
  "win32_vk_to_modifier vk v =
     (if v \<in> vk ` {VK_SHIFT, VK_LSHIFT, VK_RSHIFT} then ''shift''
      else if v \<in> vk ` {VK_CONTROL, VK_LCONTROL, VK_RCONTROL} then ''ctrl''
      else if v \<in> vk ` {VK_MENU, VK_LMENU, VK_RMENU} then ''alt''
      else if v \<in> vk ` {VK_LWIN, VK_RWIN} then ''super''
      else [])"

definition win32_vk_to_name :: "(vk_name \<Rightarrow> nat) \<Rightarrow> nat \<Rightarrow> string" where
  "win32_vk_to_name vk v =
     (if 65 \<le> v \<and> v \<le> 90 then [char_of (97 + (v - 65))]
      else if 48 \<le> v \<and> v \<le> 57 then [char_of v]
      else if vk VK_F1 \<le> v \<and> v \<le> vk VK_F24 then CHR ''f'' # show_nat (v - vk VK_F1 + 1)
      else if v = vk VK_ESCAPE then ''esc''
      else if v = vk VK_SPACE then ''space''
      else if v = vk VK_RETURN then ''return''
      else if v = vk VK_TAB then ''tab''
      else if v = vk VK_BACK then ''backspace''
      else if v = vk VK_DELETE then ''delete''
      else if v = vk VK_UP then ''up''
      else if v = vk VK_DOWN then ''down''
      else if v = vk VK_LEFT then ''left''
      else if v = vk VK_RIGHT then ''right''
      else [])"

datatype hook_message = WM_KEYDOWN | WM_SYSKEYDOWN | WM_KEYUP | WM_SYSKEYUP | WM_OTHER

text \<open>\<open>keyboard_hook\<close>: \<open>action\<close> is \<open>code == HC_ACTION\<close>.\<close>

definition keyboard_hook ::
  "(vk_name \<Rightarrow> nat) \<Rightarrow> bool \<Rightarrow> hook_message \<Rightarrow> nat \<Rightarrow> hotkey_manager \<Rightarrow> hotkey_manager \<times> hotkey_event list" where
  "keyboard_hook vk action wparam v st =
     (if action \<and> hm_running st then
        (let down = (wparam = WM_KEYDOWN \<or> wparam = WM_SYSKEYDOWN);
             up = (wparam = WM_KEYUP \<or> wparam = WM_SYSKEYUP)
         in if down \<or> up then
              (let m = win32_vk_to_modifier vk v
               in if m \<noteq> [] then (if down then on_modifier_press m st else on_modifier_release m st)
                  else (let name = win32_vk_to_name vk v
                        in if name \<noteq> [] then
                             (if down then on_key_press name st else on_key_release name st)
                           else (st, [])))
            else (st, []))
      else (st, []))"

subsection \<open>X11: the record stream\<close>

datatype xk_name =
    XK_Shift_L | XK_Shift_R | XK_Control_L | XK_Control_R | XK_Alt_L | XK_Alt_R
  | XK_Super_L | XK_Super_R | XK_Meta_L | XK_Meta_R | NoSymbol

text \<open>The parameters: \<open>xk\<close> numbers the key symbols, \<open>keysym\<close> is \<open>XkbKeycodeToKeysym(dpy, kc, 0, 0)\<close>
  and \<open>ksname\<close> is \<open>XKeysymToString\<close> (\<open>None\<close> the null pointer).\<close>

definition keycode_to_modifier :: "(xk_name \<Rightarrow> nat) \<Rightarrow> (nat \<Rightarrow> nat) \<Rightarrow> nat \<Rightarrow> string" where
  "keycode_to_modifier xk keysym kc =
     (let ks = keysym kc
      in if ks \<in> xk ` {XK_Shift_L, XK_Shift_R} then ''shift''
         else if ks \<in> xk ` {XK_Control_L, XK_Control_R} then ''ctrl''
         else if ks \<in> xk ` {XK_Alt_L, XK_Alt_R} then ''alt''
         else if ks \<in> xk ` {XK_Super_L, XK_Super_R, XK_Meta_L, XK_Meta_R} then ''super''
         else [])"

definition keycode_to_name ::
  "(xk_name \<Rightarrow> nat) \<Rightarrow> (nat \<Rightarrow> nat) \<Rightarrow> (nat \<Rightarrow> string option) \<Rightarrow> nat \<Rightarrow> string" where
  "keycode_to_name xk keysym ksname kc =
     (let ks = keysym kc
      in if ks = xk NoSymbol then []
         else case ksname ks of
                None \<Rightarrow> []
              | Some result \<Rightarrow>
                  if result = ''Escape'' then ''esc''
                  else if result = ''Return'' then ''return''
                  else if result = ''space'' then ''space''
                  else
                    (let r1 = (if length result = 1 then [to_lower_c (hd result)] else result)
                     in if 1 < length r1 \<and> r1 ! 0 = CHR ''F'' \<and> is_digit (r1 ! 1) then lower_s r1 else r1))"

datatype record_type = KeyPress | KeyRelease | OtherType

text \<open>\<open>record_callback\<close>; \<open>from_server\<close> is \<open>hook->category == XRecordFromServer\<close>.\<close>

definition record_callback ::
  "(xk_name \<Rightarrow> nat) \<Rightarrow> (nat \<Rightarrow> nat) \<Rightarrow> (nat \<Rightarrow> string option) \<Rightarrow> bool \<Rightarrow> record_type \<Rightarrow> nat \<Rightarrow>
   hotkey_manager \<Rightarrow> hotkey_manager \<times> hotkey_event list" where
  "record_callback xk keysym ksname from_server type kc st =
     (if \<not> hm_running st then (st, [])
      else if \<not> from_server then (st, [])
      else case type of
             KeyPress \<Rightarrow>
               (let m = keycode_to_modifier xk keysym kc
                in if m \<noteq> [] then on_modifier_press m st
                   else (let name = keycode_to_name xk keysym ksname kc
                         in if name \<noteq> [] then on_key_press name st else (st, [])))
           | KeyRelease \<Rightarrow>
               (let m = keycode_to_modifier xk keysym kc
                in if m \<noteq> [] then on_modifier_release m st
                   else (let name = keycode_to_name xk keysym ksname kc
                         in if name \<noteq> [] then on_key_release name st else (st, [])))
           | OtherType \<Rightarrow> (st, []))"

text \<open>
  \<open>stop\<close> of the X11 source: \<open>polls\<close> are the values of \<open>thread_exited\<close> that the wait loop reads
  before its five-second deadline, \<open>final\<close> the one read after the loop. Each turn nudges the
  server once; a thread that never exits is detached and its \<open>Impl\<close> leaked.
\<close>

datatype thread_fate = NoThread | Joined | Detached

definition x11_stop :: "bool \<Rightarrow> bool list \<Rightarrow> bool \<Rightarrow> hotkey_manager \<Rightarrow> hotkey_manager \<times> thread_fate \<times> nat" where
  "x11_stop joinable polls final st =
     (let st1 = st\<lparr>hm_running := False\<rparr>;
          cleared = st1\<lparr>hm_pressed := {}, hm_trig := False, hm_active := None\<rparr>
      in if \<not> joinable then (cleared, NoThread, 0)
         else (cleared, if final then Joined else Detached, length (takeWhile (\<lambda>e. \<not> e) polls)))"

text \<open>\<open>start\<close> and the set-up half of its thread: the outcome of each X call in order. The result is
  the manager, and whether the record stream is being served.\<close>

record x11_setup =
  xs_displays :: bool
  xs_record_ext :: bool
  xs_range :: bool
  xs_context :: bool
  xs_enable :: bool

definition x11_start :: "x11_setup \<Rightarrow> hotkey_manager \<Rightarrow> hotkey_manager \<times> bool" where
  "x11_start env st =
     (if hm_running st then (st, False)
      else if \<not> xs_displays env then (st\<lparr>hm_running := False\<rparr>, False)
      else if \<not> xs_record_ext env then (st\<lparr>hm_running := False\<rparr>, False)
      else if \<not> xs_range env then (st\<lparr>hm_running := False\<rparr>, False)
      else if \<not> xs_context env then (st\<lparr>hm_running := False\<rparr>, False)
      else (st\<lparr>hm_running := True\<rparr>, xs_enable env))"

end
