(* ===== verification/Hotkey_Laws.thy ===== *)
theory Hotkey_Laws
  imports Hotkey
begin

text \<open>
  Theorems about the hotkey manager: what \<open>KeyCombo::parse\<close> accepts, the protocol every history of
  key events keeps towards the daemon, and where push-to-talk and toggle mode lose a STOP.
\<close>

section \<open>Parsing combinations\<close>

lemma combo_parts_nonempty: "p \<in> set (combo_parts s) \<Longrightarrow> p \<noteq> []"
  by (auto simp: combo_parts_def)

lemma normalize_mod_nonempty: "p \<noteq> [] \<Longrightarrow> normalize_mod p \<noteq> []"
  by (simp add: normalize_mod_def)

definition combo_ok :: "key_combo \<Rightarrow> bool" where
  "combo_ok c \<longleftrightarrow> kc_mods c \<subseteq> set valid_mods \<and>
     (if kc_mod_only c then kc_mods c \<noteq> {} \<and> kc_key c = [] else kc_key c \<noteq> [] \<and> kc_key c \<notin> set valid_mods)"

lemma combo_parse_ok: "combo_parse s = Some c \<Longrightarrow> combo_ok c"
proof -
  assume p: "combo_parse s = Some c"
  let ?ns = "map normalize_mod (combo_parts s)"
  have ne: "?ns \<noteq> []" using p by (auto simp: combo_parse_def Let_def split: if_splits)
  show ?thesis
  proof (cases "list_all (\<lambda>p. p \<in> set valid_mods) ?ns")
    case True
    with p ne show ?thesis
      by (auto simp: combo_parse_def Let_def combo_ok_def list_all_iff split: if_splits)
  next
    case False
    with p have b: "list_all (\<lambda>p. p \<in> set valid_mods) (butlast ?ns)"
      and c: "c = \<lparr>kc_mods = set (butlast ?ns), kc_key = last ?ns, kc_mod_only = False\<rparr>"
      by (auto simp: combo_parse_def Let_def split: if_splits)
    have l: "last ?ns \<notin> set valid_mods"
    proof
      assume "last ?ns \<in> set valid_mods"
      with b have "list_all (\<lambda>p. p \<in> set valid_mods) (butlast ?ns @ [last ?ns])" by simp
      then show False using False unfolding append_butlast_last_id [OF ne] by contradiction
    qed
    have "last ?ns \<in> set ?ns" using ne by (rule last_in_set)
    then have "last ?ns \<noteq> []"
      using combo_parts_nonempty normalize_mod_nonempty by (metis (no_types) imageE list.set_map)
    with c l b show ?thesis by (auto simp: combo_ok_def list_all_iff)
  qed
qed

text \<open>Writing a combination and reading it back.\<close>

fun join_plus :: "string list \<Rightarrow> string" where
  "join_plus [] = []"
| "join_plus [p] = p"
| "join_plus (p # q # ps) = p @ CHR ''+'' # join_plus (q # ps)"

definition plain_token :: "string \<Rightarrow> bool" where
  "plain_token p \<longleftrightarrow> p \<noteq> [] \<and> CHR ''+'' \<notin> set p \<and> lower_s p = p \<and> hd p \<noteq> CHR '' '' \<and> last p \<noteq> CHR '' ''"

lemma getlines_Nil [simp]: "getlines d [] = []"
  by (simp add: getlines.simps getline_def)

lemma getlines_cut: "d \<notin> set l \<Longrightarrow> getlines d (l @ d # r) = l # getlines d r"
  by (subst getlines.simps) (simp add: getline_cut)

lemma getlines_last: "d \<notin> set l \<Longrightarrow> l \<noteq> [] \<Longrightarrow> getlines d l = [l]"
proof -
  assume d: "d \<notin> set l" "l \<noteq> []"
  then have "takeWhile (\<lambda>c. c \<noteq> d) l = l" "dropWhile (\<lambda>c. c \<noteq> d) l = []"
    by (auto simp: takeWhile_eq_all_conv)
  then have "getline d l = Some (l, [])" unfolding getline_def using d(2) by (simp only: if_False list.sel)
  then show ?thesis by (subst getlines.simps) simp
qed

lemma getlines_join: "\<lbrakk>list_all plain_token ps\<rbrakk> \<Longrightarrow> getlines (CHR ''+'') (join_plus ps) = ps"
  by (induction ps rule: join_plus.induct) (auto simp: getlines_cut getlines_last plain_token_def)

lemma trim_by_id: "s \<noteq> [] \<Longrightarrow> \<not> P (hd s) \<Longrightarrow> \<not> P (last s) \<Longrightarrow> trim_by P s = s"
proof -
  assume a: "s \<noteq> []" "\<not> P (hd s)" "\<not> P (last s)"
  have "dropWhile P s = s" using a by (cases s) auto
  moreover have "dropWhile P (rev s) = rev s" using a by (cases s rule: rev_cases) auto
  ultimately show ?thesis by (simp add: trim_by_def)
qed

lemma combo_parts_join: "list_all plain_token ps \<Longrightarrow> combo_parts (join_plus ps) = ps"
proof -
  assume a: "list_all plain_token ps"
  then have "map (\<lambda>p. trim_by (\<lambda>c. c = CHR '' '') (lower_s p)) ps = ps"
    by (intro map_idI) (auto simp: plain_token_def list_all_iff intro!: trim_by_id)
  moreover have "filter (\<lambda>p. p \<noteq> []) ps = ps"
    using a by (auto simp: plain_token_def list_all_iff intro!: filter_True)
  ultimately show ?thesis by (simp add: combo_parts_def getlines_join [OF a])
qed

lemma valid_mods_plain: "m \<in> set valid_mods \<Longrightarrow> plain_token m \<and> normalize_mod m = m"
proof -
  have "list_all (\<lambda>m. plain_token m \<and> normalize_mod m = m) valid_mods" by code_simp
  then show "m \<in> set valid_mods \<Longrightarrow> plain_token m \<and> normalize_mod m = m" by (auto simp: list_all_iff)
qed

definition plain_key :: "string \<Rightarrow> bool" where
  "plain_key k \<longleftrightarrow> plain_token k \<and> normalize_mod k \<notin> set valid_mods"

lemma plain_key_norm: "plain_key k \<Longrightarrow> normalize_mod k = k"
  by (auto simp: plain_key_def normalize_mod_def valid_mods_def split: if_splits)

lemma combo_parse_join_key:
  assumes "set ms \<subseteq> set valid_mods" "plain_key k"
  shows "combo_parse (join_plus (ms @ [k])) = Some \<lparr>kc_mods = set ms, kc_key = k, kc_mod_only = False\<rparr>"
proof -
  have "list_all plain_token (ms @ [k])"
    using assms valid_mods_plain by (auto simp: list_all_iff plain_key_def)
  then have p: "combo_parts (join_plus (ms @ [k])) = ms @ [k]" by (rule combo_parts_join)
  have n: "map normalize_mod ms = ms" using assms(1) valid_mods_plain by (intro map_idI) auto
  have k: "normalize_mod k = k" "k \<notin> set valid_mods"
    using assms(2) plain_key_norm valid_mods_plain unfolding plain_key_def by metis+
  show ?thesis
    unfolding combo_parse_def p using n k assms(1) by (auto simp: Let_def list_all_iff)
qed

lemma combo_parse_join_mods:
  assumes "ms \<noteq> []" "set ms \<subseteq> set valid_mods"
  shows "combo_parse (join_plus ms) = Some \<lparr>kc_mods = set ms, kc_key = [], kc_mod_only = True\<rparr>"
proof -
  have "list_all plain_token ms" using assms valid_mods_plain by (auto simp: list_all_iff)
  then have p: "combo_parts (join_plus ms) = ms" by (rule combo_parts_join)
  have n: "map normalize_mod ms = ms" using assms(2) valid_mods_plain by (intro map_idI) auto
  show ?thesis unfolding combo_parse_def p using n assms by (auto simp: Let_def list_all_iff)
qed

section \<open>The event protocol\<close>

text \<open>The recogniser of legal event histories; the state is whether a recording is on.\<close>

fun protocol :: "bool \<Rightarrow> hotkey_event list \<Rightarrow> bool option" where
  "protocol r [] = Some r"
| "protocol r (START # es) = (if r then None else protocol True es)"
| "protocol r (STOP # es) = (if r then protocol False es else None)"
| "protocol r (CANCEL # es) = protocol False es"

lemma protocol_append: "protocol r (xs @ ys) = Option.bind (protocol r xs) (\<lambda>r'. protocol r' ys)"
  by (induction r xs rule: protocol.induct) auto

lemmas hotkey_handlers =
  on_modifier_press_def on_modifier_release_def on_key_press_def on_key_release_def send_event_def Let_def

lemma hotkey_step_protocol:
  "hm_callback st \<Longrightarrow> hotkey_step i st = (st', evs) \<Longrightarrow> protocol (hm_trig st) evs = Some (hm_trig st')"
  by (cases i) (auto simp: hotkey_handlers split: if_splits option.splits)

lemma hotkey_step_frame:
  "hotkey_step i st = (st', evs) \<Longrightarrow>
     hm_config st' = hm_config st \<and> hm_callback st' = hm_callback st \<and> hm_triggers st' = hm_triggers st \<and>
     hm_cancels st' = hm_cancels st \<and> hm_running st' = hm_running st"
  by (cases i) (auto simp: hotkey_handlers split: if_splits option.splits)

lemma any_trigger_in: "any_trigger st k cs = Some c \<Longrightarrow> c \<in> set cs"
  by (induction st k cs rule: any_trigger.induct) (auto split: if_splits)

lemma check_combo_mods: "check_combo st c k \<Longrightarrow> kc_mods c = hm_pressed st"
  by (simp add: check_combo_def split: if_splits)

lemma any_trigger_mods: "any_trigger st k cs = Some c \<Longrightarrow> kc_mods c = hm_pressed st"
proof (induction st k cs rule: any_trigger.induct)
  case (2 st k combo cs)
  then show ?case using check_combo_mods [of st combo k] by (simp split: if_splits)
qed simp

text \<open>An invariant of every step is one of every run.\<close>

lemma hotkey_run_invariant:
  assumes step: "\<And>i st st' evs. I st \<Longrightarrow> hotkey_step i st = (st', evs) \<Longrightarrow> I st'"
    and "I st" "hotkey_run is st = (st', evs)"
  shows "I st'"
  using assms(2,3)
proof (induction "is" arbitrary: st evs)
  case (Cons i "is")
  obtain st1 ev1 where s: "hotkey_step i st = (st1, ev1)" by fastforce
  with Cons.prems Cons.IH [OF step [OF Cons.prems(1) s]] show ?case by (auto split: prod.splits)
qed simp

lemma hotkey_run_protocol:
  "hm_callback st \<Longrightarrow> hotkey_run is st = (st', evs) \<Longrightarrow> protocol (hm_trig st) evs = Some (hm_trig st')"
proof (induction "is" arbitrary: st evs)
  case (Cons i "is")
  obtain st1 ev1 where s: "hotkey_step i st = (st1, ev1)" by fastforce
  obtain ev2 where r: "hotkey_run is st1 = (st', ev2)" "evs = ev1 @ ev2"
    using Cons.prems s by (auto split: prod.splits)
  have "hm_callback st1" using hotkey_step_frame [OF s] Cons.prems by simp
  with Cons.IH [OF this r(1)] hotkey_step_protocol [OF Cons.prems(1) s] r(2)
  show ?case by (simp add: protocol_append)
qed simp

text \<open>Push-to-talk on modifier chords: while recording, the whole chord is held.\<close>

definition chord_mode :: "string \<Rightarrow> hotkey_manager \<Rightarrow> bool" where
  "chord_mode mode st \<longleftrightarrow> hk_mode (hm_config st) = mode \<and> list_all kc_mod_only (hm_triggers st)"

definition chord_held :: "hotkey_manager \<Rightarrow> bool" where
  "chord_held st \<longleftrightarrow> hm_trig st \<longrightarrow>
     (\<exists>c. hm_active st = Some c \<and> c \<in> set (hm_triggers st) \<and> kc_mod_only c \<and> kc_mods c \<subseteq> hm_pressed st)"

lemma chord_held_step:
  "chord_mode ''push_to_talk'' st \<and> chord_held st \<Longrightarrow> hotkey_step i st = (st', evs) \<Longrightarrow>
     chord_mode ''push_to_talk'' st' \<and> chord_held st'"
proof (cases i)
  case (ModDown m)
  assume a: "chord_mode ''push_to_talk'' st \<and> chord_held st" "hotkey_step i st = (st', evs)"
  let ?s = "st\<lparr>hm_pressed := insert m (hm_pressed st)\<rparr>"
  have "check_any_trigger ?s [] = Some c \<Longrightarrow> c \<in> set (hm_triggers st) \<and> kc_mods c = insert m (hm_pressed st)" for c
    using any_trigger_in any_trigger_mods by (fastforce simp: check_any_trigger_def)
  with a ModDown show ?thesis
    by (auto simp: hotkey_handlers chord_mode_def chord_held_def split: if_splits option.splits)
next
  case (ModUp m)
  assume a: "chord_mode ''push_to_talk'' st \<and> chord_held st" "hotkey_step i st = (st', evs)"
  with ModUp show ?thesis
    by (auto simp: hotkey_handlers chord_mode_def chord_held_def split: if_splits option.splits)
next
  case (KeyDown k)
  assume a: "chord_mode ''push_to_talk'' st \<and> chord_held st" "hotkey_step i st = (st', evs)"
  have "check_any_trigger st k = Some c \<Longrightarrow> kc_mod_only c" for c
    using any_trigger_in a(1) by (fastforce simp: check_any_trigger_def chord_mode_def list_all_iff)
  with a KeyDown show ?thesis
    by (auto simp: hotkey_handlers chord_mode_def chord_held_def split: if_splits option.splits)
next
  case (KeyUp k)
  assume a: "chord_mode ''push_to_talk'' st \<and> chord_held st" "hotkey_step i st = (st', evs)"
  with KeyUp show ?thesis
    by (auto simp: hotkey_handlers chord_mode_def chord_held_def split: if_splits option.splits)
qed

definition fresh_manager :: "hotkey_config \<Rightarrow> hotkey_manager option" where
  "fresh_manager cfg = map_option (\<lambda>st. st\<lparr>hm_running := True\<rparr>) (make_manager cfg True)"

lemma fresh_manager_facts:
  "fresh_manager cfg = Some st \<Longrightarrow>
     hm_config st = cfg \<and> hm_callback st \<and> \<not> hm_trig st \<and> hm_active st = None \<and> hm_pressed st = {} \<and> hm_running st \<and>
     list_all combo_ok (hm_triggers st)"
proof -
  assume f: "fresh_manager cfg = Some st"
  then obtain m where m: "make_manager cfg True = Some m" "st = m\<lparr>hm_running := True\<rparr>"
    by (auto simp: fresh_manager_def)
  from m(1) have "list_all (\<lambda>s. combo_parse s \<noteq> None) (hk_trigger cfg)"
    by (auto simp: make_manager_def split: if_splits)
  then have "list_all combo_ok (map (the \<circ> combo_parse) (hk_trigger cfg))"
    using combo_parse_ok unfolding list_all_iff by fastforce
  with m show ?thesis by (auto simp: make_manager_def split: if_splits)
qed

text \<open>Toggle mode on modifier chords: STOP is never sent.\<close>

lemma toggle_chord_step:
  "chord_mode ''toggle'' st \<Longrightarrow> hotkey_step i st = (st', evs) \<Longrightarrow> chord_mode ''toggle'' st' \<and> STOP \<notin> set evs"
proof -
  assume a: "chord_mode ''toggle'' st" "hotkey_step i st = (st', evs)"
  have t: "check_any_trigger st k = Some c \<Longrightarrow> kc_mod_only c" for c k
    using any_trigger_in a(1) by (fastforce simp: check_any_trigger_def chord_mode_def list_all_iff)
  have "chord_mode ''toggle'' st'" using a(1) hotkey_step_frame [OF a(2)] by (simp add: chord_mode_def)
  moreover have "STOP \<notin> set evs"
  proof (cases i)
    case (KeyDown k)
    with a(2) t [of k] show ?thesis by (auto simp: hotkey_handlers split: if_splits option.splits)
  qed (use a in \<open>auto simp: hotkey_handlers chord_mode_def split: if_splits option.splits\<close>)
  ultimately show ?thesis ..
qed

lemma toggle_chord_run:
  "chord_mode ''toggle'' st \<Longrightarrow> hotkey_run is st = (st', evs) \<Longrightarrow> STOP \<notin> set evs"
proof (induction "is" arbitrary: st evs)
  case (Cons i "is")
  obtain st1 ev1 where s: "hotkey_step i st = (st1, ev1)" by fastforce
  with Cons toggle_chord_step [OF Cons.prems(1) s] show ?case by (auto split: prod.splits)
qed simp

section \<open>Properties\<close>

text \<open>C15: For every history of key presses and releases delivered to a freshly started manager,
  the events it sends form a legal session history: START only while no recording is on, STOP only
  while one is, and the manager's trigger flag is at the end exactly "a recording is on".\<close>

theorem hotkey_history_legal:
  assumes "fresh_manager cfg = Some st" "hotkey_run is st = (st', evs)"
  shows "protocol False evs = Some (hm_trig st')"
  using hotkey_run_protocol [OF _ assms(2)] fresh_manager_facts [OF assms(1)] by simp

definition chord_manager :: hotkey_manager where
  "chord_manager = the (fresh_manager default_hotkeys)"

definition chord_run :: "key_input list" where
  "chord_run = [ModDown ''shift'', ModDown ''super'', KeyDown ''a'', ModUp ''shift'', ModUp ''super'', KeyUp ''a'']"

lemma chord_manager_fresh: "fresh_manager default_hotkeys = Some chord_manager"
  unfolding chord_manager_def by code_simp

theorem hotkey_history_legal_witness:
  "protocol False (snd (hotkey_run chord_run chord_manager)) = Some (hm_trig (fst (hotkey_run chord_run chord_manager)))"
  by (rule hotkey_history_legal [OF chord_manager_fresh prod.collapse [symmetric]])

text \<open>C38: In push-to-talk mode with modifier-only triggers (the default configuration) a recording
  never outlives the chord: whenever no modifier is held, the history sent to the daemon is one
  with every START answered by a STOP or a CANCEL.\<close>

theorem push_to_talk_chord_released:
  assumes "fresh_manager cfg = Some st" "hk_mode cfg = ''push_to_talk''" "list_all kc_mod_only (hm_triggers st)"
    and "hotkey_run is st = (st', evs)" "hm_pressed st' = {}"
  shows "protocol False evs = Some False"
proof -
  note f = fresh_manager_facts [OF assms(1)]
  define I where "I \<equiv> \<lambda>s. (chord_mode ''push_to_talk'' s \<and> chord_held s) \<and> list_all combo_ok (hm_triggers s)"
  have step: "I s \<Longrightarrow> hotkey_step i s = (s', e) \<Longrightarrow> I s'" for i s s' e
    using chord_held_step [of s i s' e] hotkey_step_frame [of i s s' e] unfolding I_def by simp
  have "I st" using f assms(2,3) by (simp add: I_def chord_mode_def chord_held_def)
  from hotkey_run_invariant [of I, OF step this assms(4)]
  have i: "chord_held st'" "list_all combo_ok (hm_triggers st')" by (auto simp: I_def)
  have "\<not> hm_trig st'"
  proof
    assume "hm_trig st'"
    with i(1) assms(5) obtain c where "c \<in> set (hm_triggers st')" "kc_mod_only c" "kc_mods c = {}"
      by (auto simp: chord_held_def)
    with i(2) show False by (auto simp: combo_ok_def list_all_iff)
  qed
  with hotkey_run_protocol [OF _ assms(4)] f show ?thesis by simp
qed

theorem push_to_talk_chord_released_witness:
  "protocol False (snd (hotkey_run chord_run chord_manager)) = Some False"
  by (rule push_to_talk_chord_released [OF chord_manager_fresh _ _ prod.collapse [symmetric]]) code_simp+

text \<open>In toggle mode with modifier-only triggers no history of key events ever sends STOP: the
  second press of the chord is swallowed, so a recording can only be cancelled.\<close>

theorem toggle_chord_never_stops:
  assumes "fresh_manager cfg = Some st" "hk_mode cfg = ''toggle''" "list_all kc_mod_only (hm_triggers st)"
    and "hotkey_run is st = (st', evs)"
  shows "STOP \<notin> set evs"
  using toggle_chord_run [OF _ assms(4)] assms(2,3) fresh_manager_facts [OF assms(1)]
  by (simp add: chord_mode_def)

definition toggle_manager :: hotkey_manager where
  "toggle_manager = the (fresh_manager (default_hotkeys\<lparr>hk_mode := ''toggle''\<rparr>))"

lemma toggle_manager_fresh: "fresh_manager (default_hotkeys\<lparr>hk_mode := ''toggle''\<rparr>) = Some toggle_manager"
  unfolding toggle_manager_def by code_simp

theorem toggle_chord_never_stops_witness:
  "STOP \<notin> set (snd (hotkey_run (chord_run @ chord_run) toggle_manager))"
  by (rule toggle_chord_never_stops [OF toggle_manager_fresh _ _ prod.collapse [symmetric]]) code_simp+

text \<open>A push-to-talk recording started by a modifier+key combination is stranded when the
  modifier is released before the key: neither release sends STOP and the manager goes on
  believing that the trigger is held.\<close>

theorem push_to_talk_release_order:
  assumes "hm_trig st" "hm_active st = Some c" "\<not> kc_mod_only c" "m \<in> kc_mods c"
    and "hotkey_run [ModUp m, KeyUp k] st = (st', evs)"
  shows "evs = [] \<and> hm_trig st' \<and> hm_active st' = Some c"
  using assms
  by (auto simp: on_modifier_release_def on_key_release_def check_combo_def Let_def split: if_splits)

definition combo_pressed :: hotkey_manager where
  "combo_pressed = fst (hotkey_run [ModDown ''ctrl'', KeyDown ''r'']
     (the (fresh_manager (default_hotkeys\<lparr>hk_trigger := [''ctrl+r'']\<rparr>))))"

definition combo_released :: "hotkey_manager \<times> hotkey_event list" where
  "combo_released = hotkey_run [ModUp ''ctrl'', KeyUp ''r''] combo_pressed"

theorem push_to_talk_release_order_witness:
  "snd combo_released = [] \<and> hm_trig (fst combo_released) \<and>
   hm_active (fst combo_released) = Some \<lparr>kc_mods = {''ctrl''}, kc_key = ''r'', kc_mod_only = False\<rparr>"
  unfolding combo_released_def
  by (rule push_to_talk_release_order [OF _ _ _ _ prod.collapse [symmetric]])
     code_simp+

text \<open>Applying a configuration to a running listener leaves it in the state of a newly
  constructed manager for that configuration: no held key or active trigger of the old one remains.\<close>

theorem set_config_is_restart:
  assumes "make_manager cfg (hm_callback st) = Some m"
  shows "hm_set_config cfg st = m\<lparr>hm_running := hm_running st\<rparr>"
proof -
  have f: "list_all (\<lambda>s. combo_parse s \<noteq> None) l \<Longrightarrow> List.map_filter combo_parse l = map (the \<circ> combo_parse) l" for l
    by (induction l) (auto simp: List.map_filter_simps split: option.splits)
  from assms have "list_all (\<lambda>s. combo_parse s \<noteq> None) (hk_trigger cfg)"
    "list_all (\<lambda>s. combo_parse s \<noteq> None) (hk_cancel cfg)"
    by (auto simp: make_manager_def split: if_splits)
  with assms show ?thesis
    by (auto simp: make_manager_def hm_set_config_def f split: if_splits)
qed

theorem set_config_is_restart_witness:
  "hm_set_config default_hotkeys toggle_manager =
   (the (make_manager default_hotkeys True))\<lparr>hm_running := hm_running toggle_manager\<rparr>"
  by (rule set_config_is_restart) code_simp

text \<open>Combinations round-trip: any sequence of modifiers followed by a plain key name, joined
  with plus signs, parses to the set of those modifiers and that key, a sequence of modifiers
  alone parses to a modifier-only combination, and whatever parses is well formed (known
  modifiers; a modifier-only combination has at least one and no key, any other has a key that
  is not a modifier).\<close>

theorem combo_round_trip:
  assumes "set ms \<subseteq> set valid_mods" "plain_key k"
  shows "combo_parse (join_plus (ms @ [k])) = Some \<lparr>kc_mods = set ms, kc_key = k, kc_mod_only = False\<rparr> \<and>
    (combo_parse (join_plus ms) = (if ms = [] then None else Some \<lparr>kc_mods = set ms, kc_key = [], kc_mod_only = True\<rparr>)) \<and>
    (case combo_parse s of None \<Rightarrow> True | Some c \<Rightarrow> combo_ok c)"
  using combo_parse_join_key [OF assms] combo_parse_join_mods [OF _ assms(1)]
  by (auto simp: combo_parse_def [of "[]"] combo_parts_def dest: combo_parse_ok split: option.split)

theorem combo_round_trip_witness:
  "combo_parse (join_plus ([''ctrl'', ''alt''] @ [''f12''])) =
     Some \<lparr>kc_mods = set [''ctrl'', ''alt''], kc_key = ''f12'', kc_mod_only = False\<rparr> \<and>
    (combo_parse (join_plus [''ctrl'', ''alt'']) = (if [''ctrl'', ''alt''] = [] then None else
       Some \<lparr>kc_mods = set [''ctrl'', ''alt''], kc_key = [], kc_mod_only = True\<rparr>)) \<and>
    (case combo_parse ''a+b'' of None \<Rightarrow> True | Some c \<Rightarrow> combo_ok c)"
proof (rule combo_round_trip)
  show "set [''ctrl'', ''alt''] \<subseteq> set valid_mods" by (simp add: valid_mods_def)
  show "plain_key ''f12''" by code_simp
qed

end
