(* ===== verification/File_System.thy ===== *)
theory File_System
  imports AW_Prelude Sha256
begin

text \<open>
  The file system as the components see it: a map from paths to regular files and directories.
  Which system calls succeed is decided by the environment, a record of functions the components
  take as an argument; what a successful call does is defined here.
\<close>

datatype fs_node = File string | Dir

type_synonym fsys = "string \<rightharpoonup> fs_node"

definition fs_exists :: "fsys \<Rightarrow> string \<Rightarrow> bool" where
  "fs_exists fs p \<longleftrightarrow> p \<noteq> [] \<and> fs p \<noteq> None"

definition fs_regular :: "fsys \<Rightarrow> string \<Rightarrow> bool" where
  "fs_regular fs p \<longleftrightarrow> p \<noteq> [] \<and> (case fs p of Some (File c) \<Rightarrow> True | _ \<Rightarrow> False)"

definition fs_content :: "fsys \<Rightarrow> string \<Rightarrow> string option" where
  "fs_content fs p = (case fs p of Some (File c) \<Rightarrow> Some c | _ \<Rightarrow> None)"

definition fs_size :: "fsys \<Rightarrow> string \<Rightarrow> nat" where
  "fs_size fs p = (case fs p of Some (File c) \<Rightarrow> length c | _ \<Rightarrow> 0)"

text \<open>What \<open>ifstream\<close> delivers for a path: a directory opens but its reads fail.\<close>

definition fs_read :: "fsys \<Rightarrow> string \<Rightarrow> (u8 list list \<times> bool) option" where
  "fs_read fs p =
     (case fs p of None \<Rightarrow> None | Some (File c) \<Rightarrow> Some ([bytes_of c], False) | Some Dir \<Rightarrow> Some ([], True))"

text \<open>\<open>std::filesystem::path::parent_path\<close> and \<open>filename\<close> on a path written with slashes.\<close>

definition parent_path :: "string \<Rightarrow> string" where
  "parent_path p =
     (let up = rev (dropWhile (\<lambda>c. c \<noteq> CHR ''/'') (rev p));
          q = rev (dropWhile (\<lambda>c. c = CHR ''/'') (rev up))
      in if up \<noteq> [] \<and> q = [] then ''/'' else q)"

definition file_name :: "string \<Rightarrow> string" where
  "file_name p = rev (takeWhile (\<lambda>c. c \<noteq> CHR ''/'') (rev p))"

text \<open>
  The environment: \<open>io_mkdir\<close> says whether \<open>create_directories\<close> succeeds, \<open>io_open\<close> whether a file
  can be opened for writing, \<open>io_copy\<close> whether \<open>copy_file\<close> does.
\<close>

record io_env =
  io_home :: "string option"
  io_mkdir :: "fsys \<Rightarrow> string \<Rightarrow> bool"
  io_open :: "fsys \<Rightarrow> string \<Rightarrow> bool"
  io_copy :: "fsys \<Rightarrow> string \<Rightarrow> string \<Rightarrow> bool"

definition fs_mkdirs :: "fsys \<Rightarrow> string \<Rightarrow> fsys" where
  "fs_mkdirs fs p = (if fs p = None then fs(p := Some Dir) else fs)"

definition fs_write :: "fsys \<Rightarrow> string \<Rightarrow> string \<Rightarrow> fsys" where
  "fs_write fs p c = fs(p := Some (File c))"

text \<open>\<open>copy_file\<close> onto \<open>dst\<close>, overwriting; \<open>None\<close> is the error code.\<close>

definition fs_copy :: "io_env \<Rightarrow> fsys \<Rightarrow> string \<Rightarrow> string \<Rightarrow> fsys option" where
  "fs_copy e fs src dst =
     (case fs_content fs src of
        Some c \<Rightarrow> if io_copy e fs src dst then Some (fs_write fs dst c) else None
      | None \<Rightarrow> None)"

lemma fs_regular_content: "fs_regular fs p \<longleftrightarrow> p \<noteq> [] \<and> (\<exists>c. fs_content fs p = Some c)"
  by (auto simp: fs_regular_def fs_content_def split: option.splits fs_node.splits)

lemma fs_content_write [simp]: "fs_content (fs_write fs p c) p = Some c"
  by (simp add: fs_content_def fs_write_def)

lemma fs_regular_exists: "fs_regular fs p \<Longrightarrow> fs_exists fs p"
  by (auto simp: fs_regular_def fs_exists_def split: option.splits)

end
