(* ===== verification/Config_Schema.thy ===== *)
theory Config_Schema
  imports AW_Prelude Cfloat
begin

text \<open>
  The configuration schema (src/src/config/schema.h, schema.cpp): the table of keys, look-up in it,
  and its serialisation for the settings UI. The JSON library is a parameter: \<open>json_api\<close> names
  the operations of \<open>nlohmann::json\<close> the sources use.
\<close>

section \<open>The JSON library as a parameter\<close>

text \<open>
  Builders and readers of a value type \<open>'j\<close>. \<open>j_get\<close> is the value at a key of an object when the
  object has it (\<open>contains\<close> and \<open>at\<close>), \<open>j_keys\<close> the entries of an object in iteration order;
  \<open>j_is_integer\<close> is \<open>is_number_integer\<close>, \<open>j_as_int\<close> is \<open>get<int>\<close>, \<open>j_as_int64\<close> is
  \<open>get<int64_t>\<close> and \<open>j_as_flt\<close> is \<open>get<float>\<close> (\<open>None\<close> when they throw), \<open>j_what\<close> the message
  of the exception a failed \<open>get\<close> of the named type throws; \<open>j_parse\<close> fails with the exception's
  message and \<open>j_dump\<close> throws (\<open>None\<close>) on text that is not UTF-8.
\<close>

record 'j json_api =
  j_null :: 'j
  j_bool :: "bool \<Rightarrow> 'j"
  j_int :: "int \<Rightarrow> 'j"
  j_dbl :: "fl \<Rightarrow> 'j"
  j_str :: "string \<Rightarrow> 'j"
  j_arr :: "'j list \<Rightarrow> 'j"
  j_obj :: "(string \<times> 'j) list \<Rightarrow> 'j"
  j_is_null :: "'j \<Rightarrow> bool"
  j_as_bool :: "'j \<Rightarrow> bool option"
  j_is_integer :: "'j \<Rightarrow> bool"
  j_as_int :: "'j \<Rightarrow> int option"
  j_as_int64 :: "'j \<Rightarrow> int option"
  j_as_flt :: "'j \<Rightarrow> fl option"
  j_as_str :: "'j \<Rightarrow> string option"
  j_as_arr :: "'j \<Rightarrow> 'j list option"
  j_as_obj :: "'j \<Rightarrow> (string \<times> 'j) list option"
  j_what :: "string \<Rightarrow> 'j \<Rightarrow> string"
  j_parse :: "string \<Rightarrow> string + 'j"
  j_dump :: "'j \<Rightarrow> string option"

definition j_get :: "('j, 'z) json_api_scheme \<Rightarrow> 'j \<Rightarrow> string \<Rightarrow> 'j option" where
  "j_get J j k = (case j_as_obj J j of None \<Rightarrow> None | Some es \<Rightarrow> map_of es k)"

text \<open>\<open>get<std::vector<std::string>>\<close>: an array all of whose elements are strings.\<close>

definition j_as_strings :: "'j json_api \<Rightarrow> 'j \<Rightarrow> string list option" where
  "j_as_strings J n = Option.bind (j_as_arr J n) (\<lambda>xs. all_some (map (j_as_str J) xs))"

section \<open>The table\<close>

datatype key_type = TString | TInt | TFloat | TBool | TStringArray | TEnum

record key_def =
  kd_section :: string
  kd_key :: string
  kd_type :: key_type
  kd_enum :: "string list"
  kd_min :: "fl option"
  kd_max :: "fl option"
  kd_desc :: string

definition key_row ::
  "string \<Rightarrow> string \<Rightarrow> key_type \<Rightarrow> string list \<Rightarrow> fl option \<Rightarrow> fl option \<Rightarrow> string \<Rightarrow> key_def" where
  "key_row s k ty en mn mx d = \<lparr>kd_section = s, kd_key = k, kd_type = ty, kd_enum = en,
     kd_min = mn, kd_max = mx, kd_desc = d\<rparr>"

definition schema_model :: "key_def list" where
  "schema_model = [
    key_row ''model'' ''size'' TEnum [''tiny'', ''tiny.en'', ''base'', ''base.en'', ''small'', ''small.en'', 
        ''medium'', ''medium.en'', ''large'', ''large-v1'', ''large-v2'', 
        ''large-v3'', ''large-v3-turbo'', ''distil-large-v2'', ''distil-large-v3'', 
        ''distil-medium.en'', ''distil-small.en''] None None
      ''Whisper model variant. Smaller = faster, larger = more accurate. Models without '.en'/'distil' suffixes are multilingual.'',
    key_row ''model'' ''device'' TEnum [''cuda'', ''cpu'', ''auto''] None None
      ''Inference device.'',
    key_row ''model'' ''compute_type'' TEnum [''float16'', ''float32'', ''int8'', ''int8_float16'', ''int8_float32'', 
        ''int8_bfloat16'', ''bfloat16''] None None
      ''Numeric precision for inference.'',
    key_row ''model'' ''beam_size'' TInt [] (Some (Fin 1)) (Some (Fin 10))
      ''Beam search width. 1 = greedy.'',
    key_row ''model'' ''language'' TString [] None None
      ''ISO 639-1 language code (e.g. 'en'), or 'auto' to detect the spoken language (requires a multilingual model).'',
    key_row ''model'' ''num_threads'' TInt [] (Some (Fin 1)) (Some (Fin 256))
      ''CPU threads for inference.'']"

definition schema_audio :: "key_def list" where
  "schema_audio = [
    key_row ''audio'' ''sample_rate'' TInt [] (Some (Fin 1)) None
      ''Capture sample rate in Hz. Whisper expects 16000.'',
    key_row ''audio'' ''channels'' TInt [] (Some (Fin 1)) (Some (Fin 8))
      ''Capture channel count.'',
    key_row ''audio'' ''buffer_size'' TInt [] (Some (Fin 1)) None
      ''Audio buffer size in frames.'',
    key_row ''audio'' ''device'' TString [] None None
      ''Input device name. Empty = default.'',
    key_row ''audio'' ''output_device'' TString [] None None
      ''Output device for feedback tones. Empty = default.'',
    key_row ''audio'' ''vad_enabled'' TBool [] None None
      ''Enable voice activity detection.'',
    key_row ''audio'' ''vad_threshold'' TFloat [] (Some (Fin 0)) (Some (Fin 1))
      ''VAD activation threshold, 0..1.'',
    key_row ''audio'' ''silence_duration'' TFloat [] (Some (Fin 0)) None
      ''Silence duration in seconds before stop (toggle mode).'',
    key_row ''audio'' ''max_duration'' TFloat [] (Some (Fin 0)) None
      ''Maximum recording length in seconds.'',
    key_row ''audio'' ''mute_other_apps'' TBool [] None None
      ''Mute other applications while recording.'']"

definition schema_hotkeys :: "key_def list" where
  "schema_hotkeys = [
    key_row ''hotkeys'' ''mode'' TEnum [''push_to_talk'', ''toggle''] None None
      ''Hotkey activation mode.'',
    key_row ''hotkeys'' ''trigger'' TStringArray [] None None
      ''One or more trigger hotkeys, e.g. ['shift+super'].'',
    key_row ''hotkeys'' ''cancel'' TStringArray [] None None
      ''Cancel hotkeys, e.g. ['esc'].'',
    key_row ''hotkeys'' ''escape_to_cancel'' TBool [] None None
      ''Treat Escape as cancel.'']"

definition schema_output :: "key_def list" where
  "schema_output = [
    key_row ''output'' ''method'' TEnum [''inject'', ''clipboard''] None None
      ''How transcribed text reaches the cursor.'',
    key_row ''output'' ''auto_paste'' TBool [] None None
      ''Automatically paste after clipboard write.'',
    key_row ''output'' ''paste_delay'' TFloat [] (Some (Fin 0)) None
      ''Delay before paste, in seconds.'',
    key_row ''output'' ''ending_action'' TEnum [''none'', ''newline'', ''return_key''] None None
      ''What to append after the transcribed text.'',
    key_row ''output'' ''lowercase'' TBool [] None None
      ''Lowercase the output.'',
    key_row ''output'' ''also_copy_to_clipboard'' TBool [] None None
      ''Copy to clipboard in addition to the primary method.'']"

definition schema_formatting :: "key_def list" where
  "schema_formatting = [
    key_row ''formatting'' ''remove_fillers'' TBool [] None None
      ''Remove hesitation words (um, uh, ...) from transcripts. English only.'',
    key_row ''formatting'' ''spoken_commands'' TBool [] None None
      ''Turn standalone 'new line' / 'new paragraph' into real line breaks.'',
    key_row ''formatting'' ''dictionary'' TStringArray [] None None
      ''Personal dictionary, entries of the form 'spoken => written', e.g. 'auto whisper => AutoWhisper'.'']"

definition schema_feedback :: "key_def list" where
  "schema_feedback = [
    key_row ''feedback'' ''enabled'' TBool [] None None
      ''Play tones on record start/stop/error.'',
    key_row ''feedback'' ''frequency_start'' TInt [] (Some (Fin 1)) None
      ''Start tone frequency in Hz.'',
    key_row ''feedback'' ''frequency_stop'' TInt [] (Some (Fin 1)) None
      ''Stop tone frequency in Hz.'',
    key_row ''feedback'' ''frequency_error'' TInt [] (Some (Fin 1)) None
      ''Error tone frequency in Hz.'',
    key_row ''feedback'' ''duration'' TFloat [] (Some (Fin 0)) None
      ''Tone duration in seconds.'',
    key_row ''feedback'' ''volume'' TFloat [] (Some (Fin 0)) (Some (Fin 1))
      ''Tone volume, 0..1.'']"

definition schema_daemon :: "key_def list" where
  "schema_daemon = [
    key_row ''daemon'' ''log_level'' TEnum [''trace'', ''debug'', ''info'', ''warn'', ''error'', ''critical'', ''off''] None None
      ''spdlog level.'',
    key_row ''daemon'' ''log_file'' TString [] None None
      ''Optional log file path. Empty or 'default' = none.'',
    key_row ''daemon'' ''pid_file'' TString [] None None
      ''PID file path. Must be non-empty.'',
    key_row ''daemon'' ''work_dir'' TString [] None None
      ''Working directory. Must be non-empty.'']"

definition schema_avatar :: "key_def list" where
  "schema_avatar = [
    key_row ''avatar'' ''enabled'' TBool [] None None
      ''Show the floating companion (Echo) that glows while listening and writes while inserting.'',
    key_row ''avatar'' ''character'' TEnum [''echo'', ''hermes'', ''mnemosyne'', ''kalliope'', ''morpheus''] None None
      ''Which spirit accompanies you: Echo (answers, red), Hermes (swift, winged, blue), Mnemosyne (memory, inner ring, amber), Kalliope (the muse, crowned, violet), Morpheus (dreams, drifting motes, teal).'',
    key_row ''avatar'' ''size'' TInt [] (Some (Fin 64)) (Some (Fin 192))
      ''Companion size in pixels.'']"

definition schema_tray :: "key_def list" where
  "schema_tray = [
    key_row ''tray'' ''enabled'' TBool [] None None
      ''Show the system tray icon.'']"

definition schema_all :: "key_def list" where
  "schema_all = schema_model @ schema_audio @ schema_hotkeys @ schema_output @ schema_formatting @ schema_feedback @ schema_daemon @ schema_avatar @ schema_tray"

definition schema_find :: "string \<Rightarrow> string \<Rightarrow> key_def option" where
  "schema_find s k = find (\<lambda>d. kd_section d = s \<and> kd_key d = k) schema_all"

definition schema_version :: int where
  "schema_version = 1"

definition is_known_section :: "string \<Rightarrow> bool" where
  "is_known_section s \<longleftrightarrow> list_ex (\<lambda>d. kd_section d = s) schema_all"

definition is_known_key :: "string \<Rightarrow> string \<Rightarrow> bool" where
  "is_known_key s k \<longleftrightarrow> schema_find s k \<noteq> None"

section \<open>Serialisation\<close>

fun type_name :: "key_type \<Rightarrow> string" where
  "type_name TString = ''string''"
| "type_name TInt = ''int''"
| "type_name TFloat = ''float''"
| "type_name TBool = ''bool''"
| "type_name TStringArray = ''string_array''"
| "type_name TEnum = ''enum''"

definition schema_entry_json :: "('j, 'z) json_api_scheme \<Rightarrow> key_def \<Rightarrow> 'j" where
  "schema_entry_json J d =
     j_obj J
       ([(''key'', j_str J (kd_key d)), (''type'', j_str J (type_name (kd_type d)))] @
        (if kd_type d = TEnum then [(''enum_values'', j_arr J (map (j_str J) (kd_enum d)))] else []) @
        [(''min_numeric'', case kd_min d of Some v \<Rightarrow> j_dbl J v | None \<Rightarrow> j_null J),
         (''max_numeric'', case kd_max d of Some v \<Rightarrow> j_dbl J v | None \<Rightarrow> j_null J),
         (''description'', j_str J (kd_desc d))])"

text \<open>The loop pushes each entry onto the array of its section, creating it the first time.\<close>

fun push_entry :: "string \<Rightarrow> 'a \<Rightarrow> (string \<times> 'a list) list \<Rightarrow> (string \<times> 'a list) list" where
  "push_entry s e [] = [(s, [e])]"
| "push_entry s e ((t, es) # rest) = (if t = s then (t, es @ [e]) # rest else (t, es) # push_entry s e rest)"

definition schema_groups :: "('j, 'z) json_api_scheme \<Rightarrow> key_def list \<Rightarrow> (string \<times> 'j list) list" where
  "schema_groups J ds = foldl (\<lambda>acc d. push_entry (kd_section d) (schema_entry_json J d) acc) [] ds"

definition schema_to_json :: "('j, 'z) json_api_scheme \<Rightarrow> 'j" where
  "schema_to_json J = j_obj J (map (\<lambda>g. (fst g, j_arr J (snd g))) (schema_groups J schema_all))"

section \<open>Facts\<close>

lemma schema_find_Some:
  "schema_find s k = Some d \<Longrightarrow> d \<in> set schema_all \<and> kd_section d = s \<and> kd_key d = k"
  by (auto simp: schema_find_def find_Some_iff)

lemma push_entry_map_of:
  "map_of (push_entry s e acc) t =
     (if t = s then Some (case map_of acc s of None \<Rightarrow> [e] | Some es \<Rightarrow> es @ [e]) else map_of acc t)"
  by (induction s e acc rule: push_entry.induct) auto

lemma schema_groups_map_of:
  "map_of (schema_groups J ds) s =
     (let es = map (schema_entry_json J) (filter (\<lambda>d. kd_section d = s) ds) in if es = [] then None else Some es)"
proof (induction ds rule: rev_induct)
  case (snoc d ds)
  have "schema_groups J (ds @ [d]) = push_entry (kd_section d) (schema_entry_json J d) (schema_groups J ds)"
    by (simp add: schema_groups_def)
  with snoc show ?case
    by (cases "kd_section d = s") (auto simp: push_entry_map_of Let_def split: option.splits)
qed (simp add: schema_groups_def)

lemma schema_keys_distinct: "distinct (map (\<lambda>d. (kd_section d, kd_key d)) schema_all)"
  by code_simp

end
