(* ===== verification/Models_Catalog.thy ===== *)
theory Models_Catalog
  imports AW_Prelude Sha256 File_System
begin

text \<open>
  The model catalogue and the downloader (src/src/models/models.h, models.cpp). The commands
  the downloader runs and the operations that may fail are arguments.
\<close>

section \<open>The catalogue\<close>

record model_info =
  mi_name :: string
  mi_description :: string
  mi_size :: string
  mi_speed :: string
  mi_ggml_file :: string
  mi_url :: string
  mi_sha256 :: string
  mi_english_only :: bool

definition model_row ::
  "string \<Rightarrow> string \<Rightarrow> string \<Rightarrow> string \<Rightarrow> string \<Rightarrow> string \<Rightarrow> string \<Rightarrow> bool \<Rightarrow> model_info" where
  "model_row n d sz sp f u h e = \<lparr>mi_name = n, mi_description = d, mi_size = sz, mi_speed = sp,
     mi_ggml_file = f, mi_url = u, mi_sha256 = h, mi_english_only = e\<rparr>"

definition MODELS :: "model_info list" where
  "MODELS = [
    model_row ''tiny.en'' ''Fastest, good accuracy'' ''~78MB'' ''78ms''
      ''ggml-tiny.en.bin''
      ''https://huggingface.co/ggerganov/whisper.cpp/resolve/main/ggml-tiny.en.bin''
      ''921e4cf8686fdd993dcd081a5da5b6c365bfde1162e72b08d75ac75289920b1f'' True,
    model_row ''tiny'' ''Fastest, multilingual'' ''~78MB'' [CHR 0xE2, CHR 0x80, CHR 0x94]
      ''ggml-tiny.bin''
      ''https://huggingface.co/ggerganov/whisper.cpp/resolve/main/ggml-tiny.bin''
      ''be07e048e1e599ad46341c8d2a135645097a538221678b7acdd1b1919c6e1b21'' False,
    model_row ''base.en'' ''Fast, better accuracy'' ''~148MB'' ''143ms''
      ''ggml-base.en.bin''
      ''https://huggingface.co/ggerganov/whisper.cpp/resolve/main/ggml-base.en.bin''
      ''a03779c86df3323075f5e796cb2ce5029f00ec8869eee3fdfb897afe36c6d002'' True,
    model_row ''base'' ''Fast, multilingual'' ''~148MB'' [CHR 0xE2, CHR 0x80, CHR 0x94]
      ''ggml-base.bin''
      ''https://huggingface.co/ggerganov/whisper.cpp/resolve/main/ggml-base.bin''
      ''60ed5bc3dd14eea856493d334349b405782ddcaf0028d4b5df4088345fba2efe'' False,
    model_row ''small.en'' ''Balanced'' ''~488MB'' ''211ms''
      ''ggml-small.en.bin''
      ''https://huggingface.co/ggerganov/whisper.cpp/resolve/main/ggml-small.en.bin''
      ''c6138d6d58ecc8322097e0f987c32f1be8bb0a18532a3f88f734d1bbf9c41e5d'' True,
    model_row ''small'' ''Balanced, multilingual'' ''~488MB'' [CHR 0xE2, CHR 0x80, CHR 0x94]
      ''ggml-small.bin''
      ''https://huggingface.co/ggerganov/whisper.cpp/resolve/main/ggml-small.bin''
      ''1be3a9b2063867b937e64e2ec7483364a79917e157fa98c5d94b5c1fffea987b'' False,
    model_row ''distil-small.en'' ''Optimized small (recommended)'' ''~336MB'' ''198ms''
      ''ggml-distil-small.en.bin''
      ''https://huggingface.co/distil-whisper/distil-small.en/resolve/main/ggml-distil-small.en.bin''
      ''7691eb11167ab7aaf6b3e05d8266f2fd9ad89c550e433f86ac266ebdee6c970a'' True,
    model_row ''medium.en'' ''Medium accuracy'' ''~1.5GB'' ''381ms''
      ''ggml-medium.en.bin''
      ''https://huggingface.co/ggerganov/whisper.cpp/resolve/main/ggml-medium.en.bin''
      ''cc37e93478338ec7700281a7ac30a10128929eb8f427dda2e865faa8f6da4356'' True,
    model_row ''medium'' ''Medium accuracy, multilingual'' ''~1.5GB'' [CHR 0xE2, CHR 0x80, CHR 0x94]
      ''ggml-medium.bin''
      ''https://huggingface.co/ggerganov/whisper.cpp/resolve/main/ggml-medium.bin''
      ''6c14d5adee5f86394037b4e4e8b59f1673b6cee10e3cf0b11bbdbee79c156208'' False,
    model_row ''distil-medium.en'' ''Optimized medium'' ''~794MB'' ''381ms''
      ''ggml-medium-32-2.en.bin''
      ''https://huggingface.co/distil-whisper/distil-medium.en/resolve/main/ggml-medium-32-2.en.bin''
      ''ad53ccb618188b210550e98cc32bf5a13188d86635e395bb11115ed275d6e7aa'' True,
    model_row ''distil-large-v3'' ''Best English accuracy'' ''~1.5GB'' ''448ms''
      ''ggml-distil-large-v3.bin''
      ''https://huggingface.co/distil-whisper/distil-large-v3-ggml/resolve/main/ggml-distil-large-v3.bin''
      ''2883a11b90fb10ed592d826edeaee7d2929bf1ab985109fe9e1e7b4d2b69a298'' True,
    model_row ''large-v3-turbo'' ''Best multilingual speed/accuracy'' ''~1.6GB'' [CHR 0xE2, CHR 0x80, CHR 0x94]
      ''ggml-large-v3-turbo.bin''
      ''https://huggingface.co/ggerganov/whisper.cpp/resolve/main/ggml-large-v3-turbo.bin''
      ''1fc70f774d38eb169993ac391eea357ef47c88757ef72ee5943879b7e8e2bc69'' False,
    model_row ''large-v3'' ''Maximum accuracy, multilingual'' ''~3.1GB'' ''926ms''
      ''ggml-large-v3.bin''
      ''https://huggingface.co/ggerganov/whisper.cpp/resolve/main/ggml-large-v3.bin''
      ''64d182b440b98d5203c4f9bd541544d84c605196c4f7b845dfa11fb23594d1e2'' False]"

definition find_model :: "string \<Rightarrow> model_info option" where
  "find_model name = find (\<lambda>m. mi_name m = name) MODELS"

definition model_is_english_only :: "string \<Rightarrow> bool" where
  "model_is_english_only name =
     (case find_model name of
        Some info \<Rightarrow> mi_english_only info
      | None \<Rightarrow> if 3 < length name \<and> ends_with ''.en'' name then True
                else starts_with ''distil-'' name)"

section \<open>Paths in the cache\<close>

text \<open>\<open>home\<close> is \<open>getenv("HOME")\<close>.\<close>

definition get_cache_dir :: "string option \<Rightarrow> string" where
  "get_cache_dir home = (case home of Some h \<Rightarrow> h | None \<Rightarrow> ''/tmp'') @ ''/.cache/whisper''"

definition get_model_path :: "string option \<Rightarrow> string \<Rightarrow> string" where
  "get_model_path home name =
     (case find_model name of None \<Rightarrow> [] | Some info \<Rightarrow> get_cache_dir home @ ''/'' @ mi_ggml_file info)"

definition is_model_downloaded :: "string option \<Rightarrow> fsys \<Rightarrow> string \<Rightarrow> bool" where
  "is_model_downloaded home fs name \<longleftrightarrow>
     get_model_path home name \<noteq> [] \<and> fs_exists fs (get_model_path home name)"

text \<open>\<open>verify_model_checksum\<close>; the result is an option because the digest's padding loop is.\<close>

definition verify_model_checksum :: "model_info \<Rightarrow> fsys \<Rightarrow> string \<Rightarrow> bool option" where
  "verify_model_checksum info fs path =
     (if mi_sha256 info = [] then Some True
      else map_option (\<lambda>actual. if actual = [] then False else actual = mi_sha256 info)
             (sha256_file_hex (fs_read fs path)))"

section \<open>The downloader\<close>

text \<open>
  The world the downloader acts on: \<open>dw_mkdir\<close> whether the cache directory can be made,
  \<open>dw_remove\<close> whether a removal succeeds, \<open>dw_has\<close> \<open>command_exists\<close>, \<open>dw_run\<close> the effect and exit
  status of \<open>run_passthrough\<close>, \<open>dw_stat_ok\<close> whether inspecting the downloaded file succeeds.
\<close>

record download_world =
  dw_home :: "string option"
  dw_mkdir :: bool
  dw_remove :: bool
  dw_has :: "string \<Rightarrow> bool"
  dw_run :: "string list \<Rightarrow> fsys \<Rightarrow> int \<times> fsys"
  dw_stat_ok :: bool

definition fs_remove :: "download_world \<Rightarrow> fsys \<Rightarrow> string \<Rightarrow> fsys" where
  "fs_remove w fs p = (if dw_remove w then fs(p := None) else fs)"

text \<open>The part after the command has run, with its exit status.\<close>

definition download_finish :: "download_world \<Rightarrow> model_info \<Rightarrow> string \<Rightarrow> int \<Rightarrow> fsys \<Rightarrow> int \<times> fsys" where
  "download_finish w info dest rc fs =
     (if rc = 0 \<and> dw_stat_ok w \<and> fs_regular fs dest \<and> 1000 < fs_size fs dest then
        (if verify_model_checksum info fs dest = Some True then (0, fs) else (1, fs_remove w fs dest))
      else (1, fs_remove w fs dest))"

definition download_fetch :: "download_world \<Rightarrow> model_info \<Rightarrow> string \<Rightarrow> fsys \<Rightarrow> int \<times> fsys" where
  "download_fetch w info dest fs =
     (let url = mi_url info
      in if dw_has w ''curl'' then
           (let (rc, fs1) = dw_run w [''curl'', ''-L'', ''-o'', dest, ''--progress-bar'', url] fs
            in download_finish w info dest rc fs1)
         else if dw_has w ''wget'' then
           (let (rc, fs1) = dw_run w [''wget'', ''-O'', dest, ''--show-progress'', url] fs
            in download_finish w info dest rc fs1)
         else (1, fs))"

definition download_model :: "download_world \<Rightarrow> string \<Rightarrow> fsys \<Rightarrow> int \<times> fsys" where
  "download_model w name fs =
     (case find_model name of
        None \<Rightarrow> (1, fs)
      | Some info \<Rightarrow>
          (let cache_dir = get_cache_dir (dw_home w);
               dest = cache_dir @ ''/'' @ mi_ggml_file info
           in if \<not> dw_mkdir w then (1, fs)
              else
                (let fs1 = fs(cache_dir := Some Dir)
                 in if fs_exists fs1 dest then
                      (if verify_model_checksum info fs1 dest = Some True then (0, fs1)
                       else if \<not> dw_remove w then (1, fs1)
                       else download_fetch w info dest (fs1(dest := None)))
                    else download_fetch w info dest fs1)))"

section \<open>Facts\<close>

lemma verify_total: "\<exists>b. verify_model_checksum info fs p = Some b"
  by (auto simp: verify_model_checksum_def fs_read_def sha256_file_hex_eq split: option.splits fs_node.splits)

lemma verify_Some_True:
  "verify_model_checksum info fs p = Some True \<longleftrightarrow>
     mi_sha256 info = [] \<or> (\<exists>c. fs p = Some (File c) \<and> sha_spec (bytes_of c) = mi_sha256 info)"
  by (auto simp: verify_model_checksum_def fs_read_def sha256_file_hex_eq sha_spec_nonempty
        split: option.splits fs_node.splits if_splits)

lemma find_model_Some: "find_model name = Some info \<Longrightarrow> info \<in> set MODELS \<and> mi_name info = name"
  by (auto simp: find_model_def find_Some_iff)

definition is_digest :: "string \<Rightarrow> bool" where
  "is_digest h \<longleftrightarrow> length h = 64 \<and> list_all (\<lambda>c. c \<in> set hex_digits) h"

lemma catalogue_pinned: "list_all (\<lambda>m. is_digest (mi_sha256 m)) MODELS"
  by code_simp

lemma catalogue_distinct: "distinct (map mi_name MODELS) \<and> distinct (map mi_ggml_file MODELS)"
  by code_simp

lemma pinned_nonempty: "find_model name = Some info \<Longrightarrow> mi_sha256 info \<noteq> []"
  using catalogue_pinned find_model_Some by (fastforce simp: list_all_iff is_digest_def)

lemma download_finish_ok:
  "download_finish w info dest rc fs = (r, fs') \<Longrightarrow> mi_sha256 info \<noteq> [] \<Longrightarrow>
     (r = 0 \<longrightarrow> (\<exists>c. fs' dest = Some (File c) \<and> sha_spec (bytes_of c) = mi_sha256 info)) \<and>
     (r \<noteq> 0 \<longrightarrow> dw_remove w \<longrightarrow> fs' dest = None)"
  by (auto simp: download_finish_def verify_Some_True fs_remove_def split: if_splits)

lemma download_fetch_ok:
  "download_fetch w info dest fs = (r, fs') \<Longrightarrow> mi_sha256 info \<noteq> [] \<Longrightarrow> fs dest = None \<Longrightarrow>
     (r = 0 \<longrightarrow> (\<exists>c. fs' dest = Some (File c) \<and> sha_spec (bytes_of c) = mi_sha256 info)) \<and>
     (r \<noteq> 0 \<longrightarrow> dw_remove w \<longrightarrow> fs' dest = None)"
  using download_finish_ok
  by (auto simp: download_fetch_def Let_def split: prod.splits if_splits)

lemma download_outcome:
  assumes "download_model w name fs = (r, fs')" "find_model name = Some info"
  shows "(r = 0 \<longrightarrow> (\<exists>c. fs' (get_model_path (dw_home w) name) = Some (File c) \<and> sha_spec (bytes_of c) = mi_sha256 info)) \<and>
    (r \<noteq> 0 \<longrightarrow> dw_mkdir w \<longrightarrow> dw_remove w \<longrightarrow> fs' (get_model_path (dw_home w) name) = None)"
proof -
  let ?dest = "get_cache_dir (dw_home w) @ ''/'' @ mi_ggml_file info"
  let ?fs1 = "fs(get_cache_dir (dw_home w) := Some Dir)"
  note ne = pinned_nonempty [OF assms(2)]
  have p: "get_model_path (dw_home w) name = ?dest" using assms by (simp add: get_model_path_def)
  show ?thesis
    using assms p ne download_fetch_ok [of w info ?dest "?fs1(?dest := None)" r fs']
      download_fetch_ok [of w info ?dest ?fs1 r fs']
    by (auto simp: download_model_def Let_def verify_Some_True fs_exists_def split: if_splits)
qed

section \<open>Properties\<close>

text \<open>C30: The downloader never delivers an unverified model: when it succeeds, the file at the
  model's path has the SHA-256 digest pinned in the catalogue, whatever the network or the
  command did; when it fails (and removals work) no file of that name is left behind.\<close>

theorem download_verified:
  assumes "download_model w name fs = (r, fs')"
  shows "case find_model name of
      None \<Rightarrow> r = 1 \<and> fs' = fs
    | Some info \<Rightarrow>
        (r = 0 \<longrightarrow> (\<exists>c. fs' (get_model_path (dw_home w) name) = Some (File c) \<and> sha_spec (bytes_of c) = mi_sha256 info)) \<and>
        (r \<noteq> 0 \<longrightarrow> dw_mkdir w \<longrightarrow> dw_remove w \<longrightarrow> fs' (get_model_path (dw_home w) name) = None)"
  using assms download_outcome [OF assms] by (cases "find_model name") (auto simp: download_model_def)

definition dead_world :: download_world where
  "dead_world = \<lparr>dw_home = None, dw_mkdir = True, dw_remove = True, dw_has = (\<lambda>c. c = ''curl''),
     dw_run = (\<lambda>args fs. (0, fs(args ! 3 := Some (File ''<html>'')))), dw_stat_ok = True\<rparr>"

theorem download_verified_witness:
  "case find_model ''tiny'' of
      None \<Rightarrow> fst (download_model dead_world ''tiny'' (\<lambda>_. None)) = 1 \<and>
        snd (download_model dead_world ''tiny'' (\<lambda>_. None)) = (\<lambda>_. None)
    | Some info \<Rightarrow>
        (fst (download_model dead_world ''tiny'' (\<lambda>_. None)) = 0 \<longrightarrow>
          (\<exists>c. snd (download_model dead_world ''tiny'' (\<lambda>_. None)) (get_model_path (dw_home dead_world) ''tiny'') = Some (File c) \<and>
            sha_spec (bytes_of c) = mi_sha256 info)) \<and>
        (fst (download_model dead_world ''tiny'' (\<lambda>_. None)) \<noteq> 0 \<longrightarrow> dw_mkdir dead_world \<longrightarrow> dw_remove dead_world \<longrightarrow>
          snd (download_model dead_world ''tiny'' (\<lambda>_. None)) (get_model_path (dw_home dead_world) ''tiny'') = None)"
  by (rule download_verified [OF prod.collapse [symmetric]])

text \<open>The catalogue is consistent: names and file names are distinct, so look-up by name returns
  exactly the entry of that name and no two models share a cache path, and every entry pins a
  64-digit lower-case digest, so no catalogue model is ever accepted unverified.\<close>

theorem catalogue_consistent:
  "distinct (map mi_name MODELS) \<and> distinct (map mi_ggml_file MODELS) \<and>
   list_all (\<lambda>m. is_digest (mi_sha256 m)) MODELS \<and>
   list_all (\<lambda>m. find_model (mi_name m) = Some m) MODELS \<and>
   (verify_model_checksum info (\<lambda>_. None) path = Some True \<longleftrightarrow> mi_sha256 info = [])"
proof -
  have "list_all (\<lambda>m. find_model (mi_name m) = Some m) MODELS" by code_simp
  then show ?thesis using catalogue_distinct catalogue_pinned by (simp add: verify_Some_True)
qed

end
