(* ===== verification/Config.thy ===== *)
theory Config
  imports Config_Records Config_Schema Models_Catalog File_System
begin

text \<open>
  Loading, validating and saving the configuration (src/src/config/config.cpp). The TOML library is
  a parameter: \<open>toml_api\<close> names the node operations the source uses, a table being the list of its
  entries in iteration order, and \<open>t_io_error\<close> is the message of a file that cannot be read. Errors are values: a message (\<open>Inl\<close>) for an exception.
\<close>

section \<open>The TOML library as a parameter\<close>

record 't toml_api =
  t_str :: "'t \<Rightarrow> string option"
  t_int :: "'t \<Rightarrow> int option"
  t_dbl :: "'t \<Rightarrow> fl option"
  t_bool :: "'t \<Rightarrow> bool option"
  t_arr :: "'t \<Rightarrow> 't list option"
  t_tab :: "'t \<Rightarrow> (string \<times> 't) list option"
  mk_str :: "string \<Rightarrow> 't"
  mk_int :: "int \<Rightarrow> 't"
  mk_dbl :: "fl \<Rightarrow> 't"
  mk_bool :: "bool \<Rightarrow> 't"
  mk_arr :: "'t list \<Rightarrow> 't"
  mk_tab :: "(string \<times> 't) list \<Rightarrow> 't"
  t_parse :: "string \<Rightarrow> string + (string \<times> 't) list"
  t_print :: "(string \<times> 't) list \<Rightarrow> string"
  t_io_error :: string

section \<open>Reading values\<close>

definition get_or :: "('t \<Rightarrow> 'a option) \<Rightarrow> (string \<times> 't) list \<Rightarrow> string \<Rightarrow> 'a \<Rightarrow> 'a" where
  "get_or rd tbl key d =
     (case map_of tbl key of
        None \<Rightarrow> d
      | Some node \<Rightarrow> (case rd node of None \<Rightarrow> d | Some v \<Rightarrow> v))"

abbreviation rd_int :: "'t toml_api \<Rightarrow> 't \<Rightarrow> int option" where
  "rd_int T n \<equiv> map_option to_int32 (t_int T n)"

abbreviation rd_flt :: "'t toml_api \<Rightarrow> 't \<Rightarrow> fl option" where
  "rd_flt T n \<equiv> map_option to_f32 (t_dbl T n)"

definition get_optional_string :: "'t toml_api \<Rightarrow> (string \<times> 't) list \<Rightarrow> string \<Rightarrow> string option" where
  "get_optional_string T tbl key =
     (case map_of tbl key of
        None \<Rightarrow> None
      | Some node \<Rightarrow>
          (case t_str T node of
             None \<Rightarrow> None
           | Some v \<Rightarrow> if v = ''default'' \<or> v = [] then None else Some v))"

definition get_string_array :: "'t toml_api \<Rightarrow> (string \<times> 't) list \<Rightarrow> string \<Rightarrow> string list \<Rightarrow> string list" where
  "get_string_array T tbl key d =
     (case map_of tbl key of
        None \<Rightarrow> d
      | Some node \<Rightarrow>
          (case t_str T node of
             Some v \<Rightarrow> [v]
           | None \<Rightarrow>
               (case t_arr T node of
                  None \<Rightarrow> d
                | Some arr \<Rightarrow>
                    let result = List.map_filter (t_str T) arr
                    in if result \<noteq> [] then result else d)))"

section \<open>Validation\<close>

datatype severity = SevError | SevWarning

record validation_issue =
  vi_severity :: severity
  vi_path :: string
  vi_code :: string
  vi_message :: string

definition make_issue :: "severity \<Rightarrow> string \<Rightarrow> string \<Rightarrow> string \<Rightarrow> validation_issue" where
  "make_issue s p c m = \<lparr>vi_severity = s, vi_path = p, vi_code = c, vi_message = m\<rparr>"

text \<open>\<open>if (bad) add_error(issues, ...)\<close>.\<close>

definition err_if :: "bool \<Rightarrow> string \<Rightarrow> string \<Rightarrow> string \<Rightarrow> validation_issue list" where
  "err_if bad p c m = (if bad then [make_issue SevError p c m] else [])"

definition is_allowed_enum :: "string \<Rightarrow> string \<Rightarrow> string \<Rightarrow> bool" where
  "is_allowed_enum s k v =
     (case schema_find s k of
        None \<Rightarrow> True
      | Some d \<Rightarrow> if kd_type d \<noteq> TEnum then True else list_ex (\<lambda>a. v = a) (kd_enum d))"

definition validate_model :: "model_config \<Rightarrow> validation_issue list" where
  "validate_model m =
     err_if (\<not> is_allowed_enum ''model'' ''size'' (md_size m)) ''model.size'' ''invalid_enum''
       (''Invalid model size: '' @ md_size m) @
     err_if (\<not> is_allowed_enum ''model'' ''device'' (md_device m)) ''model.device'' ''invalid_enum''
       (''Invalid device: '' @ md_device m) @
     err_if (\<not> is_allowed_enum ''model'' ''compute_type'' (md_compute_type m)) ''model.compute_type'' ''invalid_enum''
       (''Invalid compute_type: '' @ md_compute_type m) @
     (if md_language m = ''auto'' \<and> model_is_english_only (md_size m) then
        [make_issue SevWarning ''model.language'' ''language_model_mismatch''
           (''language='' @ [CHR 0x27] @ ''auto'' @ [CHR 0x27] @ '' requires a multilingual model, but '' @ [CHR 0x27] @
            md_size m @ [CHR 0x27] @ '' is English-only. Use e.g. 'large-v3-turbo', 'small', or 'base'.'')]
      else if md_language m \<noteq> ''en'' \<and> md_language m \<noteq> ''auto'' \<and> md_language m \<noteq> [] \<and>
              model_is_english_only (md_size m) then
        [make_issue SevWarning ''model.language'' ''language_model_mismatch''
           (''language='' @ [CHR 0x27] @ md_language m @ [CHR 0x27] @ '' requires a multilingual model, but '' @
            [CHR 0x27] @ md_size m @ [CHR 0x27] @ '' is English-only.'')]
      else []) @
     err_if (md_beam_size m \<le> 0 \<or> md_beam_size m > 10) ''model.beam_size'' ''out_of_range''
       ''Invalid beam_size: must be between 1 and 10'' @
     err_if (md_num_threads m \<le> 0 \<or> md_num_threads m > 256) ''model.num_threads'' ''out_of_range''
       ''Invalid num_threads: must be between 1 and 256''"

text \<open>\<open>!std::isfinite(x) || x < 0.0f || x > 1.0f\<close> and \<open>!std::isfinite(x) || x <= 0.0f\<close>.\<close>

definition not_unit :: "fl \<Rightarrow> bool" where
  "not_unit x \<longleftrightarrow> \<not> is_finite x \<or> fl_lt x (Fin 0) \<or> fl_lt (Fin 1) x"

definition not_positive :: "fl \<Rightarrow> bool" where
  "not_positive x \<longleftrightarrow> \<not> is_finite x \<or> fl_le x (Fin 0)"

definition validate_audio :: "audio_config \<Rightarrow> validation_issue list" where
  "validate_audio a =
     err_if (au_sample_rate a \<le> 0) ''audio.sample_rate'' ''out_of_range'' ''Invalid sample_rate: must be > 0'' @
     err_if (au_channels a \<le> 0 \<or> au_channels a > 8) ''audio.channels'' ''out_of_range''
       ''Invalid channels: must be between 1 and 8'' @
     err_if (au_buffer_size a \<le> 0) ''audio.buffer_size'' ''out_of_range'' ''Invalid buffer_size: must be > 0'' @
     err_if (not_unit (au_vad_threshold a)) ''audio.vad_threshold'' ''out_of_range''
       ''Invalid vad_threshold: must be between 0.0 and 1.0'' @
     err_if (not_positive (au_silence_duration a)) ''audio.silence_duration'' ''out_of_range''
       ''Invalid silence_duration: must be > 0'' @
     err_if (not_positive (au_max_duration a)) ''audio.max_duration'' ''out_of_range''
       ''Invalid max_duration: must be > 0''"

definition validate_hotkeys :: "hotkey_config \<Rightarrow> validation_issue list" where
  "validate_hotkeys h =
     err_if (\<not> is_allowed_enum ''hotkeys'' ''mode'' (hk_mode h)) ''hotkeys.mode'' ''invalid_enum''
       (''Invalid hotkey mode: '' @ hk_mode h) @
     err_if (hk_trigger h = []) ''hotkeys.trigger'' ''missing_required''
       ''Invalid hotkeys.trigger: at least one trigger is required'' @
     concat (map (\<lambda>key. err_if (key = []) ''hotkeys.trigger'' ''empty_entry''
       ''Invalid hotkeys.trigger: empty key entry'') (hk_trigger h)) @
     concat (map (\<lambda>key. err_if (key = []) ''hotkeys.cancel'' ''empty_entry''
       ''Invalid hotkeys.cancel: empty key entry'') (hk_cancel h))"

definition validate_output :: "output_config \<Rightarrow> validation_issue list" where
  "validate_output out =
     err_if (\<not> is_allowed_enum ''output'' ''method'' (ou_method out)) ''output.method'' ''invalid_enum''
       (''Invalid output method: '' @ ou_method out) @
     err_if (\<not> is_finite (ou_paste_delay out) \<or> fl_lt (ou_paste_delay out) (Fin 0) \<or>
             fl_lt (f32 (of_int (2 ^ 31 - 1))) (ou_paste_delay out))
       ''output.paste_delay'' ''out_of_range'' ''Invalid paste_delay: must be >= 0'' @
     err_if (\<not> is_allowed_enum ''output'' ''ending_action'' (ou_ending_action out)) ''output.ending_action''
       ''invalid_enum'' (''Invalid ending_action: '' @ ou_ending_action out)"

definition dictionary_entry_ok :: "string \<Rightarrow> bool" where
  "dictionary_entry_ok entry =
     (case sfind ''=>'' entry 0 of
        None \<Rightarrow> False
      | Some sep \<Rightarrow> length (takeWhile (\<lambda>c. c = CHR '' '' \<or> c = CHR 0x09) entry) < sep)"

definition validate_formatting :: "formatting_config \<Rightarrow> validation_issue list" where
  "validate_formatting f =
     concat (map (\<lambda>entry. if \<not> dictionary_entry_ok entry
       then [make_issue SevWarning ''formatting.dictionary'' ''malformed_entry''
               (''Dictionary entry is not 'spoken => written' and will be ignored: '' @ entry)]
       else []) (fm_dictionary f))"

definition validate_feedback :: "feedback_config \<Rightarrow> validation_issue list" where
  "validate_feedback f =
     err_if (not_unit (fb_volume f)) ''feedback.volume'' ''out_of_range''
       ''Invalid volume: must be between 0.0 and 1.0'' @
     err_if (fb_frequency_start f \<le> 0 \<or> fb_frequency_stop f \<le> 0 \<or> fb_frequency_error f \<le> 0)
       ''feedback.frequency'' ''out_of_range'' ''Invalid feedback frequencies: must be > 0'' @
     err_if (not_positive (fb_duration f)) ''feedback.duration'' ''out_of_range''
       ''Invalid feedback duration: must be > 0''"

definition validate_daemon :: "daemon_config \<Rightarrow> validation_issue list" where
  "validate_daemon d =
     err_if (\<not> is_allowed_enum ''daemon'' ''log_level'' (dm_log_level d)) ''daemon.log_level'' ''invalid_enum''
       (''Invalid daemon.log_level: '' @ dm_log_level d) @
     err_if (dm_pid_file d = []) ''daemon.pid_file'' ''empty_value'' ''Invalid daemon.pid_file: cannot be empty'' @
     err_if (dm_work_dir d = []) ''daemon.work_dir'' ''empty_value'' ''Invalid daemon.work_dir: cannot be empty''"

definition validate_avatar :: "avatar_config \<Rightarrow> validation_issue list" where
  "validate_avatar a =
     err_if (\<not> is_allowed_enum ''avatar'' ''character'' (av_character a)) ''avatar.character'' ''invalid_enum''
       (''Invalid avatar.character: '' @ av_character a) @
     err_if (av_size a < 64 \<or> av_size a > 192) ''avatar.size'' ''out_of_range''
       ''Invalid avatar.size: must be between 64 and 192''"

definition validate_all :: "config \<Rightarrow> validation_issue list" where
  "validate_all c =
     validate_model (c_model c) @ validate_audio (c_audio c) @ validate_hotkeys (c_hotkeys c) @
     validate_output (c_output c) @ validate_formatting (c_formatting c) @ validate_feedback (c_feedback c) @
     validate_daemon (c_daemon c) @ validate_avatar (c_avatar c)"

definition first_error :: "validation_issue list \<Rightarrow> validation_issue option" where
  "first_error issues = find (\<lambda>i. vi_severity i = SevError) issues"

text \<open>\<open>Config::validate\<close>: the message it throws, or \<open>None\<close>.\<close>

definition config_validate :: "config \<Rightarrow> string option" where
  "config_validate c = map_option vi_message (first_error (validate_all c))"

section \<open>Loading\<close>

definition unknown_keys :: "string \<Rightarrow> (string \<times> 't) list \<Rightarrow> validation_issue list" where
  "unknown_keys section' entries =
     concat (map (\<lambda>item.
       if section' = ''output'' \<and> fst item = ''append_newline'' then []
       else if \<not> is_known_key section' (fst item) then
         [make_issue SevWarning (section' @ ''.'' @ fst item) ''unknown_key''
            (''Unknown config key: '' @ section' @ ''.'' @ fst item)]
       else []) entries)"

definition unknown_toml_issues :: "'t toml_api \<Rightarrow> (string \<times> 't) list \<Rightarrow> validation_issue list" where
  "unknown_toml_issues T tbl =
     concat (map (\<lambda>entry.
       let section' = fst entry
       in if section' = ''schema_version'' then []
          else case t_tab T (snd entry) of
                 None \<Rightarrow> [make_issue SevWarning section' ''unknown_key'' (''Unknown top-level config key: '' @ section')]
               | Some entries \<Rightarrow>
                   if \<not> is_known_section section'
                   then [make_issue SevWarning section' ''unknown_section'' (''Unknown config section: '' @ section')]
                   else unknown_keys section' entries) tbl)"

definition sub_table :: "'t toml_api \<Rightarrow> (string \<times> 't) list \<Rightarrow> string \<Rightarrow> (string \<times> 't) list option" where
  "sub_table T tbl s = Option.bind (map_of tbl s) (t_tab T)"

definition load_model :: "'t toml_api \<Rightarrow> (string \<times> 't) list \<Rightarrow> model_config \<Rightarrow> model_config" where
  "load_model T tb m =
     m\<lparr>md_size := get_or (t_str T) tb ''size'' (md_size m),
       md_device := get_or (t_str T) tb ''device'' (md_device m),
       md_compute_type := get_or (t_str T) tb ''compute_type'' (md_compute_type m),
       md_beam_size := get_or (rd_int T) tb ''beam_size'' (md_beam_size m),
       md_language := get_or (t_str T) tb ''language'' (md_language m),
       md_num_threads := get_or (rd_int T) tb ''num_threads'' (md_num_threads m)\<rparr>"

definition load_audio :: "'t toml_api \<Rightarrow> (string \<times> 't) list \<Rightarrow> audio_config \<Rightarrow> audio_config" where
  "load_audio T tb a =
     a\<lparr>au_sample_rate := get_or (rd_int T) tb ''sample_rate'' (au_sample_rate a),
       au_channels := get_or (rd_int T) tb ''channels'' (au_channels a),
       au_buffer_size := get_or (rd_int T) tb ''buffer_size'' (au_buffer_size a),
       au_device := get_optional_string T tb ''device'',
       au_output_device := get_optional_string T tb ''output_device'',
       au_vad_enabled := get_or (t_bool T) tb ''vad_enabled'' (au_vad_enabled a),
       au_vad_threshold := get_or (rd_flt T) tb ''vad_threshold'' (au_vad_threshold a),
       au_silence_duration := get_or (rd_flt T) tb ''silence_duration'' (au_silence_duration a),
       au_max_duration := get_or (rd_flt T) tb ''max_duration'' (au_max_duration a),
       au_mute_other_apps := get_or (t_bool T) tb ''mute_other_apps'' (au_mute_other_apps a)\<rparr>"

definition load_hotkeys :: "'t toml_api \<Rightarrow> (string \<times> 't) list \<Rightarrow> hotkey_config \<Rightarrow> hotkey_config" where
  "load_hotkeys T tb h =
     h\<lparr>hk_mode := get_or (t_str T) tb ''mode'' (hk_mode h),
       hk_trigger := get_string_array T tb ''trigger'' (hk_trigger h),
       hk_cancel := get_string_array T tb ''cancel'' (hk_cancel h),
       hk_escape_to_cancel := get_or (t_bool T) tb ''escape_to_cancel'' (hk_escape_to_cancel h)\<rparr>"

text \<open>\<open>ending_action\<close>, with the legacy key \<open>append_newline\<close> as the fallback.\<close>

definition load_ending_action :: "'t toml_api \<Rightarrow> (string \<times> 't) list \<Rightarrow> string \<Rightarrow> string" where
  "load_ending_action T tb d =
     (case Option.bind (map_of tb ''ending_action'') (t_str T) of
        Some ea \<Rightarrow> ea
      | None \<Rightarrow>
          (case Option.bind (map_of tb ''append_newline'') (t_bool T) of
             Some an \<Rightarrow> if an then ''newline'' else ''none''
           | None \<Rightarrow> d))"

definition load_output :: "'t toml_api \<Rightarrow> (string \<times> 't) list \<Rightarrow> output_config \<Rightarrow> output_config" where
  "load_output T tb out =
     out\<lparr>ou_method := get_or (t_str T) tb ''method'' (ou_method out),
       ou_auto_paste := get_or (t_bool T) tb ''auto_paste'' (ou_auto_paste out),
       ou_paste_delay := get_or (rd_flt T) tb ''paste_delay'' (ou_paste_delay out),
       ou_also_copy := get_or (t_bool T) tb ''also_copy_to_clipboard'' (ou_also_copy out),
       ou_lowercase := get_or (t_bool T) tb ''lowercase'' (ou_lowercase out),
       ou_ending_action := load_ending_action T tb (ou_ending_action out)\<rparr>"

definition load_formatting :: "'t toml_api \<Rightarrow> (string \<times> 't) list \<Rightarrow> formatting_config \<Rightarrow> formatting_config" where
  "load_formatting T tb f =
     f\<lparr>fm_remove_fillers := get_or (t_bool T) tb ''remove_fillers'' (fm_remove_fillers f),
       fm_spoken_commands := get_or (t_bool T) tb ''spoken_commands'' (fm_spoken_commands f),
       fm_dictionary := get_string_array T tb ''dictionary'' (fm_dictionary f)\<rparr>"

definition load_feedback :: "'t toml_api \<Rightarrow> (string \<times> 't) list \<Rightarrow> feedback_config \<Rightarrow> feedback_config" where
  "load_feedback T tb f =
     f\<lparr>fb_enabled := get_or (t_bool T) tb ''enabled'' (fb_enabled f),
       fb_frequency_start := get_or (rd_int T) tb ''frequency_start'' (fb_frequency_start f),
       fb_frequency_stop := get_or (rd_int T) tb ''frequency_stop'' (fb_frequency_stop f),
       fb_frequency_error := get_or (rd_int T) tb ''frequency_error'' (fb_frequency_error f),
       fb_duration := get_or (rd_flt T) tb ''duration'' (fb_duration f),
       fb_volume := get_or (rd_flt T) tb ''volume'' (fb_volume f)\<rparr>"

definition load_daemon :: "'t toml_api \<Rightarrow> (string \<times> 't) list \<Rightarrow> daemon_config \<Rightarrow> daemon_config" where
  "load_daemon T tb d =
     d\<lparr>dm_log_level := get_or (t_str T) tb ''log_level'' (dm_log_level d),
       dm_pid_file := get_or (t_str T) tb ''pid_file'' (dm_pid_file d),
       dm_work_dir := get_or (t_str T) tb ''work_dir'' (dm_work_dir d),
       dm_log_file := get_optional_string T tb ''log_file''\<rparr>"

definition load_tray :: "'t toml_api \<Rightarrow> (string \<times> 't) list \<Rightarrow> tray_config \<Rightarrow> tray_config" where
  "load_tray T tb t = t\<lparr>ty_enabled := get_or (t_bool T) tb ''enabled'' (ty_enabled t)\<rparr>"

definition load_avatar :: "'t toml_api \<Rightarrow> (string \<times> 't) list \<Rightarrow> avatar_config \<Rightarrow> avatar_config" where
  "load_avatar T tb a =
     a\<lparr>av_enabled := get_or (t_bool T) tb ''enabled'' (av_enabled a),
       av_character := get_or (t_str T) tb ''character'' (av_character a),
       av_size := get_or (rd_int T) tb ''size'' (av_size a)\<rparr>"

text \<open>\<open>if (auto s = tbl["s"].as_table()) { ... }\<close>.\<close>

definition load_section ::
  "'t toml_api \<Rightarrow> (string \<times> 't) list \<Rightarrow> string \<Rightarrow> ((string \<times> 't) list \<Rightarrow> 'a \<Rightarrow> 'a) \<Rightarrow> 'a \<Rightarrow> 'a" where
  "load_section T tbl s ld d = (case sub_table T tbl s of None \<Rightarrow> d | Some tb \<Rightarrow> ld tb d)"

definition config_of_toml :: "'t toml_api \<Rightarrow> (string \<times> 't) list \<Rightarrow> config" where
  "config_of_toml T tbl =
     \<lparr>c_model = load_section T tbl ''model'' (load_model T) default_model,
      c_audio = load_section T tbl ''audio'' (load_audio T) default_audio,
      c_hotkeys = load_section T tbl ''hotkeys'' (load_hotkeys T) default_hotkeys,
      c_output = load_section T tbl ''output'' (load_output T) default_output,
      c_formatting = load_section T tbl ''formatting'' (load_formatting T) default_formatting,
      c_feedback = load_section T tbl ''feedback'' (load_feedback T) default_feedback,
      c_daemon = load_section T tbl ''daemon'' (load_daemon T) default_daemon,
      c_tray = load_section T tbl ''tray'' (load_tray T) default_tray,
      c_avatar = load_section T tbl ''avatar'' (load_avatar T) default_avatar\<rparr>"

definition load_with_diagnostics ::
  "'t toml_api \<Rightarrow> fsys \<Rightarrow> string \<Rightarrow> string + config \<times> validation_issue list" where
  "load_with_diagnostics T fs path =
     (if \<not> fs_exists fs path then Inl (''Config file not found: '' @ path)
      else case (case fs_content fs path of None \<Rightarrow> Inl (t_io_error T) | Some s \<Rightarrow> t_parse T s) of
             Inl err \<Rightarrow> Inl (''TOML parse error: '' @ err)
           | Inr tbl \<Rightarrow>
               (let c = config_of_toml T tbl
                in Inr (c, unknown_toml_issues T tbl @ validate_all c)))"

definition config_load :: "'t toml_api \<Rightarrow> fsys \<Rightarrow> string \<Rightarrow> string + config" where
  "config_load T fs path =
     (case load_with_diagnostics T fs path of
        Inl e \<Rightarrow> Inl e
      | Inr (c, issues) \<Rightarrow>
          (case first_error issues of Some i \<Rightarrow> Inl (vi_message i) | None \<Rightarrow> Inr c))"

section \<open>Saving\<close>

text \<open>
  \<open>shortest_double\<close>. \<open>dec_round p q\<close> is the decimal of \<open>p\<close> significant digits that \<open>%.*g\<close> prints for
  \<open>q\<close>; \<open>strtof\<close> and \<open>strtod\<close> round it to the nearest float and double.
\<close>

function ndigits :: "int \<Rightarrow> nat" where
  "ndigits n = (if n \<le> 0 then 0 else Suc (ndigits (n div 10)))"
  by pat_completeness auto
termination
  by (relation "measure nat") auto

declare ndigits.simps [simp del]

definition ilog10 :: "rat \<Rightarrow> int" where
  "ilog10 q = (if 1 \<le> q then int (ndigits \<lfloor>q\<rfloor>) - 1 else - int (ndigits (\<lceil>1 / q\<rceil> - 1)))"

definition ten_pow :: "int \<Rightarrow> rat" where
  "ten_pow e = (if 0 \<le> e then 10 ^ nat e else 1 / 10 ^ nat (- e))"

definition dec_round :: "nat \<Rightarrow> rat \<Rightarrow> rat" where
  "dec_round p q =
     (if q = 0 then 0
      else let u = ten_pow (ilog10 \<bar>q\<bar> - int p + 1) in of_int (round_even (q / u)) * u)"

fun shortest_double :: "fl \<Rightarrow> fl" where
  "shortest_double (Fin q) =
     (case find (\<lambda>p. f32 (dec_round p q) = Fin q) [1..<10] of
        Some p \<Rightarrow> f64 (dec_round p q)
      | None \<Rightarrow> f64 q)"
| "shortest_double x = x"

definition opt_entry :: "string \<Rightarrow> ('a \<Rightarrow> 't) \<Rightarrow> 'a option \<Rightarrow> (string \<times> 't) list" where
  "opt_entry k mk v = (case v of None \<Rightarrow> [] | Some x \<Rightarrow> [(k, mk x)])"

definition toml_of_config :: "'t toml_api \<Rightarrow> config \<Rightarrow> (string \<times> 't) list" where
  "toml_of_config T c =
     [(''model'', mk_tab T
        [(''size'', mk_str T (md_size (c_model c))),
         (''device'', mk_str T (md_device (c_model c))),
         (''compute_type'', mk_str T (md_compute_type (c_model c))),
         (''beam_size'', mk_int T (md_beam_size (c_model c))),
         (''language'', mk_str T (md_language (c_model c))),
         (''num_threads'', mk_int T (md_num_threads (c_model c)))]),
      (''audio'', mk_tab T
        ([(''sample_rate'', mk_int T (au_sample_rate (c_audio c))),
          (''channels'', mk_int T (au_channels (c_audio c))),
          (''buffer_size'', mk_int T (au_buffer_size (c_audio c)))] @
         opt_entry ''device'' (mk_str T) (au_device (c_audio c)) @
         opt_entry ''output_device'' (mk_str T) (au_output_device (c_audio c)) @
         [(''vad_enabled'', mk_bool T (au_vad_enabled (c_audio c))),
          (''vad_threshold'', mk_dbl T (shortest_double (au_vad_threshold (c_audio c)))),
          (''silence_duration'', mk_dbl T (shortest_double (au_silence_duration (c_audio c)))),
          (''max_duration'', mk_dbl T (shortest_double (au_max_duration (c_audio c)))),
          (''mute_other_apps'', mk_bool T (au_mute_other_apps (c_audio c)))])),
      (''hotkeys'', mk_tab T
        [(''mode'', mk_str T (hk_mode (c_hotkeys c))),
         (''trigger'', mk_arr T (map (mk_str T) (hk_trigger (c_hotkeys c)))),
         (''cancel'', mk_arr T (map (mk_str T) (hk_cancel (c_hotkeys c)))),
         (''escape_to_cancel'', mk_bool T (hk_escape_to_cancel (c_hotkeys c)))]),
      (''output'', mk_tab T
        [(''method'', mk_str T (ou_method (c_output c))),
         (''also_copy_to_clipboard'', mk_bool T (ou_also_copy (c_output c))),
         (''auto_paste'', mk_bool T (ou_auto_paste (c_output c))),
         (''paste_delay'', mk_dbl T (shortest_double (ou_paste_delay (c_output c)))),
         (''ending_action'', mk_str T (ou_ending_action (c_output c))),
         (''lowercase'', mk_bool T (ou_lowercase (c_output c)))]),
      (''formatting'', mk_tab T
        [(''remove_fillers'', mk_bool T (fm_remove_fillers (c_formatting c))),
         (''spoken_commands'', mk_bool T (fm_spoken_commands (c_formatting c))),
         (''dictionary'', mk_arr T (map (mk_str T) (fm_dictionary (c_formatting c))))]),
      (''feedback'', mk_tab T
        [(''enabled'', mk_bool T (fb_enabled (c_feedback c))),
         (''frequency_start'', mk_int T (fb_frequency_start (c_feedback c))),
         (''frequency_stop'', mk_int T (fb_frequency_stop (c_feedback c))),
         (''frequency_error'', mk_int T (fb_frequency_error (c_feedback c))),
         (''duration'', mk_dbl T (shortest_double (fb_duration (c_feedback c)))),
         (''volume'', mk_dbl T (shortest_double (fb_volume (c_feedback c))))]),
      (''daemon'', mk_tab T
        ([(''log_level'', mk_str T (dm_log_level (c_daemon c)))] @
         opt_entry ''log_file'' (mk_str T) (dm_log_file (c_daemon c)) @
         [(''pid_file'', mk_str T (dm_pid_file (c_daemon c))),
          (''work_dir'', mk_str T (dm_work_dir (c_daemon c)))])),
      (''tray'', mk_tab T [(''enabled'', mk_bool T (ty_enabled (c_tray c)))]),
      (''avatar'', mk_tab T
        [(''enabled'', mk_bool T (av_enabled (c_avatar c))),
         (''character'', mk_str T (av_character (c_avatar c))),
         (''size'', mk_int T (av_size (c_avatar c)))])]"

definition config_save :: "'t toml_api \<Rightarrow> io_env \<Rightarrow> fsys \<Rightarrow> config \<Rightarrow> string \<Rightarrow> string + fsys" where
  "config_save T e fs c path =
     (case config_validate c of
        Some msg \<Rightarrow> Inl msg
      | None \<Rightarrow>
          (let tbl = toml_of_config T c;
               parent = parent_path path
           in if parent \<noteq> [] \<and> \<not> io_mkdir e fs parent
              then Inl (''Cannot create config directory: '' @ parent)
              else (let fs1 = (if parent \<noteq> [] then fs_mkdirs fs parent else fs)
                    in if \<not> io_open e fs1 path then Inl (''Cannot open config file for writing: '' @ path)
                       else Inr (fs_write fs1 path (t_print T tbl)))))"

section \<open>Finding the file\<close>

definition get_user_config_path :: "io_env \<Rightarrow> string" where
  "get_user_config_path e =
     (case io_home e of Some h \<Rightarrow> h | None \<Rightarrow> ''/tmp'') @ ''/.config/autowhisper/config.toml''"

text \<open>\<open>find_bundled_config_file\<close> is empty except on macOS; the exception is \<open>None\<close>.\<close>

definition config_search_paths :: "io_env \<Rightarrow> string list" where
  "config_search_paths e =
     [''config.toml'', get_user_config_path e, [], ''/etc/autowhisper/config.toml'', ''/opt/autowhisper/config.toml'']"

definition find_config_file :: "io_env \<Rightarrow> fsys \<Rightarrow> string option" where
  "find_config_file e fs = find (fs_regular fs) (config_search_paths e)"

definition no_config_message :: string where
  "no_config_message = ''No config file found. Searched: config.toml, ~/.config/autowhisper/config.toml, /etc/autowhisper/config.toml, /opt/autowhisper/config.toml''"

text \<open>\<open>find_config_file\<close>, throwing.\<close>

definition find_config_or_throw :: "io_env \<Rightarrow> fsys \<Rightarrow> string + string" where
  "find_config_or_throw e fs = (case find_config_file e fs of Some p \<Rightarrow> Inr p | None \<Rightarrow> Inl no_config_message)"

definition resolve_config_path :: "io_env \<Rightarrow> fsys \<Rightarrow> string" where
  "resolve_config_path e fs =
     (let user_config = get_user_config_path e
      in if fs_exists fs user_config then user_config
         else case find_config_file e fs of Some p \<Rightarrow> p | None \<Rightarrow> user_config)"

definition ensure_user_config_file :: "'t toml_api \<Rightarrow> io_env \<Rightarrow> fsys \<Rightarrow> string + string \<times> fsys" where
  "ensure_user_config_file T e fs =
     (let user_config = get_user_config_path e
      in if fs_regular fs user_config then Inr (user_config, fs)
         else
           (let parent = parent_path user_config
            in if parent \<noteq> [] \<and> \<not> io_mkdir e fs parent
               then Inl (''Cannot create config directory: '' @ parent)
               else
                 (let fs1 = (if parent \<noteq> [] then fs_mkdirs fs parent else fs);
                      source = (case find_config_file e fs1 of Some s \<Rightarrow> s | None \<Rightarrow> []);
                      copied = (if source \<noteq> [] \<and> fs_regular fs1 source \<and> source \<noteq> user_config
                                then fs_copy e fs1 source user_config else None)
                  in case copied of
                       Some fs2 \<Rightarrow> Inr (user_config, fs2)
                     | None \<Rightarrow>
                         (case config_save T e fs1 default_config user_config of
                            Inl m \<Rightarrow> Inl m
                          | Inr fs2 \<Rightarrow> Inr (user_config, fs2)))))"

end
