(* ===== verification/Json_Laws.thy ===== *)
theory Json_Laws
  imports Config_Schema
begin

text \<open>
  What the components rely on of the JSON library, as a predicate on the parameter, and a small
  concrete library that satisfies it, on which the theorems that assume the predicate are
  exercised.
\<close>

section \<open>What the code relies on of the JSON library\<close>

definition json_ok :: "'j json_api \<Rightarrow> bool" where
  "json_ok J \<longleftrightarrow>
     (\<forall>b. j_as_bool J (j_bool J b) = Some b) \<and> (\<forall>i. in_int i \<longrightarrow> j_as_int J (j_int J i) = Some i) \<and>
     (\<forall>d. j_as_flt J (j_dbl J d) = Some (to_f32 d)) \<and> (\<forall>s. j_as_str J (j_str J s) = Some s) \<and>
     (\<forall>xs. j_as_arr J (j_arr J xs) = Some xs) \<and> (\<forall>i. j_as_int64 J (j_int J i) = Some i) \<and>
     (\<forall>v. j_is_integer J v \<longrightarrow> j_as_int J v \<noteq> None) \<and> j_as_str J (j_null J) = None \<and>
     (\<forall>es. distinct (map fst es) \<longrightarrow> (\<exists>es'. j_as_obj J (j_obj J es) = Some es' \<and> map_of es' = map_of es))"

lemma j_get_obj: "json_ok J \<Longrightarrow> distinct (map fst es) \<Longrightarrow> j_get J (j_obj J es) k = map_of es k"
  by (fastforce simp: json_ok_def j_get_def)

datatype json_value = JNull | JBool bool | JInt int | JDbl fl | JStr string | JArr "json_value list"
  | JObj "(string \<times> json_value) list"

definition mini_json :: "json_value json_api" where
  "mini_json = \<lparr>j_null = JNull, j_bool = JBool, j_int = JInt, j_dbl = JDbl, j_str = JStr, j_arr = JArr, j_obj = JObj,
     j_is_null = (\<lambda>v. v = JNull),
     j_as_bool = (\<lambda>v. case v of JBool b \<Rightarrow> Some b | _ \<Rightarrow> None),
     j_is_integer = (\<lambda>v. case v of JInt i \<Rightarrow> True | _ \<Rightarrow> False),
     j_as_int = (\<lambda>v. case v of JInt i \<Rightarrow> Some (to_int32 i) | _ \<Rightarrow> None),
     j_as_int64 = (\<lambda>v. case v of JInt i \<Rightarrow> Some i | _ \<Rightarrow> None),
     j_as_flt = (\<lambda>v. case v of JDbl d \<Rightarrow> Some (to_f32 d) | JInt i \<Rightarrow> Some (f32 (of_int i)) | _ \<Rightarrow> None),
     j_as_str = (\<lambda>v. case v of JStr s \<Rightarrow> Some s | _ \<Rightarrow> None),
     j_as_arr = (\<lambda>v. case v of JArr xs \<Rightarrow> Some xs | _ \<Rightarrow> None),
     j_as_obj = (\<lambda>v. case v of JObj es \<Rightarrow> Some es | _ \<Rightarrow> None),
     j_what = (\<lambda>ty v. ''type must be '' @ ty),
     j_parse = (\<lambda>s. if s = ''[]'' then Inr (JArr []) else if s = ''{}'' then Inr (JObj []) else Inl ''parse error''),
     j_dump = (\<lambda>v. Some [])\<rparr>"

lemma mini_json_ok: "json_ok mini_json"
  by (auto simp: json_ok_def mini_json_def to_int32_id split: json_value.splits)


end
