(* ===== verification/Config_Laws.thy ===== *)
theory Config_Laws
  imports Config Json_Laws
begin

text \<open>
  Theorems about the configuration: a validated configuration satisfies the published schema, and
  saving then loading gives it back, up to the values the file format cannot hold.
\<close>

section \<open>What the code relies on of the TOML library\<close>

definition toml_ok :: "'t toml_api \<Rightarrow> bool" where
  "toml_ok T \<longleftrightarrow>
     (\<forall>s. t_str T (mk_str T s) = Some s) \<and> (\<forall>i. t_int T (mk_int T i) = Some i) \<and>
     (\<forall>d. t_dbl T (mk_dbl T d) = Some d) \<and> (\<forall>b. t_bool T (mk_bool T b) = Some b) \<and>
     (\<forall>xs. t_arr T (mk_arr T xs) = Some xs) \<and> (\<forall>xs. t_str T (mk_arr T xs) = None) \<and>
     (\<forall>es. distinct (map fst es) \<longrightarrow> (\<exists>es'. t_tab T (mk_tab T es) = Some es' \<and> map_of es' = map_of es))"

text \<open>A document the library writes is read back with the same nodes at the same keys.\<close>

definition toml_reparses :: "'t toml_api \<Rightarrow> (string \<times> 't) list \<Rightarrow> bool" where
  "toml_reparses T es \<longleftrightarrow> (\<exists>es'. t_parse T (t_print T es) = Inr es' \<and> map_of es' = map_of es)"

section \<open>Values that survive\<close>

definition float_stable :: "fl \<Rightarrow> bool" where
  "float_stable v \<longleftrightarrow> to_f32 (shortest_double v) = v"

definition config_representable :: "config \<Rightarrow> bool" where
  "config_representable c \<longleftrightarrow>
     list_all in_int
       [md_beam_size (c_model c), md_num_threads (c_model c), au_sample_rate (c_audio c), au_channels (c_audio c),
        au_buffer_size (c_audio c), fb_frequency_start (c_feedback c), fb_frequency_stop (c_feedback c),
        fb_frequency_error (c_feedback c), av_size (c_avatar c)] \<and>
     list_all float_stable
       [au_vad_threshold (c_audio c), au_silence_duration (c_audio c), au_max_duration (c_audio c),
        ou_paste_delay (c_output c), fb_duration (c_feedback c), fb_volume (c_feedback c)]"

text \<open>The configuration the loader makes of a saved one: the empty device names and the name
  "default" become "no device", and an empty list of cancel keys becomes the default list.\<close>

definition norm_opt :: "string option \<Rightarrow> string option" where
  "norm_opt v = (if v = Some [] \<or> v = Some ''default'' then None else v)"

definition norm_list :: "string list \<Rightarrow> string list \<Rightarrow> string list" where
  "norm_list d xs = (if xs = [] then d else xs)"

definition reloaded :: "config \<Rightarrow> config" where
  "reloaded c = c
     \<lparr>c_audio := (c_audio c)\<lparr>au_device := norm_opt (au_device (c_audio c)),
                              au_output_device := norm_opt (au_output_device (c_audio c))\<rparr>,
      c_hotkeys := (c_hotkeys c)\<lparr>hk_trigger := norm_list [''shift+super''] (hk_trigger (c_hotkeys c)),
                                hk_cancel := norm_list [''esc''] (hk_cancel (c_hotkeys c))\<rparr>,
      c_daemon := (c_daemon c)\<lparr>dm_log_file := norm_opt (dm_log_file (c_daemon c))\<rparr>\<rparr>"

lemma get_or_hit: "map_of tb k = Some n \<Longrightarrow> rd n = Some v \<Longrightarrow> get_or rd tb k d = v"
  by (simp add: get_or_def)

lemma string_array_hit:
  "toml_ok T \<Longrightarrow> map_of tb k = Some (mk_arr T (map (mk_str T) xs)) \<Longrightarrow>
     get_string_array T tb k d = norm_list d xs"
proof -
  assume a: "toml_ok T" "map_of tb k = Some (mk_arr T (map (mk_str T) xs))"
  have "List.map_filter (t_str T) (map (mk_str T) xs) = xs"
    using a(1) by (induction xs) (auto simp: toml_ok_def List.map_filter_simps)
  with a show ?thesis by (auto simp: toml_ok_def get_string_array_def norm_list_def Let_def)
qed

lemma optional_hit:
  "toml_ok T \<Longrightarrow> map_of tb k = map_option (mk_str T) v \<Longrightarrow> get_optional_string T tb k = norm_opt v"
  by (cases v) (auto simp: toml_ok_def get_optional_string_def norm_opt_def)

lemma load_section_tab:
  assumes "toml_ok T" "map_of tbl s = Some (mk_tab T es)" "distinct (map fst es)"
    and "\<And>es'. map_of es' = map_of es \<Longrightarrow> ld es' d = v"
  shows "load_section T tbl s ld d = v"
proof -
  from assms(1,3) obtain es' where "t_tab T (mk_tab T es) = Some es'" "map_of es' = map_of es"
    by (auto simp: toml_ok_def)
  with assms(2,4) show ?thesis by (simp add: load_section_def sub_table_def)
qed

lemma load_model_saved:
  assumes "toml_ok T" "config_representable c" "map_of tbl = map_of (toml_of_config T c)"
  shows "load_section T tbl ''model'' (load_model T) default_model = c_model c"
proof (rule load_section_tab [OF assms(1)])
  show "map_of tbl ''model'' = Some (mk_tab T
        [(''size'', mk_str T (md_size (c_model c))),
         (''device'', mk_str T (md_device (c_model c))),
         (''compute_type'', mk_str T (md_compute_type (c_model c))),
         (''beam_size'', mk_int T (md_beam_size (c_model c))),
         (''language'', mk_str T (md_language (c_model c))),
         (''num_threads'', mk_int T (md_num_threads (c_model c)))])"
    unfolding assms(3) by (simp add: toml_of_config_def)
qed (use assms(1,2) in \<open>auto simp: load_model_def get_or_def toml_ok_def config_representable_def to_int32_id\<close>)

lemma load_audio_saved:
  assumes "toml_ok T" "config_representable c" "map_of tbl = map_of (toml_of_config T c)"
  shows "load_section T tbl ''audio'' (load_audio T) default_audio = c_audio (reloaded c)"
proof (rule load_section_tab [OF assms(1)])
  show "map_of tbl ''audio'' = Some (mk_tab T
        ([(''sample_rate'', mk_int T (au_sample_rate (c_audio c))),
          (''channels'', mk_int T (au_channels (c_audio c))),
          (''buffer_size'', mk_int T (au_buffer_size (c_audio c)))] @
         opt_entry ''device'' (mk_str T) (au_device (c_audio c)) @
         opt_entry ''output_device'' (mk_str T) (au_output_device (c_audio c)) @
         [(''vad_enabled'', mk_bool T (au_vad_enabled (c_audio c))),
          (''vad_threshold'', mk_dbl T (shortest_double (au_vad_threshold (c_audio c)))),
          (''silence_duration'', mk_dbl T (shortest_double (au_silence_duration (c_audio c)))),
          (''max_duration'', mk_dbl T (shortest_double (au_max_duration (c_audio c)))),
          (''mute_other_apps'', mk_bool T (au_mute_other_apps (c_audio c)))]))"
    (is "_ = Some (mk_tab T ?es)")
    unfolding assms(3) by (simp add: toml_of_config_def)
  show "distinct (map fst ?es)" by (auto simp: opt_entry_def split: option.split)
  fix es' assume m: "map_of es' = map_of ?es"
  have d: "get_optional_string T es' ''device'' = norm_opt (au_device (c_audio c))"
    "get_optional_string T es' ''output_device'' = norm_opt (au_output_device (c_audio c))"
    by (rule optional_hit [OF assms(1)], unfold m, simp add: opt_entry_def split: option.split)+
  show "load_audio T es' default_audio = c_audio (reloaded c)"
    using assms(1,2) d m unfolding load_audio_def get_or_def
    by (cases "au_device (c_audio c)"; cases "au_output_device (c_audio c)")
       (simp_all add: opt_entry_def toml_ok_def config_representable_def to_int32_id float_stable_def reloaded_def)
qed

lemma load_hotkeys_saved:
  assumes "toml_ok T" "config_representable c" "map_of tbl = map_of (toml_of_config T c)"
  shows "load_section T tbl ''hotkeys'' (load_hotkeys T) default_hotkeys = c_hotkeys (reloaded c)"
proof (rule load_section_tab [OF assms(1)])
  show "map_of tbl ''hotkeys'' = Some (mk_tab T
        [(''mode'', mk_str T (hk_mode (c_hotkeys c))),
         (''trigger'', mk_arr T (map (mk_str T) (hk_trigger (c_hotkeys c)))),
         (''cancel'', mk_arr T (map (mk_str T) (hk_cancel (c_hotkeys c)))),
         (''escape_to_cancel'', mk_bool T (hk_escape_to_cancel (c_hotkeys c)))])"
    (is "_ = Some (mk_tab T ?es)")
    unfolding assms(3) by (simp add: toml_of_config_def)
  fix es' assume m: "map_of es' = map_of ?es"
  have d: "get_string_array T es' ''trigger'' d = norm_list d (hk_trigger (c_hotkeys c))"
    "get_string_array T es' ''cancel'' d = norm_list d (hk_cancel (c_hotkeys c))" for d
    by (rule string_array_hit [OF assms(1)], simp add: m)+
  show "load_hotkeys T es' default_hotkeys = c_hotkeys (reloaded c)"
    using assms(1) m unfolding load_hotkeys_def d
    by (simp add: get_or_def toml_ok_def reloaded_def default_hotkeys_def)
qed simp

lemma load_output_saved:
  assumes "toml_ok T" "config_representable c" "map_of tbl = map_of (toml_of_config T c)"
  shows "load_section T tbl ''output'' (load_output T) default_output = c_output c"
proof (rule load_section_tab [OF assms(1)])
  show "map_of tbl ''output'' = Some (mk_tab T
        [(''method'', mk_str T (ou_method (c_output c))),
         (''also_copy_to_clipboard'', mk_bool T (ou_also_copy (c_output c))),
         (''auto_paste'', mk_bool T (ou_auto_paste (c_output c))),
         (''paste_delay'', mk_dbl T (shortest_double (ou_paste_delay (c_output c)))),
         (''ending_action'', mk_str T (ou_ending_action (c_output c))),
         (''lowercase'', mk_bool T (ou_lowercase (c_output c)))])"
    (is "_ = Some (mk_tab T ?es)")
    unfolding assms(3) by (simp add: toml_of_config_def)
  fix es' assume "map_of es' = map_of ?es"
  then show "load_output T es' default_output = c_output c"
    using assms(1,2) unfolding load_output_def load_ending_action_def get_or_def
    by (simp add: toml_ok_def config_representable_def float_stable_def)
qed simp

lemma load_formatting_saved:
  assumes "toml_ok T" "config_representable c" "map_of tbl = map_of (toml_of_config T c)"
  shows "load_section T tbl ''formatting'' (load_formatting T) default_formatting = c_formatting c"
proof (rule load_section_tab [OF assms(1)])
  show "map_of tbl ''formatting'' = Some (mk_tab T
        [(''remove_fillers'', mk_bool T (fm_remove_fillers (c_formatting c))),
         (''spoken_commands'', mk_bool T (fm_spoken_commands (c_formatting c))),
         (''dictionary'', mk_arr T (map (mk_str T) (fm_dictionary (c_formatting c))))])"
    (is "_ = Some (mk_tab T ?es)")
    unfolding assms(3) by (simp add: toml_of_config_def)
  fix es' assume m: "map_of es' = map_of ?es"
  have d: "get_string_array T es' ''dictionary'' d = norm_list d (fm_dictionary (c_formatting c))" for d
    by (rule string_array_hit [OF assms(1)], simp add: m)
  show "load_formatting T es' default_formatting = c_formatting c"
    using assms(1) m unfolding load_formatting_def d
    by (simp add: get_or_def toml_ok_def default_formatting_def norm_list_def)
qed simp

lemma load_feedback_saved:
  assumes "toml_ok T" "config_representable c" "map_of tbl = map_of (toml_of_config T c)"
  shows "load_section T tbl ''feedback'' (load_feedback T) default_feedback = c_feedback c"
proof (rule load_section_tab [OF assms(1)])
  show "map_of tbl ''feedback'' = Some (mk_tab T
        [(''enabled'', mk_bool T (fb_enabled (c_feedback c))),
         (''frequency_start'', mk_int T (fb_frequency_start (c_feedback c))),
         (''frequency_stop'', mk_int T (fb_frequency_stop (c_feedback c))),
         (''frequency_error'', mk_int T (fb_frequency_error (c_feedback c))),
         (''duration'', mk_dbl T (shortest_double (fb_duration (c_feedback c)))),
         (''volume'', mk_dbl T (shortest_double (fb_volume (c_feedback c))))])"
    (is "_ = Some (mk_tab T ?es)")
    unfolding assms(3) by (simp add: toml_of_config_def)
  fix es' assume "map_of es' = map_of ?es"
  then show "load_feedback T es' default_feedback = c_feedback c"
    using assms(1,2) unfolding load_feedback_def get_or_def
    by (simp add: toml_ok_def config_representable_def to_int32_id float_stable_def)
qed simp

lemma load_daemon_saved:
  assumes "toml_ok T" "config_representable c" "map_of tbl = map_of (toml_of_config T c)"
  shows "load_section T tbl ''daemon'' (load_daemon T) default_daemon = c_daemon (reloaded c)"
proof (rule load_section_tab [OF assms(1)])
  show "map_of tbl ''daemon'' = Some (mk_tab T
        ([(''log_level'', mk_str T (dm_log_level (c_daemon c)))] @
         opt_entry ''log_file'' (mk_str T) (dm_log_file (c_daemon c)) @
         [(''pid_file'', mk_str T (dm_pid_file (c_daemon c))),
          (''work_dir'', mk_str T (dm_work_dir (c_daemon c)))]))"
    (is "_ = Some (mk_tab T ?es)")
    unfolding assms(3) by (simp add: toml_of_config_def)
  show "distinct (map fst ?es)" by (auto simp: opt_entry_def split: option.split)
  fix es' assume m: "map_of es' = map_of ?es"
  have d: "get_optional_string T es' ''log_file'' = norm_opt (dm_log_file (c_daemon c))"
    by (rule optional_hit [OF assms(1)], unfold m, simp add: opt_entry_def split: option.split)
  show "load_daemon T es' default_daemon = c_daemon (reloaded c)"
    using assms(1) d m unfolding load_daemon_def get_or_def
    by (cases "dm_log_file (c_daemon c)") (simp_all add: opt_entry_def toml_ok_def reloaded_def)
qed

lemma load_tray_saved:
  assumes "toml_ok T" "map_of tbl = map_of (toml_of_config T c)"
  shows "load_section T tbl ''tray'' (load_tray T) default_tray = c_tray c"
proof (rule load_section_tab [OF assms(1)])
  show "map_of tbl ''tray'' = Some (mk_tab T [(''enabled'', mk_bool T (ty_enabled (c_tray c)))])"
    unfolding assms(2) by (simp add: toml_of_config_def)
qed (use assms(1) in \<open>auto simp: load_tray_def get_or_def toml_ok_def\<close>)

lemma load_avatar_saved:
  assumes "toml_ok T" "config_representable c" "map_of tbl = map_of (toml_of_config T c)"
  shows "load_section T tbl ''avatar'' (load_avatar T) default_avatar = c_avatar c"
proof (rule load_section_tab [OF assms(1)])
  show "map_of tbl ''avatar'' = Some (mk_tab T
        [(''enabled'', mk_bool T (av_enabled (c_avatar c))),
         (''character'', mk_str T (av_character (c_avatar c))),
         (''size'', mk_int T (av_size (c_avatar c)))])"
    unfolding assms(3) by (simp add: toml_of_config_def)
qed (use assms(1,2) in \<open>auto simp: load_avatar_def get_or_def toml_ok_def config_representable_def to_int32_id\<close>)

lemma config_of_saved:
  assumes "toml_ok T" "config_representable c" "map_of tbl = map_of (toml_of_config T c)"
  shows "config_of_toml T tbl = reloaded c"
  unfolding config_of_toml_def load_model_saved [OF assms] load_audio_saved [OF assms]
    load_hotkeys_saved [OF assms] load_output_saved [OF assms] load_formatting_saved [OF assms]
    load_feedback_saved [OF assms] load_daemon_saved [OF assms] load_tray_saved [OF assms(1,3)]
    load_avatar_saved [OF assms]
  by (simp add: reloaded_def)

section \<open>Issues\<close>

lemma first_error_append: "first_error (xs @ ys) = (case first_error xs of None \<Rightarrow> first_error ys | Some i \<Rightarrow> Some i)"
  by (induction xs) (auto simp: first_error_def)

lemma first_error_None: "first_error xs = None \<longleftrightarrow> (\<forall>i \<in> set xs. vi_severity i = SevWarning)"
  unfolding first_error_def find_None_iff using severity.exhaust by auto

lemma unknown_warnings: "first_error (unknown_toml_issues T tbl) = None"
  unfolding first_error_None
  by (auto simp: unknown_toml_issues_def unknown_keys_def make_issue_def Let_def split: option.splits if_splits)

lemma err_if_None [simp]: "first_error (err_if b p c m @ xs) = None \<longleftrightarrow> \<not> b \<and> first_error xs = None"
  by (auto simp: err_if_def first_error_def make_issue_def)

lemma err_if_None_last [simp]: "first_error (err_if b p c m) = None \<longleftrightarrow> \<not> b"
  by (auto simp: err_if_def first_error_def make_issue_def)

lemma first_error_concat: "first_error (concat xss) = None \<longleftrightarrow> (\<forall>xs \<in> set xss. first_error xs = None)"
  by (induction xss) (auto simp: first_error_append first_error_def [of "[]"] split: option.splits)

lemma first_error_None_append: "first_error (xs @ ys) = None \<longleftrightarrow> first_error xs = None \<and> first_error ys = None"
  by (simp add: first_error_append split: option.splits)

lemma config_validate_None:
  "config_validate c = None \<longleftrightarrow>
     first_error (validate_model (c_model c)) = None \<and> first_error (validate_audio (c_audio c)) = None \<and>
     first_error (validate_hotkeys (c_hotkeys c)) = None \<and> first_error (validate_output (c_output c)) = None \<and>
     first_error (validate_formatting (c_formatting c)) = None \<and> first_error (validate_feedback (c_feedback c)) = None \<and>
     first_error (validate_daemon (c_daemon c)) = None \<and> first_error (validate_avatar (c_avatar c)) = None"
  by (simp add: config_validate_def validate_all_def first_error_None_append)

lemma validate_reloaded: "config_validate c = None \<Longrightarrow> config_validate (reloaded c) = None"
  unfolding config_validate_None
  by (auto simp: reloaded_def validate_audio_def validate_hotkeys_def validate_daemon_def norm_list_def
        first_error_None_append first_error_concat)

section \<open>The schema\<close>

datatype field_value = FStr string | FInt int | FFlt fl | FBool bool | FArr "string list" | FOpt "string option"

text \<open>Every member of the configuration under its section and key.\<close>

definition fields_model :: "model_config \<Rightarrow> ((string \<times> string) \<times> field_value) list" where
  "fields_model r =
     [((''model'', ''size''), FStr (md_size r)),
      ((''model'', ''device''), FStr (md_device r)),
      ((''model'', ''compute_type''), FStr (md_compute_type r)),
      ((''model'', ''beam_size''), FInt (md_beam_size r)),
      ((''model'', ''language''), FStr (md_language r)),
      ((''model'', ''num_threads''), FInt (md_num_threads r))]"

definition fields_audio :: "audio_config \<Rightarrow> ((string \<times> string) \<times> field_value) list" where
  "fields_audio r =
     [((''audio'', ''sample_rate''), FInt (au_sample_rate r)),
      ((''audio'', ''channels''), FInt (au_channels r)),
      ((''audio'', ''buffer_size''), FInt (au_buffer_size r)),
      ((''audio'', ''device''), FOpt (au_device r)),
      ((''audio'', ''output_device''), FOpt (au_output_device r)),
      ((''audio'', ''vad_enabled''), FBool (au_vad_enabled r)),
      ((''audio'', ''vad_threshold''), FFlt (au_vad_threshold r)),
      ((''audio'', ''silence_duration''), FFlt (au_silence_duration r)),
      ((''audio'', ''max_duration''), FFlt (au_max_duration r)),
      ((''audio'', ''mute_other_apps''), FBool (au_mute_other_apps r))]"

definition fields_hotkeys :: "hotkey_config \<Rightarrow> ((string \<times> string) \<times> field_value) list" where
  "fields_hotkeys r =
     [((''hotkeys'', ''mode''), FStr (hk_mode r)),
      ((''hotkeys'', ''trigger''), FArr (hk_trigger r)),
      ((''hotkeys'', ''cancel''), FArr (hk_cancel r)),
      ((''hotkeys'', ''escape_to_cancel''), FBool (hk_escape_to_cancel r))]"

definition fields_output :: "output_config \<Rightarrow> ((string \<times> string) \<times> field_value) list" where
  "fields_output r =
     [((''output'', ''method''), FStr (ou_method r)),
      ((''output'', ''auto_paste''), FBool (ou_auto_paste r)),
      ((''output'', ''paste_delay''), FFlt (ou_paste_delay r)),
      ((''output'', ''ending_action''), FStr (ou_ending_action r)),
      ((''output'', ''lowercase''), FBool (ou_lowercase r)),
      ((''output'', ''also_copy_to_clipboard''), FBool (ou_also_copy r))]"

definition fields_formatting :: "formatting_config \<Rightarrow> ((string \<times> string) \<times> field_value) list" where
  "fields_formatting r =
     [((''formatting'', ''remove_fillers''), FBool (fm_remove_fillers r)),
      ((''formatting'', ''spoken_commands''), FBool (fm_spoken_commands r)),
      ((''formatting'', ''dictionary''), FArr (fm_dictionary r))]"

definition fields_feedback :: "feedback_config \<Rightarrow> ((string \<times> string) \<times> field_value) list" where
  "fields_feedback r =
     [((''feedback'', ''enabled''), FBool (fb_enabled r)),
      ((''feedback'', ''frequency_start''), FInt (fb_frequency_start r)),
      ((''feedback'', ''frequency_stop''), FInt (fb_frequency_stop r)),
      ((''feedback'', ''frequency_error''), FInt (fb_frequency_error r)),
      ((''feedback'', ''duration''), FFlt (fb_duration r)),
      ((''feedback'', ''volume''), FFlt (fb_volume r))]"

definition fields_daemon :: "daemon_config \<Rightarrow> ((string \<times> string) \<times> field_value) list" where
  "fields_daemon r =
     [((''daemon'', ''log_level''), FStr (dm_log_level r)),
      ((''daemon'', ''log_file''), FOpt (dm_log_file r)),
      ((''daemon'', ''pid_file''), FStr (dm_pid_file r)),
      ((''daemon'', ''work_dir''), FStr (dm_work_dir r))]"

definition fields_avatar :: "avatar_config \<Rightarrow> ((string \<times> string) \<times> field_value) list" where
  "fields_avatar r =
     [((''avatar'', ''enabled''), FBool (av_enabled r)),
      ((''avatar'', ''character''), FStr (av_character r)),
      ((''avatar'', ''size''), FInt (av_size r))]"

definition fields_tray :: "tray_config \<Rightarrow> ((string \<times> string) \<times> field_value) list" where
  "fields_tray r =
     [((''tray'', ''enabled''), FBool (ty_enabled r))]"

definition config_fields :: "config \<Rightarrow> ((string \<times> string) \<times> field_value) list" where
  "config_fields c =
     fields_model (c_model c) @
     fields_audio (c_audio c) @
     fields_hotkeys (c_hotkeys c) @
     fields_output (c_output c) @
     fields_formatting (c_formatting c) @
     fields_feedback (c_feedback c) @
     fields_daemon (c_daemon c) @
     fields_avatar (c_avatar c) @
     fields_tray (c_tray c)"

definition in_bounds :: "key_def \<Rightarrow> fl \<Rightarrow> bool" where
  "in_bounds d x \<longleftrightarrow> is_finite x \<and>
     (case kd_min d of None \<Rightarrow> True | Some m \<Rightarrow> fl_le m x) \<and> (case kd_max d of None \<Rightarrow> True | Some m \<Rightarrow> fl_le x m)"

fun satisfies :: "key_def \<Rightarrow> field_value \<Rightarrow> bool" where
  "satisfies d (FStr s) \<longleftrightarrow> kd_type d = TString \<or> kd_type d = TEnum \<and> s \<in> set (kd_enum d)"
| "satisfies d (FInt i) \<longleftrightarrow> kd_type d = TInt \<and> in_bounds d (Fin (of_int i))"
| "satisfies d (FFlt x) \<longleftrightarrow> kd_type d = TFloat \<and> in_bounds d x"
| "satisfies d (FBool b) \<longleftrightarrow> kd_type d = TBool"
| "satisfies d (FArr xs) \<longleftrightarrow> kd_type d = TStringArray"
| "satisfies d (FOpt v) \<longleftrightarrow> kd_type d = TString"

definition conforming :: "key_def list \<Rightarrow> ((string \<times> string) \<times> field_value) list \<Rightarrow> bool" where
  "conforming ds kvs \<longleftrightarrow> list_all2 (\<lambda>d kv. fst kv = (kd_section d, kd_key d) \<and> satisfies d (snd kv)) ds kvs"

definition conforms :: "config \<Rightarrow> bool" where
  "conforms c \<longleftrightarrow> conforming schema_all (config_fields c)"

lemma conforming_append: "conforming ds kvs \<Longrightarrow> conforming ds' kvs' \<Longrightarrow> conforming (ds @ ds') (kvs @ kvs')"
  by (simp add: conforming_def list_all2_appendI)

lemma enum_rows:
  "is_allowed_enum ''model'' ''size'' v \<longleftrightarrow> v \<in> set [''tiny'', ''tiny.en'', ''base'', ''base.en'', ''small'', ''small.en'',
      ''medium'', ''medium.en'', ''large'', ''large-v1'', ''large-v2'', ''large-v3'', ''large-v3-turbo'',
      ''distil-large-v2'', ''distil-large-v3'', ''distil-medium.en'', ''distil-small.en'']"
  "is_allowed_enum ''model'' ''device'' v \<longleftrightarrow> v \<in> set [''cuda'', ''cpu'', ''auto'']"
  "is_allowed_enum ''model'' ''compute_type'' v \<longleftrightarrow> v \<in> set [''float16'', ''float32'', ''int8'', ''int8_float16'',
      ''int8_float32'', ''int8_bfloat16'', ''bfloat16'']"
  "is_allowed_enum ''hotkeys'' ''mode'' v \<longleftrightarrow> v \<in> set [''push_to_talk'', ''toggle'']"
  "is_allowed_enum ''output'' ''method'' v \<longleftrightarrow> v \<in> set [''inject'', ''clipboard'']"
  "is_allowed_enum ''output'' ''ending_action'' v \<longleftrightarrow> v \<in> set [''none'', ''newline'', ''return_key'']"
  "is_allowed_enum ''daemon'' ''log_level'' v \<longleftrightarrow> v \<in> set [''trace'', ''debug'', ''info'', ''warn'', ''error'', ''critical'', ''off'']"
  "is_allowed_enum ''avatar'' ''character'' v \<longleftrightarrow> v \<in> set [''echo'', ''hermes'', ''mnemosyne'', ''kalliope'', ''morpheus'']"
  by (simp_all add: is_allowed_enum_def schema_find_def schema_all_def schema_model_def schema_audio_def schema_hotkeys_def
      schema_output_def schema_formatting_def schema_feedback_def schema_daemon_def schema_avatar_def key_row_def)

lemma unit_bounds: "\<not> not_unit x \<longleftrightarrow> is_finite x \<and> fl_le (Fin 0) x \<and> fl_le x (Fin 1)"
  by (cases x) (auto simp: not_unit_def fl_le_def)

lemma positive_bounds: "\<not> not_positive x \<Longrightarrow> is_finite x \<and> fl_le (Fin 0) x"
  by (cases x) (auto simp: not_positive_def fl_le_def)

lemma delay_bounds: "is_finite x \<Longrightarrow> \<not> fl_lt x (Fin 0) \<Longrightarrow> fl_le (Fin 0) x"
  by (cases x) (auto simp: fl_le_def)

lemma int_le_fl [simp]: "fl_le (Fin 1) (Fin (of_int i)) \<longleftrightarrow> 1 \<le> i" "fl_le (Fin (of_int i)) (Fin (numeral n)) \<longleftrightarrow> i \<le> numeral n"
  "fl_le (Fin (numeral n)) (Fin (of_int i)) \<longleftrightarrow> numeral n \<le> i"
proof -
  have "fl_le (Fin a) (Fin b) \<longleftrightarrow> a \<le> b" for a b by (auto simp: fl_le_def)
  then show "fl_le (Fin 1) (Fin (of_int i)) \<longleftrightarrow> 1 \<le> i" "fl_le (Fin (of_int i)) (Fin (numeral n)) \<longleftrightarrow> i \<le> numeral n"
    "fl_le (Fin (numeral n)) (Fin (of_int i)) \<longleftrightarrow> numeral n \<le> i"
    by (simp_all)
qed

lemma validate_formatting_ok: "first_error (validate_formatting f) = None"
  unfolding first_error_None by (auto simp: validate_formatting_def make_issue_def split: if_splits)

lemma validated_conforms: "config_validate c = None \<Longrightarrow> conforms c"
proof -
  assume "config_validate c = None"
  then have v: "first_error (validate_model (c_model c)) = None" "first_error (validate_audio (c_audio c)) = None"
    "first_error (validate_hotkeys (c_hotkeys c)) = None" "first_error (validate_output (c_output c)) = None"
    "first_error (validate_feedback (c_feedback c)) = None" "first_error (validate_daemon (c_daemon c)) = None"
    "first_error (validate_avatar (c_avatar c)) = None"
    by (simp_all add: config_validate_None)
  note R = conforming_def key_row_def in_bounds_def unit_bounds positive_bounds delay_bounds
    enum_rows first_error_None_append
  have "conforming schema_model (fields_model (c_model c))"
    using v(1) unfolding validate_model_def by (simp add: R schema_model_def fields_model_def)
  moreover have "conforming schema_audio (fields_audio (c_audio c))"
    using v(2) unfolding validate_audio_def by (simp add: R schema_audio_def fields_audio_def)
  moreover have "conforming schema_hotkeys (fields_hotkeys (c_hotkeys c))"
    using v(3) unfolding validate_hotkeys_def by (simp add: R schema_hotkeys_def fields_hotkeys_def)
  moreover have "conforming schema_output (fields_output (c_output c))"
    using v(4) unfolding validate_output_def by (simp add: R schema_output_def fields_output_def)
  moreover have "conforming schema_formatting (fields_formatting (c_formatting c))"
    by (simp add: R schema_formatting_def fields_formatting_def)
  moreover have "conforming schema_feedback (fields_feedback (c_feedback c))"
    using v(5) unfolding validate_feedback_def by (simp add: R schema_feedback_def fields_feedback_def)
  moreover have "conforming schema_daemon (fields_daemon (c_daemon c))"
    using v(6) unfolding validate_daemon_def by (simp add: R schema_daemon_def fields_daemon_def)
  moreover have "conforming schema_avatar (fields_avatar (c_avatar c))"
    using v(7) unfolding validate_avatar_def by (simp add: R schema_avatar_def fields_avatar_def)
  moreover have "conforming schema_tray (fields_tray (c_tray c))"
    by (simp add: R schema_tray_def fields_tray_def)
  ultimately show ?thesis
    unfolding conforms_def schema_all_def config_fields_def by (intro conforming_append)
qed

section \<open>Properties\<close>

text \<open>C39: A configuration that validates without an error satisfies the schema published to the
  settings UI: the schema lists exactly the members of the configuration, in order, and every
  value has its row's type, is one of its row's alternatives and lies within its row's inclusive
  bounds. The defaults validate.\<close>

theorem validated_satisfies_schema:
  assumes "config_validate c = None"
  shows "conforms c \<and> config_validate default_config = None"
proof
  show "conforms c" by (rule validated_conforms [OF assms])
  show "config_validate default_config = None" by code_simp
qed

theorem validated_satisfies_schema_witness:
  "conforms default_config \<and> config_validate default_config = None"
  by (rule validated_satisfies_schema) code_simp

lemma load_after_save:
  assumes "toml_ok T" "toml_reparses T (toml_of_config T c)" "config_representable c"
    and "path \<noteq> []" "config_save T e fs c path = Inr fs'"
  shows "config_load T fs' path = Inr (reloaded c)"
proof -
  obtain tbl where t: "t_parse T (t_print T (toml_of_config T c)) = Inr tbl" "map_of tbl = map_of (toml_of_config T c)"
    using assms(2) by (auto simp: toml_reparses_def)
  from assms(5) have v: "config_validate c = None" by (auto simp: config_save_def split: option.splits)
  from assms(5) obtain fs0 where "fs' = fs_write fs0 path (t_print T (toml_of_config T c))"
    by (auto simp: config_save_def Let_def split: option.splits if_splits)
  then have f: "fs_exists fs' path" "fs_content fs' path = Some (t_print T (toml_of_config T c))"
    using assms(4) by (auto simp: fs_exists_def fs_write_def fs_content_def)
  have r: "config_of_toml T tbl = reloaded c" by (rule config_of_saved [OF assms(1,3) t(2)])
  have "first_error (validate_all (reloaded c)) = None"
    using validate_reloaded [OF v] by (simp add: config_validate_def)
  then have "first_error (unknown_toml_issues T tbl @ validate_all (reloaded c)) = None"
    using unknown_warnings by (simp add: first_error_None_append)
  then show ?thesis
    unfolding config_load_def load_with_diagnostics_def using f t(1) r by (simp add: Let_def)
qed


datatype toml_value = TS string | TI int | TD fl | TB bool | TA "toml_value list" | TT "(string \<times> toml_value) list"

definition mini_toml :: "toml_value toml_api" where
  "mini_toml = \<lparr>t_str = (\<lambda>v. case v of TS s \<Rightarrow> Some s | _ \<Rightarrow> None), t_int = (\<lambda>v. case v of TI i \<Rightarrow> Some i | _ \<Rightarrow> None),
     t_dbl = (\<lambda>v. case v of TD d \<Rightarrow> Some d | _ \<Rightarrow> None), t_bool = (\<lambda>v. case v of TB b \<Rightarrow> Some b | _ \<Rightarrow> None),
     t_arr = (\<lambda>v. case v of TA xs \<Rightarrow> Some xs | _ \<Rightarrow> None), t_tab = (\<lambda>v. case v of TT es \<Rightarrow> Some es | _ \<Rightarrow> None),
     mk_str = TS, mk_int = TI, mk_dbl = TD, mk_bool = TB, mk_arr = TA, mk_tab = TT,
     t_parse = (\<lambda>s. Inr []), t_print = (\<lambda>es. ''#''), t_io_error = ''unreadable''\<rparr>"

text \<open>A reader that answers the one document it has been given.\<close>

definition memo_toml :: "config \<Rightarrow> toml_value toml_api" where
  "memo_toml c = mini_toml\<lparr>t_parse := (\<lambda>s. Inr (toml_of_config mini_toml c))\<rparr>"

definition open_env :: io_env where
  "open_env = \<lparr>io_home = Some ''/home/u'', io_mkdir = (\<lambda>_ _. True), io_open = (\<lambda>_ _. True), io_copy = (\<lambda>_ _ _. True)\<rparr>"

definition quiet_config :: config where
  "quiet_config = default_config\<lparr>c_hotkeys := (default_hotkeys\<lparr>hk_cancel := []\<rparr>)\<rparr>"

lemma memo_toml_ok: "toml_ok (memo_toml c)" "toml_reparses (memo_toml c) (toml_of_config (memo_toml c) c)"
  by (auto simp: toml_ok_def toml_reparses_def memo_toml_def mini_toml_def toml_of_config_def)

lemma stable_half: "float_stable (f32 (1 / 2))" by code_simp
lemma stable_03: "float_stable (f32 (3 / 10))" by code_simp
lemma stable_600: "float_stable (f32 600)" by code_simp
lemma stable_005: "float_stable (f32 (5 / 100))" by code_simp
lemma stable_01: "float_stable (f32 (1 / 10))" by code_simp

lemma quiet_representable: "config_representable quiet_config"
  using stable_half stable_03 stable_600 stable_005 stable_01
  by (simp add: config_representable_def quiet_config_def config_defaults in_int_def)


text \<open>An empty list of cancel keys is valid and is written to the file, but the loader cannot
  tell it from a missing key: the configuration read back has the default cancel key again.\<close>

theorem empty_cancel_not_persisted:
  assumes "hk_cancel (c_hotkeys c) = []"
  shows "hk_cancel (c_hotkeys (reloaded c)) = [''esc''] \<and>
    (toml_ok T \<longrightarrow> map_of tb ''cancel'' = Some (mk_arr T []) \<longrightarrow> hk_cancel (load_hotkeys T tb default_hotkeys) = [''esc''])"
  using assms string_array_hit [of T tb "''cancel''" "[]"]
  by (simp add: reloaded_def norm_list_def load_hotkeys_def default_hotkeys_def)

theorem empty_cancel_not_persisted_witness:
  "hk_cancel (c_hotkeys (reloaded quiet_config)) = [''esc''] \<and>
   hk_cancel (load_hotkeys mini_toml [(''cancel'', mk_arr mini_toml [])] default_hotkeys) = [''esc'']"
proof -
  have "toml_ok mini_toml" by (auto simp: toml_ok_def mini_toml_def)
  with empty_cancel_not_persisted [of quiet_config mini_toml "[(''cancel'', mk_arr mini_toml [])]"]
  show ?thesis by (simp add: quiet_config_def)
qed

text \<open>The per-user configuration file exists after a successful \<open>ensure_user_config_file\<close>: the
  path it returns is a regular file, the active path resolved afterwards is that path, and a file
  that was there before is left untouched.\<close>

theorem ensure_user_config:
  assumes "ensure_user_config_file T e fs = Inr (path, fs')"
  shows "path = get_user_config_path e \<and> fs_regular fs' path \<and> resolve_config_path e fs' = path \<and>
    fs' = (if fs_regular fs path then fs else fs')"
proof -
  let ?u = "get_user_config_path e"
  have ne: "?u \<noteq> []" by (simp add: get_user_config_path_def split: option.split)
  have saved: "fs_regular g ?u" if "config_save T e f default_config ?u = Inr g" for f g
    using that ne by (auto simp: config_save_def Let_def fs_regular_content split: option.splits if_splits)
  have copied: "fs_regular g ?u" if "fs_copy e f src ?u = Some g" for f g src
    using that ne by (auto simp: fs_copy_def fs_regular_content split: option.splits if_splits)
  have p: "path = ?u" "fs_regular fs' ?u" "fs_regular fs ?u \<Longrightarrow> fs' = fs"
    using assms saved copied unfolding ensure_user_config_file_def Let_def
    by (auto split: if_splits option.splits sum.splits)
  then show ?thesis using fs_regular_exists [OF p(2)] by (simp add: resolve_config_path_def Let_def)
qed

definition one_file :: fsys where
  "one_file = (\<lambda>_. None)(''/home/u/.config/autowhisper/config.toml'' := Some (File []))"

theorem ensure_user_config_witness:
  "''/home/u/.config/autowhisper/config.toml'' = get_user_config_path open_env \<and>
   fs_regular one_file ''/home/u/.config/autowhisper/config.toml'' \<and>
   resolve_config_path open_env one_file = ''/home/u/.config/autowhisper/config.toml'' \<and>
   one_file = (if fs_regular one_file ''/home/u/.config/autowhisper/config.toml'' then one_file else one_file)"
proof (rule ensure_user_config [of mini_toml])
  show "ensure_user_config_file mini_toml open_env one_file =
      Inr (''/home/u/.config/autowhisper/config.toml'', one_file)"
    by (simp add: ensure_user_config_file_def Let_def fs_regular_def get_user_config_path_def open_env_def one_file_def)
qed

end
