(* ===== verification/Settings.thy ===== *)
theory Settings
  imports Config
begin

text \<open>
  The settings service: the JSON view of the configuration (src/src/settings/handlers.cpp), the
  gate and the routes of the local HTTP server (server.cpp) and the sidecar file through which a
  second instance finds the first (sidecar.cpp). The HTTP library is reduced to the request
  fields the handlers read and the status and JSON body they set.
\<close>

section \<open>The configuration as JSON\<close>

datatype json_error = FieldError string string | OtherError string

fun error_path :: "json_error \<Rightarrow> string" where
  "error_path (FieldError p m) = p"
| "error_path (OtherError m) = []"

fun error_message :: "json_error \<Rightarrow> string" where
  "error_message (FieldError p m) = m"
| "error_message (OtherError m) = m"

definition value_or_empty :: "string option \<Rightarrow> string" where
  "value_or_empty v = (case v of None \<Rightarrow> [] | Some s \<Rightarrow> s)"

definition json_model :: "'j json_api \<Rightarrow> config \<Rightarrow> 'j" where
  "json_model J c =
     j_obj J
       [(''size'', j_str J (md_size (c_model c))),
        (''device'', j_str J (md_device (c_model c))),
        (''compute_type'', j_str J (md_compute_type (c_model c))),
        (''beam_size'', j_int J (md_beam_size (c_model c))),
        (''language'', j_str J (md_language (c_model c))),
        (''num_threads'', j_int J (md_num_threads (c_model c)))]"

definition json_audio :: "'j json_api \<Rightarrow> config \<Rightarrow> 'j" where
  "json_audio J c =
     j_obj J
       [(''sample_rate'', j_int J (au_sample_rate (c_audio c))),
        (''channels'', j_int J (au_channels (c_audio c))),
        (''buffer_size'', j_int J (au_buffer_size (c_audio c))),
        (''device'', j_str J (value_or_empty (au_device (c_audio c)))),
        (''output_device'', j_str J (value_or_empty (au_output_device (c_audio c)))),
        (''vad_enabled'', j_bool J (au_vad_enabled (c_audio c))),
        (''vad_threshold'', j_dbl J (shortest_double (au_vad_threshold (c_audio c)))),
        (''silence_duration'', j_dbl J (shortest_double (au_silence_duration (c_audio c)))),
        (''max_duration'', j_dbl J (shortest_double (au_max_duration (c_audio c)))),
        (''mute_other_apps'', j_bool J (au_mute_other_apps (c_audio c)))]"

definition json_hotkeys :: "'j json_api \<Rightarrow> config \<Rightarrow> 'j" where
  "json_hotkeys J c =
     j_obj J
       [(''mode'', j_str J (hk_mode (c_hotkeys c))),
        (''trigger'', j_arr J (map (j_str J) (hk_trigger (c_hotkeys c)))),
        (''cancel'', j_arr J (map (j_str J) (hk_cancel (c_hotkeys c)))),
        (''escape_to_cancel'', j_bool J (hk_escape_to_cancel (c_hotkeys c)))]"

definition json_output :: "'j json_api \<Rightarrow> config \<Rightarrow> 'j" where
  "json_output J c =
     j_obj J
       [(''method'', j_str J (ou_method (c_output c))),
        (''auto_paste'', j_bool J (ou_auto_paste (c_output c))),
        (''paste_delay'', j_dbl J (shortest_double (ou_paste_delay (c_output c)))),
        (''ending_action'', j_str J (ou_ending_action (c_output c))),
        (''lowercase'', j_bool J (ou_lowercase (c_output c))),
        (''also_copy_to_clipboard'', j_bool J (ou_also_copy (c_output c)))]"

definition json_formatting :: "'j json_api \<Rightarrow> config \<Rightarrow> 'j" where
  "json_formatting J c =
     j_obj J
       [(''remove_fillers'', j_bool J (fm_remove_fillers (c_formatting c))),
        (''spoken_commands'', j_bool J (fm_spoken_commands (c_formatting c))),
        (''dictionary'', j_arr J (map (j_str J) (fm_dictionary (c_formatting c))))]"

definition json_feedback :: "'j json_api \<Rightarrow> config \<Rightarrow> 'j" where
  "json_feedback J c =
     j_obj J
       [(''enabled'', j_bool J (fb_enabled (c_feedback c))),
        (''frequency_start'', j_int J (fb_frequency_start (c_feedback c))),
        (''frequency_stop'', j_int J (fb_frequency_stop (c_feedback c))),
        (''frequency_error'', j_int J (fb_frequency_error (c_feedback c))),
        (''duration'', j_dbl J (shortest_double (fb_duration (c_feedback c)))),
        (''volume'', j_dbl J (shortest_double (fb_volume (c_feedback c))))]"

definition json_daemon :: "'j json_api \<Rightarrow> config \<Rightarrow> 'j" where
  "json_daemon J c =
     j_obj J
       [(''log_level'', j_str J (dm_log_level (c_daemon c))),
        (''log_file'', j_str J (value_or_empty (dm_log_file (c_daemon c)))),
        (''pid_file'', j_str J (dm_pid_file (c_daemon c))),
        (''work_dir'', j_str J (dm_work_dir (c_daemon c)))]"

definition json_tray :: "'j json_api \<Rightarrow> config \<Rightarrow> 'j" where
  "json_tray J c =
     j_obj J
       [(''enabled'', j_bool J (ty_enabled (c_tray c)))]"

definition json_avatar :: "'j json_api \<Rightarrow> config \<Rightarrow> 'j" where
  "json_avatar J c =
     j_obj J
       [(''enabled'', j_bool J (av_enabled (c_avatar c))),
        (''character'', j_str J (av_character (c_avatar c))),
        (''size'', j_int J (av_size (c_avatar c)))]"

definition config_to_json :: "'j json_api \<Rightarrow> config \<Rightarrow> 'j" where
  "config_to_json J c =
     j_obj J [
       (''model'', json_model J c),
       (''audio'', json_audio J c),
       (''hotkeys'', json_hotkeys J c),
       (''output'', json_output J c),
       (''formatting'', json_formatting J c),
       (''feedback'', json_feedback J c),
       (''daemon'', json_daemon J c),
       (''tray'', json_tray J c),
       (''avatar'', json_avatar J c)]"

text \<open>The lambda \<open>get\<close>, and the blocks for the optional strings, whose type errors are not wrapped.\<close>

definition get_field ::
  "'j json_api \<Rightarrow> ('j \<Rightarrow> 'a option) \<Rightarrow> string \<Rightarrow> string \<Rightarrow> string \<Rightarrow> ('a \<Rightarrow> config \<Rightarrow> config) \<Rightarrow>
   'j \<Rightarrow> config \<Rightarrow> json_error + config" where
  "get_field J rd ty s k upd j c =
     (case Option.bind (j_get J j s) (\<lambda>t. j_get J t k) of
        None \<Rightarrow> Inr c
      | Some n \<Rightarrow>
          (case rd n of
             Some v \<Rightarrow> Inr (upd v c)
           | None \<Rightarrow> Inl (FieldError (s @ ''.'' @ k) (''Invalid '' @ s @ ''.'' @ k @ '': '' @ j_what J ty n))))"

definition get_optional ::
  "'j json_api \<Rightarrow> (string \<Rightarrow> bool) \<Rightarrow> string \<Rightarrow> string \<Rightarrow> (string option \<Rightarrow> config \<Rightarrow> config) \<Rightarrow>
   'j \<Rightarrow> config \<Rightarrow> json_error + config" where
  "get_optional J none s k upd j c =
     (case Option.bind (j_get J j s) (\<lambda>t. j_get J t k) of
        None \<Rightarrow> Inr c
      | Some n \<Rightarrow>
          (case j_as_str J n of
             Some v \<Rightarrow> Inr (upd (if none v then None else Some v) c)
           | None \<Rightarrow> Inl (OtherError (j_what J ''str'' n))))"

definition read_model :: "'j json_api \<Rightarrow> ('j \<Rightarrow> config \<Rightarrow> json_error + config) list" where
  "read_model J =
     [get_field J (j_as_str J) ''str'' ''model'' ''size'' (\<lambda>v. c_model_update (md_size_update (\<lambda>_. v))),
      get_field J (j_as_str J) ''str'' ''model'' ''device'' (\<lambda>v. c_model_update (md_device_update (\<lambda>_. v))),
      get_field J (j_as_str J) ''str'' ''model'' ''compute_type'' (\<lambda>v. c_model_update (md_compute_type_update (\<lambda>_. v))),
      get_field J (j_as_int J) ''int'' ''model'' ''beam_size'' (\<lambda>v. c_model_update (md_beam_size_update (\<lambda>_. v))),
      get_field J (j_as_str J) ''str'' ''model'' ''language'' (\<lambda>v. c_model_update (md_language_update (\<lambda>_. v))),
      get_field J (j_as_int J) ''int'' ''model'' ''num_threads'' (\<lambda>v. c_model_update (md_num_threads_update (\<lambda>_. v)))]"

definition read_audio :: "'j json_api \<Rightarrow> ('j \<Rightarrow> config \<Rightarrow> json_error + config) list" where
  "read_audio J =
     [get_field J (j_as_int J) ''int'' ''audio'' ''sample_rate'' (\<lambda>v. c_audio_update (au_sample_rate_update (\<lambda>_. v))),
      get_field J (j_as_int J) ''int'' ''audio'' ''channels'' (\<lambda>v. c_audio_update (au_channels_update (\<lambda>_. v))),
      get_field J (j_as_int J) ''int'' ''audio'' ''buffer_size'' (\<lambda>v. c_audio_update (au_buffer_size_update (\<lambda>_. v))),
      get_field J (j_as_bool J) ''bool'' ''audio'' ''vad_enabled'' (\<lambda>v. c_audio_update (au_vad_enabled_update (\<lambda>_. v))),
      get_field J (j_as_flt J) ''flt'' ''audio'' ''vad_threshold'' (\<lambda>v. c_audio_update (au_vad_threshold_update (\<lambda>_. v))),
      get_field J (j_as_flt J) ''flt'' ''audio'' ''silence_duration'' (\<lambda>v. c_audio_update (au_silence_duration_update (\<lambda>_. v))),
      get_field J (j_as_flt J) ''flt'' ''audio'' ''max_duration'' (\<lambda>v. c_audio_update (au_max_duration_update (\<lambda>_. v))),
      get_field J (j_as_bool J) ''bool'' ''audio'' ''mute_other_apps'' (\<lambda>v. c_audio_update (au_mute_other_apps_update (\<lambda>_. v))),
      get_optional J (\<lambda>s. s = []) ''audio'' ''device'' (\<lambda>v. c_audio_update (au_device_update (\<lambda>_. v))),
      get_optional J (\<lambda>s. s = []) ''audio'' ''output_device'' (\<lambda>v. c_audio_update (au_output_device_update (\<lambda>_. v)))]"

definition read_hotkeys :: "'j json_api \<Rightarrow> ('j \<Rightarrow> config \<Rightarrow> json_error + config) list" where
  "read_hotkeys J =
     [get_field J (j_as_str J) ''str'' ''hotkeys'' ''mode'' (\<lambda>v. c_hotkeys_update (hk_mode_update (\<lambda>_. v))),
      get_field J (j_as_strings J) ''string_array'' ''hotkeys'' ''trigger'' (\<lambda>v. c_hotkeys_update (hk_trigger_update (\<lambda>_. v))),
      get_field J (j_as_strings J) ''string_array'' ''hotkeys'' ''cancel'' (\<lambda>v. c_hotkeys_update (hk_cancel_update (\<lambda>_. v))),
      get_field J (j_as_bool J) ''bool'' ''hotkeys'' ''escape_to_cancel'' (\<lambda>v. c_hotkeys_update (hk_escape_to_cancel_update (\<lambda>_. v)))]"

definition read_output :: "'j json_api \<Rightarrow> ('j \<Rightarrow> config \<Rightarrow> json_error + config) list" where
  "read_output J =
     [get_field J (j_as_str J) ''str'' ''output'' ''method'' (\<lambda>v. c_output_update (ou_method_update (\<lambda>_. v))),
      get_field J (j_as_bool J) ''bool'' ''output'' ''auto_paste'' (\<lambda>v. c_output_update (ou_auto_paste_update (\<lambda>_. v))),
      get_field J (j_as_flt J) ''flt'' ''output'' ''paste_delay'' (\<lambda>v. c_output_update (ou_paste_delay_update (\<lambda>_. v))),
      get_field J (j_as_str J) ''str'' ''output'' ''ending_action'' (\<lambda>v. c_output_update (ou_ending_action_update (\<lambda>_. v))),
      get_field J (j_as_bool J) ''bool'' ''output'' ''lowercase'' (\<lambda>v. c_output_update (ou_lowercase_update (\<lambda>_. v))),
      get_field J (j_as_bool J) ''bool'' ''output'' ''also_copy_to_clipboard'' (\<lambda>v. c_output_update (ou_also_copy_update (\<lambda>_. v)))]"

definition read_formatting :: "'j json_api \<Rightarrow> ('j \<Rightarrow> config \<Rightarrow> json_error + config) list" where
  "read_formatting J =
     [get_field J (j_as_bool J) ''bool'' ''formatting'' ''remove_fillers'' (\<lambda>v. c_formatting_update (fm_remove_fillers_update (\<lambda>_. v))),
      get_field J (j_as_bool J) ''bool'' ''formatting'' ''spoken_commands'' (\<lambda>v. c_formatting_update (fm_spoken_commands_update (\<lambda>_. v))),
      get_field J (j_as_strings J) ''string_array'' ''formatting'' ''dictionary'' (\<lambda>v. c_formatting_update (fm_dictionary_update (\<lambda>_. v)))]"

definition read_feedback :: "'j json_api \<Rightarrow> ('j \<Rightarrow> config \<Rightarrow> json_error + config) list" where
  "read_feedback J =
     [get_field J (j_as_bool J) ''bool'' ''feedback'' ''enabled'' (\<lambda>v. c_feedback_update (fb_enabled_update (\<lambda>_. v))),
      get_field J (j_as_int J) ''int'' ''feedback'' ''frequency_start'' (\<lambda>v. c_feedback_update (fb_frequency_start_update (\<lambda>_. v))),
      get_field J (j_as_int J) ''int'' ''feedback'' ''frequency_stop'' (\<lambda>v. c_feedback_update (fb_frequency_stop_update (\<lambda>_. v))),
      get_field J (j_as_int J) ''int'' ''feedback'' ''frequency_error'' (\<lambda>v. c_feedback_update (fb_frequency_error_update (\<lambda>_. v))),
      get_field J (j_as_flt J) ''flt'' ''feedback'' ''duration'' (\<lambda>v. c_feedback_update (fb_duration_update (\<lambda>_. v))),
      get_field J (j_as_flt J) ''flt'' ''feedback'' ''volume'' (\<lambda>v. c_feedback_update (fb_volume_update (\<lambda>_. v)))]"

definition read_daemon :: "'j json_api \<Rightarrow> ('j \<Rightarrow> config \<Rightarrow> json_error + config) list" where
  "read_daemon J =
     [get_field J (j_as_str J) ''str'' ''daemon'' ''log_level'' (\<lambda>v. c_daemon_update (dm_log_level_update (\<lambda>_. v))),
      get_optional J (\<lambda>s. s = [] \<or> s = ''default'') ''daemon'' ''log_file'' (\<lambda>v. c_daemon_update (dm_log_file_update (\<lambda>_. v))),
      get_field J (j_as_str J) ''str'' ''daemon'' ''pid_file'' (\<lambda>v. c_daemon_update (dm_pid_file_update (\<lambda>_. v))),
      get_field J (j_as_str J) ''str'' ''daemon'' ''work_dir'' (\<lambda>v. c_daemon_update (dm_work_dir_update (\<lambda>_. v)))]"

definition read_tray :: "'j json_api \<Rightarrow> ('j \<Rightarrow> config \<Rightarrow> json_error + config) list" where
  "read_tray J =
     [get_field J (j_as_bool J) ''bool'' ''tray'' ''enabled'' (\<lambda>v. c_tray_update (ty_enabled_update (\<lambda>_. v)))]"

definition read_avatar :: "'j json_api \<Rightarrow> ('j \<Rightarrow> config \<Rightarrow> json_error + config) list" where
  "read_avatar J =
     [get_field J (j_as_bool J) ''bool'' ''avatar'' ''enabled'' (\<lambda>v. c_avatar_update (av_enabled_update (\<lambda>_. v))),
      get_field J (j_as_str J) ''str'' ''avatar'' ''character'' (\<lambda>v. c_avatar_update (av_character_update (\<lambda>_. v))),
      get_field J (j_as_int J) ''int'' ''avatar'' ''size'' (\<lambda>v. c_avatar_update (av_size_update (\<lambda>_. v)))]"

text \<open>The statements run in order; the first error ends the function.\<close>

fun run_reads :: "('j \<Rightarrow> config \<Rightarrow> json_error + config) list \<Rightarrow> 'j \<Rightarrow> config \<Rightarrow> json_error + config" where
  "run_reads [] j c = Inr c"
| "run_reads (f # fs) j c = (case f j c of Inl e \<Rightarrow> Inl e | Inr c' \<Rightarrow> run_reads fs j c')"

definition json_to_config :: "'j json_api \<Rightarrow> 'j \<Rightarrow> json_error + config" where
  "json_to_config J j =
     run_reads (read_model J @ read_audio J @ read_hotkeys J @ read_output J @ read_formatting J @ read_feedback J @ read_daemon J @ read_tray J @ read_avatar J) j default_config"

definition get_config_json :: "'j json_api \<Rightarrow> 't toml_api \<Rightarrow> fsys \<Rightarrow> string \<Rightarrow> string + 'j" where
  "get_config_json J T fs path =
     (if \<not> fs_exists fs path then Inr (config_to_json J default_config)
      else case config_load T fs path of Inl e \<Rightarrow> Inl e | Inr c \<Rightarrow> Inr (config_to_json J c))"

definition defaults_json :: "'j json_api \<Rightarrow> 'j" where
  "defaults_json J = config_to_json J default_config"

definition models_json :: "'j json_api \<Rightarrow> string option \<Rightarrow> fsys \<Rightarrow> 'j" where
  "models_json J home fs =
     j_obj J
       [(''cache_dir'', j_str J (get_cache_dir home)),
        (''models'', j_arr J (map (\<lambda>m. j_obj J
          [(''name'', j_str J (mi_name m)), (''description'', j_str J (mi_description m)),
           (''size'', j_str J (mi_size m)), (''speed'', j_str J (mi_speed m)),
           (''english_only'', j_bool J (mi_english_only m)),
           (''downloaded'', j_bool J (is_model_downloaded home fs (mi_name m)))]) MODELS))]"

definition permissions_json :: "'j json_api \<Rightarrow> 'j" where
  "permissions_json J = j_obj J [(''applicable'', j_bool J False), (''permissions'', j_arr J [])]"

record validation_result =
  vr_errors :: "string list"
  vr_issues :: "validation_issue list"

definition validate_json :: "'j json_api \<Rightarrow> 'j \<Rightarrow> validation_result" where
  "validate_json J j =
     (case json_to_config J j of
        Inl e \<Rightarrow> \<lparr>vr_errors = [error_message e],
                 vr_issues = [make_issue SevError (error_path e) ''type_error'' (error_message e)]\<rparr>
      | Inr c \<Rightarrow>
          (let issues = validate_all c
           in \<lparr>vr_errors = map vi_message (filter (\<lambda>i. vi_severity i = SevError) issues), vr_issues = issues\<rparr>))"

definition issue_to_json :: "'j json_api \<Rightarrow> validation_issue \<Rightarrow> 'j" where
  "issue_to_json J i =
     j_obj J
       [(''severity'', j_str J (if vi_severity i = SevError then ''error'' else ''warning'')),
        (''path'', j_str J (vi_path i)), (''code'', j_str J (vi_code i)), (''message'', j_str J (vi_message i))]"

definition save_config_json ::
  "'j json_api \<Rightarrow> 't toml_api \<Rightarrow> io_env \<Rightarrow> fsys \<Rightarrow> string \<Rightarrow> 'j \<Rightarrow> string + fsys" where
  "save_config_json J T e fs path j =
     (case json_to_config J j of Inl err \<Rightarrow> Inl (error_message err) | Inr c \<Rightarrow> config_save T e fs c path)"

section \<open>The gate\<close>

text \<open>The loop that ORs the differences of the bytes together.\<close>

unbundle bit_operations_syntax

definition equals_constant_time :: "string \<Rightarrow> string \<Rightarrow> bool" where
  "equals_constant_time a b =
     (if length a \<noteq> length b then False
      else foldl (\<lambda>diff i. diff OR ((of_nat (code (a ! i)) :: u8) XOR of_nat (code (b ! i)))) 0 [0..<length a] = 0)"

definition is_loopback_host :: "string \<Rightarrow> bool" where
  "is_loopback_host host_header =
     (if host_header = [] then False
      else if hd host_header = CHR ''['' then
        (case sfind '']'' host_header 0 of
           None \<Rightarrow> False
         | Some close \<Rightarrow> take (close - 1) (drop 1 host_header) = ''::1'')
      else
        (let host = (case sfind '':'' host_header 0 of Some colon \<Rightarrow> take colon host_header | None \<Rightarrow> host_header)
         in host = ''127.0.0.1'' \<or> host = ''localhost''))"

definition token_matches :: "string \<Rightarrow> string \<Rightarrow> string \<Rightarrow> bool" where
  "token_matches expected auth query_token =
     (if expected = [] then False
      else if starts_with ''Bearer '' auth \<and> equals_constant_time (drop 7 auth) expected then True
      else equals_constant_time query_token expected)"

text \<open>The 64 digits of four 64-bit words of the generator.\<close>

definition session_token :: "u64 list \<Rightarrow> string" where
  "session_token ws =
     concat (map (\<lambda>v. map (\<lambda>k. hex_char (unat (drop_bit (60 - 4 * k) v AND 0xf))) [0..<16]) (take 4 ws))"

section \<open>The routes\<close>

record http_request =
  rq_method :: string
  rq_path :: string
  rq_host :: string
  rq_auth :: string
  rq_token :: "string option"
  rq_body :: string

record 'j http_response =
  rs_status :: int
  rs_json :: "'j option"

definition respond :: "int \<Rightarrow> 'j \<Rightarrow> 'j http_response" where
  "respond status j = \<lparr>rs_status = status, rs_json = Some j\<rparr>"

definition error_json :: "'j json_api \<Rightarrow> string \<Rightarrow> 'j" where
  "error_json J m = j_obj J [(''error'', j_str J m)]"

definition unauthorized_message :: string where
  "unauthorized_message = ''Missing or invalid session token. Open the settings UI through the URL printed by 'autowhisper config ui'.''"

text \<open>The pre-routing handler: \<open>Some\<close> when it handles the request.\<close>

definition pre_routing :: "'j json_api \<Rightarrow> string \<Rightarrow> http_request \<Rightarrow> 'j http_response option" where
  "pre_routing J token req =
     (if \<not> is_loopback_host (rq_host req) then Some (respond 403 (error_json J ''Forbidden host''))
      else if starts_with ''/api/'' (rq_path req) then
        (if \<not> token_matches token (rq_auth req) (case rq_token req of Some t \<Rightarrow> t | None \<Rightarrow> [])
         then Some (respond 401 (error_json J unauthorized_message))
         else None)
      else None)"

definition put_config ::
  "'j json_api \<Rightarrow> 't toml_api \<Rightarrow> io_env \<Rightarrow> string \<Rightarrow> string \<Rightarrow> fsys \<Rightarrow> 'j http_response \<times> fsys" where
  "put_config J T e path body fs =
     (case j_parse J body of
        Inl message \<Rightarrow>
          (respond 400 (j_obj J
             [(''errors'', j_arr J [j_str J message]),
              (''issues'', j_arr J [issue_to_json J (make_issue SevError [] ''json_parse_error'' message)])]), fs)
      | Inr j \<Rightarrow>
          (let v = validate_json J j
           in if vr_errors v \<noteq> [] then
                (respond 400 (j_obj J
                   [(''errors'', j_arr J (map (j_str J) (vr_errors v))),
                    (''issues'', j_arr J (map (issue_to_json J) (vr_issues v)))]), fs)
              else
                (case save_config_json J T e fs path j of
                   Inl m \<Rightarrow> (respond 500 (error_json J m), fs)
                 | Inr fs' \<Rightarrow> (\<lparr>rs_status = 204, rs_json = None\<rparr>, fs'))))"

text \<open>\<open>attach_api_routes\<close>: \<open>platform\<close> is the capabilities document; an unknown route is the library's 404.\<close>

definition serve ::
  "'j json_api \<Rightarrow> 't toml_api \<Rightarrow> io_env \<Rightarrow> 'j \<Rightarrow> string \<Rightarrow> string \<Rightarrow> http_request \<Rightarrow> fsys \<Rightarrow> 'j http_response \<times> fsys" where
  "serve J T e platform path token req fs =
     (case pre_routing J token req of
        Some r \<Rightarrow> (r, fs)
      | None \<Rightarrow>
          if rq_method req = ''GET'' \<and> rq_path req = ''/api/schema'' then (respond 200 (schema_to_json J), fs)
          else if rq_method req = ''GET'' \<and> rq_path req = ''/api/defaults'' then (respond 200 (defaults_json J), fs)
          else if rq_method req = ''GET'' \<and> rq_path req = ''/api/platform'' then (respond 200 platform, fs)
          else if rq_method req = ''GET'' \<and> rq_path req = ''/api/models'' then (respond 200 (models_json J (io_home e) fs), fs)
          else if rq_method req = ''GET'' \<and> rq_path req = ''/api/permissions'' then (respond 200 (permissions_json J), fs)
          else if rq_method req = ''GET'' \<and> rq_path req = ''/api/config'' then
            (case get_config_json J T fs path of
               Inl m \<Rightarrow> (respond 500 (error_json J m), fs)
             | Inr j \<Rightarrow> (respond 200 j, fs))
          else if rq_method req = ''PUT'' \<and> rq_path req = ''/api/config'' then put_config J T e path (rq_body req) fs
          else (\<lparr>rs_status = 404, rs_json = None\<rparr>, fs))"

definition attach_api_routes :: "string \<Rightarrow> bool" where
  "attach_api_routes token \<longleftrightarrow> token \<noteq> []"

section \<open>The sidecar file\<close>

definition fnv64 :: "string \<Rightarrow> u64" where
  "fnv64 bytes = foldl (\<lambda>h c. (h XOR of_nat (code c)) * 0x100000001b3) 0xcbf29ce484222325 bytes"

definition to_hex16 :: "u64 \<Rightarrow> string" where
  "to_hex16 v = map (\<lambda>k. hex_char (unat (drop_bit (60 - 4 * k) v AND 0xf))) [0..<16]"

text \<open>\<open>xdg\<close> is \<open>XDG_RUNTIME_DIR\<close>, \<open>writable\<close> whether that is a writable directory, \<open>tmp\<close> the
  temporary directory when the library finds one, \<open>user\<close> the user suffix.\<close>

definition sidecar_path_for :: "string option \<Rightarrow> bool \<Rightarrow> string option \<Rightarrow> string \<Rightarrow> string \<Rightarrow> string" where
  "sidecar_path_for xdg writable tmp user path =
     (let hash = to_hex16 (fnv64 path)
      in if xdg \<noteq> None \<and> xdg \<noteq> Some [] \<and> writable
         then the xdg @ ''/autowhisper-settings-'' @ hash @ ''.info''
         else (case tmp of Some t \<Rightarrow> if t = [] then ''/tmp'' else t | None \<Rightarrow> ''/tmp'') @
              ''/autowhisper-settings-'' @ user @ ''-'' @ hash @ ''.info'')"

record sidecar =
  sc_pid :: int
  sc_port :: int
  sc_path :: string
  sc_token :: string

definition parse_sidecar :: "string \<Rightarrow> sidecar option" where
  "parse_sidecar raw =
     (if raw = [] then None
      else case getline (CHR 0x0A) raw of None \<Rightarrow> None
      | Some (pid_line, r1) \<Rightarrow> (case getline (CHR 0x0A) r1 of None \<Rightarrow> None
      | Some (port_line, r2) \<Rightarrow> (case getline (CHR 0x0A) r2 of None \<Rightarrow> None
      | Some (path_line, r3) \<Rightarrow> (case stoi pid_line of None \<Rightarrow> None
      | Some (pid, _) \<Rightarrow> (case stoi port_line of None \<Rightarrow> None
      | Some (port, _) \<Rightarrow>
          if pid \<le> 0 \<or> port \<le> 0 \<or> 65535 < port then None
          else Some \<lparr>sc_pid = pid, sc_port = port, sc_path = path_line,
                 sc_token = (case getline (CHR 0x0A) r3 of Some (t, _) \<Rightarrow> t | None \<Rightarrow> [])\<rparr>)))))"

definition format_sidecar :: "sidecar \<Rightarrow> string" where
  "format_sidecar c =
     show_int (sc_pid c) @ [CHR 0x0A] @ show_int (sc_port c) @ [CHR 0x0A] @ sc_path c @ [CHR 0x0A] @ sc_token c @ [CHR 0x0A]"

end
