(* ===== verification/Settings_Laws.thy ===== *)
theory Settings_Laws
  imports Settings Config_Laws Json_Laws
begin

text \<open>
  Theorems about the settings service: the JSON view of a configuration loses nothing, the gate
  lets no unauthenticated or foreign request reach a handler, only a complete and valid
  configuration is ever written, and the sidecar file round-trips.
\<close>

lemma json_reads:
  assumes "json_ok J"
  shows "j_as_bool J (j_bool J b) = Some b" "in_int i \<Longrightarrow> j_as_int J (j_int J i) = Some i"
    "float_stable v \<Longrightarrow> j_as_flt J (j_dbl J (shortest_double v)) = Some v" "j_as_str J (j_str J s) = Some s"
    "j_as_strings J (j_arr J (map (j_str J) xs)) = Some xs"
proof -
  have "map (j_as_str J \<circ> j_str J) xs = map (\<lambda>x. Some (id x)) xs" using assms by (simp add: json_ok_def)
  then show "j_as_strings J (j_arr J (map (j_str J) xs)) = Some xs"
    using assms all_some_map [of id xs] by (simp add: j_as_strings_def json_ok_def comp_def)
qed (use assms in \<open>auto simp: json_ok_def float_stable_def\<close>)

lemma run_reads_append:
  "run_reads (fs @ gs) j c = (case run_reads fs j c of Inl e \<Rightarrow> Inl e | Inr c' \<Rightarrow> run_reads gs j c')"
  by (induction fs arbitrary: c) (auto split: sum.splits)

lemma j_get_section:
  assumes "json_ok J"
  shows "j_get J (config_to_json J c) ''model'' = Some (json_model J c)"
    "j_get J (config_to_json J c) ''audio'' = Some (json_audio J c)"
    "j_get J (config_to_json J c) ''hotkeys'' = Some (json_hotkeys J c)"
    "j_get J (config_to_json J c) ''output'' = Some (json_output J c)"
    "j_get J (config_to_json J c) ''formatting'' = Some (json_formatting J c)"
    "j_get J (config_to_json J c) ''feedback'' = Some (json_feedback J c)"
    "j_get J (config_to_json J c) ''daemon'' = Some (json_daemon J c)"
    "j_get J (config_to_json J c) ''tray'' = Some (json_tray J c)"
    "j_get J (config_to_json J c) ''avatar'' = Some (json_avatar J c)"
  unfolding config_to_json_def using assms by (subst j_get_obj; simp)+

text \<open>What the JSON view identifies: a missing name and the empty one; for the log file also "default".\<close>

definition norm_dev :: "string option \<Rightarrow> string option" where
  "norm_dev v = (if v = Some [] then None else v)"

definition json_normal :: "config \<Rightarrow> config" where
  "json_normal c = c
     \<lparr>c_audio := (c_audio c)\<lparr>au_device := norm_dev (au_device (c_audio c)),
                              au_output_device := norm_dev (au_output_device (c_audio c))\<rparr>,
      c_daemon := (c_daemon c)\<lparr>dm_log_file := norm_opt (dm_log_file (c_daemon c))\<rparr>\<rparr>"

lemma value_or_empty_norm:
  "(if value_or_empty v = [] then None else Some (value_or_empty v)) = norm_dev v"
  "(if value_or_empty v = [] \<or> value_or_empty v = ''default'' then None else Some (value_or_empty v)) = norm_opt v"
  by (auto simp: value_or_empty_def norm_dev_def norm_opt_def split: option.split)

lemmas json_section_defs =
  json_model_def json_audio_def json_hotkeys_def json_output_def json_formatting_def json_feedback_def
  json_daemon_def json_tray_def json_avatar_def

lemmas json_read_simps =
  get_field_def get_optional_def j_get_section j_get_obj json_reads config_representable_def value_or_empty_norm

lemma read_model_saved:
  "json_ok J \<Longrightarrow> config_representable c \<Longrightarrow>
     run_reads (read_model J) (config_to_json J c) d = Inr (d\<lparr>c_model := c_model c\<rparr>)"
  by (simp add: read_model_def get_field_def j_get_section json_model_def j_get_obj json_reads config_representable_def)

lemma read_audio_saved:
  "json_ok J \<Longrightarrow> config_representable c \<Longrightarrow>
     run_reads (read_audio J) (config_to_json J c) d = Inr (d\<lparr>c_audio := c_audio (json_normal c)\<rparr>)"
  by (simp add: read_audio_def json_read_simps json_audio_def json_normal_def)

lemma read_hotkeys_saved:
  "json_ok J \<Longrightarrow> config_representable c \<Longrightarrow>
     run_reads (read_hotkeys J) (config_to_json J c) d = Inr (d\<lparr>c_hotkeys := c_hotkeys c\<rparr>)"
  by (simp add: read_hotkeys_def json_read_simps json_hotkeys_def)

lemma read_output_saved:
  "json_ok J \<Longrightarrow> config_representable c \<Longrightarrow>
     run_reads (read_output J) (config_to_json J c) d = Inr (d\<lparr>c_output := c_output c\<rparr>)"
  by (simp add: read_output_def json_read_simps json_output_def)

lemma read_formatting_saved:
  "json_ok J \<Longrightarrow> config_representable c \<Longrightarrow>
     run_reads (read_formatting J) (config_to_json J c) d = Inr (d\<lparr>c_formatting := c_formatting c\<rparr>)"
  by (simp add: read_formatting_def json_read_simps json_formatting_def)

lemma read_feedback_saved:
  "json_ok J \<Longrightarrow> config_representable c \<Longrightarrow>
     run_reads (read_feedback J) (config_to_json J c) d = Inr (d\<lparr>c_feedback := c_feedback c\<rparr>)"
  by (simp add: read_feedback_def json_read_simps json_feedback_def)

lemma read_daemon_saved:
  "json_ok J \<Longrightarrow> config_representable c \<Longrightarrow>
     run_reads (read_daemon J) (config_to_json J c) d = Inr (d\<lparr>c_daemon := c_daemon (json_normal c)\<rparr>)"
  by (simp add: read_daemon_def json_read_simps json_daemon_def json_normal_def)

lemma read_tray_saved:
  "json_ok J \<Longrightarrow> config_representable c \<Longrightarrow>
     run_reads (read_tray J) (config_to_json J c) d = Inr (d\<lparr>c_tray := c_tray c\<rparr>)"
  by (simp add: read_tray_def json_read_simps json_tray_def)

lemma read_avatar_saved:
  "json_ok J \<Longrightarrow> config_representable c \<Longrightarrow>
     run_reads (read_avatar J) (config_to_json J c) d = Inr (d\<lparr>c_avatar := c_avatar c\<rparr>)"
  by (simp add: read_avatar_def json_read_simps json_avatar_def)

lemma json_config_saved:
  assumes "json_ok J" "config_representable c"
  shows "json_to_config J (config_to_json J c) = Inr (json_normal c)"
  unfolding json_to_config_def run_reads_append
  using read_model_saved [OF assms] read_audio_saved [OF assms] read_hotkeys_saved [OF assms]
    read_output_saved [OF assms] read_formatting_saved [OF assms] read_feedback_saved [OF assms]
    read_daemon_saved [OF assms] read_tray_saved [OF assms] read_avatar_saved [OF assms]
  by (simp add: json_normal_def)

section \<open>The gate\<close>

lemma foldl_or_zero: "foldl (\<lambda>d i. d OR f i) (x :: u8) is = 0 \<longleftrightarrow> x = 0 \<and> (\<forall>i \<in> set is. f i = 0)"
  by (induction "is" arbitrary: x) (auto simp: or_eq_0_iff)

lemma byte_eq: "(of_nat (code a) :: u8) = of_nat (code b) \<longleftrightarrow> a = b"
proof -
  have "unat (of_nat (code c) :: u8) = code c" for c
    using code_less_256 [of c] by (simp add: unat_of_nat)
  then show ?thesis by (metis code_inj)
qed

lemma xor_zero: "(x :: u8) XOR y = 0 \<longleftrightarrow> x = y"
proof
  assume "x XOR y = 0"
  then have "(x XOR y) XOR y = 0 XOR y" by simp
  then show "x = y" by (simp add: xor.assoc)
qed simp

lemma starts_with_drop: "starts_with p s \<longleftrightarrow> s = p @ drop (length p) s"
proof
  assume "starts_with p s"
  then have "take (length p) s = p" by (simp add: starts_with_def)
  then show "s = p @ drop (length p) s" using append_take_drop_id [of "length p" s] by simp
next
  assume "s = p @ drop (length p) s"
  then have "take (length p) s = take (length p) (p @ drop (length p) s)" by simp
  then show "starts_with p s" by (simp add: starts_with_def)
qed

lemma equals_constant_time_eq: "equals_constant_time a b \<longleftrightarrow> a = b"
proof (cases "length a = length b")
  case True
  then have "equals_constant_time a b \<longleftrightarrow> (\<forall>i < length a. a ! i = b ! i)"
    by (simp add: equals_constant_time_def foldl_or_zero xor_zero byte_eq Ball_def)
  also have "\<dots> \<longleftrightarrow> a = b" using True by (auto intro: nth_equalityI)
  finally show ?thesis .
qed (auto simp: equals_constant_time_def)

lemma starts_with_rest: "starts_with p s \<and> drop (length p) s = t \<longleftrightarrow> s = p @ t"
  using starts_with_drop [of p s] starts_with_drop [of p "p @ t"] by auto

lemma token_matches_eq:
  "token_matches t auth q \<longleftrightarrow> t \<noteq> [] \<and> (auth = ''Bearer '' @ t \<or> q = t)"
proof -
  have "length ''Bearer '' = 7" by simp
  from starts_with_rest [of "''Bearer ''" auth t, unfolded this] show ?thesis
    unfolding token_matches_def equals_constant_time_eq by auto
qed

lemma sfind_char: "sfind [c] s 0 = (if c \<in> set s then Some (length (takeWhile (\<lambda>x. x \<noteq> c) s)) else None)"
proof -
  have "sfind0 [c] s = (if c \<in> set s then Some (length (takeWhile (\<lambda>x. x \<noteq> c) s)) else None)"
    by (induction s) auto
  then show ?thesis by (simp add: sfind_def)
qed

lemma takeWhile_not_in: "c \<notin> set s \<Longrightarrow> takeWhile (\<lambda>x. x \<noteq> c) s = s"
  by (induction s) auto

lemma take_takeWhile: "take (length (takeWhile P s)) s = takeWhile P s"
  by (induction s) auto

lemma loopback_plain:
  "hd h \<noteq> CHR ''['' \<Longrightarrow> is_loopback_host h \<longleftrightarrow>
     takeWhile (\<lambda>c. c \<noteq> CHR '':'') h = ''127.0.0.1'' \<or> takeWhile (\<lambda>c. c \<noteq> CHR '':'') h = ''localhost''"
  by (cases "h = []") (auto simp: is_loopback_host_def sfind_char take_takeWhile takeWhile_not_in)

lemma takeWhile_eq_append: "c \<in> set s \<Longrightarrow> takeWhile (\<lambda>x. x \<noteq> c) s = w \<longleftrightarrow> c \<notin> set w \<and> (\<exists>r. s = w @ c # r)"
proof (induction s arbitrary: w)
  case (Cons x s)
  show ?case
  proof (cases "x = c")
    case True
    then show ?thesis by (cases w) auto
  next
    case False
    with Cons show ?thesis by (cases w) auto
  qed
qed simp

lemma loopback_bracket:
  "hd h = CHR ''['' \<Longrightarrow> h \<noteq> [] \<Longrightarrow> is_loopback_host h \<longleftrightarrow> (\<exists>rest. h = ''[::1]'' @ rest)"
proof -
  assume h: "hd h = CHR ''[''" "h \<noteq> []"
  then obtain t where t: "h = CHR ''['' # t" by (cases h) auto
  show ?thesis
  proof (cases "CHR '']'' \<in> set t")
    case True
    have "is_loopback_host h \<longleftrightarrow> takeWhile (\<lambda>c. c \<noteq> CHR '']'') t = ''::1''"
      using t True by (simp add: is_loopback_host_def sfind_char take_takeWhile)
    also have "\<dots> \<longleftrightarrow> (\<exists>r. t = ''::1'' @ CHR '']'' # r)" using takeWhile_eq_append [OF True] by simp
    finally show ?thesis using t by simp
  next
    case False
    then have "\<not> is_loopback_host h" using t by (simp add: is_loopback_host_def sfind_char)
    then show ?thesis using t False by auto
  qed
qed

section \<open>Properties\<close>

text \<open>The settings UI round trip: the JSON document served for a configuration converts back to
  that configuration (an empty device name meaning none), provided integers fit and floats survive
  their shortest decimal form; so fetching and putting back a document changes nothing.\<close>

theorem json_round_trip:
  assumes "json_ok J" "config_representable c"
  shows "json_to_config J (config_to_json J c) = Inr (json_normal c) \<and>
    validate_json J (config_to_json J c) =
      \<lparr>vr_errors = map vi_message (filter (\<lambda>i. vi_severity i = SevError) (validate_all c)), vr_issues = validate_all c\<rparr>"
proof -
  have "validate_all (json_normal c) = validate_all c"
    by (simp add: validate_all_def json_normal_def validate_audio_def validate_daemon_def)
  then show ?thesis using json_config_saved [OF assms] by (simp add: validate_json_def Let_def)
qed

theorem json_round_trip_witness:
  "json_to_config mini_json (config_to_json mini_json quiet_config) = Inr (json_normal quiet_config) \<and>
    validate_json mini_json (config_to_json mini_json quiet_config) =
      \<lparr>vr_errors = map vi_message (filter (\<lambda>i. vi_severity i = SevError) (validate_all quiet_config)),
       vr_issues = validate_all quiet_config\<rparr>"
  by (rule json_round_trip [OF mini_json_ok quiet_representable])

text \<open>C19: The gate of the settings server: whatever the request, a response other than 403 requires a
  loopback Host header, a request under /api/ is answered other than by 403 or 401 only with the
  session token (as bearer or query parameter), and the file system changes only for an
  authenticated PUT of /api/config whose body converts to a configuration that validates, in
  which case the change is exactly the save of that configuration.\<close>

theorem serve_gate:
  assumes "serve J T e platform path token req fs = (r, fs')"
  shows "(rs_status r \<noteq> 403 \<longrightarrow> is_loopback_host (rq_host req)) \<and>
    (rs_status r \<noteq> 403 \<and> rs_status r \<noteq> 401 \<and> starts_with ''/api/'' (rq_path req) \<longrightarrow>
       token \<noteq> [] \<and> (rq_auth req = ''Bearer '' @ token \<or> rq_token req = Some token)) \<and>
    (fs' \<noteq> fs \<longrightarrow>
       is_loopback_host (rq_host req) \<and> (rq_auth req = ''Bearer '' @ token \<or> rq_token req = Some token) \<and>
       rq_method req = ''PUT'' \<and> rq_path req = ''/api/config'' \<and> rs_status r = 204 \<and>
       (\<exists>j c. j_parse J (rq_body req) = Inr j \<and> json_to_config J j = Inr c \<and> config_validate c = None \<and>
          config_save T e fs c path = Inr fs'))"
proof (cases "pre_routing J token req")
  case (Some r')
  then have "r = r'" "fs' = fs" using assms by (auto simp: serve_def)
  with Some show ?thesis
    by (auto simp: pre_routing_def respond_def split: if_splits)
next
  case None
  have q: "(case rq_token req of Some t \<Rightarrow> t | None \<Rightarrow> []) = token \<and> token \<noteq> [] \<longleftrightarrow> rq_token req = Some token \<and> token \<noteq> []"
    by (auto split: option.split)
  from None have lb: "is_loopback_host (rq_host req)"
    and tok: "starts_with ''/api/'' (rq_path req) \<Longrightarrow>
      token \<noteq> [] \<and> (rq_auth req = ''Bearer '' @ token \<or> rq_token req = Some token)"
    using q by (auto simp: pre_routing_def token_matches_eq split: if_splits)
  have api: "starts_with ''/api/'' ''/api/config''" by (simp add: starts_with_def)
  have ch: "rq_method req = ''PUT'' \<and> rq_path req = ''/api/config'' \<and> put_config J T e path (rq_body req) fs = (r, fs')"
    if "fs' \<noteq> fs"
    using that assms None by (auto simp: serve_def split: if_splits sum.splits)
  have put: "rs_status r = 204 \<and> (\<exists>j c. j_parse J (rq_body req) = Inr j \<and> json_to_config J j = Inr c \<and>
      config_validate c = None \<and> config_save T e fs c path = Inr fs')"
    if "fs' \<noteq> fs" "put_config J T e path (rq_body req) fs = (r, fs')"
    using that
    by (auto simp: put_config_def save_config_json_def config_save_def Let_def split: sum.splits if_splits option.splits)
  show ?thesis
  proof (cases "fs' = fs")
    case True
    with lb tok show ?thesis by blast
  next
    case False
    note c = ch [OF False]
    with api have "starts_with ''/api/'' (rq_path req)" by simp
    from tok [OF this] lb c put [OF False] show ?thesis by blast
  qed
qed

definition good_request :: http_request where
  "good_request = \<lparr>rq_method = ''PUT'', rq_path = ''/api/config'', rq_host = ''localhost:8080'', rq_auth = ''Bearer t'',
     rq_token = None, rq_body = ''{}''\<rparr>"

definition saved_fs :: fsys where
  "saved_fs = fs_write (\<lambda>_. None) ''c.toml'' ''#''"

lemma default_saved: "config_save mini_toml open_env (\<lambda>_. None) default_config ''c.toml'' = Inr saved_fs"
proof -
  have "config_validate default_config = None" "parent_path ''c.toml'' = []" by code_simp+
  then show ?thesis by (simp add: config_save_def open_env_def mini_toml_def saved_fs_def)
qed

lemma empty_object: "json_to_config mini_json (JObj []) = Inr default_config"
  by (simp add: json_to_config_def run_reads_append read_model_def read_audio_def read_hotkeys_def read_output_def
      read_formatting_def read_feedback_def read_daemon_def read_tray_def read_avatar_def get_field_def
      get_optional_def j_get_def mini_json_def)

lemma default_valid: "filter (\<lambda>i. vi_severity i = SevError) (validate_all default_config) = []"
  by code_simp

lemma good_served:
  "serve mini_json mini_toml open_env JNull ''c.toml'' ''t'' good_request (\<lambda>_. None) =
     (\<lparr>rs_status = 204, rs_json = None\<rparr>, saved_fs)"
proof -
  have "pre_routing mini_json ''t'' good_request = None"
    by (simp add: pre_routing_def good_request_def is_loopback_host_def sfind_char token_matches_eq)
  moreover have "j_parse mini_json ''{}'' = Inr (JObj [])" by (simp add: mini_json_def)
  ultimately show ?thesis
    using empty_object default_valid default_saved
    by (simp add: serve_def good_request_def put_config_def validate_json_def save_config_json_def Let_def)
qed

theorem serve_gate_witness:
  "is_loopback_host (rq_host good_request) \<and> rq_method good_request = ''PUT'' \<and>
   (\<exists>j c. j_parse mini_json (rq_body good_request) = Inr j \<and> json_to_config mini_json j = Inr c \<and>
      config_validate c = None \<and> config_save mini_toml open_env (\<lambda>_. None) c ''c.toml'' = Inr saved_fs)"
proof -
  have "saved_fs ''c.toml'' \<noteq> None" by (simp add: saved_fs_def fs_write_def)
  then have "saved_fs \<noteq> (\<lambda>_. None)" by (rule contrapos_nn) (rule fun_cong)
  with serve_gate [OF good_served] show ?thesis by blast
qed

text \<open>Which Host headers count as loopback: an address or name before the first colon equal to
  127.0.0.1 or localhost, or any header that starts with the bracketed literal [::1], whatever
  follows the bracket.\<close>

theorem loopback_hosts:
  "is_loopback_host h \<longleftrightarrow>
     (\<exists>rest. h = ''[::1]'' @ rest) \<or>
     (h \<noteq> [] \<and> takeWhile (\<lambda>c. c \<noteq> CHR '':'') h \<in> {''127.0.0.1'', ''localhost''})"
proof (cases "h = []")
  case True
  then show ?thesis by (simp add: is_loopback_host_def)
next
  case False
  show ?thesis
  proof (cases "hd h = CHR ''[''")
    case True
    then have "takeWhile (\<lambda>c. c \<noteq> CHR '':'') h \<noteq> ''127.0.0.1'' \<and> takeWhile (\<lambda>c. c \<noteq> CHR '':'') h \<noteq> ''localhost''"
      using False by (cases h) auto
    with loopback_bracket [OF True False] show ?thesis by blast
  next
    case n: False
    then have "\<nexists>rest. h = ''[::1]'' @ rest" by auto
    with loopback_plain [OF n] False show ?thesis by simp
  qed
qed

text \<open>A JSON body that is not an object (an empty array, a number) passes validation and the
  server saves the default configuration over the user's.\<close>

theorem non_object_resets:
  assumes "j_parse J body = Inr j" "j_as_obj J j = None"
  shows "json_to_config J j = Inr default_config \<and>
    put_config J T e path body fs =
      (case config_save T e fs default_config path of
         Inl m \<Rightarrow> (respond 500 (error_json J m), fs) | Inr fs' \<Rightarrow> (\<lparr>rs_status = 204, rs_json = None\<rparr>, fs'))"
proof -
  have g: "j_get J j k = None" for k using assms(2) by (simp add: j_get_def)
  have c: "json_to_config J j = Inr default_config"
    by (simp add: json_to_config_def run_reads_append read_model_def read_audio_def read_hotkeys_def read_output_def
          read_formatting_def read_feedback_def read_daemon_def read_tray_def read_avatar_def get_field_def
          get_optional_def g)
  with default_valid assms(1) show ?thesis
    by (simp add: put_config_def validate_json_def save_config_json_def Let_def)
qed

theorem non_object_resets_witness:
  "json_to_config mini_json (JArr []) = Inr default_config \<and>
    put_config mini_json mini_toml open_env ''c.toml'' ''[]'' (\<lambda>_. None) =
      (case config_save mini_toml open_env (\<lambda>_. None) default_config ''c.toml'' of
         Inl m \<Rightarrow> (respond 500 (error_json mini_json m), \<lambda>_. None)
       | Inr fs' \<Rightarrow> (\<lparr>rs_status = 204, rs_json = None\<rparr>, fs'))"
  by (rule non_object_resets) (simp_all add: mini_json_def)

text \<open>The sidecar file round-trips: what one instance writes, another reads back, for every
  positive process id and port and every path and token without a line break.\<close>

theorem sidecar_round_trip:
  assumes "0 < sc_pid c" "sc_pid c < 2 ^ 31" "0 < sc_port c" "sc_port c \<le> 65535"
    and "CHR 0x0A \<notin> set (sc_path c)" "CHR 0x0A \<notin> set (sc_token c)"
  shows "parse_sidecar (format_sidecar c) = Some c"
proof -
  have d: "CHR 0x0A \<notin> set (show_nat n)" for n
    using show_nat_digits digit_not_space by blast
  have s: "show_int i = show_nat (nat i)" if "0 < i" for i using that by (simp add: show_int_def)
  have st: "stoi (show_nat (nat i)) = Some (i, length (show_nat (nat i)))" if "0 < i" "i < 2 ^ 31" for i
  proof -
    have "nat i < 2 ^ 31" using that by simp
    with that stoi_show_nat [OF this] show ?thesis by simp
  qed
  have "sc_port c < 2 ^ 31" using assms(4) by simp
  then show ?thesis
    using assms d st [OF assms(1,2)] st [of "sc_port c"]
    by (simp add: parse_sidecar_def format_sidecar_def s getline_cut)
qed

theorem sidecar_round_trip_witness:
  "parse_sidecar (format_sidecar \<lparr>sc_pid = 4242, sc_port = 8080, sc_path = ''/c.toml'', sc_token = ''ab''\<rparr>) =
     Some \<lparr>sc_pid = 4242, sc_port = 8080, sc_path = ''/c.toml'', sc_token = ''ab''\<rparr>"
  by (rule sidecar_round_trip) simp_all

end
