(* ===== verification/Transcription.thy ===== *)
theory Transcription
  imports Json_Laws
begin

text \<open>
  The transcription result and its wire format (src/src/runtime/transcription.h, transcription.cpp),
  and the interface \<open>Transcriber\<close>. A \<open>std::invalid_argument\<close> is told apart from every other
  \<open>std::exception\<close>, because the protocol handler catches the two differently; the exceptions of the
  JSON library are of the second kind. An \<open>int64_t\<close> member is a HOL \<open>int\<close>.
\<close>

section \<open>Data\<close>

datatype exn = InvalidArgument string | OtherException string

fun what :: "exn \<Rightarrow> string" where
  "what (InvalidArgument m) = m"
| "what (OtherException m) = m"

definition TRANSCRIPTION_SCHEMA :: string where
  "TRANSCRIPTION_SCHEMA = ''fabric.transcription''"

definition TRANSCRIPTION_VERSION :: int where
  "TRANSCRIPTION_VERSION = 1"

datatype transcription_status = Completed | No_Speech | Cancelled | Failed

record transcription_segment =
  sg_start_ms :: int
  sg_end_ms :: int
  sg_text :: string

record transcription_error =
  te_code :: string
  te_message :: string
  te_retryable :: bool

record transcription_result =
  tr_request_id :: string
  tr_status :: transcription_status
  tr_text :: string
  tr_language :: string
  tr_duration_ms :: int
  tr_processing_ms :: int
  tr_model :: string
  tr_provider :: string
  tr_segments :: "transcription_segment list"
  tr_warnings :: "string list"
  tr_error :: "transcription_error option"

definition default_result :: transcription_result where
  "default_result = \<lparr>tr_request_id = [], tr_status = Failed, tr_text = [], tr_language = [],
     tr_duration_ms = 0, tr_processing_ms = 0, tr_model = [], tr_provider = ''autowhisper'',
     tr_segments = [], tr_warnings = [], tr_error = None\<rparr>"

record transcription_options =
  to_request_id :: string
  to_language :: string
  to_model :: string

text \<open>
  \<open>Transcriber::transcribe_file\<close>: it may throw, and it may change the object; the object is the
  state \<open>'t\<close>.
\<close>

type_synonym 't transcribe_op = "'t \<Rightarrow> string \<Rightarrow> transcription_options \<Rightarrow> (exn + transcription_result) \<times> 't"

section \<open>Names of the statuses\<close>

fun parse_status_from :: "string \<Rightarrow> exn + transcription_status" where
  "parse_status_from value =
     (if value = ''completed'' then Inr Completed
      else if value = ''no_speech'' then Inr No_Speech
      else if value = ''cancelled'' then Inr Cancelled
      else if value = ''failed'' then Inr Failed
      else Inl (InvalidArgument (''Unknown transcription status: '' @ value)))"

fun transcription_status_name :: "transcription_status \<Rightarrow> string" where
  "transcription_status_name Completed = ''completed''"
| "transcription_status_name No_Speech = ''no_speech''"
| "transcription_status_name Cancelled = ''cancelled''"
| "transcription_status_name Failed = ''failed''"

definition failed_transcription :: "string \<Rightarrow> string \<Rightarrow> string \<Rightarrow> bool \<Rightarrow> transcription_result" where
  "failed_transcription request_id ecode message retryable =
     default_result\<lparr>tr_request_id := request_id, tr_status := Failed,
       tr_error := Some \<lparr>te_code = ecode, te_message = message, te_retryable = retryable\<rparr>\<rparr>"

section \<open>To JSON\<close>

definition segment_to_json :: "'j json_api \<Rightarrow> transcription_segment \<Rightarrow> 'j" where
  "segment_to_json J s =
     j_obj J [(''start_ms'', j_int J (sg_start_ms s)), (''end_ms'', j_int J (sg_end_ms s)),
              (''text'', j_str J (sg_text s))]"

definition error_to_json :: "'j json_api \<Rightarrow> transcription_error \<Rightarrow> 'j" where
  "error_to_json J e =
     j_obj J [(''code'', j_str J (te_code e)), (''message'', j_str J (te_message e)),
              (''retryable'', j_bool J (te_retryable e))]"

definition entry_if :: "bool \<Rightarrow> string \<Rightarrow> 'j \<Rightarrow> (string \<times> 'j) list" where
  "entry_if b k v = (if b then [(k, v)] else [])"

definition result_entries :: "'j json_api \<Rightarrow> transcription_result \<Rightarrow> (string \<times> 'j) list" where
  "result_entries J r =
     [(''schema'', j_str J TRANSCRIPTION_SCHEMA),
      (''version'', j_int J TRANSCRIPTION_VERSION),
      (''request_id'', j_str J (tr_request_id r)),
      (''status'', j_str J (transcription_status_name (tr_status r))),
      (''text'', j_str J (tr_text r)),
      (''provider'', j_str J (tr_provider r)),
      (''segments'', j_arr J (map (segment_to_json J) (tr_segments r))),
      (''warnings'', j_arr J (map (j_str J) (tr_warnings r)))] @
     entry_if (tr_language r \<noteq> []) ''language'' (j_str J (tr_language r)) @
     entry_if (0 < tr_duration_ms r) ''duration_ms'' (j_int J (tr_duration_ms r)) @
     entry_if (0 < tr_processing_ms r) ''processing_ms'' (j_int J (tr_processing_ms r)) @
     entry_if (tr_model r \<noteq> []) ''model'' (j_str J (tr_model r)) @
     (case tr_error r of Some e \<Rightarrow> [(''error'', error_to_json J e)] | None \<Rightarrow> [])"

definition result_to_json :: "'j json_api \<Rightarrow> transcription_result \<Rightarrow> 'j" where
  "result_to_json J r = j_obj J (result_entries J r)"

section \<open>From JSON\<close>

text \<open>
  \<open>at(k)\<close> throws when the value is no object or the key is missing; \<open>get\<close> and \<open>get_to\<close> throw on a
  value of another type; \<open>value(k, d)\<close> is the default when the key is missing and converts, and
  throws, when it is there.
\<close>

definition j_at :: "'j json_api \<Rightarrow> 'j \<Rightarrow> string \<Rightarrow> exn + 'j" where
  "j_at J j k = (case j_get J j k of Some v \<Rightarrow> Inr v | None \<Rightarrow> Inl (OtherException (j_what J k j)))"

definition j_read :: "'j json_api \<Rightarrow> ('j \<Rightarrow> 'a option) \<Rightarrow> string \<Rightarrow> 'j \<Rightarrow> exn + 'a" where
  "j_read J rd ty v = (case rd v of Some a \<Rightarrow> Inr a | None \<Rightarrow> Inl (OtherException (j_what J ty v)))"

definition at_get :: "'j json_api \<Rightarrow> ('j \<Rightarrow> 'a option) \<Rightarrow> string \<Rightarrow> 'j \<Rightarrow> string \<Rightarrow> exn + 'a" where
  "at_get J rd ty j k = bind_r (j_at J j k) (j_read J rd ty)"

definition value_or :: "'j json_api \<Rightarrow> ('j \<Rightarrow> exn + 'a) \<Rightarrow> 'j \<Rightarrow> string \<Rightarrow> 'a \<Rightarrow> exn + 'a" where
  "value_or J rd j k d = (case j_get J j k of Some v \<Rightarrow> rd v | None \<Rightarrow> Inr d)"

definition segment_from_json :: "'j json_api \<Rightarrow> 'j \<Rightarrow> exn + transcription_segment" where
  "segment_from_json J j =
     bind_r (at_get J (j_as_int64 J) ''int64'' j ''start_ms'') (\<lambda>a.
     bind_r (at_get J (j_as_int64 J) ''int64'' j ''end_ms'') (\<lambda>b.
     bind_r (at_get J (j_as_str J) ''str'' j ''text'') (\<lambda>t.
     Inr \<lparr>sg_start_ms = a, sg_end_ms = b, sg_text = t\<rparr>)))"

definition error_from_json :: "'j json_api \<Rightarrow> 'j \<Rightarrow> exn + transcription_error" where
  "error_from_json J j =
     bind_r (at_get J (j_as_str J) ''str'' j ''code'') (\<lambda>c.
     bind_r (at_get J (j_as_str J) ''str'' j ''message'') (\<lambda>m.
     bind_r (at_get J (j_as_bool J) ''bool'' j ''retryable'') (\<lambda>b.
     Inr \<lparr>te_code = c, te_message = m, te_retryable = b\<rparr>)))"

text \<open>\<open>get<std::vector<TranscriptionSegment>>\<close>.\<close>

definition segments_from_json :: "'j json_api \<Rightarrow> 'j \<Rightarrow> exn + transcription_segment list" where
  "segments_from_json J j = bind_r (j_read J (j_as_arr J) ''arr'' j) (map_r (segment_from_json J))"

definition result_from_json :: "'j json_api \<Rightarrow> 'j \<Rightarrow> exn + transcription_result" where
  "result_from_json J j =
     bind_r (at_get J (j_as_str J) ''str'' j ''schema'') (\<lambda>schema.
     if schema \<noteq> TRANSCRIPTION_SCHEMA then Inl (InvalidArgument ''Unsupported transcription schema'')
     else bind_r (at_get J (j_as_int J) ''int'' j ''version'') (\<lambda>version.
     if version \<noteq> TRANSCRIPTION_VERSION then Inl (InvalidArgument ''Unsupported transcription schema version'')
     else
     bind_r (at_get J (j_as_str J) ''str'' j ''request_id'') (\<lambda>request_id.
     bind_r (bind_r (at_get J (j_as_str J) ''str'' j ''status'') parse_status_from) (\<lambda>status.
     bind_r (at_get J (j_as_str J) ''str'' j ''text'') (\<lambda>txt.
     bind_r (value_or J (j_read J (j_as_str J) ''str'') j ''provider'' ''autowhisper'') (\<lambda>provider.
     bind_r (value_or J (j_read J (j_as_str J) ''str'') j ''language'' []) (\<lambda>language.
     bind_r (value_or J (j_read J (j_as_int64 J) ''int64'') j ''duration_ms'' 0) (\<lambda>duration_ms.
     bind_r (value_or J (j_read J (j_as_int64 J) ''int64'') j ''processing_ms'' 0) (\<lambda>processing_ms.
     bind_r (value_or J (j_read J (j_as_str J) ''str'') j ''model'' []) (\<lambda>model.
     bind_r (value_or J (segments_from_json J) j ''segments'' []) (\<lambda>segments.
     bind_r (value_or J (j_read J (j_as_strings J) ''string_array'') j ''warnings'' []) (\<lambda>warnings.
     bind_r (case j_get J j ''error'' of Some v \<Rightarrow> bind_r (error_from_json J v) (Inr \<circ> Some) | None \<Rightarrow> Inr None) (\<lambda>error.
     Inr \<lparr>tr_request_id = request_id, tr_status = status, tr_text = txt, tr_language = language,
          tr_duration_ms = duration_ms, tr_processing_ms = processing_ms, tr_model = model,
          tr_provider = provider, tr_segments = segments, tr_warnings = warnings, tr_error = error\<rparr>)))))))))))))"

section \<open>Facts\<close>

lemma parse_status_name [simp]: "parse_status_from (transcription_status_name s) = Inr s"
  by (cases s) simp_all

lemma parse_status_Inr: "parse_status_from v = Inr s \<longleftrightarrow> v = transcription_status_name s"
  by (cases s) (auto split: if_splits)

declare parse_status_from.simps [simp del]

lemma failed_transcription_fields [simp]:
  "tr_request_id (failed_transcription i c m b) = i" "tr_status (failed_transcription i c m b) = Failed"
  "tr_text (failed_transcription i c m b) = []" "tr_segments (failed_transcription i c m b) = []"
  "tr_error (failed_transcription i c m b) = Some \<lparr>te_code = c, te_message = m, te_retryable = b\<rparr>"
  by (simp_all add: failed_transcription_def default_result_def)

lemma at_get_Inr: "j_get J j k = Some v \<Longrightarrow> rd v = Some a \<Longrightarrow> at_get J rd ty j k = Inr a"
  by (simp add: at_get_def j_at_def j_read_def)

lemma value_or_there: "j_get J j k = Some v \<Longrightarrow> value_or J rd j k d = rd v"
  by (simp add: value_or_def)

lemma value_or_missing: "j_get J j k = None \<Longrightarrow> value_or J rd j k d = Inr d"
  by (simp add: value_or_def)

lemma json_reads_back:
  assumes "json_ok J"
  shows "j_as_bool J (j_bool J b) = Some b" "in_int i \<Longrightarrow> j_as_int J (j_int J i) = Some i"
    "j_as_int64 J (j_int J i) = Some i" "j_as_str J (j_str J s) = Some s"
    "j_as_arr J (j_arr J vs) = Some vs" "j_as_strings J (j_arr J (map (j_str J) xs)) = Some xs"
proof -
  have "map (j_as_str J \<circ> j_str J) xs = map (\<lambda>x. Some (id x)) xs" using assms by (simp add: json_ok_def)
  then show "j_as_strings J (j_arr J (map (j_str J) xs)) = Some xs"
    using assms all_some_map [of id xs] by (simp add: j_as_strings_def json_ok_def comp_def)
qed (use assms in \<open>auto simp: json_ok_def\<close>)

lemma segment_back:
  assumes ok: "json_ok J"
  shows "segment_from_json J (segment_to_json J s) = Inr s"
proof -
  have g: "j_get J (segment_to_json J s) k = map_of [(''start_ms'', j_int J (sg_start_ms s)),
      (''end_ms'', j_int J (sg_end_ms s)), (''text'', j_str J (sg_text s))] k" for k
    unfolding segment_to_json_def by (rule j_get_obj [OF ok]) simp
  show ?thesis
    by (simp add: segment_from_json_def at_get_def j_at_def j_read_def g json_reads_back [OF ok])
qed

lemma error_back:
  assumes ok: "json_ok J"
  shows "error_from_json J (error_to_json J e) = Inr e"
proof -
  have g: "j_get J (error_to_json J e) k = map_of [(''code'', j_str J (te_code e)),
      (''message'', j_str J (te_message e)), (''retryable'', j_bool J (te_retryable e))] k" for k
    unfolding error_to_json_def by (rule j_get_obj [OF ok]) simp
  show ?thesis
    by (simp add: error_from_json_def at_get_def j_at_def j_read_def g json_reads_back [OF ok])
qed

lemma segments_back: "json_ok J \<Longrightarrow> segments_from_json J (j_arr J (map (segment_to_json J) ss)) = Inr ss"
  by (simp add: segments_from_json_def j_read_def json_reads_back map_r_inverse segment_back)

lemma entry_if_simps [simp]:
  "map_of (entry_if b k v) k' = (if b \<and> k' = k then Some v else None)"
  "x \<in> fst ` set (entry_if b k v) \<longleftrightarrow> b \<and> x = k"
  "distinct (map fst (entry_if b k v))"
  by (auto simp: entry_if_def)

lemma map_of_append_if:
  "map_of (xs @ ys) k = (case map_of xs k of None \<Rightarrow> map_of ys k | Some v \<Rightarrow> Some v)"
  by (simp add: map_add_def)

lemma result_entries_distinct: "distinct (map fst (result_entries J r))"
  unfolding result_entries_def by (cases "tr_error r") (simp_all add: disjoint_iff)

lemma result_entries_lookup:
  "map_of (result_entries J r) ''schema'' = Some (j_str J TRANSCRIPTION_SCHEMA)"
  "map_of (result_entries J r) ''version'' = Some (j_int J TRANSCRIPTION_VERSION)"
  "map_of (result_entries J r) ''request_id'' = Some (j_str J (tr_request_id r))"
  "map_of (result_entries J r) ''status'' = Some (j_str J (transcription_status_name (tr_status r)))"
  "map_of (result_entries J r) ''text'' = Some (j_str J (tr_text r))"
  "map_of (result_entries J r) ''provider'' = Some (j_str J (tr_provider r))"
  "map_of (result_entries J r) ''segments'' = Some (j_arr J (map (segment_to_json J) (tr_segments r)))"
  "map_of (result_entries J r) ''warnings'' = Some (j_arr J (map (j_str J) (tr_warnings r)))"
  "map_of (result_entries J r) ''language'' = (if tr_language r \<noteq> [] then Some (j_str J (tr_language r)) else None)"
  "map_of (result_entries J r) ''duration_ms'' = (if 0 < tr_duration_ms r then Some (j_int J (tr_duration_ms r)) else None)"
  "map_of (result_entries J r) ''processing_ms'' = (if 0 < tr_processing_ms r then Some (j_int J (tr_processing_ms r)) else None)"
  "map_of (result_entries J r) ''model'' = (if tr_model r \<noteq> [] then Some (j_str J (tr_model r)) else None)"
  "map_of (result_entries J r) ''error'' = map_option (error_to_json J) (tr_error r)"
  unfolding result_entries_def map_of_append_if entry_if_simps map_of_Cons_code
  by (cases "tr_error r"; simp add: map_of_Cons_code del: map_of_append map_of.simps(2))+

lemma result_get:
  assumes "json_ok J"
  shows "j_get J (result_to_json J r) k = map_of (result_entries J r) k"
  unfolding result_to_json_def by (rule j_get_obj [OF assms result_entries_distinct])

lemma result_back:
  assumes ok: "json_ok J" and "0 \<le> tr_duration_ms r" "0 \<le> tr_processing_ms r"
  shows "result_from_json J (result_to_json J r) = Inr r"
proof -
  have v: "in_int TRANSCRIPTION_VERSION" by (simp add: in_int_def TRANSCRIPTION_VERSION_def)
  note there = result_get [OF ok] result_entries_lookup json_reads_back [OF ok]
  let ?j = "result_to_json J r"
  have f: "value_or J (j_read J (j_as_str J) ''str'') ?j ''language'' [] = Inr (tr_language r)"
    "value_or J (j_read J (j_as_str J) ''str'') ?j ''model'' [] = Inr (tr_model r)"
    "value_or J (j_read J (j_as_str J) ''str'') ?j ''provider'' d = Inr (tr_provider r)"
    "value_or J (j_read J (j_as_int64 J) ''int64'') ?j ''duration_ms'' 0 = Inr (tr_duration_ms r)"
    "value_or J (j_read J (j_as_int64 J) ''int64'') ?j ''processing_ms'' 0 = Inr (tr_processing_ms r)"
    "value_or J (segments_from_json J) ?j ''segments'' [] = Inr (tr_segments r)"
    "value_or J (j_read J (j_as_strings J) ''string_array'') ?j ''warnings'' [] = Inr (tr_warnings r)"
    for d using assms by (simp_all add: value_or_def j_read_def there segments_back [OF ok])
  have g: "at_get J (j_as_str J) ''str'' ?j ''schema'' = Inr TRANSCRIPTION_SCHEMA"
    "at_get J (j_as_int J) ''int'' ?j ''version'' = Inr TRANSCRIPTION_VERSION"
    "at_get J (j_as_str J) ''str'' ?j ''request_id'' = Inr (tr_request_id r)"
    "bind_r (at_get J (j_as_str J) ''str'' ?j ''status'') parse_status_from = Inr (tr_status r)"
    "at_get J (j_as_str J) ''str'' ?j ''text'' = Inr (tr_text r)"
    using v by (simp_all add: at_get_def j_at_def j_read_def there)
  have e: "(case j_get J ?j ''error'' of
      Some v \<Rightarrow> bind_r (error_from_json J v) (Inr \<circ> Some) | None \<Rightarrow> Inr None) = Inr (tr_error r)"
    by (cases "tr_error r") (simp_all add: there error_back [OF ok])
  show ?thesis by (simp add: result_from_json_def f g e)
qed

section \<open>The interface\<close>

text \<open>
  What a client of a \<open>Transcriber\<close> relies on: the result names the request, is consistent (it is
  failed exactly when it carries an error, and then has no text; it is completed exactly when it has
  text; its durations are not negative) and the object stays usable. \<open>ready\<close> is the provider's
  invariant. A \<open>total_transcriber\<close> reports every failure in its result and never throws.
\<close>

definition proper_result :: "transcription_result \<Rightarrow> bool" where
  "proper_result r \<longleftrightarrow>
     (tr_status r = Failed \<longleftrightarrow> tr_error r \<noteq> None) \<and>
     (tr_text r = [] \<longleftrightarrow> tr_status r \<noteq> Completed) \<and>
     0 \<le> tr_duration_ms r \<and> 0 \<le> tr_processing_ms r"

lemma failed_proper [simp]: "proper_result (failed_transcription i c m b)"
  by (simp add: proper_result_def) (simp add: failed_transcription_def default_result_def)

lemma proper_back: "json_ok J \<Longrightarrow> proper_result r \<Longrightarrow> result_from_json J (result_to_json J r) = Inr r"
  by (rule result_back) (simp_all add: proper_result_def)

locale transcriber =
  fixes transcribe :: "'t transcribe_op" and ready :: "'t \<Rightarrow> bool"
  assumes echoes: "ready t \<Longrightarrow> transcribe t p opts = (Inr r, t') \<Longrightarrow> tr_request_id r = to_request_id opts"
    and proper: "ready t \<Longrightarrow> transcribe t p opts = (Inr r, t') \<Longrightarrow> proper_result r"
    and stays_ready: "ready t \<Longrightarrow> transcribe t p opts = (x, t') \<Longrightarrow> ready t'"

locale total_transcriber = transcriber +
  assumes no_throw: "ready t \<Longrightarrow> \<exists>r t'. transcribe t p opts = (Inr r, t')"

section \<open>Property\<close>

text \<open>The wire format of a transcription result loses nothing: reading back the JSON of a result
  gives that result, provided its durations are not negative (they are omitted from the document
  when they are not positive, as the language and the model are when empty, and the reader's
  defaults are exactly what was left out).\<close>

theorem result_round_trip:
  assumes "json_ok J" and "0 \<le> tr_duration_ms r" "0 \<le> tr_processing_ms r"
  shows "result_from_json J (result_to_json J r) = Inr r"
  using assms by (rule result_back)

definition sample_result :: transcription_result where
  "sample_result = default_result\<lparr>tr_request_id := ''req-2'', tr_status := Completed, tr_text := ''Ship it.'',
     tr_language := ''en'', tr_duration_ms := 1840,
     tr_segments := [\<lparr>sg_start_ms = 0, sg_end_ms = 1840, sg_text = ''Ship it.''\<rparr>], tr_warnings := [''w'']\<rparr>"

theorem result_round_trip_witness:
  "result_from_json mini_json (result_to_json mini_json sample_result) = Inr sample_result"
  by (rule result_round_trip [OF mini_json_ok]) (simp_all add: sample_result_def default_result_def)

end
