(* ===== verification/Audio_File.thy ===== *)
theory Audio_File
  imports Transcription File_System Cfloat
begin

text \<open>
  Decoding an audio file (src/src/runtime/audio_file.h, audio_file.cpp). The decoder of the
  miniaudio library is a parameter: opening a file gives the sequence of what its successive read
  calls return, a result code and the frames delivered. The array the frames are read into holds
  \<open>CHUNK_FRAMES\<close> samples, so of an answer of the parameter at most that many are taken.
\<close>

definition RUNTIME_SAMPLE_RATE :: nat where
  "RUNTIME_SAMPLE_RATE = 16000"

definition MAX_TRANSCRIPTION_AUDIO_SECONDS :: nat where
  "MAX_TRANSCRIPTION_AUDIO_SECONDS = 3600"

definition MAX_TRANSCRIPTION_FILE_BYTES :: nat where
  "MAX_TRANSCRIPTION_FILE_BYTES = 512 * 1024 * 1024"

definition CHUNK_FRAMES :: nat where
  "CHUNK_FRAMES = 4096"

definition MAX_SAMPLES :: nat where
  "MAX_SAMPLES = MAX_TRANSCRIPTION_AUDIO_SECONDS * RUNTIME_SAMPLE_RATE"

record decoded_audio =
  da_samples :: "fl list"
  da_sample_rate :: nat

definition duration_ms :: "decoded_audio \<Rightarrow> int" where
  "duration_ms a =
     (if da_sample_rate a = 0 then 0
      else (int (length (da_samples a)) * 1000) div int (da_sample_rate a))"

datatype ma_result = MA_SUCCESS | MA_AT_END | MA_ERROR

type_synonym decoder = "nat \<Rightarrow> ma_result \<times> fl list"

record ma_api =
  ma_open :: "fsys \<Rightarrow> string \<Rightarrow> decoder option"

definition read_frames :: "decoder \<Rightarrow> nat \<Rightarrow> fl list" where
  "read_frames dec i = take CHUNK_FRAMES (snd (dec i))"

lemma read_frames_bound: "length (read_frames dec i) \<le> CHUNK_FRAMES"
  by (simp add: read_frames_def)

lemma CHUNK_le_MAX: "CHUNK_FRAMES \<le> MAX_SAMPLES"
  by (simp add: CHUNK_FRAMES_def MAX_SAMPLES_def MAX_TRANSCRIPTION_AUDIO_SECONDS_def RUNTIME_SAMPLE_RATE_def)

text \<open>The loop, at its \<open>i\<close>-th read with the samples so far.\<close>

function decode_loop :: "string \<Rightarrow> decoder \<Rightarrow> nat \<Rightarrow> fl list \<Rightarrow> exn + fl list" where
  "decode_loop path dec i samples =
     (let frames = read_frames dec i; n = length frames
      in if 0 < n \<and> MAX_SAMPLES - n < length samples then
           Inl (OtherException ''Decoded audio exceeds the 60 minute limit'')
         else if fst (dec i) = MA_AT_END then Inr (samples @ frames)
         else if fst (dec i) \<noteq> MA_SUCCESS then
           Inl (OtherException (''Audio decoder failed while reading: '' @ path))
         else if n = 0 then Inr (samples @ frames)
         else decode_loop path dec (Suc i) (samples @ frames))"
  by pat_completeness auto
termination
proof (relation "measure (\<lambda>(path, dec, i, samples). MAX_SAMPLES - length samples)", goal_cases)
  case 1
  show ?case by simp
next
  case (2 path dec i samples frames n)
  have "n \<le> MAX_SAMPLES" using 2 read_frames_bound [of dec i] CHUNK_le_MAX by simp
  with 2 show ?case by (auto simp flip: length_greater_0_conv)
qed

declare decode_loop.simps [simp del]

definition decode_audio_file :: "ma_api \<Rightarrow> fsys \<Rightarrow> string \<Rightarrow> exn + decoded_audio" where
  "decode_audio_file ma fs path =
     (if path = [] then Inl (InvalidArgument ''Audio path is empty'')
      else if \<not> fs_regular fs path then
        Inl (OtherException (''Audio file does not exist or is not a regular file: '' @ path))
      else if fs_size fs path = 0 then Inl (OtherException (''Audio file is empty: '' @ path))
      else if MAX_TRANSCRIPTION_FILE_BYTES < fs_size fs path then
        Inl (OtherException ''Audio file exceeds the 512 MiB limit'')
      else
        case ma_open ma fs path of
          None \<Rightarrow> Inl (OtherException (''Cannot decode audio file: '' @ path))
        | Some dec \<Rightarrow>
            bind_r (decode_loop path dec 0 []) (\<lambda>samples.
              if samples = [] then Inl (OtherException (''Decoded zero audio samples from: '' @ path))
              else Inr \<lparr>da_samples = samples, da_sample_rate = RUNTIME_SAMPLE_RATE\<rparr>))"

section \<open>Facts\<close>

text \<open>What the first \<open>n\<close> reads deliver.\<close>

definition delivered :: "decoder \<Rightarrow> nat \<Rightarrow> fl list" where
  "delivered dec n = concat (map (read_frames dec) [0..<n])"

lemma delivered_simps: "delivered dec 0 = []" "delivered dec (Suc n) = delivered dec n @ read_frames dec n"
  by (simp_all add: delivered_def)

text \<open>The read after which the decoder reports its end or delivers nothing.\<close>

definition stream_ends :: "decoder \<Rightarrow> nat \<Rightarrow> bool" where
  "stream_ends dec i \<longleftrightarrow> fst (dec i) = MA_AT_END \<or> fst (dec i) = MA_SUCCESS \<and> read_frames dec i = []"

text \<open>The reads before the \<open>n\<close>-th all succeeded with frames.\<close>

definition streaming :: "decoder \<Rightarrow> nat \<Rightarrow> bool" where
  "streaming dec n \<longleftrightarrow> (\<forall>j < n. fst (dec j) = MA_SUCCESS \<and> read_frames dec j \<noteq> [])"

lemma streaming_simps: "streaming dec 0" "streaming dec (Suc n) \<longleftrightarrow>
    streaming dec n \<and> fst (dec n) = MA_SUCCESS \<and> read_frames dec n \<noteq> []"
  by (auto simp: streaming_def less_Suc_eq)

lemma decode_loop_outcome:
  assumes "streaming dec i" "length (delivered dec i) \<le> MAX_SAMPLES"
  shows "\<exists>n \<ge> i. streaming dec n \<and> length (delivered dec n) \<le> MAX_SAMPLES \<and>
    decode_loop path dec i (delivered dec i) =
      (if MAX_SAMPLES < length (delivered dec (Suc n)) then
         Inl (OtherException ''Decoded audio exceeds the 60 minute limit'')
       else if stream_ends dec n then Inr (delivered dec (Suc n))
       else Inl (OtherException (''Audio decoder failed while reading: '' @ path)))"
  using assms
proof (induction "MAX_SAMPLES - length (delivered dec i)" arbitrary: i rule: less_induct)
  case less
  let ?f = "read_frames dec i"
  have f: "length ?f \<le> MAX_SAMPLES" using read_frames_bound [of dec i] CHUNK_le_MAX by simp
  have over: "0 < length ?f \<and> MAX_SAMPLES - length ?f < length (delivered dec i) \<longleftrightarrow>
      MAX_SAMPLES < length (delivered dec (Suc i))"
    using f less.prems by (auto simp: delivered_simps)
  show ?case
  proof (cases "MAX_SAMPLES < length (delivered dec (Suc i)) \<or> fst (dec i) \<noteq> MA_SUCCESS \<or> ?f = []")
    case True
    have "decode_loop path dec i (delivered dec i) =
      (if MAX_SAMPLES < length (delivered dec (Suc i)) then
         Inl (OtherException ''Decoded audio exceeds the 60 minute limit'')
       else if stream_ends dec i then Inr (delivered dec (Suc i))
       else Inl (OtherException (''Audio decoder failed while reading: '' @ path)))"
      using True over by (subst decode_loop.simps) (auto simp: Let_def stream_ends_def delivered_simps)
    with less.prems show ?thesis by blast
  next
    case False
    then have step: "decode_loop path dec i (delivered dec i) = decode_loop path dec (Suc i) (delivered dec (Suc i))"
      using over by (subst decode_loop.simps) (auto simp: Let_def delivered_simps)
    have "MAX_SAMPLES - length (delivered dec (Suc i)) < MAX_SAMPLES - length (delivered dec i)"
      using False by (auto simp: delivered_simps simp flip: length_greater_0_conv)
    moreover have "streaming dec (Suc i)" "length (delivered dec (Suc i)) \<le> MAX_SAMPLES"
      using False less.prems by (auto simp: streaming_simps)
    ultimately obtain n where "Suc i \<le> n" "streaming dec n" "length (delivered dec n) \<le> MAX_SAMPLES"
      "decode_loop path dec (Suc i) (delivered dec (Suc i)) =
        (if MAX_SAMPLES < length (delivered dec (Suc n)) then
           Inl (OtherException ''Decoded audio exceeds the 60 minute limit'')
         else if stream_ends dec n then Inr (delivered dec (Suc n))
         else Inl (OtherException (''Audio decoder failed while reading: '' @ path)))"
      using less.hyps [of "Suc i"] by blast
    with step show ?thesis by (metis Suc_leD)
  qed
qed

lemma decode_file_Inr:
  assumes "decode_audio_file ma fs path = Inr a"
  shows "\<exists>dec n. ma_open ma fs path = Some dec \<and> streaming dec n \<and> stream_ends dec n \<and>
    da_samples a = delivered dec (Suc n) \<and> da_samples a \<noteq> [] \<and> length (da_samples a) \<le> MAX_SAMPLES \<and>
    da_sample_rate a = RUNTIME_SAMPLE_RATE \<and> path \<noteq> []"
proof -
  from assms obtain dec where o: "ma_open ma fs path = Some dec" and p: "path \<noteq> []"
    and b: "bind_r (decode_loop path dec 0 (delivered dec 0)) (\<lambda>samples.
      if samples = [] then Inl (OtherException (''Decoded zero audio samples from: '' @ path))
      else Inr \<lparr>da_samples = samples, da_sample_rate = RUNTIME_SAMPLE_RATE\<rparr>) = Inr a"
    by (auto simp: decode_audio_file_def delivered_simps split: if_splits option.splits)
  obtain n where n: "streaming dec n"
    "decode_loop path dec 0 (delivered dec 0) =
      (if MAX_SAMPLES < length (delivered dec (Suc n)) then
         Inl (OtherException ''Decoded audio exceeds the 60 minute limit'')
       else if stream_ends dec n then Inr (delivered dec (Suc n))
       else Inl (OtherException (''Audio decoder failed while reading: '' @ path)))"
    using decode_loop_outcome [of dec 0 path] by (auto simp: streaming_simps delivered_simps)
  with b have "a = \<lparr>da_samples = delivered dec (Suc n), da_sample_rate = RUNTIME_SAMPLE_RATE\<rparr>"
    "stream_ends dec n" "delivered dec (Suc n) \<noteq> []" "\<not> MAX_SAMPLES < length (delivered dec (Suc n))"
    by (auto split: if_splits)
  with o p n show ?thesis by (intro exI [of _ dec] exI [of _ n]) simp
qed

lemma decode_file_invalid_argument:
  "decode_audio_file ma fs path = Inl (InvalidArgument m) \<longleftrightarrow> path = [] \<and> m = ''Audio path is empty''"
proof -
  have "decode_loop path dec 0 [] \<noteq> Inl (InvalidArgument m)" for dec
    using decode_loop_outcome [of dec 0 path] by (auto simp: streaming_simps delivered_simps split: if_splits)
  then show ?thesis
    by (auto simp: decode_audio_file_def bind_r_def split: option.splits sum.splits)
qed

section \<open>Properties\<close>

text \<open>The decode loop always ends, whatever the decoder does, and its outcome is the intended one.
  There is a first read \<open>n\<close> before which all reads succeeded with frames and the audio was within the
  limit; the loop returns an error when the frames up to and including that read exceed one hour of
  audio, else exactly those frames when the stream ended there, else the decoder's failure.\<close>

theorem decode_loop_total:
  "\<exists>n. streaming dec n \<and> length (delivered dec n) \<le> MAX_SAMPLES \<and>
    decode_loop path dec 0 [] =
      (if MAX_SAMPLES < length (delivered dec (Suc n)) then
         Inl (OtherException ''Decoded audio exceeds the 60 minute limit'')
       else if stream_ends dec n then Inr (delivered dec (Suc n))
       else Inl (OtherException (''Audio decoder failed while reading: '' @ path)))"
  using decode_loop_outcome [of dec 0 path] by (auto simp: streaming_simps delivered_simps)

text \<open>A decoded file is within the bounds the service advertises: at least one sample, at most
  one hour of 16 kHz audio, so the duration it reports is between 0 and 3600000 milliseconds and
  is the number of samples at 16 samples a millisecond, rounded down.\<close>

theorem decoded_bounds:
  assumes "decode_audio_file ma fs path = Inr a"
  shows "0 < length (da_samples a) \<and> length (da_samples a) \<le> 57600000 \<and>
    duration_ms a = int (length (da_samples a)) div 16 \<and> 0 \<le> duration_ms a \<and> duration_ms a \<le> 3600000"
proof -
  have l: "da_samples a \<noteq> []" "length (da_samples a) \<le> 57600000" "da_sample_rate a = 16000"
    using decode_file_Inr [OF assms]
    by (auto simp: MAX_SAMPLES_def MAX_TRANSCRIPTION_AUDIO_SECONDS_def RUNTIME_SAMPLE_RATE_def)
  then have "duration_ms a = int (length (da_samples a)) div 16" by (simp add: duration_ms_def)
  with l show ?thesis by auto
qed

definition two_reads :: decoder where
  "two_reads i = (if i = 0 then (MA_SUCCESS, replicate 40 (Fin 0)) else (MA_AT_END, [Fin 1]))"

definition sample_ma :: ma_api where
  "sample_ma = \<lparr>ma_open = (\<lambda>fs p. Some two_reads)\<rparr>"

definition sample_fs :: fsys where
  "sample_fs = (\<lambda>_. None)(''/a.wav'' := Some (File ''RIFF''))"

lemma sample_decodes:
  "decode_audio_file sample_ma sample_fs ''/a.wav'' =
     Inr \<lparr>da_samples = replicate 40 (Fin 0) @ [Fin 1], da_sample_rate = 16000\<rparr>"
proof -
  have "decode_loop p two_reads 0 [] = Inr (replicate 40 (Fin 0) @ [Fin 1])" for p
    by (subst decode_loop.simps, simp add: Let_def two_reads_def read_frames_def CHUNK_FRAMES_def MAX_SAMPLES_def
        MAX_TRANSCRIPTION_AUDIO_SECONDS_def RUNTIME_SAMPLE_RATE_def)
       (subst decode_loop.simps, simp add: Let_def two_reads_def read_frames_def CHUNK_FRAMES_def MAX_SAMPLES_def
        MAX_TRANSCRIPTION_AUDIO_SECONDS_def RUNTIME_SAMPLE_RATE_def)
  then show ?thesis
    by (simp add: decode_audio_file_def sample_ma_def sample_fs_def fs_regular_def fs_size_def
        MAX_TRANSCRIPTION_FILE_BYTES_def RUNTIME_SAMPLE_RATE_def)
qed

theorem decoded_bounds_witness:
  "0 < length (replicate 40 (Fin 0) @ [Fin 1]) \<and> length (replicate 40 (Fin 0) @ [Fin 1]) \<le> 57600000 \<and>
   duration_ms \<lparr>da_samples = replicate 40 (Fin 0) @ [Fin 1], da_sample_rate = 16000\<rparr> = 2"
  using decoded_bounds [OF sample_decodes] by simp

end
