(* ===== verification/Inference.thy ===== *)
theory Inference
  imports Models_Catalog Config_Records Transcription
begin

text \<open>
  The whisper inference wrapper (src/src/inference/inference.h, inference.cpp): where a model file
  is looked for, how the context is created, how a buffer is normalised and which parameters the
  engine runs with. The whisper library is a parameter: a record of the functions the wrapper
  calls, over a context type \<open>'c\<close>. Timing and log messages are left out.
\<close>

section \<open>The whisper library as a parameter\<close>

record whisper_context_params =
  cp_use_gpu :: bool
  cp_flash_attn :: bool

datatype sampling_strategy = WHISPER_SAMPLING_GREEDY | WHISPER_SAMPLING_BEAM_SEARCH

record whisper_full_params =
  wp_strategy :: sampling_strategy
  wp_n_threads :: int
  wp_no_context :: bool
  wp_no_timestamps :: bool
  wp_single_segment :: bool
  wp_print_special :: bool
  wp_print_progress :: bool
  wp_print_realtime :: bool
  wp_print_timestamps :: bool
  wp_language :: "string option"
  wp_temperature :: fl
  wp_temperature_inc :: fl
  wp_entropy_thold :: fl
  wp_logprob_thold :: fl
  wp_no_speech_thold :: fl
  wp_best_of :: int
  wp_beam_size :: int

text \<open>
  \<open>wh_init\<close> is \<open>whisper_init_from_file_with_params\<close> (\<open>None\<close> for the null pointer), \<open>wh_full\<close> is
  \<open>whisper_full\<close>, with the context it leaves, and \<open>wh_segments\<close> the texts of the segments of a
  context, a null text being \<open>None\<close>.
\<close>

record 'c whisper_api =
  wh_context_default :: whisper_context_params
  wh_full_default :: "sampling_strategy \<Rightarrow> whisper_full_params"
  wh_init :: "fsys \<Rightarrow> string \<Rightarrow> whisper_context_params \<Rightarrow> 'c option"
  wh_full :: "'c \<Rightarrow> whisper_full_params \<Rightarrow> fl list \<Rightarrow> int \<times> 'c"
  wh_segments :: "'c \<Rightarrow> string option list"

record 'c whisper_inference =
  wi_config :: model_config
  wi_ctx :: "'c option"

definition inference_new :: "model_config \<Rightarrow> 'c whisper_inference" where
  "inference_new c = \<lparr>wi_config = c, wi_ctx = None\<rparr>"

definition inference_is_loaded :: "'c whisper_inference \<Rightarrow> bool" where
  "inference_is_loaded i \<longleftrightarrow> wi_ctx i \<noteq> None"

section \<open>Finding the model file\<close>

definition quant_suffix :: "string \<Rightarrow> string" where
  "quant_suffix compute =
     (if compute = ''int8'' \<or> compute = ''int8_float16'' then ''-q8_0''
      else if compute = ''float16'' \<or> compute = ''bfloat16'' then ''-f16''
      else [])"

definition search_paths :: "string option \<Rightarrow> model_config \<Rightarrow> string list" where
  "search_paths home cfg =
     (let model_name = md_size cfg;
          home_dir = (case home of Some h \<Rightarrow> h | None \<Rightarrow> ''/tmp'');
          catalogued = (case find_model model_name of
             Some info \<Rightarrow> [home_dir @ ''/.cache/whisper/'' @ mi_ggml_file info] | None \<Rightarrow> []);
          ggml_name = ''ggml-'' @ model_name @ ''.bin'';
          paths = catalogued @
            [home_dir @ ''/.cache/whisper/'' @ ggml_name,
             home_dir @ ''/.cache/whisper.cpp/'' @ ggml_name,
             ''/usr/share/whisper/models/'' @ ggml_name,
             ''/usr/local/share/whisper/models/'' @ ggml_name];
          suffix = quant_suffix (md_compute_type cfg);
          quant_name = ''ggml-'' @ model_name @ suffix @ ''.bin''
      in if suffix \<noteq> [] then
           take 1 paths @ [home_dir @ ''/.cache/whisper/'' @ quant_name] @ drop 1 paths
         else paths)"

definition resolve_model_path :: "string option \<Rightarrow> fsys \<Rightarrow> model_config \<Rightarrow> exn + string" where
  "resolve_model_path home fs cfg =
     (case find (fs_exists fs) (search_paths home cfg) of
        Some path \<Rightarrow> Inr path
      | None \<Rightarrow> Inl (OtherException (''Model '' @ [CHR 0x27] @ md_size cfg @ [CHR 0x27] @
          '' not found. Download with: autowhisper model download '' @ md_size cfg)))"

definition context_params :: "'c whisper_api \<Rightarrow> model_config \<Rightarrow> whisper_context_params" where
  "context_params wh cfg =
     (if md_device cfg = ''cuda'' \<or> md_device cfg = ''auto'' then
        (wh_context_default wh)\<lparr>cp_use_gpu := True, cp_flash_attn := True\<rparr>
      else (wh_context_default wh)\<lparr>cp_use_gpu := False\<rparr>)"

definition inference_load ::
  "'c whisper_api \<Rightarrow> string option \<Rightarrow> fsys \<Rightarrow> 'c whisper_inference \<Rightarrow> exn + 'c whisper_inference" where
  "inference_load wh home fs i =
     bind_r (resolve_model_path home fs (wi_config i)) (\<lambda>model_path.
       case wh_init wh fs model_path (context_params wh (wi_config i)) of
         None \<Rightarrow> Inl (OtherException (''Failed to load whisper model from: '' @ model_path))
       | Some ctx \<Rightarrow> Inr (i\<lparr>wi_ctx := Some ctx\<rparr>))"

section \<open>Transcribing a buffer\<close>

definition max_abs :: "fl list \<Rightarrow> fl" where
  "max_abs audio = foldl (\<lambda>max_val s. fl_max max_val (fl_abs s)) (Fin 0) audio"

definition normalize_audio :: "fl list \<Rightarrow> fl list" where
  "normalize_audio audio =
     (let max_val = max_abs audio
      in if fl_lt (Fin 1) max_val then map (\<lambda>s. fl_div f32 s max_val) audio else audio)"

definition full_params :: "'c whisper_api \<Rightarrow> model_config \<Rightarrow> string \<Rightarrow> whisper_full_params" where
  "full_params wh cfg language =
     (let wparams = (wh_full_default wh WHISPER_SAMPLING_GREEDY)
            \<lparr>wp_n_threads := md_num_threads cfg, wp_print_progress := False, wp_print_special := False,
             wp_print_realtime := False, wp_print_timestamps := False, wp_no_timestamps := True,
             wp_single_segment := True, wp_no_context := True\<rparr>;
          lang = (if language = [] then md_language cfg else language);
          wparams = wparams\<lparr>wp_language := (if lang = ''auto'' then None else Some lang)\<rparr>;
          wparams = (if 1 < md_beam_size cfg then
              wparams\<lparr>wp_strategy := WHISPER_SAMPLING_BEAM_SEARCH, wp_beam_size := md_beam_size cfg\<rparr>
            else wparams\<lparr>wp_strategy := WHISPER_SAMPLING_GREEDY, wp_best_of := 1\<rparr>)
      in wparams\<lparr>wp_temperature := Fin 0, wp_temperature_inc := Fin 0, wp_entropy_thold := Fin (- 1),
           wp_logprob_thold := Fin (- 1), wp_no_speech_thold := f32 (6 / 10)\<rparr>)"

definition collect_segments :: "string option list \<Rightarrow> string" where
  "collect_segments segs = concat (map (\<lambda>s. case s of Some t \<Rightarrow> t | None \<Rightarrow> []) segs)"

definition inference_transcribe ::
  "'c whisper_api \<Rightarrow> 'c whisper_inference \<Rightarrow> fl list \<Rightarrow> string \<Rightarrow> (exn + string) \<times> 'c whisper_inference" where
  "inference_transcribe wh i audio language =
     (case wi_ctx i of
        None \<Rightarrow> (Inl (OtherException ''Model not loaded. Call load() first.''), i)
      | Some ctx \<Rightarrow>
          if audio = [] then (Inr [], i)
          else
            let (rc, ctx') = wh_full wh ctx (full_params wh (wi_config i) language) (normalize_audio audio);
                i' = i\<lparr>wi_ctx := Some ctx'\<rparr>
            in if rc \<noteq> 0 then (Inr [], i')
               else (Inr (trim_by is_space (collect_segments (wh_segments wh ctx'))), i'))"

section \<open>Facts\<close>

lemma search_paths_head:
  "find_model (md_size cfg) = Some info \<Longrightarrow>
     \<exists>rest. search_paths home cfg = get_model_path home (md_size cfg) # rest"
  by (auto simp: search_paths_def get_model_path_def get_cache_dir_def Let_def split: option.split)

lemma transcribe_keeps_loaded:
  "inference_is_loaded (snd (inference_transcribe wh i audio l)) = inference_is_loaded i"
  by (auto simp: inference_transcribe_def inference_is_loaded_def Let_def split: option.splits prod.splits)

lemma transcribe_never_throws:
  "inference_is_loaded i \<Longrightarrow> \<exists>t. fst (inference_transcribe wh i audio l) = Inr t"
  by (auto simp: inference_transcribe_def inference_is_loaded_def Let_def split: option.splits prod.splits)

lemma round_even_le: "\<bar>q\<bar> \<le> of_int n \<Longrightarrow> \<bar>round_even q\<bar> \<le> n"
proof -
  assume "\<bar>q\<bar> \<le> of_int n"
  then have "\<bar>of_int (round_even q)\<bar> \<le> of_int n + (1 / 2 :: rat)"
    using round_even_error [of q] by linarith
  then show ?thesis by linarith
qed

lemma f32_le_1:
  assumes "\<bar>q\<bar> \<le> 1"
  shows "\<exists>r. f32 q = Fin r \<and> \<bar>r\<bar> \<le> 1"
proof (cases "q = 0")
  case True
  then show ?thesis by (simp add: f32_def)
next
  case False
  define e where "e = max (ilog2 \<bar>q\<bar>) (- 126)"
  define u where "u = two_pow (e - 23)"
  define r where "r = of_int (round_even (q / u)) * u"
  have "two_pow (ilog2 \<bar>q\<bar>) \<le> \<bar>q\<bar>" using False ilog2_bounds [of "\<bar>q\<bar>"] by simp
  with assms have "two_pow (ilog2 \<bar>q\<bar>) \<le> two_pow 0" by (simp add: two_pow_def)
  then have "e \<le> 0" unfolding e_def using two_pow_less_iff [of 0 "ilog2 \<bar>q\<bar>"] by linarith
  then have iu: "1 / u = of_int (2 ^ nat (23 - e))"
    by (simp add: u_def two_pow_def)
  have u: "0 < u" by (simp add: u_def)
  have "\<bar>q / u\<bar> \<le> of_int (2 ^ nat (23 - e))"
    unfolding iu [symmetric] using assms u by (simp add: abs_div field_simps)
  then have "\<bar>round_even (q / u)\<bar> \<le> 2 ^ nat (23 - e)" by (rule round_even_le)
  then have "\<bar>of_int (round_even (q / u)) :: rat\<bar> \<le> 1 / u" unfolding iu by linarith
  then have r1: "\<bar>r\<bar> \<le> 1" using u by (simp add: r_def abs_mult field_simps)
  moreover have "f32 q = Fin r"
    using False r1 by (simp add: f32_def fround_def e_def u_def r_def Let_def two_pow_def)
  ultimately show ?thesis by blast
qed

text \<open>The largest magnitude of a finite buffer.\<close>

lemma max_abs_le_1:
  assumes "list_all (\<lambda>s. \<exists>x. s = Fin x \<and> \<bar>x\<bar> \<le> 1) audio" "m \<le> 1"
  shows "\<exists>v. foldl (\<lambda>max_val s. fl_max max_val (fl_abs s)) (Fin m) audio = Fin v \<and> v \<le> 1"
  using assms by (induction audio arbitrary: m) (auto simp: fl_max_def)

lemma max_abs_step:
  assumes "list_all is_finite audio" "0 \<le> m"
  shows "\<exists>M. foldl (\<lambda>max_val s. fl_max max_val (fl_abs s)) (Fin m) audio = Fin M \<and> m \<le> M \<and>
    (\<forall>s \<in> set audio. \<exists>x. s = Fin x \<and> \<bar>x\<bar> \<le> M)"
  using assms
proof (induction audio arbitrary: m)
  case (Cons a audio)
  then obtain x where x: "a = Fin x" by (cases a) auto
  have "0 \<le> max m \<bar>x\<bar>" using Cons.prems by simp
  moreover have "list_all is_finite audio" using Cons.prems by simp
  ultimately obtain M where "foldl (\<lambda>max_val s. fl_max max_val (fl_abs s)) (Fin (max m \<bar>x\<bar>)) audio = Fin M"
    "max m \<bar>x\<bar> \<le> M" "\<forall>s \<in> set audio. \<exists>x. s = Fin x \<and> \<bar>x\<bar> \<le> M"
    using Cons.IH by blast
  then show ?case using x by (auto simp: fl_max_def max_def)
qed simp

section \<open>Properties\<close>

text \<open>What the engine is given is always a proper signal: normalising a buffer of finite samples
  keeps its length and gives finite samples in [-1, 1]; a buffer already in that range is passed
  on unchanged.\<close>

theorem normalize_audio_bounds:
  assumes "list_all is_finite audio"
  shows "length (normalize_audio audio) = length audio \<and>
    list_all (\<lambda>s. \<exists>x. s = Fin x \<and> \<bar>x\<bar> \<le> 1) (normalize_audio audio) \<and>
    (list_all (\<lambda>s. \<exists>x. s = Fin x \<and> \<bar>x\<bar> \<le> 1) audio \<longrightarrow> normalize_audio audio = audio)"
proof -
  obtain M where M: "max_abs audio = Fin M" "0 \<le> M" "\<forall>s \<in> set audio. \<exists>x. s = Fin x \<and> \<bar>x\<bar> \<le> M"
    using max_abs_step [OF assms, of 0] by (auto simp: max_abs_def)
  have div: "\<exists>y. fl_div f32 s (Fin M) = Fin y \<and> \<bar>y\<bar> \<le> 1" if "1 < M" "s \<in> set audio" for s
  proof -
    from that M obtain x where "s = Fin x" "\<bar>x\<bar> \<le> M" by blast
    with that show ?thesis using f32_le_1 [of "x / M"] by (auto simp: abs_div)
  qed
  show ?thesis
  proof (cases "1 < M")
    case True
    then have "normalize_audio audio = map (\<lambda>s. fl_div f32 s (Fin M)) audio" "\<not> M \<le> 1"
      using M by (simp_all add: normalize_audio_def)
    with True M max_abs_le_1 [of audio 0] show ?thesis
      by (auto simp: list_all_iff max_abs_def intro: div [OF True])
  next
    case False
    then have "normalize_audio audio = audio" using M by (simp add: normalize_audio_def)
    with False M show ?thesis by (fastforce simp: list_all_iff)
  qed
qed

theorem normalize_audio_bounds_witness:
  "length (normalize_audio [Fin 4, Fin (- 2)]) = 2"
  using normalize_audio_bounds [of "[Fin 4, Fin (- 2)]"] by simp

text \<open>The downloader and the engine agree on where models live. After a successful download of a
  model, a configuration naming it resolves to exactly the downloaded file, no stale or quantised
  file elsewhere on the search path being preferred, and its content has the digest pinned in the
  catalogue; after a failed download of a catalogue model (with the directory made and removals
  working) it never resolves to that path.\<close>

theorem download_then_resolve:
  "case download_model w (md_size cfg) fs of (r, fs') \<Rightarrow>
     if r = 0 then
       \<exists>info c. find_model (md_size cfg) = Some info \<and>
         resolve_model_path (dw_home w) fs' cfg = Inr (get_model_path (dw_home w) (md_size cfg)) \<and>
         fs' (get_model_path (dw_home w) (md_size cfg)) = Some (File c) \<and>
         sha_spec (bytes_of c) = mi_sha256 info
     else \<not> (find_model (md_size cfg) \<noteq> None \<and> dw_mkdir w \<and> dw_remove w \<and>
       resolve_model_path (dw_home w) fs' cfg = Inr (get_model_path (dw_home w) (md_size cfg)))"
proof -
  obtain r fs' where d: "download_model w (md_size cfg) fs = (r, fs')" by fastforce
  let ?p = "get_model_path (dw_home w) (md_size cfg)"
  have some: "\<exists>info. find_model (md_size cfg) = Some info" if "r = 0"
    using d that by (cases "find_model (md_size cfg)") (auto simp: download_model_def)
  have "?p \<noteq> []" if "find_model (md_size cfg) = Some info" for info
    using that by (simp add: get_model_path_def)
  then show ?thesis
    using d some download_outcome [OF d] search_paths_head [of cfg _ "dw_home w"]
    by (fastforce simp: resolve_model_path_def fs_exists_def find_Some_iff split: option.splits)
qed

end
