(* ===== verification/Runtime.thy ===== *)
theory Runtime
  imports Audio_File Inference
begin

text \<open>
  The reusable runtime (src/src/runtime/autowhisper_runtime.h, autowhisper_runtime.cpp), the
  provider of the interface \<open>Transcriber\<close>. Every method holds the object's mutex, so a call is one
  step. What the outside world answers is indexed by the number of calls made so far: \<open>re_fs n\<close> is
  the file system at the \<open>n\<close>-th call of \<open>transcribe_file\<close> and \<open>re_elapsed n\<close> the milliseconds
  the steady clock measures in it.
\<close>

record 'c runtime_env =
  re_ma :: ma_api
  re_wh :: "'c whisper_api"
  re_home :: "string option"
  re_fs :: "nat \<Rightarrow> fsys"
  re_elapsed :: "nat \<Rightarrow> int"

record 'c runtime =
  rt_config :: model_config
  rt_inference :: "'c whisper_inference option"
  rt_calls :: nat

definition runtime_new :: "model_config \<Rightarrow> 'c runtime" where
  "runtime_new c = \<lparr>rt_config = c, rt_inference = None, rt_calls = 0\<rparr>"

definition runtime_is_loaded :: "'c runtime \<Rightarrow> bool" where
  "runtime_is_loaded rt \<longleftrightarrow> (case rt_inference rt of Some i \<Rightarrow> inference_is_loaded i | None \<Rightarrow> False)"

definition runtime_load :: "'c runtime_env \<Rightarrow> fsys \<Rightarrow> 'c runtime \<Rightarrow> exn + 'c runtime" where
  "runtime_load env fs rt =
     (if runtime_is_loaded rt then Inr rt
      else bind_r (inference_load (re_wh env) (re_home env) fs (inference_new (rt_config rt)))
             (\<lambda>inference. Inr (rt\<lparr>rt_inference := Some inference\<rparr>)))"

text \<open>The end of the try block: the result of a transcription that did not throw.\<close>

definition transcription_done ::
  "'c runtime_env \<Rightarrow> 'c runtime \<Rightarrow> transcription_options \<Rightarrow> decoded_audio \<Rightarrow> string \<Rightarrow> string \<Rightarrow> transcription_result" where
  "transcription_done env rt options audio language txt =
     default_result\<lparr>tr_request_id := to_request_id options,
       tr_status := (if txt = [] then No_Speech else Completed),
       tr_text := txt,
       tr_language := (if language = ''auto'' then [] else language),
       tr_duration_ms := duration_ms audio,
       tr_processing_ms := re_elapsed env (rt_calls rt),
       tr_model := md_size (rt_config rt),
       tr_segments := (if txt \<noteq> [] then
           [\<lparr>sg_start_ms = 0, sg_end_ms = duration_ms audio, sg_text = txt\<rparr>] else [])\<rparr>"

text \<open>The two catch clauses.\<close>

definition caught :: "string \<Rightarrow> exn \<Rightarrow> transcription_result" where
  "caught request_id e =
     (case e of
        InvalidArgument m \<Rightarrow> failed_transcription request_id ''invalid_audio'' m False
      | OtherException m \<Rightarrow> failed_transcription request_id ''transcription_failed'' m False)"

definition transcribe_file :: "'c runtime_env \<Rightarrow> 'c runtime transcribe_op" where
  "transcribe_file env rt path options =
     (let rt1 = rt\<lparr>rt_calls := Suc (rt_calls rt)\<rparr>
      in case rt_inference rt of
           None \<Rightarrow> (Inr (failed_transcription (to_request_id options) ''runtime_not_loaded''
                    ''AutoWhisper runtime is not loaded'' True), rt1)
         | Some inference \<Rightarrow>
             if \<not> inference_is_loaded inference then
               (Inr (failed_transcription (to_request_id options) ''runtime_not_loaded''
                  ''AutoWhisper runtime is not loaded'' True), rt1)
             else if to_model options \<noteq> [] \<and> to_model options \<noteq> md_size (rt_config rt) then
               (Inr (failed_transcription (to_request_id options) ''model_mismatch''
                  (''Requested model '' @ [CHR 0x27] @ to_model options @ [CHR 0x27] @
                   '' is not loaded; restart the service with that model'') True), rt1)
             else
               case decode_audio_file (re_ma env) (re_fs env (rt_calls rt)) path of
                 Inl e \<Rightarrow> (Inr (caught (to_request_id options) e), rt1)
               | Inr audio \<Rightarrow>
                   let language = (if to_language options = [] then md_language (rt_config rt)
                                   else to_language options);
                       (res, inference') = inference_transcribe (re_wh env) inference (da_samples audio) language;
                       rt2 = rt1\<lparr>rt_inference := Some inference'\<rparr>
                   in case res of
                        Inl e \<Rightarrow> (Inr (caught (to_request_id options) e), rt2)
                      | Inr txt \<Rightarrow> (Inr (transcription_done env rt options audio language txt), rt2))"

section \<open>Facts\<close>

lemma caught_fields [simp]:
  "tr_request_id (caught i e) = i" "proper_result (caught i e)"
  "tr_error (caught i e) \<noteq> None" "tr_status (caught i e) = Failed"
  by (cases e; simp add: caught_def)+

lemma duration_nonneg: "0 \<le> duration_ms a"
  by (simp add: duration_ms_def pos_imp_zdiv_nonneg_iff)

lemma transcription_done_fields [simp]:
  "tr_request_id (transcription_done env rt opts a l t) = to_request_id opts"
  "tr_status (transcription_done env rt opts a l t) = (if t = [] then No_Speech else Completed)"
  "tr_text (transcription_done env rt opts a l t) = t"
  "tr_error (transcription_done env rt opts a l t) = None"
  "tr_duration_ms (transcription_done env rt opts a l t) = duration_ms a"
  "tr_processing_ms (transcription_done env rt opts a l t) = re_elapsed env (rt_calls rt)"
  by (simp_all add: transcription_done_def default_result_def)

lemma transcription_done_proper:
  "0 \<le> re_elapsed env (rt_calls rt) \<Longrightarrow> proper_result (transcription_done env rt opts a l t)"
  by (simp add: proper_result_def duration_nonneg)

text \<open>The invariant of the object: the engine it holds was made from its configuration and is loaded.\<close>

definition runtime_inv :: "'c runtime \<Rightarrow> bool" where
  "runtime_inv rt \<longleftrightarrow> (case rt_inference rt of None \<Rightarrow> True
     | Some i \<Rightarrow> inference_is_loaded i \<and> wi_config i = rt_config rt)"

lemma runtime_inv_new: "runtime_inv (runtime_new c)"
  by (simp add: runtime_inv_def runtime_new_def)

lemma runtime_inv_load: "runtime_inv rt \<Longrightarrow> runtime_load env fs rt = Inr rt' \<Longrightarrow> runtime_inv rt' \<and> runtime_is_loaded rt'"
  by (auto simp: runtime_load_def runtime_inv_def runtime_is_loaded_def inference_load_def inference_new_def
      inference_is_loaded_def bind_r_def split: if_splits sum.splits option.splits)

lemma transcribe_keeps_config: "wi_config (snd (inference_transcribe wh i a l)) = wi_config i"
  by (auto simp: inference_transcribe_def Let_def split: option.splits prod.splits)

text \<open>How a call changes the object: at most the engine's context.\<close>

lemma transcribe_keeps:
  "inference_transcribe wh i a l = (x, i') \<Longrightarrow>
     inference_is_loaded i' = inference_is_loaded i \<and> wi_config i' = wi_config i"
  using transcribe_keeps_loaded [of wh i a l] transcribe_keeps_config [of wh i a l] by simp

lemma transcribe_file_state:
  assumes "transcribe_file env rt p opts = (r, rt')"
  shows "rt_config rt' = rt_config rt \<and>
   (rt_inference rt' = rt_inference rt \<or>
    (\<exists>i i' a l x. rt_inference rt = Some i \<and> rt_inference rt' = Some i' \<and>
       inference_transcribe (re_wh env) i a l = (x, i')))"
  using assms unfolding transcribe_file_def Let_def
  by (auto split: option.splits if_splits sum.splits prod.splits)

lemma runtime_inv_transcribe:
  assumes "runtime_inv rt" "transcribe_file env rt p opts = (r, rt')"
  shows "runtime_inv rt'"
  using assms(1) transcribe_file_state [OF assms(2)]
  by (auto simp: runtime_inv_def dest: transcribe_keeps split: option.splits)

definition sane_clock :: "'c runtime_env \<Rightarrow> bool" where
  "sane_clock env \<longleftrightarrow> (\<forall>n. 0 \<le> re_elapsed env n)"

lemma transcribe_file_contract:
  assumes "sane_clock env"
  shows "\<exists>r. fst (transcribe_file env rt p opts) = Inr r \<and> tr_request_id r = to_request_id opts \<and> proper_result r"
proof (cases "rt_inference rt")
  case None
  then show ?thesis by (simp add: transcribe_file_def)
next
  case (Some i)
  have e: "0 \<le> re_elapsed env (rt_calls rt)" using assms by (simp add: sane_clock_def)
  show ?thesis
    using Some transcription_done_proper [OF e]
    by (auto simp: transcribe_file_def Let_def split: sum.splits prod.splits)
qed

text \<open>The runtime provides the interface, in its strong form.\<close>

interpretation rt: total_transcriber "transcribe_file env" "\<lambda>t. runtime_inv t \<and> sane_clock env" for env :: "'c runtime_env"
proof unfold_locales
  fix t :: "'c runtime" and p opts r t'
  assume "runtime_inv t \<and> sane_clock env" "transcribe_file env t p opts = (Inr r, t')"
  then show "tr_request_id r = to_request_id opts" "proper_result r"
    using transcribe_file_contract [of env t p opts] by auto
next
  fix t :: "'c runtime" and p opts x t'
  assume "runtime_inv t \<and> sane_clock env" "transcribe_file env t p opts = (x, t')"
  then show "runtime_inv t' \<and> sane_clock env"
    using runtime_inv_transcribe by blast
next
  fix t :: "'c runtime" and p opts
  assume "runtime_inv t \<and> sane_clock env"
  then show "\<exists>r t'. transcribe_file env t p opts = (Inr r, t')"
    using transcribe_file_contract [of env t p opts] by (metis prod.collapse)
qed

section \<open>Property\<close>

text \<open>C22: The runtime's answer on every path. It never throws. The error code is
  \<open>runtime_not_loaded\<close> without an engine, \<open>model_mismatch\<close> when another model is asked for,
  \<open>invalid_audio\<close> for the empty path only, \<open>transcription_failed\<close> for any file that does not
  decode; a decoded file gives no error and the engine's trimmed text, completed or no speech as it
  is empty. In particular a run of the engine that fails is answered as \<open>no_speech\<close>, without an
  error.\<close>

theorem transcribe_file_outcome:
  assumes "runtime_inv rt"
  shows "\<exists>r. fst (transcribe_file env rt path opts) = Inr r \<and> tr_request_id r = to_request_id opts \<and>
    (case rt_inference rt of
       None \<Rightarrow> map_option te_code (tr_error r) = Some ''runtime_not_loaded''
     | Some i \<Rightarrow>
         if to_model opts \<noteq> [] \<and> to_model opts \<noteq> md_size (rt_config rt) then
           map_option te_code (tr_error r) = Some ''model_mismatch''
         else
           (case decode_audio_file (re_ma env) (re_fs env (rt_calls rt)) path of
              Inl e \<Rightarrow> map_option te_code (tr_error r) =
                Some (if path = [] then ''invalid_audio'' else ''transcription_failed'')
            | Inr a \<Rightarrow>
                tr_error r = None \<and> tr_duration_ms r = duration_ms a \<and>
                tr_status r = (if tr_text r = [] then No_Speech else Completed) \<and>
                (let lang = (if to_language opts = [] then md_language (rt_config rt) else to_language opts);
                     (rc, ctx) = wh_full (re_wh env) (the (wi_ctx i)) (full_params (re_wh env) (rt_config rt) lang)
                                   (normalize_audio (da_samples a))
                 in tr_text r = (if rc \<noteq> 0 then []
                      else trim_by is_space (collect_segments (wh_segments (re_wh env) ctx))))))"
proof (cases "rt_inference rt")
  case None
  then show ?thesis by (simp add: transcribe_file_def)
next
  case (Some i)
  then obtain ctx where i: "wi_ctx i = Some ctx" "wi_config i = rt_config rt" "inference_is_loaded i"
    using assms by (auto simp: runtime_inv_def inference_is_loaded_def)
  let ?d = "decode_audio_file (re_ma env) (re_fs env (rt_calls rt)) path"
  show ?thesis
  proof (cases ?d)
    case (Inl e)
    then have "path = [] \<longleftrightarrow> (\<exists>m. e = InvalidArgument m)"
      using decode_file_invalid_argument [of "re_ma env" "re_fs env (rt_calls rt)" path]
      by (auto simp: decode_audio_file_def)
    with Inl Some i show ?thesis
      by (cases e) (auto simp: transcribe_file_def caught_def Let_def)
  next
    case (Inr a)
    then have "da_samples a \<noteq> []" using decode_file_Inr [OF Inr] by auto
    with Inr Some i show ?thesis
      by (auto simp: transcribe_file_def Let_def inference_transcribe_def split: prod.splits)
  qed
qed

definition broken_engine :: "nat whisper_api" where
  "broken_engine = \<lparr>wh_context_default = \<lparr>cp_use_gpu = True, cp_flash_attn = False\<rparr>,
     wh_full_default = (\<lambda>s. \<lparr>wp_strategy = s, wp_n_threads = 4, wp_no_context = True, wp_no_timestamps = False,
        wp_single_segment = False, wp_print_special = False, wp_print_progress = True, wp_print_realtime = False,
        wp_print_timestamps = True, wp_language = Some ''en'', wp_temperature = Fin 0, wp_temperature_inc = f32 (2 / 10),
        wp_entropy_thold = f32 (24 / 10), wp_logprob_thold = Fin (- 1), wp_no_speech_thold = f32 (6 / 10),
        wp_best_of = 5, wp_beam_size = 0\<rparr>),
     wh_init = (\<lambda>fs p c. Some 0), wh_full = (\<lambda>c p a. (- 1, c)), wh_segments = (\<lambda>c. [Some ''stale''])\<rparr>"

definition sample_env :: "nat runtime_env" where
  "sample_env = \<lparr>re_ma = sample_ma, re_wh = broken_engine, re_home = None, re_fs = (\<lambda>n. sample_fs),
     re_elapsed = (\<lambda>n. 5)\<rparr>"

definition sample_runtime :: "nat runtime" where
  "sample_runtime = \<lparr>rt_config = default_model,
     rt_inference = Some \<lparr>wi_config = default_model, wi_ctx = Some 0\<rparr>, rt_calls = 0\<rparr>"

definition sample_options :: transcription_options where
  "sample_options = \<lparr>to_request_id = ''r1'', to_language = [], to_model = []\<rparr>"

lemma sample_runtime_inv: "runtime_inv sample_runtime"
  by (simp add: runtime_inv_def sample_runtime_def inference_is_loaded_def)

theorem transcribe_file_outcome_witness:
  "\<exists>r. fst (transcribe_file sample_env sample_runtime ''/a.wav'' sample_options) = Inr r \<and>
     tr_request_id r = ''r1'' \<and> tr_error r = None \<and> tr_text r = [] \<and> tr_status r = No_Speech"
  using transcribe_file_outcome [OF sample_runtime_inv, of sample_env "''/a.wav''" sample_options]
  by (auto simp: sample_env_def sample_runtime_def sample_options_def sample_decodes broken_engine_def)

end
