(* ===== verification/Local_Protocol.thy ===== *)
theory Local_Protocol
  imports Runtime
begin

text \<open>
  The local transcription protocol (src/src/protocol/local_protocol.h, local_protocol.cpp): one JSON
  request per input line, one JSON response per output line. The input stream is the string of its
  bytes; the handler is generic in the transcriber, whose contract is the locale \<open>transcriber\<close>.
\<close>

definition LOCAL_PROTOCOL_NAME :: string where
  "LOCAL_PROTOCOL_NAME = ''autowhisper.local''"

definition LOCAL_PROTOCOL_VERSION :: int where
  "LOCAL_PROTOCOL_VERSION = 1"

definition LOCAL_PROTOCOL_MAX_LINE_BYTES :: nat where
  "LOCAL_PROTOCOL_MAX_LINE_BYTES = 1024 * 1024"

section \<open>Reading a line\<close>

record bounded_line =
  bl_value :: string
  bl_too_large :: bool
  bl_has_line :: bool

text \<open>The loop of \<open>read_bounded_line\<close>; the last component is the state of the stream.\<close>

fun read_loop :: "bounded_line \<Rightarrow> string \<Rightarrow> bounded_line \<times> string \<times> bool" where
  "read_loop line [] = (line, [], False)"
| "read_loop line (c # cs) =
     (let line = line\<lparr>bl_has_line := True\<rparr>
      in if c = CHR 0x0A then (line, cs, True)
         else if c = CHR 0x0D then read_loop line cs
         else if length (bl_value line) < LOCAL_PROTOCOL_MAX_LINE_BYTES then
           read_loop (line\<lparr>bl_value := bl_value line @ [c]\<rparr>) cs
         else read_loop (line\<lparr>bl_too_large := True\<rparr>) cs)"

definition read_bounded_line :: "string \<Rightarrow> bounded_line \<times> string \<times> bool" where
  "read_bounded_line input = read_loop \<lparr>bl_value = [], bl_too_large = False, bl_has_line = False\<rparr> input"

section \<open>Checking requests and building responses\<close>

definition valid_id :: "'j json_api \<Rightarrow> 'j \<Rightarrow> bool" where
  "valid_id J i = (case j_as_str J i of None \<Rightarrow> False | Some v \<Rightarrow> v \<noteq> [] \<and> length v \<le> 128)"

definition optional_bounded_string :: "'j json_api \<Rightarrow> 'j \<Rightarrow> string \<Rightarrow> nat \<Rightarrow> exn + string" where
  "optional_bounded_string J obj key maximum =
     (case j_get J obj key of
        None \<Rightarrow> Inr []
      | Some v \<Rightarrow>
          (case j_as_str J v of
             None \<Rightarrow> Inl (InvalidArgument (key @ '' must be a string''))
           | Some s \<Rightarrow> if maximum < length s then Inl (InvalidArgument (key @ '' is too long'')) else Inr s))"

definition success_response :: "'j json_api \<Rightarrow> 'j \<Rightarrow> 'j \<Rightarrow> 'j" where
  "success_response J i result =
     j_obj J [(''protocol'', j_str J LOCAL_PROTOCOL_NAME), (''version'', j_int J LOCAL_PROTOCOL_VERSION),
              (''id'', i), (''result'', result)]"

definition error_response :: "'j json_api \<Rightarrow> 'j \<Rightarrow> string \<Rightarrow> string \<Rightarrow> bool \<Rightarrow> 'j" where
  "error_response J i ecode message retryable =
     j_obj J [(''protocol'', j_str J LOCAL_PROTOCOL_NAME), (''version'', j_int J LOCAL_PROTOCOL_VERSION),
              (''id'', i),
              (''error'', j_obj J [(''code'', j_str J ecode), (''message'', j_str J message),
                                 (''retryable'', j_bool J retryable)])]"

definition line_too_large_error :: "'j json_api \<Rightarrow> 'j" where
  "line_too_large_error J =
     error_response J (j_null J) ''request_too_large'' ''Protocol request exceeds the 1 MiB line limit'' False"

definition capabilities_result :: "'j json_api \<Rightarrow> 'j" where
  "capabilities_result J =
     j_obj J
       [(''methods'', j_arr J (map (j_str J) [''health'', ''capabilities'', ''transcribe_file'', ''shutdown''])),
        (''input'', j_obj J
           [(''kind'', j_str J ''file''),
            (''formats'', j_arr J (map (j_str J) [''wav'', ''mp3'', ''flac''])),
            (''sample_rate'', j_int J (int RUNTIME_SAMPLE_RATE)),
            (''channels'', j_int J 1)]),
        (''max_audio_seconds'', j_int J (int MAX_TRANSCRIPTION_AUDIO_SECONDS)),
        (''max_file_bytes'', j_int J (int MAX_TRANSCRIPTION_FILE_BYTES))]"

section \<open>The handler\<close>

record 't protocol_handler =
  ph_transcriber :: 't
  ph_shutdown_requested :: bool

text \<open>The catch clauses around a transcription.\<close>

definition request_caught :: "'j json_api \<Rightarrow> 'j \<Rightarrow> exn \<Rightarrow> 'j" where
  "request_caught J i e =
     (case e of
        InvalidArgument m \<Rightarrow> error_response J i ''invalid_params'' m False
      | OtherException m \<Rightarrow> error_response J i ''runtime_error'' m True)"

text \<open>The parameters of \<open>transcribe_file\<close>, in the order the code reads them.\<close>

definition transcribe_params :: "'j json_api \<Rightarrow> 'j \<Rightarrow> 'j \<Rightarrow> exn + string \<times> transcription_options" where
  "transcribe_params J i params =
     bind_r (optional_bounded_string J params ''path'' 32768) (\<lambda>path.
     if path = [] then Inl (InvalidArgument ''params.path is required'')
     else bind_r (j_read J (j_as_str J) ''str'' i) (\<lambda>request_id.
     bind_r (optional_bounded_string J params ''language'' 64) (\<lambda>language.
     bind_r (optional_bounded_string J params ''model'' 128) (\<lambda>model.
     Inr (path, \<lparr>to_request_id = request_id, to_language = language, to_model = model\<rparr>)))))"

definition handle_transcribe ::
  "'j json_api \<Rightarrow> 't transcribe_op \<Rightarrow> 't protocol_handler \<Rightarrow> 'j \<Rightarrow> 'j \<Rightarrow> 'j \<times> 't protocol_handler" where
  "handle_transcribe J transcribe h i params =
     (case transcribe_params J i params of
        Inl e \<Rightarrow> (request_caught J i e, h)
      | Inr (path, options) \<Rightarrow>
          let (res, t') = transcribe (ph_transcriber h) path options;
              h' = h\<lparr>ph_transcriber := t'\<rparr>
          in case res of
               Inl e \<Rightarrow> (request_caught J i e, h')
             | Inr r \<Rightarrow> (success_response J i (result_to_json J r), h'))"

definition dispatch ::
  "'j json_api \<Rightarrow> 't transcribe_op \<Rightarrow> 't protocol_handler \<Rightarrow> 'j \<Rightarrow> 'j \<Rightarrow> string \<Rightarrow> 'j \<times> 't protocol_handler" where
  "dispatch J transcribe h request i meth =
     (if meth = ''health'' then
        (success_response J i (j_obj J [(''status'', j_str J ''ready'')]), h)
      else if meth = ''capabilities'' then (success_response J i (capabilities_result J), h)
      else if meth = ''shutdown'' then
        (success_response J i (j_obj J [(''status'', j_str J ''stopping'')]), h\<lparr>ph_shutdown_requested := True\<rparr>)
      else if meth \<noteq> ''transcribe_file'' then
        (error_response J i ''method_not_found'' (''Unknown method: '' @ meth) False, h)
      else
        let params = (case j_get J request ''params'' of Some p \<Rightarrow> p | None \<Rightarrow> j_obj J [])
        in if j_as_obj J params = None then
             (error_response J i ''invalid_params'' ''params must be a JSON object'' False, h)
           else handle_transcribe J transcribe h i params)"

text \<open>The check of the version; \<open>get<int>\<close> may throw.\<close>

definition version_ok :: "'j json_api \<Rightarrow> 'j \<Rightarrow> exn + bool" where
  "version_ok J request =
     (case j_get J request ''version'' of
        None \<Rightarrow> Inr False
      | Some v \<Rightarrow> if \<not> j_is_integer J v then Inr False
                  else bind_r (j_read J (j_as_int J) ''int'' v) (\<lambda>n. Inr (n = LOCAL_PROTOCOL_VERSION)))"

definition handle_request ::
  "'j json_api \<Rightarrow> 't transcribe_op \<Rightarrow> 't protocol_handler \<Rightarrow> 'j \<Rightarrow> (exn + 'j) \<times> 't protocol_handler" where
  "handle_request J transcribe h request =
     (if j_as_obj J request = None then
        (Inr (error_response J (j_null J) ''invalid_request'' ''Request must be a JSON object'' False), h)
      else
        let i = (case j_get J request ''id'' of Some v \<Rightarrow> v | None \<Rightarrow> j_null J)
        in if \<not> valid_id J i then
             (Inr (error_response J (j_null J) ''invalid_id'' ''id must be a non-empty string of at most 128 bytes'' False), h)
           else
             case value_or J (j_read J (j_as_str J) ''str'') request ''protocol'' [] of
               Inl e \<Rightarrow> (Inl e, h)
             | Inr name \<Rightarrow>
                 if name \<noteq> LOCAL_PROTOCOL_NAME then
                   (Inr (error_response J i ''unsupported_protocol'' ''Unsupported local protocol name'' False), h)
                 else
                   case version_ok J request of
                     Inl e \<Rightarrow> (Inl e, h)
                   | Inr False \<Rightarrow>
                       (Inr (error_response J i ''unsupported_version'' ''Unsupported local protocol version'' False), h)
                   | Inr True \<Rightarrow>
                       (case Option.bind (j_get J request ''method'') (j_as_str J) of
                          None \<Rightarrow> (Inr (error_response J i ''invalid_method'' ''method must be a string'' False), h)
                        | Some meth \<Rightarrow> apfst Inr (dispatch J transcribe h request i meth)))"

definition handle_line ::
  "'j json_api \<Rightarrow> 't transcribe_op \<Rightarrow> 't protocol_handler \<Rightarrow> string \<Rightarrow> 'j \<times> 't protocol_handler" where
  "handle_line J transcribe h line =
     (case j_parse J line of
        Inl m \<Rightarrow> (error_response J (j_null J) ''invalid_json'' ''Request is not valid JSON'' False, h)
      | Inr request \<Rightarrow>
          case handle_request J transcribe h request of
            (Inr response, h') \<Rightarrow> (response, h')
          | (Inl e, h') \<Rightarrow> (error_response J (j_null J) ''invalid_request'' (what e) False, h'))"

section \<open>The server loop\<close>

lemma read_loop_rest: "read_loop line s = (line', rest, ok) \<Longrightarrow> rest = tl (dropWhile (\<lambda>c. c \<noteq> CHR 0x0A) s)"
  by (induction line s rule: read_loop.induct) (auto simp: Let_def split: if_splits)

lemma read_shorter: "read_bounded_line s = (line, rest, ok) \<Longrightarrow> bl_has_line line \<Longrightarrow> length rest < length s"
proof -
  assume r: "read_bounded_line s = (line, rest, ok)" and h: "bl_has_line line"
  then have "rest = tl (dropWhile (\<lambda>c. c \<noteq> CHR 0x0A) s)" "s \<noteq> []"
    by (auto simp: read_bounded_line_def dest: read_loop_rest)
  then show ?thesis using length_dropWhile_le [of "\<lambda>c. c \<noteq> CHR 0x0A" s] by (cases s) (auto simp: le_imp_less_Suc diff_le_self le_less_trans)
qed

text \<open>
  \<open>StdioServer::run\<close>: the exit status, \<open>None\<close> when the exception of \<open>dump\<close> leaves the function; what
  was written; and the handler.
\<close>

function stdio_run ::
  "'j json_api \<Rightarrow> 't transcribe_op \<Rightarrow> 't protocol_handler \<Rightarrow> string \<Rightarrow> string \<Rightarrow> int option \<times> string \<times> 't protocol_handler" where
  "stdio_run J transcribe h input outp =
     (let (line, rest, ok) = read_bounded_line input
      in if \<not> bl_has_line line then (Some 0, outp, h)
         else
           let (response, h') = (if bl_too_large line then (line_too_large_error J, h)
                                 else handle_line J transcribe h (bl_value line))
           in case j_dump J response of
                None \<Rightarrow> (None, outp, h')
              | Some txt \<Rightarrow>
                  let outp' = outp @ txt @ [CHR 0x0A]
                  in if ph_shutdown_requested h' then (Some 0, outp', h')
                     else if \<not> ok \<and> \<not> bl_has_line line then (Some 0, outp', h')
                     else stdio_run J transcribe h' rest outp')"
  by pat_completeness auto
termination
proof (relation "measure (\<lambda>(J, transcribe, h, input, output). length input)", goal_cases)
  case 1
  show ?case by simp
next
  case (2 J transcribe h input outp x line y rest ok)
  then show ?case using read_shorter [of input line rest ok] by auto
qed

declare stdio_run.simps [simp del]

end
