(* ===== verification/Local_Protocol_Laws.thy ===== *)
theory Local_Protocol_Laws
  imports Local_Protocol
begin

text \<open>
  Theorems about the local protocol: the server refines a specification over whole lines, every
  response is correlated with its request, and the engine runs for accepted requests only.
\<close>

section \<open>Lines\<close>

definition strip_cr :: "string \<Rightarrow> string" where
  "strip_cr s = filter (\<lambda>c. c \<noteq> CHR 0x0D) s"

lemma read_loop_eq:
  assumes "length (bl_value line) \<le> LOCAL_PROTOCOL_MAX_LINE_BYTES"
  shows "read_loop line s =
    (let l = bl_value line @ strip_cr (takeWhile (\<lambda>c. c \<noteq> CHR 0x0A) s)
     in (\<lparr>bl_value = take LOCAL_PROTOCOL_MAX_LINE_BYTES l,
          bl_too_large = (bl_too_large line \<or> LOCAL_PROTOCOL_MAX_LINE_BYTES < length l),
          bl_has_line = (bl_has_line line \<or> s \<noteq> [])\<rparr>,
         tl (dropWhile (\<lambda>c. c \<noteq> CHR 0x0A) s), CHR 0x0A \<in> set s))"
  using assms
proof (induction line s rule: read_loop.induct)
  case (1 line)
  then show ?case by (cases line) (simp add: strip_cr_def)
next
  case (2 line c cs)
  consider "c = CHR 0x0A" | "c = CHR 0x0D" | "c \<noteq> CHR 0x0A" "c \<noteq> CHR 0x0D" by blast
  then show ?case
  proof cases
    case 1
    then show ?thesis using 2 by (cases line) (simp add: strip_cr_def)
  next
    case c: 2
    then show ?thesis using 2 by (auto simp: strip_cr_def Let_def)
  next
    case 3
    then show ?thesis
    proof (cases "length (bl_value line) < LOCAL_PROTOCOL_MAX_LINE_BYTES")
      case True
      then show ?thesis using 2 3 by (auto simp: strip_cr_def Let_def)
    next
      case False
      then have "length (bl_value line) = LOCAL_PROTOCOL_MAX_LINE_BYTES" using 2 by simp
      then show ?thesis using 2 3 by (auto simp: strip_cr_def Let_def)
    qed
  qed
qed

lemma read_bounded_line_eq:
  "read_bounded_line s =
    (let l = strip_cr (takeWhile (\<lambda>c. c \<noteq> CHR 0x0A) s)
     in (\<lparr>bl_value = take LOCAL_PROTOCOL_MAX_LINE_BYTES l,
          bl_too_large = (LOCAL_PROTOCOL_MAX_LINE_BYTES < length l), bl_has_line = (s \<noteq> [])\<rparr>,
         tl (dropWhile (\<lambda>c. c \<noteq> CHR 0x0A) s), CHR 0x0A \<in> set s))"
  by (simp add: read_bounded_line_def read_loop_eq)

section \<open>The specification of the server\<close>

text \<open>A session over whole lines: each is answered, until a shutdown has been requested.\<close>

definition answer :: "'j json_api \<Rightarrow> 't transcribe_op \<Rightarrow> 't protocol_handler \<Rightarrow> string \<Rightarrow> 'j \<times> 't protocol_handler" where
  "answer J transcribe h line =
     (if LOCAL_PROTOCOL_MAX_LINE_BYTES < length line then (line_too_large_error J, h)
      else handle_line J transcribe h line)"

fun session :: "'j json_api \<Rightarrow> 't transcribe_op \<Rightarrow> 't protocol_handler \<Rightarrow> string list \<Rightarrow> 'j list" where
  "session J transcribe h [] = []"
| "session J transcribe h (l # ls) =
     (let (response, h') = answer J transcribe h l
      in response # (if ph_shutdown_requested h' then [] else session J transcribe h' ls))"

definition input_lines :: "string \<Rightarrow> string list" where
  "input_lines s = map strip_cr (getlines (CHR 0x0A) s)"

definition print_responses :: "'j json_api \<Rightarrow> 'j list \<Rightarrow> string" where
  "print_responses J rs = concat (map (\<lambda>r. the (j_dump J r) @ [CHR 0x0A]) rs)"

lemma input_lines_rec:
  "input_lines s = (if s = [] then []
     else strip_cr (takeWhile (\<lambda>c. c \<noteq> CHR 0x0A) s) # input_lines (tl (dropWhile (\<lambda>c. c \<noteq> CHR 0x0A) s)))"
  unfolding input_lines_def by (subst getlines.simps) (simp add: getline_def)

lemma stdio_run_session:
  "case stdio_run J tr h s outp of (rc, outp', h') \<Rightarrow>
     (let rs = session J tr h (input_lines s); printed = takeWhile (\<lambda>r. j_dump J r \<noteq> None) rs
      in rc = (if printed = rs then Some 0 else None) \<and> outp' = outp @ print_responses J printed)"
proof (induction "length s" arbitrary: s h outp rule: less_induct)
  case less
  show ?case
  proof (cases "s = []")
    case True
    then show ?thesis
      by (subst stdio_run.simps, subst input_lines_rec) (simp add: read_bounded_line_eq print_responses_def Let_def)
  next
    case False
    let ?l = "strip_cr (takeWhile (\<lambda>c. c \<noteq> CHR 0x0A) s)" and ?r = "tl (dropWhile (\<lambda>c. c \<noteq> CHR 0x0A) s)"
    have short: "length ?r < length s"
      using read_shorter [of s] False by (simp add: read_bounded_line_eq Let_def)
    obtain r h' where a: "answer J tr h ?l = (r, h')" by fastforce
    have run: "stdio_run J tr h s outp =
       (case j_dump J r of None \<Rightarrow> (None, outp, h')
        | Some txt \<Rightarrow> if ph_shutdown_requested h' then (Some 0, outp @ txt @ [CHR 0x0A], h')
                     else stdio_run J tr h' ?r (outp @ txt @ [CHR 0x0A]))"
    proof (cases "LOCAL_PROTOCOL_MAX_LINE_BYTES < length ?l")
      case True
      with False a show ?thesis
        by (subst stdio_run.simps) (auto simp: read_bounded_line_eq Let_def answer_def split: option.splits)
    next
      case short: False
      then have "handle_line J tr h ?l = (r, h')" using a by (simp add: answer_def)
      with False short show ?thesis
        by (subst stdio_run.simps) (simp add: read_bounded_line_eq Let_def split: option.splits)
    qed
    have lines: "input_lines s = ?l # input_lines ?r" using False by (subst input_lines_rec) simp
    show ?thesis
      using less.hyps [OF short, of h' "outp @ the (j_dump J r) @ [CHR 0x0A]"] a
      by (auto simp: run lines print_responses_def Let_def split: option.splits prod.splits)
  qed
qed

section \<open>What a request is\<close>

text \<open>
  The envelope the protocol asks for, read off the documentation: an object with a string id of 1 to
  128 bytes, the protocol's name and an integer version equal to 1.
\<close>

definition envelope :: "'j json_api \<Rightarrow> string \<Rightarrow> ('j \<times> 'j) option" where
  "envelope J line =
     (case j_parse J line of
        Inl m \<Rightarrow> None
      | Inr req \<Rightarrow>
          (case j_get J req ''id'' of
             Some i \<Rightarrow>
               if valid_id J i \<and>
                  Option.bind (j_get J req ''protocol'') (j_as_str J) = Some LOCAL_PROTOCOL_NAME \<and>
                  (case j_get J req ''version'' of
                     Some v \<Rightarrow> j_is_integer J v \<and> j_as_int J v = Some LOCAL_PROTOCOL_VERSION | None \<Rightarrow> False)
               then Some (req, i) else None
           | None \<Rightarrow> None))"

definition method_is :: "'j json_api \<Rightarrow> 'j \<Rightarrow> string \<Rightarrow> bool" where
  "method_is J req meth \<longleftrightarrow> Option.bind (j_get J req ''method'') (j_as_str J) = Some meth"

text \<open>The request for a transcription a line makes, if it makes one.\<close>

definition accepted :: "'j json_api \<Rightarrow> string \<Rightarrow> (string \<times> transcription_options) option" where
  "accepted J line =
     (case envelope J line of
        None \<Rightarrow> None
      | Some (req, i) \<Rightarrow>
          let params = (case j_get J req ''params'' of Some p \<Rightarrow> p | None \<Rightarrow> j_obj J [])
          in if method_is J req ''transcribe_file'' \<and> j_as_obj J params \<noteq> None
             then (case transcribe_params J i params of Inr x \<Rightarrow> Some x | Inl e \<Rightarrow> None) else None)"

definition asks_shutdown :: "'j json_api \<Rightarrow> string \<Rightarrow> bool" where
  "asks_shutdown J line \<longleftrightarrow>
     (case envelope J line of None \<Rightarrow> False | Some (req, i) \<Rightarrow> method_is J req ''shutdown'')"

lemma j_get_obj_some: "j_get J v k = Some x \<Longrightarrow> j_as_obj J v \<noteq> None"
  by (auto simp: j_get_def split: option.splits)

text \<open>A line without a proper envelope changes nothing.\<close>

lemma handle_line_no_envelope:
  assumes "envelope J line = None" "j_as_str J (j_null J) = None"
  shows "snd (handle_line J tr h line) = h"
  using assms
  by (auto simp: envelope_def handle_line_def handle_request_def version_ok_def value_or_def j_read_def
      LOCAL_PROTOCOL_NAME_def valid_id_def Let_def split: sum.splits option.splits if_splits bool.splits)

lemma handle_line_envelope:
  assumes "envelope J line = Some (req, i)"
  shows "handle_line J tr h line =
    (case Option.bind (j_get J req ''method'') (j_as_str J) of
       None \<Rightarrow> (error_response J i ''invalid_method'' ''method must be a string'' False, h)
     | Some meth \<Rightarrow> dispatch J tr h req i meth) \<and> valid_id J i \<and> j_get J req ''id'' = Some i"
proof -
  from assms have p: "j_parse J line = Inr req" "j_get J req ''id'' = Some i" "valid_id J i"
    "Option.bind (j_get J req ''protocol'') (j_as_str J) = Some LOCAL_PROTOCOL_NAME"
    "\<exists>v. j_get J req ''version'' = Some v \<and> j_is_integer J v \<and> j_as_int J v = Some LOCAL_PROTOCOL_VERSION"
    by (auto simp: envelope_def split: sum.splits option.splits if_splits)
  have "version_ok J req = Inr True" using p by (auto simp: version_ok_def j_read_def)
  moreover have "value_or J (j_read J (j_as_str J) ''str'') req ''protocol'' [] = Inr LOCAL_PROTOCOL_NAME"
    using p by (auto simp: value_or_def j_read_def bind_eq_Some_conv)
  ultimately have "handle_request J tr h req =
    (case Option.bind (j_get J req ''method'') (j_as_str J) of
       None \<Rightarrow> (Inr (error_response J i ''invalid_method'' ''method must be a string'' False), h)
     | Some meth \<Rightarrow> apfst Inr (dispatch J tr h req i meth))"
    using p j_get_obj_some [OF p(2)] by (auto simp: handle_request_def)
  then show ?thesis
    using p by (auto simp: handle_line_def apfst_def map_prod_def split: option.splits prod.splits)
qed

lemma handle_line_effect:
  assumes "j_as_str J (j_null J) = None"
  shows "snd (handle_line J tr h line) =
    (case accepted J line of
       Some (path, opts) \<Rightarrow> h\<lparr>ph_transcriber := snd (tr (ph_transcriber h) path opts)\<rparr>
     | None \<Rightarrow> if asks_shutdown J line then h\<lparr>ph_shutdown_requested := True\<rparr> else h)"
proof (cases "envelope J line")
  case None
  then show ?thesis
    using handle_line_no_envelope [OF None assms] by (simp add: accepted_def asks_shutdown_def)
next
  case (Some e)
  obtain req i where e: "e = (req, i)" by fastforce
  note hl = handle_line_envelope [OF Some [unfolded e], of tr h, THEN conjunct1]
  show ?thesis
  proof (cases "Option.bind (j_get J req ''method'') (j_as_str J)")
    case None
    with Some e hl show ?thesis by (simp add: accepted_def asks_shutdown_def method_is_def)
  next
    case m: (Some meth)
    show ?thesis
      unfolding hl m
      using Some e m
      by (auto simp: accepted_def asks_shutdown_def method_is_def dispatch_def handle_transcribe_def Let_def
          split: sum.splits prod.splits)
  qed
qed

section \<open>Responses\<close>

definition well_formed_response :: "'j json_api \<Rightarrow> 'j \<Rightarrow> 'j \<Rightarrow> bool" where
  "well_formed_response J r i \<longleftrightarrow>
     j_get J r ''protocol'' = Some (j_str J LOCAL_PROTOCOL_NAME) \<and>
     j_get J r ''version'' = Some (j_int J LOCAL_PROTOCOL_VERSION) \<and>
     j_get J r ''id'' = Some i \<and> (j_get J r ''result'' = None) \<noteq> (j_get J r ''error'' = None)"

lemma success_get:
  "json_ok J \<Longrightarrow> j_get J (success_response J i x) k =
     map_of [(''protocol'', j_str J LOCAL_PROTOCOL_NAME), (''version'', j_int J LOCAL_PROTOCOL_VERSION),
             (''id'', i), (''result'', x)] k"
  unfolding success_response_def by (rule j_get_obj) simp_all

lemma success_well_formed [intro]: "json_ok J \<Longrightarrow> well_formed_response J (success_response J i x) i"
  by (simp add: well_formed_response_def success_get)

lemma error_well_formed [intro]: "json_ok J \<Longrightarrow> well_formed_response J (error_response J i c m b) i"
  unfolding well_formed_response_def error_response_def by (subst j_get_obj; simp)+

lemma request_caught_well_formed [intro]: "json_ok J \<Longrightarrow> well_formed_response J (request_caught J i e) i"
  by (cases e) (auto simp: request_caught_def)

lemma handle_transcribe_well_formed:
  assumes ok: "json_ok J"
  shows "well_formed_response J (fst (handle_transcribe J tr h i params)) i"
proof (cases "transcribe_params J i params")
  case (Inr x)
  obtain path opts where x: "x = (path, opts)" by fastforce
  obtain res t' where r: "tr (ph_transcriber h) path opts = (res, t')" by fastforce
  show ?thesis
    using Inr x r request_caught_well_formed [OF ok] success_well_formed [OF ok]
    by (cases res) (simp_all add: handle_transcribe_def)
qed (simp add: handle_transcribe_def request_caught_well_formed [OF ok])

lemma dispatch_well_formed: "json_ok J \<Longrightarrow> well_formed_response J (fst (dispatch J tr h req i meth)) i"
  by (simp add: dispatch_def Let_def handle_transcribe_well_formed success_well_formed error_well_formed)

text \<open>The id a response carries.\<close>

definition response_id :: "'j json_api \<Rightarrow> string \<Rightarrow> 'j" where
  "response_id J line =
     (case j_parse J line of
        Inl m \<Rightarrow> j_null J
      | Inr req \<Rightarrow>
          (case j_get J req ''id'' of
             None \<Rightarrow> j_null J
           | Some i \<Rightarrow>
               if valid_id J i \<and> (case j_get J req ''protocol'' of Some p \<Rightarrow> j_as_str J p \<noteq> None | None \<Rightarrow> True)
               then i else j_null J))"

lemma version_total: "json_ok J \<Longrightarrow> \<exists>b. version_ok J req = Inr b"
  by (auto simp: version_ok_def j_read_def json_ok_def split: option.splits)

lemma handle_line_well_formed:
  assumes ok: "json_ok J"
  shows "well_formed_response J (fst (handle_line J tr h line)) (response_id J line)"
proof (cases "j_parse J line")
  case (Inl m)
  then show ?thesis using ok by (auto simp: handle_line_def response_id_def)
next
  case (Inr req)
  note nn = ok [unfolded json_ok_def]
  let ?i = "case j_get J req ''id'' of Some v \<Rightarrow> v | None \<Rightarrow> j_null J"
  have null: "\<not> valid_id J (j_null J)" using nn by (simp add: valid_id_def)
  obtain b where b: "version_ok J req = Inr b" using version_total [OF ok] by blast
  show ?thesis
  proof (cases "j_as_obj J req = None \<or> \<not> valid_id J ?i")
    case True
    then have "response_id J line = j_null J" using Inr null
      by (auto simp: response_id_def j_get_def split: option.splits)
    with True Inr ok show ?thesis by (auto simp: handle_line_def handle_request_def)
  next
    case valid: False
    then obtain i where i: "j_get J req ''id'' = Some i" "valid_id J i" using null by (auto split: option.splits)
    show ?thesis
    proof (cases "value_or J (j_read J (j_as_str J) ''str'') req ''protocol'' []")
      case (Inl e)
      then have "response_id J line = j_null J" using Inr i
        by (auto simp: response_id_def value_or_def j_read_def split: option.splits)
      with Inl Inr valid i ok show ?thesis by (auto simp: handle_line_def handle_request_def)
    next
      case name: (Inr name)
      then have "response_id J line = i" using Inr i
        by (auto simp: response_id_def value_or_def j_read_def split: option.splits)
      with name Inr valid i ok b dispatch_well_formed [OF ok, of tr h req i] show ?thesis
        by (cases b; cases "Option.bind (j_get J req ''method'') (j_as_str J)")
           (auto simp: handle_line_def handle_request_def apfst_def map_prod_def case_prod_beta)
    qed
  qed
qed

section \<open>What a client of the protocol gets from the transcriber\<close>

lemma accepted_line:
  assumes "accepted J line = Some (path, opts)"
  shows "\<exists>i. handle_line J tr h line =
      (let (res, t') = tr (ph_transcriber h) path opts; h' = h\<lparr>ph_transcriber := t'\<rparr>
       in case res of Inl e \<Rightarrow> (request_caught J i e, h')
          | Inr r \<Rightarrow> (success_response J i (result_to_json J r), h')) \<and>
    j_as_str J i = Some (to_request_id opts) \<and> path \<noteq> []"
proof -
  obtain req i where e: "envelope J line = Some (req, i)"
    using assms by (auto simp: accepted_def split: option.splits)
  let ?ps = "case j_get J req ''params'' of Some p \<Rightarrow> p | None \<Rightarrow> j_obj J []"
  have m: "Option.bind (j_get J req ''method'') (j_as_str J) = Some ''transcribe_file''" "j_as_obj J ?ps \<noteq> None"
    and t: "transcribe_params J i ?ps = Inr (path, opts)"
    using assms e by (auto simp: accepted_def method_is_def Let_def split: if_splits sum.splits)
  have "handle_line J tr h line = handle_transcribe J tr h i ?ps"
    using handle_line_envelope [OF e, of tr h] m by (simp add: dispatch_def)
  moreover have "j_as_str J i = Some (to_request_id opts)" "path \<noteq> []"
    using t by (auto simp: transcribe_params_def bind_r_def j_read_def split: sum.splits if_splits option.splits)
  ultimately show ?thesis using t by (auto simp: handle_transcribe_def)
qed

context transcriber
begin

lemma keeps_ready:
  assumes "json_ok J" "ready (ph_transcriber h)"
  shows "ready (ph_transcriber (snd (handle_line J transcribe h line)))"
proof -
  have "j_as_str J (j_null J) = None" using assms by (simp add: json_ok_def)
  from handle_line_effect [OF this, of transcribe h line] show ?thesis
    using assms(2) stays_ready by (auto split: option.splits prod.splits) (metis prod.collapse)
qed

lemma correlates:
  assumes "json_ok J" "ready (ph_transcriber h)" "accepted J line = Some (path, opts)"
    "transcribe (ph_transcriber h) path opts = (Inr r, t')"
  shows "j_get J (fst (handle_line J transcribe h line)) ''result'' = Some (result_to_json J r) \<and>
    Option.bind (j_get J (fst (handle_line J transcribe h line)) ''id'') (j_as_str J) = Some (tr_request_id r) \<and>
    result_from_json J (result_to_json J r) = Inr r"
  using accepted_line [OF assms(3), of transcribe h] assms echoes [OF assms(2,4)] proper [OF assms(2,4)]
  by (auto simp: success_get proper_back)

end

context total_transcriber
begin

lemma always_a_result:
  assumes "json_ok J" "ready (ph_transcriber h)" "accepted J line = Some (path, opts)"
  shows "\<exists>r. j_get J (fst (handle_line J transcribe h line)) ''result'' = Some (result_to_json J r) \<and>
    Option.bind (j_get J (fst (handle_line J transcribe h line)) ''id'') (j_as_str J) = Some (to_request_id opts) \<and>
    result_from_json J (result_to_json J r) = Inr r \<and> tr_request_id r = to_request_id opts \<and> proper_result r"
proof -
  obtain r t' where r: "transcribe (ph_transcriber h) path opts = (Inr r, t')" using no_throw [OF assms(2)] by blast
  show ?thesis
    using correlates [OF assms r] echoes [OF assms(2) r] proper [OF assms(2) r] by auto
qed

end

section \<open>Properties\<close>

text \<open>C8: The server implements the protocol over whole lines. For every input, what it writes is the
  response to each line (without its carriage returns) up to and including the first after which
  shutdown has been requested, one per line; a line over 1 MiB is answered by the size error, never
  parsed. It always returns, with status 0, except that a response that cannot be serialised ends it
  by an exception, after the responses before it.\<close>

theorem stdio_server_refines:
  "case stdio_run J tr h s [] of (rc, outp, h') \<Rightarrow>
     (let rs = session J tr h (input_lines s); printed = takeWhile (\<lambda>r. j_dump J r \<noteq> None) rs
      in rc = (if printed = rs then Some 0 else None) \<and> outp = print_responses J printed)"
  using stdio_run_session [of J tr h s "[]"] by simp

text \<open>C25: The engine is called for nothing but an accepted request: the transcriber changes only by the
  one call the line asks for, with the path and options it names, and shutdown is requested only by
  a shutdown request; every other line, malformed, foreign or unknown, leaves the handler as it is.\<close>

theorem engine_isolated:
  assumes "json_ok J"
  shows "snd (handle_line J tr h line) =
    (case accepted J line of
       Some (path, opts) \<Rightarrow> h\<lparr>ph_transcriber := snd (tr (ph_transcriber h) path opts)\<rparr>
     | None \<Rightarrow> if asks_shutdown J line then h\<lparr>ph_shutdown_requested := True\<rparr> else h)"
  using assms by (intro handle_line_effect) (simp add: json_ok_def)

text \<open>C40: Every response is an envelope of the protocol with exactly one of \<open>result\<close> and \<open>error\<close>. It
  carries the id of the request when that is a string of 1 to 128 bytes, except when the field
  \<open>protocol\<close> is there but no string: then the id is null.\<close>

theorem response_well_formed:
  assumes "json_ok J"
  shows "well_formed_response J (fst (handle_line J tr h line)) (response_id J line)"
  using assms by (rule handle_line_well_formed)

text \<open>C10: Protocol and runtime together: an accepted request is always answered by a result, never by
  \<open>runtime_error\<close>; the response and the result inside it carry the request's id, the result is
  consistent, a client that parses it gets back exactly what the runtime produced, and the runtime's
  invariant is kept for the next request.\<close>

theorem transcription_correlated:
  assumes "json_ok J" "runtime_inv (ph_transcriber h)" "sane_clock env" "accepted J line = Some (path, opts)"
  shows "runtime_inv (ph_transcriber (snd (handle_line J (transcribe_file env) h line))) \<and>
    (\<exists>r. j_get J (fst (handle_line J (transcribe_file env) h line)) ''result'' = Some (result_to_json J r) \<and>
      Option.bind (j_get J (fst (handle_line J (transcribe_file env) h line)) ''id'') (j_as_str J) =
        Some (to_request_id opts) \<and>
      result_from_json J (result_to_json J r) = Inr r \<and> tr_request_id r = to_request_id opts \<and> proper_result r)"
  using rt.keeps_ready [of J h env line] rt.always_a_result [of J h env line path opts] assms by simp

section \<open>An example\<close>

definition sample_request :: "int \<Rightarrow> json_value" where
  "sample_request v = JObj [(''protocol'', JStr LOCAL_PROTOCOL_NAME), (''version'', JInt v), (''id'', JStr ''r1''),
     (''method'', JStr ''transcribe_file''), (''params'', JObj [(''path'', JStr ''/a.wav'')])]"

definition wire_json :: "json_value json_api" where
  "wire_json = mini_json\<lparr>j_parse := (\<lambda>s. if s = ''one'' then Inr (sample_request 1)
     else if s = ''big'' then Inr (sample_request (2 ^ 32 + 1)) else Inl ''parse error'')\<rparr>"

lemma wire_json_ok: "json_ok wire_json"
  using mini_json_ok by (simp add: json_ok_def wire_json_def j_get_def)

lemma sample_accepted:
  "accepted wire_json ''one'' = Some (''/a.wav'', sample_options)"
  "accepted wire_json ''big'' = Some (''/a.wav'', sample_options)"
  by (simp_all add: accepted_def envelope_def wire_json_def mini_json_def sample_request_def j_get_def valid_id_def
      method_is_def transcribe_params_def optional_bounded_string_def j_read_def sample_options_def
      LOCAL_PROTOCOL_VERSION_def to_int32_def)

theorem engine_isolated_witness:
  "snd (handle_line wire_json (transcribe_file sample_env) \<lparr>ph_transcriber = sample_runtime, ph_shutdown_requested = False\<rparr> ''x'') =
     \<lparr>ph_transcriber = sample_runtime, ph_shutdown_requested = False\<rparr>"
  using engine_isolated [OF wire_json_ok, of "transcribe_file sample_env"
      "\<lparr>ph_transcriber = sample_runtime, ph_shutdown_requested = False\<rparr>" "''x''"]
  by (simp add: accepted_def asks_shutdown_def envelope_def wire_json_def)

theorem response_well_formed_witness:
  "well_formed_response wire_json (fst (handle_line wire_json (transcribe_file sample_env)
     \<lparr>ph_transcriber = sample_runtime, ph_shutdown_requested = False\<rparr> ''one'')) (response_id wire_json ''one'')"
  by (rule response_well_formed [OF wire_json_ok])

theorem transcription_correlated_witness:
  "\<exists>r. j_get wire_json (fst (handle_line wire_json (transcribe_file sample_env)
       \<lparr>ph_transcriber = sample_runtime, ph_shutdown_requested = False\<rparr> ''one'')) ''result'' = Some (result_to_json wire_json r) \<and>
     tr_request_id r = ''r1''"
proof -
  have "sane_clock sample_env" by (simp add: sane_clock_def sample_env_def)
  from transcription_correlated [OF wire_json_ok _ this sample_accepted(1),
      of "\<lparr>ph_transcriber = sample_runtime, ph_shutdown_requested = False\<rparr>"]
  show ?thesis using sample_runtime_inv by (auto simp: sample_options_def)
qed

text \<open>The version check truncates: the JSON integer 4294967297 is accepted as version 1, since the
  value is read with \<open>get<int>\<close>, which keeps the low 32 bits.\<close>

theorem version_check_truncates:
  "accepted wire_json ''big'' = Some (''/a.wav'', sample_options) \<and>
   j_get wire_json (sample_request (2 ^ 32 + 1)) ''version'' = Some (JInt 4294967297)"
  using sample_accepted by (simp add: sample_request_def wire_json_def mini_json_def j_get_def)

end
