(* ===== verification/Output.thy ===== *)
theory Output
  imports Config_Records
begin

text \<open>
  Text output (src/src/output/output.h, platform_output.h, output_common.cpp and the backends
  platform/output_x11.cpp, platform/output_win32.cpp): delivering a transcript by synthesized key
  strokes or through the clipboard. The abstract class \<open>PlatformOutput\<close> is a record of operations
  over the backend's state \<open>'p\<close>; its contract is the locale \<open>platform_output\<close>, which both backends
  satisfy. X11, the Win32 API and the external tools are parameters. The sleep before a paste is
  kept only for the conversion of its length, which can be undefined behaviour.
\<close>

section \<open>The interface\<close>

record 'p platform_api =
  po_initialize :: "'p \<Rightarrow> 'p"
  po_inject :: "'p \<Rightarrow> string \<Rightarrow> bool \<times> 'p"
  po_copy :: "'p \<Rightarrow> string \<Rightarrow> bool \<times> 'p"
  po_paste :: "'p \<Rightarrow> bool \<times> 'p"
  po_return :: "'p \<Rightarrow> bool \<times> 'p"
  po_can_post :: "'p \<Rightarrow> bool"
  po_can_copy :: "'p \<Rightarrow> bool"

datatype outcome = INJECTED | CLIPBOARD_PASTED | CLIPBOARD_ONLY | FAILED | NOOP_EMPTY

record 'p output_manager =
  om_config :: output_config
  om_platform :: "'p option"
  om_last_outcome :: outcome

definition output_new :: "output_config \<Rightarrow> 'p option \<Rightarrow> 'p output_manager" where
  "output_new c p = \<lparr>om_config = c, om_platform = p, om_last_outcome = NOOP_EMPTY\<rparr>"

definition output_initialize :: "'p platform_api \<Rightarrow> 'p output_manager \<Rightarrow> 'p output_manager" where
  "output_initialize P om = om\<lparr>om_platform := map_option (po_initialize P) (om_platform om)\<rparr>"

section \<open>The manager\<close>

text \<open>The text as it is delivered.\<close>

definition processed_text :: "output_config \<Rightarrow> string \<Rightarrow> string" where
  "processed_text c txt =
     (let processed = (if ou_lowercase c then lower_s txt else txt)
      in if ou_ending_action c = ''newline'' then processed @ [CHR 0x0A] else processed)"

definition end_with_return :: "'p platform_api \<Rightarrow> output_config \<Rightarrow> 'p \<Rightarrow> 'p" where
  "end_with_return P c p = (if ou_ending_action c = ''return_key'' then snd (po_return P p) else p)"

definition deliver_inject :: "'p platform_api \<Rightarrow> output_config \<Rightarrow> 'p \<Rightarrow> string \<Rightarrow> bool \<times> 'p" where
  "deliver_inject P c p txt =
     (let (ok, p1) = po_inject P p txt in if \<not> ok then (False, p1) else (True, end_with_return P c p1))"

text \<open>
  The result is the returned value, the outcome and the backend; \<open>None\<close> is undefined behaviour: the
  delay in milliseconds is no \<open>int\<close>.
\<close>

definition deliver_clipboard ::
  "'p platform_api \<Rightarrow> output_config \<Rightarrow> 'p \<Rightarrow> string \<Rightarrow> bool \<Rightarrow> (bool \<times> outcome \<times> 'p) option" where
  "deliver_clipboard P c p txt post_events_allowed =
     (if \<not> po_can_copy P p then Some (False, FAILED, p)
      else
        let (copied, p1) = po_copy P p txt
        in if \<not> copied then Some (False, FAILED, p1)
           else if \<not> ou_auto_paste c \<or> \<not> post_events_allowed then Some (True, CLIPBOARD_ONLY, p1)
           else
             case fl_to_int (fl_mul f32 (ou_paste_delay c) (Fin 1000)) of
               None \<Rightarrow> None
             | Some ms \<Rightarrow>
                 let (pasted, p2) = po_paste P p1
                 in if \<not> pasted then Some (False, CLIPBOARD_ONLY, p2)
                    else Some (True, CLIPBOARD_PASTED, end_with_return P c p2))"

text \<open>The first strategy: direct injection, with the text copied first when that is configured.\<close>

definition try_direct :: "'p platform_api \<Rightarrow> output_config \<Rightarrow> 'p \<Rightarrow> string \<Rightarrow> bool \<times> 'p" where
  "try_direct P c p processed =
     (if ou_method c = ''inject'' \<and> po_can_post P p then
        deliver_inject P c
          (if ou_also_copy c \<and> po_can_copy P p then snd (po_copy P p processed) else p) processed
      else (False, p))"

definition output_inject :: "'p platform_api \<Rightarrow> 'p output_manager \<Rightarrow> string \<Rightarrow> (bool \<times> 'p output_manager) option" where
  "output_inject P om txt =
     (if txt = [] then Some (True, om\<lparr>om_last_outcome := NOOP_EMPTY\<rparr>)
      else
        case om_platform om of
          None \<Rightarrow> Some (False, om\<lparr>om_last_outcome := FAILED\<rparr>)
        | Some p \<Rightarrow>
            let c = om_config om;
                processed = processed_text c txt;
                post_events = po_can_post P p;
                (injected, p2) = try_direct P c p processed
            in if injected then Some (True, om\<lparr>om_last_outcome := INJECTED, om_platform := Some p2\<rparr>)
               else map_option (\<lambda>(ok, oc, p3). (ok, om\<lparr>om_last_outcome := oc, om_platform := Some p3\<rparr>))
                      (deliver_clipboard P c p2 processed post_events))"

section \<open>The X11 backend\<close>

text \<open>
  \<open>xa_open\<close> and \<open>xa_focus\<close> say whether the display opens and a window has the focus,
  \<open>xa_string_to_keysym\<close> is \<open>XStringToKeysym\<close> of a one-character string (0 is \<open>NoSymbol\<close>),
  \<open>xa_keycode\<close> is \<open>XKeysymToKeycode\<close> (0 for none), \<open>xa_fake\<close> \<open>XTestFakeKeyEvent\<close>; \<open>xa_has\<close>,
  \<open>xa_run\<close> and \<open>xa_run_input\<close> are \<open>command_exists\<close>, \<open>run_command\<close> and \<open>run_command_with_input\<close>
  with the exit status, the timeout in seconds being their last argument.
\<close>

record 'w x11_api =
  xa_open :: "'w \<Rightarrow> bool"
  xa_focus :: "'w \<Rightarrow> bool"
  xa_string_to_keysym :: "char \<Rightarrow> nat"
  xa_keycode :: "'w \<Rightarrow> nat \<Rightarrow> nat"
  xa_fake :: "nat \<times> bool \<Rightarrow> 'w \<Rightarrow> 'w"
  xa_has :: "'w \<Rightarrow> string \<Rightarrow> bool"
  xa_run :: "'w \<Rightarrow> string list \<Rightarrow> nat \<Rightarrow> int \<times> 'w"
  xa_run_input :: "'w \<Rightarrow> string list \<Rightarrow> string \<Rightarrow> nat \<Rightarrow> int \<times> 'w"

record 'w x11_output =
  xo_xdotool :: bool
  xo_xclip :: bool
  xo_xsel :: bool
  xo_world :: 'w

definition x11_initialize :: "'w x11_api \<Rightarrow> 'w x11_output \<Rightarrow> 'w x11_output" where
  "x11_initialize X o1 =
     o1\<lparr>xo_xdotool := xa_has X (xo_world o1) ''xdotool'', xo_xclip := xa_has X (xo_world o1) ''xclip'',
       xo_xsel := xa_has X (xo_world o1) ''xsel''\<rparr>"

definition XK_Return :: nat where "XK_Return = 0xff0d"
definition XK_Tab :: nat where "XK_Tab = 0xff09"
definition XK_Shift_L :: nat where "XK_Shift_L = 0xffe1"

text \<open>\<open>static_cast<KeySym>(ch)\<close>: \<open>char\<close> is signed, so a byte from 0x80 on is sign-extended to 64 bits.\<close>

definition char_keysym :: "char \<Rightarrow> nat" where
  "char_keysym ch = (if code ch < 128 then code ch else 2 ^ 64 - 256 + code ch)"

definition shifted_symbols :: string where
  "shifted_symbols = ''~!@#$%^&*()_+{}|:'' @ [CHR 0x22] @ ''<>?''"

definition keysym_of :: "'w x11_api \<Rightarrow> char \<Rightarrow> nat \<times> bool" where
  "keysym_of X ch =
     (if ch = CHR 0x0A then (XK_Return, False)
      else if ch = CHR 0x09 then (XK_Tab, False)
      else
        let keysym = xa_string_to_keysym X ch
        in (if keysym = 0 then char_keysym ch else keysym, is_upper ch \<or> ch \<in> set shifted_symbols))"

text \<open>The key events of one character: nothing for a character without a key code.\<close>

definition char_events :: "'w x11_api \<Rightarrow> 'w \<Rightarrow> char \<Rightarrow> (nat \<times> bool) list" where
  "char_events X w ch =
     (let shift_code = xa_keycode X w XK_Shift_L;
          (keysym, need_shift) = keysym_of X ch;
          keycode = xa_keycode X w keysym
      in if keycode = 0 then []
         else (if need_shift then [(shift_code, True)] else []) @ [(keycode, True), (keycode, False)] @
              (if need_shift then [(shift_code, False)] else []))"

definition inject_xtest :: "'w x11_api \<Rightarrow> 'w \<Rightarrow> string \<Rightarrow> bool \<times> 'w" where
  "inject_xtest X w txt =
     (if \<not> xa_open X w then (False, w)
      else if \<not> xa_focus X w then (False, w)
      else (True, fold (xa_fake X) (concat (map (char_events X w) txt)) w))"

definition x11_inject :: "'w x11_api \<Rightarrow> 'w x11_output \<Rightarrow> string \<Rightarrow> bool \<times> 'w x11_output" where
  "x11_inject X o1 txt =
     (let (ok, w1) = inject_xtest X (xo_world o1) txt
      in if ok then (True, o1\<lparr>xo_world := w1\<rparr>)
         else if xo_xdotool o1 then
           (let (rc, w2) = xa_run X w1 [''xdotool'', ''type'', ''--clearmodifiers'', ''--'', txt] 10
            in (rc = 0, o1\<lparr>xo_world := w2\<rparr>))
         else (False, o1\<lparr>xo_world := w1\<rparr>))"

definition x11_copy :: "'w x11_api \<Rightarrow> 'w x11_output \<Rightarrow> string \<Rightarrow> bool \<times> 'w x11_output" where
  "x11_copy X o1 txt =
     (let (rc1, w1) = (if xo_xclip o1 then xa_run_input X (xo_world o1) [''xclip'', ''-selection'', ''clipboard''] txt 5
                       else (1, xo_world o1))
      in if xo_xclip o1 \<and> rc1 = 0 then (True, o1\<lparr>xo_world := w1\<rparr>)
         else
           let (rc2, w2) = (if xo_xsel o1 then xa_run_input X w1 [''xsel'', ''--clipboard'', ''--input''] txt 5
                            else (1, w1))
           in (xo_xsel o1 \<and> rc2 = 0, o1\<lparr>xo_world := w2\<rparr>))"

definition x11_key :: "'w x11_api \<Rightarrow> 'w x11_output \<Rightarrow> string \<Rightarrow> bool \<times> 'w x11_output" where
  "x11_key X o1 key =
     (if \<not> xo_xdotool o1 then (False, o1)
      else let (rc, w1) = xa_run X (xo_world o1) [''xdotool'', ''key'', ''--clearmodifiers'', key] 5
           in (rc = 0, o1\<lparr>xo_world := w1\<rparr>))"

definition x11_platform :: "'w x11_api \<Rightarrow> 'w x11_output platform_api" where
  "x11_platform X = \<lparr>po_initialize = x11_initialize X, po_inject = x11_inject X, po_copy = x11_copy X,
     po_paste = (\<lambda>o1. x11_key X o1 ''ctrl+v''), po_return = (\<lambda>o1. x11_key X o1 ''Return''),
     po_can_post = (\<lambda>o1. True), po_can_copy = (\<lambda>o1. xo_xclip o1 \<or> xo_xsel o1)\<rparr>"

section \<open>The Windows backend\<close>

text \<open>
  \<open>wa_utf16\<close> is the conversion by \<open>MultiByteToWideChar\<close> (empty when it fails), \<open>wa_send\<close> one
  \<open>SendInput\<close>; the other functions are named after the calls, with whether they succeed.
\<close>

datatype key_input = Unicode_Key "16 word" bool | Virtual_Key nat bool

record 'w win32_api =
  wa_utf16 :: "string \<Rightarrow> 16 word list"
  wa_send :: "key_input \<Rightarrow> 'w \<Rightarrow> 'w"
  wa_open_clipboard :: "'w \<Rightarrow> bool \<times> 'w"
  wa_empty_clipboard :: "'w \<Rightarrow> 'w"
  wa_alloc :: "'w \<Rightarrow> nat \<Rightarrow> bool"
  wa_set_clipboard :: "'w \<Rightarrow> 16 word list \<Rightarrow> bool \<times> 'w"
  wa_close_clipboard :: "'w \<Rightarrow> 'w"

definition VK_CONTROL :: nat where "VK_CONTROL = 0x11"
definition VK_RETURN :: nat where "VK_RETURN = 0x0D"

definition to_utf16 :: "'w win32_api \<Rightarrow> string \<Rightarrow> 16 word list" where
  "to_utf16 W s = (if s = [] then [] else wa_utf16 W s)"

definition win32_inject :: "'w win32_api \<Rightarrow> 'w \<Rightarrow> string \<Rightarrow> bool \<times> 'w" where
  "win32_inject W w txt =
     (let wide = to_utf16 W txt
      in if wide = [] \<and> txt \<noteq> [] then (False, w)
         else (True, fold (wa_send W) (concat (map (\<lambda>wc. [Unicode_Key wc False, Unicode_Key wc True]) wide)) w))"

definition win32_copy :: "'w win32_api \<Rightarrow> 'w \<Rightarrow> string \<Rightarrow> bool \<times> 'w" where
  "win32_copy W w txt =
     (let wide = to_utf16 W txt; (opened, w1) = wa_open_clipboard W w
      in if \<not> opened then (False, w1)
         else
           let w2 = wa_empty_clipboard W w1
           in if \<not> wa_alloc W w2 ((length wide + 1) * 2) then (False, wa_close_clipboard W w2)
              else let (ok, w3) = wa_set_clipboard W w2 wide in (ok, wa_close_clipboard W w3))"

definition win32_paste :: "'w win32_api \<Rightarrow> 'w \<Rightarrow> bool \<times> 'w" where
  "win32_paste W w =
     (True, fold (wa_send W) [Virtual_Key VK_CONTROL False, Virtual_Key (code CHR ''V'') False,
                              Virtual_Key (code CHR ''V'') True, Virtual_Key VK_CONTROL True] w)"

definition win32_return :: "'w win32_api \<Rightarrow> 'w \<Rightarrow> bool \<times> 'w" where
  "win32_return W w = (True, fold (wa_send W) [Virtual_Key VK_RETURN False, Virtual_Key VK_RETURN True] w)"

definition win32_platform :: "'w win32_api \<Rightarrow> 'w platform_api" where
  "win32_platform W = \<lparr>po_initialize = (\<lambda>w. w), po_inject = win32_inject W, po_copy = win32_copy W,
     po_paste = win32_paste W, po_return = win32_return W, po_can_post = (\<lambda>w. True), po_can_copy = (\<lambda>w. True)\<rparr>"

end
