(* ===== verification/Output_Laws.thy ===== *)
theory Output_Laws
  imports Output
begin

text \<open>
  The contract of a text-output backend, the guarantees of the manager over any backend that keeps
  it, and its two instances, X11 and Windows.
\<close>

section \<open>The two strategies\<close>

lemma output_inject_split:
  assumes "output_inject P om txt = Some (ok, om')" "txt \<noteq> []" "om_platform om = Some p"
    "try_direct P (om_config om) p (processed_text (om_config om) txt) = (done1, p2)"
  shows "done1 \<and> ok \<and> om' = om\<lparr>om_last_outcome := INJECTED, om_platform := Some p2\<rparr> \<or>
    \<not> done1 \<and> (\<exists>oc p3. deliver_clipboard P (om_config om) p2 (processed_text (om_config om) txt) (po_can_post P p) =
        Some (ok, oc, p3) \<and> om' = om\<lparr>om_last_outcome := oc, om_platform := Some p3\<rparr>)"
  using assms by (auto simp: output_inject_def Let_def split: if_splits)

lemma clipboard_outcome:
  "deliver_clipboard P c q s post = Some (ok, oc, q') \<Longrightarrow>
     oc \<noteq> NOOP_EMPTY \<and> oc \<noteq> INJECTED \<and> (oc = CLIPBOARD_PASTED \<longrightarrow> ok) \<and> (oc = FAILED \<longrightarrow> \<not> ok) \<and>
     (oc = CLIPBOARD_ONLY \<longrightarrow> (ok \<longleftrightarrow> \<not> ou_auto_paste c \<or> \<not> post))"
  by (auto simp: deliver_clipboard_def Let_def split: if_splits option.splits prod.splits)

lemma deliver_clipboard_no_posting:
  "deliver_clipboard P c q s False = Some (ok, oc, q') \<Longrightarrow> q' = q \<or> q' = snd (po_copy P q s)"
  by (auto simp: deliver_clipboard_def Let_def split: if_splits prod.splits)

section \<open>The contract\<close>

text \<open>
  \<open>holds p s\<close>: the clipboard of the session behind the backend holds \<open>s\<close>. A successful copy puts
  the text there, and the keys of a paste or of Return do not take it away. \<open>inv\<close> is the backend's
  invariant.
\<close>

locale platform_output =
  fixes P :: "'p platform_api" and inv :: "'p \<Rightarrow> bool" and holds :: "'p \<Rightarrow> string \<Rightarrow> bool"
  assumes copy_holds: "inv p \<Longrightarrow> po_copy P p s = (True, p') \<Longrightarrow> holds p' s"
    and paste_keeps: "inv p \<Longrightarrow> holds p s \<Longrightarrow> holds (snd (po_paste P p)) s"
    and return_keeps: "inv p \<Longrightarrow> holds p s \<Longrightarrow> holds (snd (po_return P p)) s"
    and inv_ops: "inv p \<Longrightarrow> inv (snd (po_inject P p s)) \<and> inv (snd (po_copy P p s)) \<and>
      inv (snd (po_paste P p)) \<and> inv (snd (po_return P p))"
begin

lemma return_inv: "inv p \<Longrightarrow> inv (end_with_return P c p)"
  by (simp add: end_with_return_def inv_ops)

lemma return_holds: "inv p \<Longrightarrow> holds p s \<Longrightarrow> holds (end_with_return P c p) s"
  by (simp add: end_with_return_def return_keeps)

lemma clipboard_delivers:
  assumes "inv p" "deliver_clipboard P c p s post = Some (ok, oc, p')"
  shows "inv p' \<and> (oc \<in> {CLIPBOARD_PASTED, CLIPBOARD_ONLY} \<longrightarrow> holds p' s)"
proof -
  obtain copied p1 where c: "po_copy P p s = (copied, p1)" by fastforce
  then have p1: "inv p1" "copied \<Longrightarrow> holds p1 s" using inv_ops [OF assms(1), of s] copy_holds [OF assms(1)] by auto
  obtain pasted p2 where q: "po_paste P p1 = (pasted, p2)" by fastforce
  then have p2: "inv p2" "copied \<Longrightarrow> holds p2 s" using inv_ops [OF p1(1)] paste_keeps [OF p1(1), of s] p1 by auto
  show ?thesis
    using assms(2) assms(1) c q p1 p2 return_inv [OF p2(1)] return_holds [OF p2(1)]
    by (auto simp: deliver_clipboard_def split: if_splits option.splits)
qed

lemma delivers:
  assumes p: "inv p" "om_platform om = Some p" and run: "output_inject P om txt = Some (ok, om')"
  shows "\<exists>p'. om_platform om' = Some p' \<and> inv p' \<and>
    (om_last_outcome om' \<in> {CLIPBOARD_PASTED, CLIPBOARD_ONLY} \<longrightarrow>
       holds p' (processed_text (om_config om) txt))"
proof (cases "txt = []")
  case True
  then show ?thesis using assms by (auto simp: output_inject_def)
next
  case False
  let ?c = "om_config om"
  let ?s = "processed_text ?c txt"
  obtain done1 p2 where i: "try_direct P ?c p ?s = (done1, p2)" by fastforce
  then have p2: "inv p2" using p(1) inv_ops return_inv
    by (auto simp: try_direct_def deliver_inject_def Let_def split: if_splits prod.splits) (metis snd_conv)+
  show ?thesis
    using output_inject_split [OF run False p(2) i] p2 clipboard_delivers [OF p2] by auto
qed

end

section \<open>The X11 session keeps the contract\<close>

text \<open>
  What is relied on of the tools, with \<open>clip\<close> the clipboard of a session: \<open>xclip\<close> and \<open>xsel\<close> exit
  with status 0 only when they have taken their input as the clipboard, and \<open>xdotool\<close> does not
  change the clipboard.
\<close>

definition x11_tools_ok :: "'w x11_api \<Rightarrow> ('w \<Rightarrow> string option) \<Rightarrow> bool" where
  "x11_tools_ok X clip \<longleftrightarrow>
     (\<forall>w s t w'. xa_run_input X w [''xclip'', ''-selection'', ''clipboard''] s t = (0, w') \<longrightarrow> clip w' = Some s) \<and>
     (\<forall>w s t w'. xa_run_input X w [''xsel'', ''--clipboard'', ''--input''] s t = (0, w') \<longrightarrow> clip w' = Some s) \<and>
     (\<forall>w args t. clip (snd (xa_run X w (''xdotool'' # args) t)) = clip w)"

interpretation x11: platform_output "x11_platform X" "\<lambda>_. x11_tools_ok X clip" "\<lambda>o1 s. clip (xo_world o1) = Some s"
  for X :: "'w x11_api" and clip
  by unfold_locales
     (auto simp: x11_platform_def x11_copy_def x11_key_def x11_tools_ok_def Let_def split: if_splits prod.splits,
      (metis snd_conv)+)

section \<open>The Windows session keeps the contract\<close>

definition win32_ok :: "'w win32_api \<Rightarrow> ('w \<Rightarrow> 16 word list) \<Rightarrow> bool" where
  "win32_ok W clip \<longleftrightarrow>
     (\<forall>w u w'. wa_set_clipboard W w u = (True, w') \<longrightarrow> clip w' = u) \<and>
     (\<forall>w. clip (wa_close_clipboard W w) = clip w) \<and> (\<forall>k w. clip (wa_send W k w) = clip w)"

interpretation win32: platform_output "win32_platform W" "\<lambda>_. win32_ok W clip" "\<lambda>w s. clip w = to_utf16 W s"
  for W :: "'w win32_api" and clip
  by unfold_locales
     (auto simp: win32_platform_def win32_copy_def win32_paste_def win32_return_def win32_ok_def Let_def
       split: if_splits prod.splits)

section \<open>The keys an injection presses\<close>

text \<open>The keys held down after a sequence of press and release events, from those held before.\<close>

fun held_after :: "(nat \<times> bool) list \<Rightarrow> nat set \<Rightarrow> nat set" where
  "held_after [] H = H"
| "held_after ((k, down) # es) H = held_after es (if down then insert k H else H - {k})"

lemma held_after_append: "held_after (es @ fs) H = held_after fs (held_after es H)"
  by (induction es H rule: held_after.induct) auto

lemma char_events_release: "held_after (char_events X w ch) {} = {}"
  by (auto simp: char_events_def Let_def split: prod.splits)

lemma text_events_release: "held_after (concat (map (char_events X w) s)) {} = {}"
  by (induction s) (auto simp: held_after_append char_events_release)

text \<open>The keys a sequence of events presses, other than the shift key.\<close>

definition keys_pressed :: "nat \<Rightarrow> (nat \<times> bool) list \<Rightarrow> nat list" where
  "keys_pressed shift es = map fst (filter (\<lambda>(k, down). down \<and> k \<noteq> shift) es)"

definition char_keycode :: "'w x11_api \<Rightarrow> 'w \<Rightarrow> char \<Rightarrow> nat" where
  "char_keycode X w ch = xa_keycode X w (fst (keysym_of X ch))"

lemma keys_pressed_char:
  "keys_pressed (xa_keycode X w XK_Shift_L) (char_events X w ch) =
     (if char_keycode X w ch \<in> {0, xa_keycode X w XK_Shift_L} then [] else [char_keycode X w ch])"
  by (auto simp: keys_pressed_def char_events_def char_keycode_def Let_def split: prod.splits)

lemma keys_pressed_text:
  "keys_pressed (xa_keycode X w XK_Shift_L) (concat (map (char_events X w) s)) =
     filter (\<lambda>k. k \<notin> {0, xa_keycode X w XK_Shift_L}) (map (char_keycode X w) s)"
  by (induction s) (auto simp: keys_pressed_char [unfolded keys_pressed_def] keys_pressed_def)

section \<open>Properties\<close>

text \<open>C34: A transcript is not lost on X11: whenever the manager reports that the text went by the
  clipboard, pasted or not, the session's clipboard holds exactly the text as it was to be
  delivered, lower-cased and ended as configured, even when the paste or the Return key after it
  failed.\<close>

theorem clipboard_holds_transcript:
  assumes "x11_tools_ok X clip" "om_platform om = Some p"
    "output_inject (x11_platform X) om txt = Some (ok, om')"
    "om_last_outcome om' = CLIPBOARD_PASTED \<or> om_last_outcome om' = CLIPBOARD_ONLY"
  shows "\<exists>p'. om_platform om' = Some p' \<and> clip (xo_world p') = Some (processed_text (om_config om) txt)"
  using x11.delivers [OF assms(1-3)] assms(4) by auto


text \<open>Direct injection on X11 leaves no key down, and it types exactly the characters the keyboard
  has a key code for, in order. It succeeds all the same when it has dropped others, as it does with
  every byte of a non-ASCII character on a keyboard without those key symbols, so the manager does
  not fall back to the clipboard for such text.\<close>

theorem x11_injection:
  "\<exists>es. inject_xtest X w txt = (xa_open X w \<and> xa_focus X w, fold (xa_fake X) es w) \<and>
     held_after es {} = {} \<and>
     (if xa_open X w \<and> xa_focus X w then
        keys_pressed (xa_keycode X w XK_Shift_L) es =
          filter (\<lambda>k. k \<notin> {0, xa_keycode X w XK_Shift_L}) (map (char_keycode X w) txt)
      else es = [])"
proof (cases "xa_open X w \<and> xa_focus X w")
  case True
  then show ?thesis
    by (intro exI [of _ "concat (map (char_events X w) txt)"])
       (simp add: inject_xtest_def text_events_release keys_pressed_text)
qed (auto simp: inject_xtest_def)

section \<open>Examples\<close>

definition demo_session :: "(string option) x11_api" where
  "demo_session = \<lparr>xa_open = (\<lambda>w. False), xa_focus = (\<lambda>w. False), xa_string_to_keysym = code, xa_keycode = (\<lambda>w k. k),
     xa_fake = (\<lambda>e w. w), xa_has = (\<lambda>w c. True), xa_run = (\<lambda>w args t. (1, w)),
     xa_run_input = (\<lambda>w args s t. (0, Some s))\<rparr>"

definition demo_output :: "(string option) x11_output output_manager" where
  "demo_output = output_new (default_output\<lparr>ou_lowercase := True, ou_auto_paste := False\<rparr>)
     (Some (x11_initialize demo_session \<lparr>xo_xdotool = False, xo_xclip = False, xo_xsel = False, xo_world = None\<rparr>))"

lemma demo_run:
  "\<exists>om'. output_inject (x11_platform demo_session) demo_output ''Hi'' = Some (True, om') \<and>
     om_last_outcome om' = CLIPBOARD_ONLY"
  by (simp add: output_inject_def try_direct_def demo_output_def output_new_def demo_session_def x11_initialize_def x11_platform_def
      default_output_def Let_def deliver_inject_def x11_inject_def inject_xtest_def deliver_clipboard_def x11_copy_def
      processed_text_def)

theorem clipboard_holds_transcript_witness:
  "\<exists>om' p'. output_inject (x11_platform demo_session) demo_output ''Hi'' = Some (True, om') \<and>
     om_platform om' = Some p' \<and> xo_world p' = Some (processed_text (om_config demo_output) ''Hi'')"
proof -
  have ok: "x11_tools_ok demo_session (\<lambda>w. w)" by (simp add: x11_tools_ok_def demo_session_def)
  obtain om' where r: "output_inject (x11_platform demo_session) demo_output ''Hi'' = Some (True, om')"
    "om_last_outcome om' = CLIPBOARD_ONLY" using demo_run by blast
  obtain p where p: "om_platform demo_output = Some p" by (simp add: demo_output_def output_new_def)
  from clipboard_holds_transcript [OF ok p r(1)] r show ?thesis by blast
qed


text \<open>A non-ASCII text vanishes: both bytes of an e with an acute accent have no key code here.\<close>

theorem non_ascii_dropped:
  "inject_xtest (demo_session\<lparr>xa_open := \<lambda>w. True, xa_focus := \<lambda>w. True, xa_string_to_keysym := \<lambda>c. 0,
     xa_keycode := \<lambda>w k. if k < 128 then k else 0, xa_fake := \<lambda>e w. Some ''typed''\<rparr>) None [CHR 0xC3, CHR 0xA9] = (True, None)"
  by (simp add: inject_xtest_def demo_session_def char_events_def keysym_of_def char_keysym_def code_def Let_def
      is_upper_def shifted_symbols_def)

end
