(* ===== verification/Audio.thy ===== *)
theory Audio
  imports Config_Records
begin

text \<open>
  Recording (src/src/audio/audio.h, audio.cpp): the capture buffer, its callback, and the trimming of
  silence. The capture device of miniaudio is a parameter: whether it can be initialised and
  started, what it delivers, and which devices exist. The second half models the locking of
  \<open>stop_recording\<close> against the callback, as a step relation.
\<close>

section \<open>The manager\<close>

record audio_manager =
  am_config :: audio_config
  am_buffer :: "fl list list"
  am_recording :: bool
  am_peak :: fl
  am_input_device_name :: string
  am_output_device_name :: string
  am_max_samples :: int
  am_silence_threshold_samples :: int
  am_device_initialized :: bool

text \<open>
  The constructor converts the two durations to sample counts; \<open>None\<close> is undefined behaviour, a
  count that is no \<open>int\<close>.
\<close>

definition seconds_to_samples :: "fl \<Rightarrow> int \<Rightarrow> int option" where
  "seconds_to_samples d rate = fl_to_int (fl_mul f32 d (f32 (of_int rate)))"

definition audio_new :: "audio_config \<Rightarrow> audio_manager option" where
  "audio_new c =
     (case (seconds_to_samples (au_max_duration c) (au_sample_rate c),
            seconds_to_samples (au_silence_duration c) (au_sample_rate c)) of
        (Some m, Some q) \<Rightarrow>
          Some \<lparr>am_config = c, am_buffer = [], am_recording = False, am_peak = Fin 0,
                am_input_device_name = ''Unknown'', am_output_device_name = ''Unknown'',
                am_max_samples = m, am_silence_threshold_samples = q, am_device_initialized = False\<rparr>
      | _ \<Rightarrow> None)"

text \<open>The devices the library enumerates, with whether each is the default one.\<close>

record device_lists =
  dl_capture :: "(string \<times> bool) list"
  dl_playback :: "(string \<times> bool) list"

definition default_name :: "(string \<times> bool) list \<Rightarrow> string \<Rightarrow> string" where
  "default_name ds old = (case find snd ds of Some d \<Rightarrow> fst d | None \<Rightarrow> old)"

definition audio_initialize :: "device_lists option \<Rightarrow> audio_manager \<Rightarrow> audio_manager" where
  "audio_initialize devs m =
     (case devs of
        None \<Rightarrow> m
      | Some d \<Rightarrow> m\<lparr>am_input_device_name := default_name (dl_capture d) (am_input_device_name m),
                    am_output_device_name := default_name (dl_playback d) (am_output_device_name m)\<rparr>)"

definition list_devices :: "device_lists option \<Rightarrow> (nat \<times> string) list \<times> (nat \<times> string) list" where
  "list_devices devs =
     (case devs of
        None \<Rightarrow> ([], [])
      | Some d \<Rightarrow> (zip [0..<length (dl_capture d)] (map fst (dl_capture d)),
                   zip [0..<length (dl_playback d)] (map fst (dl_playback d))))"

definition total_samples :: "audio_manager \<Rightarrow> nat" where
  "total_samples m = sum_list (map length (am_buffer m))"

definition chunk_peak :: "fl list \<Rightarrow> fl" where
  "chunk_peak chunk = foldl (\<lambda>peak s. fl_max peak (fl_abs s)) (Fin 0) chunk"

text \<open>
  The callback: \<open>input\<close> is what the device delivers for \<open>frame_count\<close> frames, all channels
  interleaved, or \<open>None\<close> for the null pointer. The code takes the first \<open>frame_count\<close> samples.
\<close>

definition audio_callback :: "fl list option \<Rightarrow> nat \<Rightarrow> audio_manager \<Rightarrow> audio_manager" where
  "audio_callback input frame_count m =
     (if \<not> am_recording m then m
      else case input of
        None \<Rightarrow> m
      | Some samples \<Rightarrow>
          let chunk = take frame_count samples;
              m1 = m\<lparr>am_peak := fl_max (chunk_peak chunk) (fl_mul f32 (am_peak m) (f32 (82 / 100)))\<rparr>
          in if am_max_samples m \<le> to_int32 (int (total_samples m1 + length chunk)) then m1
             else m1\<lparr>am_buffer := am_buffer m1 @ [chunk]\<rparr>)"

definition start_recording :: "bool \<Rightarrow> bool \<Rightarrow> audio_manager \<Rightarrow> audio_manager" where
  "start_recording init_ok start_ok m =
     (if am_recording m then m
      else
        let m1 = m\<lparr>am_buffer := []\<rparr>
        in if \<not> init_ok then m1
           else if \<not> start_ok then m1\<lparr>am_device_initialized := False\<rparr>
           else m1\<lparr>am_device_initialized := True, am_peak := Fin 0, am_recording := True\<rparr>)"

definition stop_recording :: "audio_manager \<Rightarrow> fl list \<times> audio_manager" where
  "stop_recording m =
     (if \<not> am_recording m then ([], m)
      else
        let m1 = m\<lparr>am_recording := False, am_device_initialized := False\<rparr>
        in if am_buffer m1 = [] then ([], m1) else (concat (am_buffer m1), m1\<lparr>am_buffer := []\<rparr>))"

text \<open>\<open>static_cast<float>(total) / sample_rate\<close>.\<close>

definition seconds_of :: "nat \<Rightarrow> int \<Rightarrow> fl" where
  "seconds_of n rate = fl_div f32 (f32 (of_nat n)) (f32 (of_int rate))"

definition get_duration :: "audio_manager \<Rightarrow> fl" where
  "get_duration m = seconds_of (total_samples m) (au_sample_rate (am_config m))"

section \<open>Trimming silence\<close>

definition loud :: "fl \<Rightarrow> fl \<Rightarrow> bool" where
  "loud threshold s \<longleftrightarrow> fl_lt threshold (fl_abs s)"

fun first_loud :: "fl \<Rightarrow> fl list \<Rightarrow> nat \<Rightarrow> nat" where
  "first_loud th [] i = 0"
| "first_loud th (s # ss) i = (if loud th s then i else first_loud th ss (Suc i))"

fun last_loud :: "fl \<Rightarrow> fl list \<Rightarrow> nat \<Rightarrow> nat" where
  "last_loud th audio 0 = length audio"
| "last_loud th audio (Suc i) = (if loud th (audio ! i) then Suc i else last_loud th audio i)"

text \<open>
  The padding is an \<open>int\<close> that is converted to \<open>size_t\<close>; the addition wraps. \<open>None\<close> is undefined
  behaviour: a range that ends before it starts.
\<close>

definition pad_samples :: "int \<Rightarrow> int option" where
  "pad_samples rate = fl_to_int (fl_mul f32 (f32 (5 / 100)) (f32 (of_int rate)))"

definition trim_silence :: "int \<Rightarrow> fl \<Rightarrow> fl list \<Rightarrow> fl list option" where
  "trim_silence rate threshold audio =
     (if audio = [] then Some audio
      else
        let start = first_loud threshold audio 0; stop = last_loud threshold audio (length audio)
        in if stop \<le> start then Some []
           else
             case pad_samples rate of
               None \<Rightarrow> None
             | Some pad \<Rightarrow>
                 let padu = nat (pad mod 2 ^ 64);
                     start = (if padu < start then start - padu else 0);
                     stop = min ((stop + padu) mod 2 ^ 64) (length audio)
                 in if stop < start then None else Some (take (stop - start) (drop start audio)))"

text \<open>The threshold argument's default.\<close>

definition default_threshold :: fl where
  "default_threshold = f32 (1 / 100)"

section \<open>Stopping against the callback\<close>

text \<open>
  \<open>stop_recording\<close> holds the mutex for its whole body; inside it \<open>ma_device_stop\<close> waits for the
  device's thread to be outside the callback. The callback checks the flag and then takes the mutex
  twice, once to count and once to append. The two threads' program points, the owner of the mutex
  and the flag are the state; each rule is one step of one thread.
\<close>

datatype callback_point = Cb_Out | Cb_Checked | Cb_Counting | Cb_Counted | Cb_Appending
datatype main_point = Mn_Idle | Mn_Locked | Mn_Waiting | Mn_Done
datatype mutex_owner = Nobody | By_Callback | By_Main

record audio_threads =
  at_cb :: callback_point
  at_main :: main_point
  at_owner :: mutex_owner
  at_recording :: bool

inductive at_step :: "audio_threads \<Rightarrow> audio_threads \<Rightarrow> bool" where
  cb_enter: "at_cb s = Cb_Out \<Longrightarrow> at_recording s \<Longrightarrow> at_main s \<noteq> Mn_Done \<Longrightarrow> at_step s (s\<lparr>at_cb := Cb_Checked\<rparr>)"
| cb_lock: "at_cb s = Cb_Checked \<Longrightarrow> at_owner s = Nobody \<Longrightarrow>
    at_step s (s\<lparr>at_cb := Cb_Counting, at_owner := By_Callback\<rparr>)"
| cb_full: "at_cb s = Cb_Counting \<Longrightarrow> at_step s (s\<lparr>at_cb := Cb_Out, at_owner := Nobody\<rparr>)"
| cb_room: "at_cb s = Cb_Counting \<Longrightarrow> at_step s (s\<lparr>at_cb := Cb_Counted, at_owner := Nobody\<rparr>)"
| cb_lock2: "at_cb s = Cb_Counted \<Longrightarrow> at_owner s = Nobody \<Longrightarrow>
    at_step s (s\<lparr>at_cb := Cb_Appending, at_owner := By_Callback\<rparr>)"
| cb_leave: "at_cb s = Cb_Appending \<Longrightarrow> at_step s (s\<lparr>at_cb := Cb_Out, at_owner := Nobody\<rparr>)"
| main_lock: "at_main s = Mn_Idle \<Longrightarrow> at_owner s = Nobody \<Longrightarrow>
    at_step s (s\<lparr>at_main := Mn_Locked, at_owner := By_Main\<rparr>)"
| main_flag: "at_main s = Mn_Locked \<Longrightarrow> at_step s (s\<lparr>at_main := Mn_Waiting, at_recording := False\<rparr>)"
| main_stopped: "at_main s = Mn_Waiting \<Longrightarrow> at_cb s = Cb_Out \<Longrightarrow>
    at_step s (s\<lparr>at_main := Mn_Done, at_owner := Nobody\<rparr>)"

definition at_init :: audio_threads where
  "at_init = \<lparr>at_cb = Cb_Out, at_main = Mn_Idle, at_owner = Nobody, at_recording = True\<rparr>"

inductive at_reachable :: "audio_threads \<Rightarrow> bool" where
  at_start: "at_reachable at_init"
| at_next: "at_reachable s \<Longrightarrow> at_step s t \<Longrightarrow> at_reachable t"

inductive_simps at_step_iff: "at_step s t"

section \<open>Facts\<close>

lemma first_loud_spec:
  "first_loud th audio i = (if \<exists>k < length audio. loud th (audio ! k)
     then i + (LEAST k. k < length audio \<and> loud th (audio ! k)) else 0)"
proof (induction th audio i rule: first_loud.induct)
  case (2 th s ss i)
  let ?P = "\<lambda>k. k < length (s # ss) \<and> loud th ((s # ss) ! k)"
  show ?case
  proof (cases "loud th s")
    case True
    then have "(LEAST k. ?P k) = 0" by (intro Least_equality) auto
    moreover have "\<exists>k < length (s # ss). loud th ((s # ss) ! k)" using True by (intro exI [of _ 0]) simp
    ultimately show ?thesis using True by simp
  next
    case False
    have ex: "(\<exists>k < length (s # ss). loud th ((s # ss) ! k)) \<longleftrightarrow> (\<exists>k < length ss. loud th (ss ! k))"
      using False by (simp add: Ex_less_Suc2)
    show ?thesis
    proof (cases "\<exists>k < length ss. loud th (ss ! k)")
      case True
      then obtain k where "k < length ss" "loud th (ss ! k)" by blast
      then have "?P (Suc k)" by simp
      then have "(LEAST k. ?P k) = Suc (LEAST k. ?P (Suc k))" using False by (intro Least_Suc [of ?P "Suc k"]) auto
      with True False ex 2 show ?thesis by simp
    next
      case none: False
      then have "\<not> (\<exists>k < length (s # ss). loud th ((s # ss) ! k))" using ex by simp
      then show ?thesis using False none 2 by (simp only: first_loud.simps if_False not_False_eq_True simp_thms)
    qed
  qed
qed simp

lemma last_loud_spec:
  "(\<exists>k < n. loud th (audio ! k)) \<Longrightarrow>
     0 < last_loud th audio n \<and> last_loud th audio n \<le> n \<and> loud th (audio ! (last_loud th audio n - 1)) \<and>
     (\<forall>k < n. loud th (audio ! k) \<longrightarrow> k < last_loud th audio n)"
proof (induction n)
  case (Suc n)
  show ?case
  proof (cases "loud th (audio ! n)")
    case False
    then have "\<exists>k < n. loud th (audio ! k)" using Suc.prems less_Suc_eq by auto
    with False Suc.IH show ?thesis by (auto simp: less_Suc_eq)
  qed auto
qed simp

lemma last_loud_none: "(\<forall>k < n. \<not> loud th (audio ! k)) \<Longrightarrow> last_loud th audio n = length audio"
  by (induction n) auto

text \<open>The two bounds, when there is a loud sample.\<close>

lemma loud_range:
  assumes "\<exists>k < length audio. loud th (audio ! k)"
  shows "first_loud th audio 0 < last_loud th audio (length audio)"
    "k < length audio \<Longrightarrow> loud th (audio ! k) \<Longrightarrow> first_loud th audio 0 \<le> k \<and> k < last_loud th audio (length audio)"
    "last_loud th audio (length audio) \<le> length audio"
proof -
  let ?L = "LEAST k. k < length audio \<and> loud th (audio ! k)"
  have f: "first_loud th audio 0 = ?L" using assms by (simp add: first_loud_spec)
  have L: "?L < length audio \<and> loud th (audio ! ?L)" by (rule LeastI_ex) (use assms in blast)
  note l = last_loud_spec [OF assms]
  from L l show "first_loud th audio 0 < last_loud th audio (length audio)" by (simp add: f)
  show "k < length audio \<Longrightarrow> loud th (audio ! k) \<Longrightarrow> first_loud th audio 0 \<le> k \<and> k < last_loud th audio (length audio)"
    using l by (auto simp: f intro: Least_le)
  show "last_loud th audio (length audio) \<le> length audio" using l by simp
qed

text \<open>The padding at the sampling rates a configuration can hold.\<close>

definition sane_rate :: "int \<Rightarrow> bool" where
  "sane_rate rate \<longleftrightarrow> (\<exists>pad. pad_samples rate = Some pad \<and> 0 \<le> pad)"

lemma fl_to_int_bound: "fl_to_int x = Some i \<Longrightarrow> i < 2 ^ 31"
  by (cases x) (auto simp: Let_def split: if_splits)

lemma trim_silence_range:
  assumes "sane_rate rate" "audio \<noteq> []" "length audio < 2 ^ 63"
  shows "\<exists>a b. trim_silence rate th audio = Some (take (b - a) (drop a audio)) \<and> a < b \<and> b \<le> length audio \<and>
    (\<forall>k < length audio. loud th (audio ! k) \<longrightarrow> a \<le> k \<and> k < b) \<and>
    ((\<exists>k < length audio. loud th (audio ! k)) \<or> (a = 0 \<and> b = length audio))"
proof -
  obtain pad where pad: "pad_samples rate = Some pad" "0 \<le> pad"
    using assms(1) by (auto simp: sane_rate_def)
  have pb: "pad < 2 ^ 31" by (rule fl_to_int_bound [OF pad(1) [unfolded pad_samples_def]])
  then have padu: "nat (pad mod 2 ^ 64) = nat pad" using pad(2) by simp
  let ?s = "first_loud th audio 0" and ?e = "last_loud th audio (length audio)"
  have se: "?s < ?e \<and> ?e \<le> length audio"
  proof (cases "\<exists>k < length audio. loud th (audio ! k)")
    case True
    then show ?thesis using loud_range [OF True] by simp
  next
    case False
    then have "first_loud th audio 0 = 0" by (auto simp: first_loud_spec)
    with False assms(2) show ?thesis by (simp add: last_loud_none)
  qed
  have "nat pad < 2 ^ 31" using pb pad(2) by (simp add: nat_less_iff)
  then have wrap: "(?e + nat pad) mod 2 ^ 64 = ?e + nat pad" using se assms(3) by simp
  define a where "a = (if nat pad < ?s then ?s - nat pad else 0)"
  define b where "b = min (?e + nat pad) (length audio)"
  have ab: "a \<le> ?s" "?e \<le> b" "b \<le> length audio" "a < b" using se by (auto simp: a_def b_def)
  have "trim_silence rate th audio = Some (take (b - a) (drop a audio))"
  proof -
    have c: "audio = [] \<longleftrightarrow> False" "?e \<le> ?s \<longleftrightarrow> False" "b < a \<longleftrightarrow> False"
      using assms(2) se ab(4) by auto
    show ?thesis
      unfolding trim_silence_def Let_def pad(1) option.case padu wrap a_def [symmetric] b_def [symmetric]
      by (simp only: c if_False)
  qed
  moreover have "\<forall>k < length audio. loud th (audio ! k) \<longrightarrow> a \<le> k \<and> k < b"
  proof (intro allI impI)
    fix k
    assume k: "k < length audio" "loud th (audio ! k)"
    then have "?s \<le> k \<and> k < ?e" using loud_range(2) [of audio th k] by blast
    then show "a \<le> k \<and> k < b" using ab by linarith
  qed
  moreover have "a = 0 \<and> b = length audio" if "\<not> (\<exists>k < length audio. loud th (audio ! k))"
  proof -
    have "?s = 0" "?e = length audio" using that by (auto simp: first_loud_spec last_loud_none)
    then show ?thesis by (simp add: a_def b_def)
  qed
  ultimately show ?thesis using ab by blast
qed

section \<open>A recording\<close>

text \<open>
  The invariant of a recording: the buffer is empty or below the limit. The sizes assumed are far
  above what a device delivers and a configuration allows; they keep the sum within an \<open>int\<close>.
\<close>

definition within_limit :: "audio_manager \<Rightarrow> bool" where
  "within_limit m \<longleftrightarrow> am_buffer m = [] \<or> int (total_samples m) < am_max_samples m"

lemma to_int32_small: "n < 2 ^ 31 \<Longrightarrow> to_int32 (int n) = int n"
proof -
  assume "n < 2 ^ 31"
  then have "in_int (int n)" by (simp add: in_int_def)
  then show ?thesis by (rule to_int32_id)
qed

lemma callback_kept:
  assumes m: "within_limit m" "am_max_samples m \<le> 2 ^ 30" "frame_count < 2 ^ 30" "am_recording m"
  shows "within_limit (audio_callback input frame_count m) \<and>
    am_max_samples (audio_callback input frame_count m) = am_max_samples m \<and>
    am_recording (audio_callback input frame_count m) \<and>
    (am_buffer (audio_callback input frame_count m) = am_buffer m \<or>
     (\<exists>samples. input = Some samples \<and>
        am_buffer (audio_callback input frame_count m) = am_buffer m @ [take frame_count samples]))"
proof (cases input)
  case (Some samples)
  have "total_samples m < 2 ^ 30" using m(1,2) by (auto simp: within_limit_def total_samples_def)
  moreover have "length (take frame_count samples) < 2 ^ 30" using m(3) by simp
  ultimately have "total_samples m + length (take frame_count samples) < 2 ^ 31" by simp
  note id = to_int32_small [OF this]
  show ?thesis
    using m(1,4) Some id by (auto simp: audio_callback_def within_limit_def Let_def total_samples_def)
qed (use m in \<open>simp add: audio_callback_def\<close>)

definition run_callbacks :: "(fl list option \<times> nat) list \<Rightarrow> audio_manager \<Rightarrow> audio_manager" where
  "run_callbacks cbs m = fold (\<lambda>(input, n). audio_callback input n) cbs m"

text \<open>What the device delivered, chunk by chunk.\<close>

definition delivered_chunks :: "(fl list option \<times> nat) list \<Rightarrow> fl list list" where
  "delivered_chunks cbs = concat (map (\<lambda>(input, n). case input of Some samples \<Rightarrow> [take n samples] | None \<Rightarrow> []) cbs)"

lemma run_callbacks_kept:
  assumes "within_limit m" "am_max_samples m \<le> 2 ^ 30" "list_all (\<lambda>(input, n). n < 2 ^ 30) cbs" "am_recording m"
  shows "within_limit (run_callbacks cbs m) \<and> am_recording (run_callbacks cbs m) \<and>
    am_max_samples (run_callbacks cbs m) = am_max_samples m \<and>
    (\<exists>kept. am_buffer (run_callbacks cbs m) = am_buffer m @ kept \<and> subseq kept (delivered_chunks cbs))"
  using assms
proof (induction cbs arbitrary: m)
  case (Cons cb cbs)
  obtain input n where cb: "cb = (input, n)" by fastforce
  let ?m = "audio_callback input n m"
  have k: "within_limit ?m" "am_max_samples ?m = am_max_samples m" "am_recording ?m"
    "am_buffer ?m = am_buffer m \<or> (\<exists>samples. input = Some samples \<and> am_buffer ?m = am_buffer m @ [take n samples])"
    using callback_kept [of m n input] Cons.prems cb by auto
  then obtain kept where ih: "within_limit (run_callbacks cbs ?m)" "am_recording (run_callbacks cbs ?m)"
    "am_max_samples (run_callbacks cbs ?m) = am_max_samples m"
    "am_buffer (run_callbacks cbs ?m) = am_buffer ?m @ kept" "subseq kept (delivered_chunks cbs)"
    using Cons.IH [of ?m] Cons.prems by auto
  have run: "run_callbacks (cb # cbs) m = run_callbacks cbs ?m" by (simp add: run_callbacks_def cb)
  have "\<exists>kept'. am_buffer ?m @ kept = am_buffer m @ kept' \<and> subseq kept' (delivered_chunks (cb # cbs))"
    using k(4) ih(5) by (auto simp: cb delivered_chunks_def split: option.split intro: list_emb_append2)
  with ih show ?case unfolding run by auto
qed (simp add: run_callbacks_def delivered_chunks_def)

text \<open>Below the limit every chunk is kept.\<close>

lemma callback_appends:
  assumes "am_recording m" "am_max_samples m \<le> 2 ^ 30"
    "int (total_samples m) + int (length (take n samples)) < am_max_samples m"
  shows "am_buffer (audio_callback (Some samples) n m) = am_buffer m @ [take n samples] \<and>
    am_recording (audio_callback (Some samples) n m) \<and>
    am_max_samples (audio_callback (Some samples) n m) = am_max_samples m \<and>
    am_config (audio_callback (Some samples) n m) = am_config m"
proof -
  have "total_samples m + length (take n samples) < 2 ^ 31" using assms(2,3) by simp
  then have "to_int32 (int (total_samples m + length (take n samples))) = int (total_samples m + length (take n samples))"
    by (rule to_int32_small)
  then show ?thesis using assms by (auto simp: audio_callback_def Let_def total_samples_def)
qed

lemma run_callbacks_all:
  assumes "am_recording m" "am_max_samples m \<le> 2 ^ 30"
    "int (total_samples m) + int (length (concat (delivered_chunks cbs))) < am_max_samples m"
  shows "am_buffer (run_callbacks cbs m) = am_buffer m @ delivered_chunks cbs \<and> am_recording (run_callbacks cbs m) \<and>
    am_config (run_callbacks cbs m) = am_config m"
  using assms
proof (induction cbs arbitrary: m)
  case (Cons cb cbs)
  obtain input n where cb: "cb = (input, n)" by fastforce
  show ?case
  proof (cases input)
    case None
    then show ?thesis using Cons by (simp add: cb run_callbacks_def delivered_chunks_def audio_callback_def)
  next
    case (Some samples)
    have a: "am_buffer (audio_callback input n m) = am_buffer m @ [take n samples]"
      "am_recording (audio_callback input n m)" "am_max_samples (audio_callback input n m) = am_max_samples m"
      "am_config (audio_callback input n m) = am_config m"
      using callback_appends [of m n samples] Cons.prems Some by (auto simp: cb delivered_chunks_def)
    then have "int (total_samples (audio_callback input n m)) + int (length (concat (delivered_chunks cbs))) <
        am_max_samples (audio_callback input n m)"
      using Cons.prems(3) Some by (simp add: cb delivered_chunks_def total_samples_def)
    from Cons.IH [OF a(2) _ this] a Cons.prems(2) show ?thesis
      by (simp add: cb run_callbacks_def delivered_chunks_def Some)
  qed
qed (simp add: run_callbacks_def delivered_chunks_def)

section \<open>The two threads\<close>

definition at_inv :: "audio_threads \<Rightarrow> bool" where
  "at_inv s \<longleftrightarrow>
     (at_owner s = By_Callback \<longleftrightarrow> at_cb s = Cb_Counting \<or> at_cb s = Cb_Appending) \<and>
     (at_owner s = By_Main \<longleftrightarrow> at_main s = Mn_Locked \<or> at_main s = Mn_Waiting) \<and>
     (at_recording s \<longleftrightarrow> at_main s = Mn_Idle \<or> at_main s = Mn_Locked) \<and>
     (at_main s = Mn_Done \<longrightarrow> at_cb s = Cb_Out)"

lemma at_inv_step: "at_step s t \<Longrightarrow> at_inv s \<Longrightarrow> at_inv t"
  by (induction rule: at_step.induct) (auto simp: at_inv_def)

lemma at_inv_reachable: "at_reachable s \<Longrightarrow> at_inv s"
proof (induction rule: at_reachable.induct)
  case at_start
  show ?case by (simp add: at_inv_def at_init_def)
next
  case (at_next s t)
  then show ?case by (blast intro: at_inv_step)
qed

lemma stuck_shape:
  assumes inv: "at_inv s" and stuck: "\<And>t. \<not> at_step s t"
  shows "at_main s = Mn_Done \<or> at_main s = Mn_Waiting \<and> (at_cb s = Cb_Checked \<or> at_cb s = Cb_Counted)"
proof (cases "at_main s")
  case Mn_Idle
  have "at_owner s \<noteq> Nobody" using stuck main_lock [OF Mn_Idle] by blast
  then have "at_cb s = Cb_Counting \<or> at_cb s = Cb_Appending"
    using inv Mn_Idle by (cases "at_owner s") (auto simp: at_inv_def)
  then show ?thesis using stuck cb_full [of s] cb_leave [of s] by blast
next
  case Mn_Locked
  then show ?thesis using stuck main_flag [of s] by blast
next
  case Mn_Waiting
  moreover have "at_cb s \<noteq> Cb_Counting \<and> at_cb s \<noteq> Cb_Appending" using inv Mn_Waiting by (auto simp: at_inv_def)
  moreover have "at_cb s \<noteq> Cb_Out" using stuck main_stopped [OF Mn_Waiting] by blast
  ultimately show ?thesis by (cases "at_cb s") auto
qed simp

definition deadlocked :: audio_threads where
  "deadlocked = \<lparr>at_cb = Cb_Checked, at_main = Mn_Waiting, at_owner = By_Main, at_recording = False\<rparr>"

lemma deadlock_reachable: "at_reachable deadlocked"
proof -
  have "at_step at_init (at_init\<lparr>at_cb := Cb_Checked\<rparr>)" by (rule cb_enter) (simp_all add: at_init_def)
  then have 1: "at_reachable (at_init\<lparr>at_cb := Cb_Checked\<rparr>)" by (rule at_next [OF at_start])
  let ?s2 = "at_init\<lparr>at_cb := Cb_Checked, at_main := Mn_Locked, at_owner := By_Main\<rparr>"
  have "at_step (at_init\<lparr>at_cb := Cb_Checked\<rparr>) ?s2"
    using main_lock [of "at_init\<lparr>at_cb := Cb_Checked\<rparr>"] by (simp add: at_init_def)
  then have 2: "at_reachable ?s2" by (rule at_next [OF 1])
  have "at_step ?s2 deadlocked" using main_flag [of ?s2] by (simp add: at_init_def deadlocked_def)
  then show ?thesis by (rule at_next [OF 2])
qed

lemma deadlock_stuck: "\<not> at_step deadlocked t"
  by (auto simp: at_step_iff deadlocked_def)

section \<open>Properties\<close>

text \<open>C28: A recording never exceeds its limit, and it is what the microphone delivered. Whatever
  callbacks arrive, stopping returns the concatenation, in order, of a subsequence of the delivered
  chunks, shorter than the configured maximum (a chunk that would reach it is dropped), and leaves
  the manager empty and not recording.\<close>

theorem recording_bounded:
  assumes "\<not> am_recording m" "am_max_samples m \<le> 2 ^ 30" "list_all (\<lambda>(input, n). n < 2 ^ 30) cbs"
  shows "case stop_recording (run_callbacks cbs (start_recording True True m)) of (audio, m') \<Rightarrow>
    (\<exists>kept. subseq kept (delivered_chunks cbs) \<and> audio = concat kept) \<and>
    (audio = [] \<or> int (length audio) < am_max_samples m) \<and>
    \<not> am_recording m' \<and> am_buffer m' = []"
proof -
  let ?m = "start_recording True True m"
  have s: "am_buffer ?m = []" "am_recording ?m" "am_max_samples ?m = am_max_samples m"
    using assms(1) by (simp_all add: start_recording_def)
  have k: "within_limit (run_callbacks cbs ?m)" "am_recording (run_callbacks cbs ?m)"
    "am_max_samples (run_callbacks cbs ?m) = am_max_samples m"
    "subseq (am_buffer (run_callbacks cbs ?m)) (delivered_chunks cbs)"
    using run_callbacks_kept [of ?m cbs] s assms(2,3) by (auto simp: within_limit_def)
  then show ?thesis
    by (auto simp: stop_recording_def within_limit_def total_samples_def length_concat Let_def)
qed

text \<open>C29: Trimming keeps the speech: the result is one contiguous piece of a non-empty recording that
  contains every sample above the threshold, so nothing audible is ever cut; when no sample is above
  it the whole recording is returned, so trimming never yields the empty buffer and the daemon's
  check for it after trimming cannot fire.\<close>

theorem trim_silence_keeps_speech:
  assumes "sane_rate rate" "audio \<noteq> []" "length audio < 2 ^ 63"
  shows "\<exists>a b. trim_silence rate th audio = Some (take (b - a) (drop a audio)) \<and> a < b \<and> b \<le> length audio \<and>
    (\<forall>k < length audio. loud th (audio ! k) \<longrightarrow> a \<le> k \<and> k < b) \<and>
    ((\<exists>k < length audio. loud th (audio ! k)) \<or> (a = 0 \<and> b = length audio))"
  using assms by (rule trim_silence_range)

text \<open>C31: Stopping a recording can deadlock. Main holds the mutex while it waits for the device's
  thread, and a callback that has passed its check of the flag waits for that mutex: the state is
  reachable and no thread can move. These are the only stuck states before the stop has completed.\<close>

theorem stop_recording_deadlock:
  "(\<exists>s. at_reachable s \<and> at_main s \<noteq> Mn_Done \<and> (\<forall>t. \<not> at_step s t)) \<and>
   {s. at_reachable s \<and> (\<forall>t. \<not> at_step s t) \<and> at_main s \<noteq> Mn_Done} \<subseteq>
   {s. at_main s = Mn_Waiting \<and> at_owner s = By_Main \<and> at_cb s \<in> {Cb_Checked, Cb_Counted}}"
proof
  show "\<exists>s. at_reachable s \<and> at_main s \<noteq> Mn_Done \<and> (\<forall>t. \<not> at_step s t)"
    using deadlock_reachable deadlock_stuck by (intro exI [of _ deadlocked]) (simp add: deadlocked_def)
  show "{s. at_reachable s \<and> (\<forall>t. \<not> at_step s t) \<and> at_main s \<noteq> Mn_Done} \<subseteq>
     {s. at_main s = Mn_Waiting \<and> at_owner s = By_Main \<and> at_cb s \<in> {Cb_Checked, Cb_Counted}}"
    using at_inv_reachable stuck_shape by (auto simp: at_inv_def)
qed

definition demo_manager :: audio_manager where
  "demo_manager = \<lparr>am_config = default_audio, am_buffer = [], am_recording = False, am_peak = Fin 0,
     am_input_device_name = ''Unknown'', am_output_device_name = ''Unknown'', am_max_samples = 4,
     am_silence_threshold_samples = 0, am_device_initialized = False\<rparr>"

theorem recording_bounded_witness:
  "case stop_recording (run_callbacks [(Some [Fin 0, Fin 1], 2), (None, 2), (Some [Fin 0, Fin 1], 2)]
      (start_recording True True demo_manager)) of (audio, m') \<Rightarrow>
    (\<exists>kept. subseq kept [[Fin 0, Fin 1], [Fin 0, Fin 1]] \<and> audio = concat kept) \<and>
    (audio = [] \<or> int (length audio) < 4) \<and> \<not> am_recording m' \<and> am_buffer m' = []"
  using recording_bounded [of demo_manager "[(Some [Fin 0, Fin 1], 2), (None, 2), (Some [Fin 0, Fin 1], 2)]"]
  by (simp add: demo_manager_def delivered_chunks_def)

lemma pad_16000: "pad_samples 16000 = Some 800"
  by code_simp

lemma rate_16000: "sane_rate 16000"
  by (simp add: sane_rate_def pad_16000)

theorem trim_silence_keeps_speech_witness:
  "\<exists>a b. trim_silence 16000 default_threshold [Fin 0, Fin 1] = Some (take (b - a) (drop a [Fin 0, Fin 1])) \<and> a < b"
  using trim_silence_keeps_speech [OF rate_16000, of "[Fin 0, Fin 1]" default_threshold] by auto

end
