(* ===== verification/Pulseaudio.thy ===== *)
theory Pulseaudio
  imports Config_Records
begin

text \<open>
  Muting other applications while recording (src/src/pulseaudio/pulseaudio.h, pulseaudio.cpp, the
  build with PulseAudio). The sound server is its list of sink inputs; operations on it succeed.
  The delayed mute runs on a thread of its own: \<open>timer\<close> is that thread's program point, and the
  methods and the thread's steps interleave. A method is one step: it touches the thread's data only
  after joining it, or after the thread has cleared \<open>mute_timer_active\<close>, its last action.
\<close>

section \<open>The sound server\<close>

record sink_input =
  si_index :: nat
  si_name :: string
  si_binary :: "string option"
  si_mute :: bool

definition set_mute :: "nat \<Rightarrow> bool \<Rightarrow> sink_input list \<Rightarrow> sink_input list" where
  "set_mute i b sinks = map (\<lambda>s. if si_index s = i then s\<lparr>si_mute := b\<rparr> else s) sinks"

section \<open>The manager\<close>

record muted_sink_input =
  ms_index :: nat
  ms_name :: string
  ms_was_muted :: bool

text \<open>The thread: not there, asleep, past its check of the flag, past the muting, ended but not joined.\<close>

datatype timer = No_Thread | Sleeping | Past_Check | Past_Mute | Ended

record pulse =
  pu_enabled :: bool
  pu_beep_duration :: fl
  pu_initialized :: bool
  pu_context :: bool
  pu_muted_inputs :: "muted_sink_input list"
  pu_timer :: timer
  pu_timer_active :: bool
  pu_sinks :: "sink_input list"

definition EXCLUDED_APPS :: "string list" where
  "EXCLUDED_APPS = [''python'', ''python3'', ''autowhisper'', ''sounddevice'']"

definition pulse_new :: "bool \<Rightarrow> fl \<Rightarrow> sink_input list \<Rightarrow> pulse" where
  "pulse_new enabled beep sinks = \<lparr>pu_enabled = enabled, pu_beep_duration = beep, pu_initialized = False,
     pu_context = False, pu_muted_inputs = [], pu_timer = No_Thread, pu_timer_active = False, pu_sinks = sinks\<rparr>"

text \<open>
  Connecting: whether the main loop and the context can be created, and the state of the context
  after each iteration of the loop; the wait has no bound.
\<close>

datatype pa_state = PA_CONNECTING | PA_READY | PA_FAILED | PA_TERMINATED

partial_function (option) wait_connected :: "(nat \<Rightarrow> pa_state) \<Rightarrow> nat \<Rightarrow> bool option" where
  "wait_connected states i =
     (case states i of
        PA_READY \<Rightarrow> Some True
      | PA_FAILED \<Rightarrow> Some False
      | PA_TERMINATED \<Rightarrow> Some False
      | PA_CONNECTING \<Rightarrow> wait_connected states (Suc i))"

definition pulse_initialize :: "bool \<Rightarrow> bool \<Rightarrow> (nat \<Rightarrow> pa_state) \<Rightarrow> pulse \<Rightarrow> pulse option" where
  "pulse_initialize mainloop_ok context_ok states p =
     (if \<not> pu_enabled p then Some p
      else if \<not> mainloop_ok then Some (p\<lparr>pu_enabled := False\<rparr>)
      else if \<not> context_ok then Some (p\<lparr>pu_enabled := False\<rparr>)
      else map_option (\<lambda>ready. if ready then p\<lparr>pu_context := True, pu_initialized := True\<rparr>
                               else p\<lparr>pu_context := False, pu_enabled := False\<rparr>)
             (wait_connected states 0))"

text \<open>The basename after the last slash, and the callback that collects the inputs to mute.\<close>

definition binary_name :: "sink_input \<Rightarrow> string" where
  "binary_name s = (case si_binary s of None \<Rightarrow> [] | Some b \<Rightarrow> rev (takeWhile (\<lambda>c. c \<noteq> CHR ''/'') (rev b)))"

definition sink_input_list_cb :: "sink_input \<Rightarrow> muted_sink_input list \<Rightarrow> muted_sink_input list" where
  "sink_input_list_cb info inputs =
     (if binary_name info \<in> set EXCLUDED_APPS then inputs
      else inputs @ [\<lparr>ms_index = si_index info, ms_name = si_name info, ms_was_muted = si_mute info\<rparr>])"

definition do_mute :: "pulse \<Rightarrow> pulse" where
  "do_mute p =
     (if \<not> pu_enabled p \<or> \<not> pu_initialized p \<or> \<not> pu_context p then p
      else
        let to_mute = fold sink_input_list_cb (pu_sinks p) []
        in p\<lparr>pu_muted_inputs := pu_muted_inputs p @ to_mute,
             pu_sinks := fold (\<lambda>si sinks. if \<not> ms_was_muted si then set_mute (ms_index si) True sinks else sinks)
               to_mute (pu_sinks p)\<rparr>)"

text \<open>One step of the thread, and joining it.\<close>

definition timer_step :: "pulse \<Rightarrow> pulse" where
  "timer_step p =
     (case pu_timer p of
        Sleeping \<Rightarrow> p\<lparr>pu_timer := (if pu_timer_active p then Past_Check else Past_Mute)\<rparr>
      | Past_Check \<Rightarrow> (do_mute p)\<lparr>pu_timer := Past_Mute\<rparr>
      | Past_Mute \<Rightarrow> p\<lparr>pu_timer_active := False, pu_timer := Ended\<rparr>
      | _ \<Rightarrow> p)"

definition timer_join :: "pulse \<Rightarrow> pulse" where
  "timer_join p = (timer_step (timer_step (timer_step p)))\<lparr>pu_timer := No_Thread\<rparr>"

definition joinable :: "pulse \<Rightarrow> bool" where
  "joinable p \<longleftrightarrow> pu_timer p \<noteq> No_Thread"

text \<open>\<open>None\<close> is \<open>std::terminate\<close>: a thread is assigned to one that is still joinable.\<close>

definition mute_other_apps :: "bool \<Rightarrow> pulse \<Rightarrow> pulse option" where
  "mute_other_apps delay p =
     (if \<not> pu_enabled p \<or> \<not> pu_initialized p then Some p
      else
        let p1 = (if pu_timer_active p \<and> joinable p then timer_join (p\<lparr>pu_timer_active := False\<rparr>) else p)
        in if delay then
             (let p2 = p1\<lparr>pu_timer_active := True\<rparr>
              in if joinable p2 then None else Some (p2\<lparr>pu_timer := Sleeping\<rparr>))
           else Some (do_mute p1))"

definition cancel_pending :: "pulse \<Rightarrow> pulse" where
  "cancel_pending p =
     (if pu_timer_active p then
        (let p1 = p\<lparr>pu_timer_active := False\<rparr> in if joinable p1 then timer_join p1 else p1)
      else p)"

definition restore_inputs :: "muted_sink_input list \<Rightarrow> sink_input list \<Rightarrow> sink_input list" where
  "restore_inputs ms sinks =
     fold (\<lambda>si sinks. if \<not> ms_was_muted si then set_mute (ms_index si) False sinks else sinks) ms sinks"

definition unmute_other_apps :: "pulse \<Rightarrow> pulse" where
  "unmute_other_apps p =
     (if \<not> pu_enabled p \<or> \<not> pu_initialized p \<or> \<not> pu_context p then p
      else
        let p1 = cancel_pending p
        in if pu_muted_inputs p1 = [] then p1
           else p1\<lparr>pu_sinks := restore_inputs (pu_muted_inputs p1) (pu_sinks p1), pu_muted_inputs := []\<rparr>)"

definition pulse_cleanup :: "pulse \<Rightarrow> pulse" where
  "pulse_cleanup p = (unmute_other_apps (cancel_pending p))\<lparr>pu_context := False, pu_initialized := False\<rparr>"

text \<open>The destructor; the thread object is destroyed after the cleanup.\<close>

definition pulse_destroy :: "pulse \<Rightarrow> pulse option" where
  "pulse_destroy p = (let p1 = pulse_cleanup p in if joinable p1 then None else Some p1)"

section \<open>Interleaving\<close>

inductive pulse_step :: "pulse \<Rightarrow> pulse \<Rightarrow> bool" where
  ps_mute: "mute_other_apps d p = Some q \<Longrightarrow> pulse_step p q"
| ps_unmute: "pulse_step p (unmute_other_apps p)"
| ps_timer: "pu_timer p \<notin> {No_Thread, Ended} \<Longrightarrow> pulse_step p (timer_step p)"

inductive pulse_run :: "pulse \<Rightarrow> pulse \<Rightarrow> bool" where
  pr_refl: "pulse_run p p"
| pr_step: "pulse_run p q \<Longrightarrow> pulse_step q r \<Longrightarrow> pulse_run p r"

section \<open>Facts\<close>

text \<open>A pass of mutes over the list touches the named inputs only.\<close>

definition mark :: "bool \<Rightarrow> nat set \<Rightarrow> sink_input \<Rightarrow> sink_input" where
  "mark b A s = (if si_index s \<in> A then s\<lparr>si_mute := b\<rparr> else s)"

definition to_change :: "muted_sink_input list \<Rightarrow> nat set" where
  "to_change ms = ms_index ` {m \<in> set ms. \<not> ms_was_muted m}"

lemma to_change_simps:
  "to_change [] = {}" "to_change (m # ms) = (if ms_was_muted m then {} else {ms_index m}) \<union> to_change ms"
  "to_change (ms @ ns) = to_change ms \<union> to_change ns"
  by (auto simp: to_change_def)

lemma mark_mark: "mark b A (mark b B s) = mark b (A \<union> B) s"
  by (simp add: mark_def)

lemma set_mute_mark: "set_mute i b sinks = map (mark b {i}) sinks"
  by (simp add: set_mute_def mark_def)

lemma fold_mute:
  "fold (\<lambda>si sinks. if \<not> ms_was_muted si then set_mute (ms_index si) b sinks else sinks) ms sinks =
     map (mark b (to_change ms)) sinks"
proof (induction ms arbitrary: sinks)
  case Nil
  then show ?case by (simp add: to_change_simps mark_def)
next
  case (Cons m ms)
  then show ?case by (auto simp: to_change_simps set_mute_mark mark_mark)
qed

lemma to_change_map:
  "to_change (map (\<lambda>s. \<lparr>ms_index = si_index s, ms_name = si_name s, ms_was_muted = si_mute s\<rparr>) sinks) =
     si_index ` {s \<in> set sinks. \<not> si_mute s}"
  by (induction sinks) (auto simp: to_change_simps)

lemma collected:
  "fold sink_input_list_cb sinks acc = acc @
     map (\<lambda>s. \<lparr>ms_index = si_index s, ms_name = si_name s, ms_was_muted = si_mute s\<rparr>)
       (filter (\<lambda>s. binary_name s \<notin> set EXCLUDED_APPS) sinks)"
  by (induction sinks arbitrary: acc) (auto simp: sink_input_list_cb_def)

text \<open>The invariant: restoring what was muted would give back the inputs as they were.\<close>

definition restorable :: "sink_input list \<Rightarrow> pulse \<Rightarrow> bool" where
  "restorable s0 p \<longleftrightarrow>
     map (mark False (to_change (pu_muted_inputs p))) (pu_sinks p) = s0 \<and> distinct (map si_index (pu_sinks p))"

lemma mark_index: "si_index (mark b A s) = si_index s"
  by (simp add: mark_def)

lemma restorable_do_mute:
  assumes "restorable s0 p"
  shows "restorable s0 (do_mute p)"
proof (cases "pu_enabled p \<and> pu_initialized p \<and> pu_context p")
  case True
  let ?ms = "fold sink_input_list_cb (pu_sinks p) []" and ?U = "to_change (pu_muted_inputs p)"
  let ?N = "to_change ?ms"
  have N: "?N = si_index ` {s \<in> set (pu_sinks p). binary_name s \<notin> set EXCLUDED_APPS \<and> \<not> si_mute s}"
    unfolding collected append_Nil to_change_map by auto
  have d: "distinct (map si_index (pu_sinks p))" using assms by (simp add: restorable_def)
  have unmuted: "\<not> si_mute s" if "s \<in> set (pu_sinks p)" "si_index s \<in> ?N" for s
  proof -
    from that(2) obtain s' where "s' \<in> set (pu_sinks p)" "si_index s' = si_index s" "\<not> si_mute s'"
      unfolding N by auto
    with d that(1) show ?thesis by (metis distinct_map inj_onD)
  qed
  have "mark False (?U \<union> ?N) (mark True ?N s) = mark False ?U s" if "s \<in> set (pu_sinks p)" for s
    using unmuted [OF that] by (cases s) (auto simp: mark_def)
  then have "map (mark False (?U \<union> ?N)) (map (mark True ?N) (pu_sinks p)) = map (mark False ?U) (pu_sinks p)"
    by simp
  moreover have "map si_index (map (mark True ?N) (pu_sinks p)) = map si_index (pu_sinks p)" by (simp add: mark_index)
  moreover have "pu_muted_inputs (do_mute p) = pu_muted_inputs p @ ?ms" "pu_sinks (do_mute p) = map (mark True ?N) (pu_sinks p)"
    using True by (simp_all add: do_mute_def Let_def fold_mute)
  ultimately show ?thesis
    using assms by (simp only: restorable_def to_change_simps(3))
qed (use assms in \<open>auto simp: do_mute_def\<close>)

lemma restorable_frame [simp]:
  "restorable s0 (p\<lparr>pu_timer := t\<rparr>) = restorable s0 p"
  "restorable s0 (p\<lparr>pu_timer_active := b\<rparr>) = restorable s0 p"
  by (simp_all add: restorable_def)

lemma restorable_timer: "restorable s0 p \<Longrightarrow> restorable s0 (timer_step p)"
  by (cases "pu_timer p") (simp_all add: timer_step_def restorable_do_mute)

lemma restorable_join: "restorable s0 p \<Longrightarrow> restorable s0 (timer_join p)"
  by (simp add: timer_join_def restorable_timer)

lemma restorable_cancel: "restorable s0 p \<Longrightarrow> restorable s0 (cancel_pending p)"
  using restorable_join [of s0 "p\<lparr>pu_timer_active := False\<rparr>"]
  by (simp add: cancel_pending_def Let_def)

lemma restorable_unmute:
  assumes "restorable s0 p"
  shows "restorable s0 (unmute_other_apps p)"
  using restorable_cancel [OF assms] assms
  by (auto simp: unmute_other_apps_def Let_def restorable_def restore_inputs_def fold_mute to_change_simps
      mark_def [of False "{}"] mark_index comp_def)

lemma restorable_mute:
  assumes "restorable s0 p" "mute_other_apps d p = Some q"
  shows "restorable s0 q"
proof -
  let ?p1 = "if pu_timer_active p \<and> joinable p then timer_join (p\<lparr>pu_timer_active := False\<rparr>) else p"
  have p1: "restorable s0 ?p1"
    using restorable_join [of s0 "p\<lparr>pu_timer_active := False\<rparr>"] assms(1) by (simp add: restorable_def)
  then show ?thesis
    using assms restorable_do_mute [OF p1]
    by (auto simp: mute_other_apps_def Let_def restorable_def split: if_splits)
qed

lemma restorable_step: "pulse_step p q \<Longrightarrow> restorable s0 p \<Longrightarrow> restorable s0 q"
  by (induction rule: pulse_step.induct) (auto intro: restorable_mute restorable_unmute restorable_timer)

lemma restorable_run: "pulse_run p q \<Longrightarrow> restorable s0 p \<Longrightarrow> restorable s0 q"
  by (induction rule: pulse_run.induct) (auto intro: restorable_step)

text \<open>The flag and the thread agree: while the thread can still mute, the flag is set.\<close>

definition timer_ok :: "pulse \<Rightarrow> bool" where
  "timer_ok p \<longleftrightarrow> (pu_timer p \<in> {Sleeping, Past_Check, Past_Mute} \<longleftrightarrow> pu_timer_active p) \<and>
     (pu_initialized p \<longrightarrow> pu_context p)"

lemma do_mute_frame:
  "pu_timer (do_mute p) = pu_timer p" "pu_timer_active (do_mute p) = pu_timer_active p"
  "pu_enabled (do_mute p) = pu_enabled p" "pu_initialized (do_mute p) = pu_initialized p"
  "pu_context (do_mute p) = pu_context p"
  by (simp_all add: do_mute_def Let_def)

lemma timer_step_frame:
  "pu_enabled (timer_step p) = pu_enabled p" "pu_initialized (timer_step p) = pu_initialized p"
  "pu_context (timer_step p) = pu_context p"
  by (auto simp: timer_step_def do_mute_frame split: timer.splits)

lemma timer_ok_timer: "timer_ok p \<Longrightarrow> timer_ok (timer_step p)"
  by (auto simp: timer_ok_def timer_step_def do_mute_frame split: timer.splits)

lemma timer_join_idle:
  "\<not> pu_timer_active p \<Longrightarrow> pu_timer (timer_join p) = No_Thread \<and> \<not> pu_timer_active (timer_join p) \<and>
     pu_enabled (timer_join p) = pu_enabled p \<and> pu_initialized (timer_join p) = pu_initialized p \<and>
     pu_context (timer_join p) = pu_context p"
  by (auto simp: timer_join_def timer_step_frame) (auto simp: timer_step_def do_mute_frame split: timer.splits if_splits)

lemma cancel_pending_idle:
  assumes "timer_ok p"
  shows "pu_timer (cancel_pending p) \<in> {No_Thread, Ended} \<and> \<not> pu_timer_active (cancel_pending p) \<and>
    pu_enabled (cancel_pending p) = pu_enabled p \<and> pu_initialized (cancel_pending p) = pu_initialized p \<and>
    pu_context (cancel_pending p) = pu_context p"
proof -
  have t: "pu_timer p \<in> {No_Thread, Ended} \<longleftrightarrow> \<not> pu_timer_active p"
    using assms by (cases "pu_timer p") (auto simp: timer_ok_def)
  show ?thesis
    using t timer_join_idle [of "p\<lparr>pu_timer_active := False\<rparr>"]
    by (auto simp: cancel_pending_def Let_def joinable_def)
qed

lemma timer_ok_step:
  assumes "pulse_step p q" "timer_ok p"
  shows "timer_ok q"
  using assms
proof (induction rule: pulse_step.induct)
  case (ps_mute d p q)
  let ?p1 = "if pu_timer_active p \<and> joinable p then timer_join (p\<lparr>pu_timer_active := False\<rparr>) else p"
  have "timer_ok ?p1"
    using ps_mute(2) timer_join_idle [of "p\<lparr>pu_timer_active := False\<rparr>"] by (auto simp: timer_ok_def)
  with ps_mute show ?case
    by (auto simp: mute_other_apps_def Let_def timer_ok_def do_mute_frame split: if_splits)
next
  case (ps_unmute p)
  then show ?case using cancel_pending_idle [OF ps_unmute]
    by (auto simp: unmute_other_apps_def Let_def timer_ok_def)
next
  case (ps_timer p)
  then show ?case by (blast intro: timer_ok_timer)
qed

lemma timer_ok_run: "pulse_run p q \<Longrightarrow> timer_ok p \<Longrightarrow> timer_ok q"
  by (induction rule: pulse_run.induct) (auto intro: timer_ok_step)

text \<open>A delayed mute whose thread runs to its end.\<close>

lemma timer_runs_out:
  assumes "pu_timer p = Sleeping" "pu_timer_active p"
  shows "pu_timer (timer_step (timer_step (timer_step p))) = Ended \<and> \<not> pu_timer_active (timer_step (timer_step (timer_step p)))"
proof -
  have "pu_timer (timer_step p) = Past_Check" using assms by (simp add: timer_step_def)
  then have "pu_timer (timer_step (timer_step p)) = Past_Mute" by (simp add: timer_step_def [of "timer_step p"])
  then show ?thesis by (simp add: timer_step_def [of "timer_step (timer_step p)"])
qed

lemma unmute_idle:
  assumes "\<not> pu_timer_active p"
  shows "pu_timer (unmute_other_apps p) = pu_timer p \<and> \<not> pu_timer_active (unmute_other_apps p) \<and>
    pu_enabled (unmute_other_apps p) = pu_enabled p \<and> pu_initialized (unmute_other_apps p) = pu_initialized p"
  using assms by (simp add: unmute_other_apps_def cancel_pending_def Let_def)

section \<open>The contract for a client\<close>

text \<open>
  What a client of muting relies on: operations keep the provider in order, and after an unmute or
  the shutdown it is at rest, which no later step of its thread changes.
\<close>

locale app_muter =
  fixes mute :: "'m \<Rightarrow> 'm option" and unmute tick shut :: "'m \<Rightarrow> 'm" and ok quiet :: "'m \<Rightarrow> bool"
  assumes mute_ok: "ok m \<Longrightarrow> mute m = Some m' \<Longrightarrow> ok m'"
    and unmute_ok: "ok m \<Longrightarrow> ok (unmute m)" "ok m \<Longrightarrow> quiet (unmute m)"
    and tick_ok: "ok m \<Longrightarrow> ok (tick m)"
    and tick_quiet: "quiet m \<Longrightarrow> tick m = m"
    and shut_ok: "ok m \<Longrightarrow> ok (shut m)" "ok m \<Longrightarrow> quiet (shut m)"
begin

lemma ticks_ok: "ok m \<Longrightarrow> ok ((tick ^^ n) m)"
  by (induction n) (auto intro: tick_ok)

lemma session_quiet: "ok m \<Longrightarrow> mute m = Some m' \<Longrightarrow> quiet ((tick ^^ k) (unmute ((tick ^^ n) m')))"
proof -
  assume "ok m" "mute m = Some m'"
  then have q: "quiet (unmute ((tick ^^ n) m'))" using mute_ok ticks_ok unmute_ok(2) by blast
  then have "(tick ^^ k) (unmute ((tick ^^ n) m')) = unmute ((tick ^^ n) m')"
    by (induction k) (auto simp: tick_quiet)
  with q show ?thesis by simp
qed

end

definition pulse_quiet :: "pulse \<Rightarrow> bool" where
  "pulse_quiet p \<longleftrightarrow> pu_muted_inputs p = [] \<and> pu_timer p \<in> {No_Thread, Ended}"

definition pulse_ok :: "sink_input list \<Rightarrow> pulse \<Rightarrow> bool" where
  "pulse_ok s0 p \<longleftrightarrow> restorable s0 p \<and> timer_ok p \<and> (pu_enabled p \<and> pu_initialized p \<or> pulse_quiet p)"

lemma mark_none: "mark b {} = (\<lambda>s. s)"
  by (simp add: mark_def fun_eq_iff)

lemma quiet_sinks: "pulse_ok s0 p \<Longrightarrow> pulse_quiet p \<Longrightarrow> pu_sinks p = s0"
  by (simp add: pulse_ok_def pulse_quiet_def restorable_def to_change_simps mark_none)

lemma mute_frame:
  "mute_other_apps d p = Some q \<Longrightarrow> pu_enabled q = pu_enabled p \<and> pu_initialized q = pu_initialized p"
  by (auto simp: mute_other_apps_def Let_def timer_join_def timer_step_frame do_mute_frame split: if_splits)

lemma unmute_frame:
  "pu_enabled (unmute_other_apps p) = pu_enabled p" "pu_initialized (unmute_other_apps p) = pu_initialized p"
  "pu_context (unmute_other_apps p) = pu_context p"
  by (auto simp: unmute_other_apps_def cancel_pending_def timer_join_def timer_step_frame Let_def)

lemma pulse_ok_quiet_mute:
  "pulse_ok s0 p \<Longrightarrow> \<not> (pu_enabled p \<and> pu_initialized p) \<Longrightarrow> mute_other_apps d p = Some q \<Longrightarrow> q = p"
  by (auto simp: mute_other_apps_def split: if_splits)

lemma unmute_quiet:
  assumes "pulse_ok s0 p"
  shows "pulse_quiet (unmute_other_apps p)"
proof (cases "pu_enabled p \<and> pu_initialized p")
  case True
  then have "timer_ok p" "pu_context p" using assms by (auto simp: pulse_ok_def timer_ok_def)
  with True cancel_pending_idle show ?thesis
    by (auto simp: unmute_other_apps_def pulse_quiet_def Let_def)
next
  case False
  then have "unmute_other_apps p = p" by (auto simp: unmute_other_apps_def)
  with False assms show ?thesis by (auto simp: pulse_ok_def)
qed

lemma pulse_ok_cancel: "pulse_ok s0 p \<Longrightarrow> pulse_ok s0 (cancel_pending p)"
  using cancel_pending_idle [of p] restorable_cancel [of s0 p]
  by (auto simp: pulse_ok_def timer_ok_def pulse_quiet_def cancel_pending_def)

lemma pulse_ok_unmute: "pulse_ok s0 p \<Longrightarrow> pulse_ok s0 (unmute_other_apps p)"
  using unmute_quiet [of s0 p] restorable_unmute [of s0 p] timer_ok_step [OF ps_unmute, of p]
  by (simp add: pulse_ok_def)

interpretation pm: app_muter "mute_other_apps True" unmute_other_apps timer_step pulse_cleanup "pulse_ok s0" pulse_quiet for s0
proof unfold_locales
  fix m m'
  assume a: "pulse_ok s0 m" "mute_other_apps True m = Some m'"
  show "pulse_ok s0 m'"
  proof (cases "pu_enabled m \<and> pu_initialized m")
    case True
    then show ?thesis
      using a mute_frame [OF a(2)] restorable_mute [OF _ a(2)] timer_ok_step [OF ps_mute [OF a(2)]]
      by (auto simp: pulse_ok_def)
  qed (use a pulse_ok_quiet_mute in metis)
next
  fix m
  assume a: "pulse_ok s0 m"
  show "pulse_ok s0 (timer_step m)"
  proof (cases "pulse_quiet m")
    case False
    then show ?thesis
      using a restorable_timer timer_ok_timer timer_step_frame by (auto simp: pulse_ok_def)
  qed (use a in \<open>auto simp: pulse_quiet_def timer_step_def\<close>)
  have "pulse_quiet (unmute_other_apps (cancel_pending m))" "pulse_ok s0 (unmute_other_apps (cancel_pending m))"
    using pulse_ok_cancel [OF a] unmute_quiet pulse_ok_unmute by blast+
  then show "pulse_ok s0 (pulse_cleanup m)" "pulse_quiet (pulse_cleanup m)"
    by (auto simp: pulse_cleanup_def pulse_ok_def restorable_def timer_ok_def pulse_quiet_def)
next
  show "pulse_quiet m \<Longrightarrow> timer_step m = m" for m by (auto simp: pulse_quiet_def timer_step_def)
qed (rule pulse_ok_unmute unmute_quiet, assumption)+

section \<open>Properties\<close>

text \<open>C16: Muting is undone. Start from no muted inputs and no thread and let mutes, unmutes and the
  steps of the delayed mute happen in any order: an unmute then leaves every sink input exactly as
  it was at the start, nothing is remembered as muted, and no thread is left that could still mute
  something afterwards.\<close>

theorem unmute_restores:
  assumes "pulse_run p q" "pu_enabled q" "pu_initialized q"
    and "pu_muted_inputs p = []" "pu_timer p = No_Thread" "\<not> pu_timer_active p" "pu_initialized p = pu_context p"
    and "distinct (map si_index (pu_sinks p))"
  shows "pu_sinks (unmute_other_apps q) = pu_sinks p \<and> pu_muted_inputs (unmute_other_apps q) = [] \<and>
    pu_timer (unmute_other_apps q) \<in> {No_Thread, Ended}"
proof -
  have "restorable (pu_sinks p) p" "timer_ok p"
    using assms by (auto simp: restorable_def to_change_simps mark_none timer_ok_def)
  then have ok: "pulse_ok (pu_sinks p) q"
    using restorable_run [OF assms(1)] timer_ok_run [OF assms(1)] assms(2,3) by (auto simp: pulse_ok_def)
  have "pulse_quiet (unmute_other_apps q)" by (rule pm.unmute_ok(2) [OF ok])
  moreover from this have "pu_sinks (unmute_other_apps q) = pu_sinks p"
    by (rule quiet_sinks [OF pm.unmute_ok(1) [OF ok]])
  ultimately show ?thesis by (auto simp: pulse_quiet_def)
qed

text \<open>The second recording ends the process. A delayed mute whose thread has run to its end is never
  joined: the unmute after it sees the flag already cleared. The next delayed mute assigns a new
  thread over it, which calls \<open>std::terminate\<close>, and so does destroying the manager. This is the
  course of any two recordings longer than the start tone when muting is enabled.\<close>

theorem second_delayed_mute_terminates:
  assumes "pu_enabled p" "pu_initialized p" "pu_context p" "pu_timer p = No_Thread" "\<not> pu_timer_active p"
  shows "\<exists>q. mute_other_apps True p = Some q \<and>
    (let q' = unmute_other_apps (timer_step (timer_step (timer_step q)))
     in mute_other_apps True q' = None \<and> pulse_destroy q' = None)"
proof -
  define q where "q = p\<lparr>pu_timer_active := True, pu_timer := Sleeping\<rparr>"
  define r where "r = unmute_other_apps (timer_step (timer_step (timer_step q)))"
  have q: "mute_other_apps True p = Some q" using assms by (simp add: mute_other_apps_def joinable_def q_def)
  have t: "pu_timer (timer_step (timer_step (timer_step q))) = Ended"
    "\<not> pu_timer_active (timer_step (timer_step (timer_step q)))"
    using timer_runs_out [of q] by (simp_all add: q_def)
  have r: "pu_timer r = Ended" "\<not> pu_timer_active r" "pu_enabled r" "pu_initialized r"
    using unmute_idle [OF t(2)] t assms by (simp_all add: r_def timer_step_frame) (simp_all add: q_def)
  then have "mute_other_apps True r = None" by (simp add: mute_other_apps_def joinable_def)
  moreover have "pulse_destroy r = None"
    using r unmute_idle [OF r(2)] by (simp add: pulse_destroy_def pulse_cleanup_def cancel_pending_def joinable_def Let_def)
  ultimately show ?thesis using q by (auto simp: r_def)
qed

definition demo_pulse :: pulse where
  "demo_pulse = (pulse_new True (Fin 0)
     [\<lparr>si_index = 7, si_name = ''Music'', si_binary = Some ''/usr/bin/player'', si_mute = False\<rparr>])
       \<lparr>pu_initialized := True, pu_context := True\<rparr>"

theorem unmute_restores_witness:
  "\<exists>q. mute_other_apps False demo_pulse = Some q \<and> pu_sinks q \<noteq> pu_sinks demo_pulse \<and>
     pu_sinks (unmute_other_apps q) = pu_sinks demo_pulse"
proof -
  obtain q where q: "mute_other_apps False demo_pulse = Some q" "pu_enabled q" "pu_initialized q"
    "pu_sinks q \<noteq> pu_sinks demo_pulse"
    by (simp add: mute_other_apps_def demo_pulse_def pulse_new_def do_mute_def sink_input_list_cb_def binary_name_def
        EXCLUDED_APPS_def set_mute_def joinable_def)
  have "pulse_run demo_pulse q" by (rule pr_step [OF pr_refl]) (rule ps_mute [OF q(1)])
  from unmute_restores [OF this q(2,3)] q(1,4) show ?thesis
    by (auto simp: demo_pulse_def pulse_new_def)
qed

theorem second_delayed_mute_terminates_witness:
  "\<exists>q. mute_other_apps True demo_pulse = Some q \<and>
     mute_other_apps True (unmute_other_apps (timer_step (timer_step (timer_step q)))) = None"
  using second_delayed_mute_terminates [of demo_pulse] by (auto simp: demo_pulse_def pulse_new_def Let_def)

end
