(* ===== verification/Feedback.thy ===== *)
theory Feedback
  imports Config_Records
begin

text \<open>
  The audible feedback (src/src/feedback/feedback.h, feedback.cpp): which tone each call plays, its
  wave form, and the callback that hands the wave to the playback device. The sine function of the
  C library is a parameter. Playing happens on a detached thread; a tone is an event here.
\<close>

definition sample_rate_hz :: int where
  "sample_rate_hz = 44100"

record tone =
  tn_frequency :: int
  tn_duration :: fl
  tn_volume :: fl

text \<open>The four calls; each does nothing when feedback is switched off.\<close>

definition tone_if :: "feedback_config \<Rightarrow> int \<Rightarrow> fl \<Rightarrow> fl \<Rightarrow> tone list" where
  "tone_if c f d v = (if fb_enabled c then [\<lparr>tn_frequency = f, tn_duration = d, tn_volume = v\<rparr>] else [])"

definition play_start :: "feedback_config \<Rightarrow> tone list" where
  "play_start c = tone_if c (fb_frequency_start c) (fb_duration c) (fb_volume c)"

definition play_stop :: "feedback_config \<Rightarrow> tone list" where
  "play_stop c = tone_if c (fb_frequency_stop c) (fb_duration c) (fb_volume c)"

definition play_error :: "feedback_config \<Rightarrow> tone list" where
  "play_error c = tone_if c (fb_frequency_error c) (fl_mul f32 (fb_duration c) (Fin 2)) (fb_volume c)"

definition play_short_beep :: "feedback_config \<Rightarrow> tone list" where
  "play_short_beep c = tone_if c 300 (fl_div f32 (fb_duration c) (Fin 2)) (fl_mul f32 (fb_volume c) (f32 (1 / 2)))"

section \<open>The wave form\<close>

definition pi_f32 :: fl where
  "pi_f32 = to_f32 (f64 (314159265358979323846 / 10 ^ 20))"

definition fl_int :: "int \<Rightarrow> fl" where
  "fl_int i = f32 (of_int i)"

text \<open>One sample of a tone of \<open>num\<close> samples with \<open>fade\<close> samples of fading at both ends.\<close>

definition wave_sample :: "(fl \<Rightarrow> fl) \<Rightarrow> tone \<Rightarrow> int \<Rightarrow> int \<Rightarrow> int \<Rightarrow> fl" where
  "wave_sample sin32 t num fade i =
     (let time = fl_div f32 (fl_int i) (fl_int sample_rate_hz);
          sample = sin32 (fl_mul f32 (fl_mul f32 (fl_mul f32 (Fin 2) pi_f32) (fl_int (tn_frequency t))) time);
          sample = (if i < fade then fl_mul f32 sample (fl_div f32 (fl_int i) (fl_int fade))
                    else if num - fade < i then fl_mul f32 sample (fl_div f32 (fl_int (num - i)) (fl_int fade))
                    else sample)
      in fl_mul f32 sample (tn_volume t))"

text \<open>The wave \<open>play_tone\<close> plays; \<open>None\<close> is undefined behaviour, a count that is no \<open>int\<close>.\<close>

definition tone_wave :: "(fl \<Rightarrow> fl) \<Rightarrow> tone \<Rightarrow> fl list option" where
  "tone_wave sin32 t =
     (case (fl_to_int (fl_mul f32 (fl_int sample_rate_hz) (tn_duration t)),
            fl_to_int (fl_mul f32 (f32 (1 / 100)) (fl_int sample_rate_hz))) of
        (Some num, Some fade) \<Rightarrow>
          Some (if num \<le> 0 then [] else map (wave_sample sin32 t num fade \<circ> int) [0..<nat num])
      | _ \<Rightarrow> None)"

section \<open>Playback\<close>

text \<open>The device callback: the output for \<open>frames\<close> frames and the new cursor.\<close>

definition playback_callback :: "fl list \<Rightarrow> nat \<Rightarrow> nat \<Rightarrow> fl list \<times> nat" where
  "playback_callback samples frames cursor =
     (let frames_to_copy = min frames (length samples - cursor);
          copied = take frames_to_copy (drop cursor samples)
      in (copied @ replicate (frames - frames_to_copy) (Fin 0), cursor + frames_to_copy))"

fun playback :: "fl list \<Rightarrow> nat list \<Rightarrow> nat \<Rightarrow> fl list \<times> nat" where
  "playback samples [] cursor = ([], cursor)"
| "playback samples (n # ns) cursor =
     (let (block, cursor) = playback_callback samples n cursor;
          (rest, cursor) = playback samples ns cursor
      in (block @ rest, cursor))"

lemma playback_gen:
  assumes "cursor \<le> length samples"
  shows "playback samples ns cursor =
    (take (sum_list ns) (drop cursor samples) @ replicate (sum_list ns - (length samples - cursor)) (Fin 0),
     min (cursor + sum_list ns) (length samples))"
  using assms
proof (induction ns arbitrary: cursor)
  case (Cons n ns)
  let ?k = "min n (length samples - cursor)"
  have k: "cursor + ?k \<le> length samples" using Cons.prems by simp
  have t: "take (n + sum_list ns) (drop cursor samples) =
      take ?k (drop cursor samples) @ take (sum_list ns) (drop (cursor + ?k) samples)"
    if "n \<le> length samples - cursor" using that by (simp add: take_add add.commute min_def)
  show ?case
  proof (cases "n \<le> length samples - cursor")
    case True
    then show ?thesis
      using Cons.IH [OF k] t [OF True] Cons.prems by (auto simp: playback_callback_def Let_def min_def)
  next
    case False
    then have c: "cursor + ?k = length samples" using Cons.prems by simp
    have "n - ?k + sum_list ns = n + sum_list ns - (length samples - cursor)" using False by simp
    then show ?thesis
      using Cons.IH [OF k] False Cons.prems unfolding playback.simps playback_callback_def Let_def c
      by (simp add: replicate_add [symmetric])
  qed
qed simp

text \<open>The feedback device plays exactly the tone: whatever the sizes of the blocks the device asks
  for, their concatenation is the wave from its start, each sample once and in order, followed by
  silence only, and the player's loop sees the end once that many frames were asked for.\<close>

theorem playback_streams_wave:
  "playback samples ns 0 =
    (take (sum_list ns) samples @ replicate (sum_list ns - length samples) (Fin 0),
     min (sum_list ns) (length samples))"
  using playback_gen [of 0 samples ns] by simp

end
