(* ===== verification/Feedback_Threads.thy ===== *)
theory Feedback_Threads
  imports Feedback Step_Systems
begin

text \<open>
  How tones are played (\<open>play_tone\<close> of src/src/feedback/feedback.cpp): each on a detached thread that takes
  the manager's lock, opens a playback device, waits until the device's callback has handed out the
  whole wave and closes the device. Every thread refers to the manager, whose destructor waits for
  none of them.
\<close>

section \<open>State and steps\<close>

text \<open>Where a tone thread is; \<open>F_Freed\<close> has used the lock of a manager that is no more.\<close>

datatype tone_at = F_Waiting | F_Setup | F_Playing | F_Draining | F_Closed | F_Done | F_Freed

text \<open>\<open>tt_output\<close> is what the device has been given so far.\<close>

record tone_thread =
  tt_at :: tone_at
  tt_wave :: "fl list"
  tt_cursor :: nat
  tt_output :: "fl list"

record feedback_world =
  fw_alive :: bool
  fw_holder :: "nat option"
  fw_threads :: "tone_thread list"

definition fw_init :: feedback_world where
  "fw_init = \<lparr>fw_alive = True, fw_holder = None, fw_threads = []\<rparr>"

abbreviation fw_set :: "nat \<Rightarrow> (tone_thread \<Rightarrow> tone_thread) \<Rightarrow> feedback_world \<Rightarrow> feedback_world" where
  "fw_set i f w \<equiv> w\<lparr>fw_threads := (fw_threads w)[i := f (fw_threads w ! i)]\<rparr>"

definition tone_calls :: "nat \<Rightarrow> tone_thread \<Rightarrow> tone_thread" where
  "tone_calls frames t =
     (let (block, cursor) = playback_callback (tt_wave t) frames (tt_cursor t)
      in t\<lparr>tt_cursor := cursor, tt_output := tt_output t @ block\<rparr>)"

text \<open>
  \<open>f_starts\<close> is \<open>play_tone\<close> on the caller's thread, for a wave that is not empty. The device may fail to
  open or to start (\<open>f_no_device\<close>); while it is open it calls back with any number of frames.
\<close>

inductive feedback_step :: "(fl \<Rightarrow> fl) \<Rightarrow> feedback_world \<Rightarrow> feedback_world \<Rightarrow> bool"
  for sin32 :: "fl \<Rightarrow> fl" and w :: feedback_world where
  f_starts: "fw_alive w \<Longrightarrow> tone_wave sin32 t = Some wave \<Longrightarrow> wave \<noteq> [] \<Longrightarrow>
    feedback_step sin32 w (w\<lparr>fw_threads := fw_threads w @ [\<lparr>tt_at = F_Waiting, tt_wave = wave, tt_cursor = 0, tt_output = []\<rparr>]\<rparr>)"
| f_locks: "i < length (fw_threads w) \<Longrightarrow> tt_at (fw_threads w ! i) = F_Waiting \<Longrightarrow> fw_alive w \<Longrightarrow> fw_holder w = None \<Longrightarrow>
    feedback_step sin32 w (fw_set i (tt_at_update (\<lambda>p. F_Setup)) (w\<lparr>fw_holder := Some i\<rparr>))"
| f_no_device: "i < length (fw_threads w) \<Longrightarrow> tt_at (fw_threads w ! i) = F_Setup \<Longrightarrow>
    feedback_step sin32 w (fw_set i (tt_at_update (\<lambda>p. F_Closed)) w)"
| f_device: "i < length (fw_threads w) \<Longrightarrow> tt_at (fw_threads w ! i) = F_Setup \<Longrightarrow>
    feedback_step sin32 w (fw_set i (tt_at_update (\<lambda>p. F_Playing)) w)"
| f_callback: "i < length (fw_threads w) \<Longrightarrow> tt_at (fw_threads w ! i) = F_Playing \<or> tt_at (fw_threads w ! i) = F_Draining \<Longrightarrow>
    feedback_step sin32 w (fw_set i (tone_calls frames) w)"
| f_played: "i < length (fw_threads w) \<Longrightarrow> tt_at (fw_threads w ! i) = F_Playing \<Longrightarrow>
    length (tt_wave (fw_threads w ! i)) \<le> tt_cursor (fw_threads w ! i) \<Longrightarrow>
    feedback_step sin32 w (fw_set i (tt_at_update (\<lambda>p. F_Draining)) w)"
| f_closes: "i < length (fw_threads w) \<Longrightarrow> tt_at (fw_threads w ! i) = F_Draining \<Longrightarrow>
    feedback_step sin32 w (fw_set i (tt_at_update (\<lambda>p. F_Closed)) w)"
| f_unlocks: "i < length (fw_threads w) \<Longrightarrow> tt_at (fw_threads w ! i) = F_Closed \<Longrightarrow> fw_alive w \<Longrightarrow>
    feedback_step sin32 w (fw_set i (tt_at_update (\<lambda>p. F_Done)) (w\<lparr>fw_holder := None\<rparr>))"
| f_freed: "i < length (fw_threads w) \<Longrightarrow> tt_at (fw_threads w ! i) = F_Waiting \<or> tt_at (fw_threads w ! i) = F_Closed \<Longrightarrow>
    \<not> fw_alive w \<Longrightarrow> feedback_step sin32 w (fw_set i (tt_at_update (\<lambda>p. F_Freed)) w)"
| f_destroyed: "feedback_step sin32 w (w\<lparr>fw_alive := False\<rparr>)"

section \<open>One tone at a time, each to its end\<close>

fun sounding :: "tone_at \<Rightarrow> bool" where
  "sounding F_Setup = True" | "sounding F_Playing = True" | "sounding F_Draining = True" | "sounding F_Closed = True"
| "sounding p = False"

text \<open>The device was given the wave up to the cursor, in order, and then silence.\<close>

definition tone_inv :: "tone_thread \<Rightarrow> bool" where
  "tone_inv t \<longleftrightarrow> tt_cursor t \<le> length (tt_wave t) \<and>
     (\<exists>k. tt_output t = take (tt_cursor t) (tt_wave t) @ replicate k (Fin 0) \<and> (tt_cursor t < length (tt_wave t) \<longrightarrow> k = 0)) \<and>
     (tt_at t = F_Draining \<longrightarrow> tt_cursor t = length (tt_wave t))"

definition thread_inv :: "nat option \<Rightarrow> nat \<Rightarrow> tone_thread \<Rightarrow> bool" where
  "thread_inv h i t \<longleftrightarrow> tone_inv t \<and> (sounding (tt_at t) \<longrightarrow> h = Some i)"

definition fw_inv :: "feedback_world \<Rightarrow> bool" where
  "fw_inv w \<longleftrightarrow> (\<forall>i<length (fw_threads w). thread_inv (fw_holder w) i (fw_threads w ! i))"

lemma tone_calls_inv:
  assumes "tone_inv t"
  shows "tone_inv (tone_calls n t)"
proof -
  let ?w = "tt_wave t" and ?c = "tt_cursor t"
  let ?m = "min n (length ?w - ?c)"
  obtain k where k: "tt_output t = take ?c ?w @ replicate k (Fin 0)" "?c < length ?w \<longrightarrow> k = 0" "?c \<le> length ?w"
    using assms by (auto simp: tone_inv_def)
  have "tt_output (tone_calls n t) = take (?c + ?m) ?w @ replicate (k + (n - ?m)) (Fin 0)"
  proof (cases "?c < length ?w")
    case True
    then show ?thesis using k by (simp add: tone_calls_def playback_callback_def Let_def take_add)
  next
    case False
    then show ?thesis using k by (simp add: tone_calls_def playback_callback_def Let_def replicate_add)
  qed
  moreover have "tt_cursor (tone_calls n t) = ?c + ?m" "tt_wave (tone_calls n t) = ?w" "tt_at (tone_calls n t) = tt_at t"
    by (simp_all add: tone_calls_def playback_callback_def Let_def)
  moreover have "?c + ?m < length ?w \<longrightarrow> k + (n - ?m) = 0" using k(2) by (auto simp: min_def)
  ultimately show ?thesis using assms k(3) by (auto simp: tone_inv_def)
qed

lemma tone_calls_at [simp]: "tt_at (tone_calls n t) = tt_at t"
  by (simp add: tone_calls_def playback_callback_def Let_def)

lemma tone_moves: "tone_inv t \<Longrightarrow> p \<noteq> F_Draining \<or> tt_cursor t = length (tt_wave t) \<Longrightarrow> tone_inv (t\<lparr>tt_at := p\<rparr>)"
  by (auto simp: tone_inv_def)

lemma tone_cursor: "tone_inv t \<Longrightarrow> length (tt_wave t) \<le> tt_cursor t \<Longrightarrow> tt_cursor t = length (tt_wave t)"
  by (simp add: tone_inv_def)

lemma fw_thread: "fw_inv w \<Longrightarrow> i < length (fw_threads w) \<Longrightarrow> thread_inv (fw_holder w) i (fw_threads w ! i)"
  by (simp add: fw_inv_def)

text \<open>A step changes one thread and perhaps the holder, as long as the other threads agree.\<close>

lemma fw_inv_set:
  assumes "fw_inv w" "thread_inv h i (f (fw_threads w ! i))"
    "h = fw_holder w \<or> fw_holder w = None \<or> fw_holder w = Some i"
  shows "fw_inv (fw_set i f (w\<lparr>fw_holder := h\<rparr>))"
  unfolding fw_inv_def
proof (intro allI impI)
  fix j
  assume "j < length (fw_threads (fw_set i f (w\<lparr>fw_holder := h\<rparr>)))"
  then have j: "j < length (fw_threads w)" by simp
  show "thread_inv (fw_holder (fw_set i f (w\<lparr>fw_holder := h\<rparr>))) j (fw_threads (fw_set i f (w\<lparr>fw_holder := h\<rparr>)) ! j)"
  proof (cases "j = i")
    case True
    then show ?thesis using assms(2) j by simp
  next
    case False
    then show ?thesis using assms(3) fw_thread [OF assms(1) j] by (auto simp: thread_inv_def)
  qed
qed

lemma fw_inv_set': "fw_inv w \<Longrightarrow> thread_inv (fw_holder w) i (f (fw_threads w ! i)) \<Longrightarrow> fw_inv (fw_set i f w)"
  using fw_inv_set [of w "fw_holder w" i f] by simp

lemma feedback_step_inv:
  assumes "feedback_step sin32 w w'" "fw_inv w"
  shows "fw_inv w'"
  using assms(1)
proof cases
  case (f_starts t wave)
  then show ?thesis using assms(2) by (auto simp: fw_inv_def thread_inv_def tone_inv_def nth_append)
next
  case (f_locks i)
  then show ?thesis using fw_thread [OF assms(2), of i]
    by (simp only:) (rule fw_inv_set [OF assms(2)], simp_all add: thread_inv_def tone_moves)
next
  case (f_unlocks i)
  then show ?thesis using fw_thread [OF assms(2), of i]
    by (simp only:) (rule fw_inv_set [OF assms(2)], simp_all add: thread_inv_def tone_moves)
next
  case f_destroyed
  then show ?thesis using assms(2) by (simp add: fw_inv_def)
next
  case (f_callback i frames)
  then show ?thesis using fw_thread [OF assms(2), of i]
    by (simp only:) (rule fw_inv_set' [OF assms(2)], auto simp: thread_inv_def tone_calls_inv)
next
  case (f_played i)
  then show ?thesis using fw_thread [OF assms(2), of i]
    by (simp only:) (rule fw_inv_set' [OF assms(2)], auto simp: thread_inv_def intro!: tone_moves tone_cursor)
next
  case (f_freed i)
  then show ?thesis using fw_thread [OF assms(2), of i]
    by (simp only:) (rule fw_inv_set' [OF assms(2)], auto simp: thread_inv_def tone_moves)
next
  case (f_no_device i)
  then show ?thesis using fw_thread [OF assms(2), of i]
    by (simp only:) (rule fw_inv_set' [OF assms(2)], auto simp: thread_inv_def tone_moves)
next
  case (f_device i)
  then show ?thesis using fw_thread [OF assms(2), of i]
    by (simp only:) (rule fw_inv_set' [OF assms(2)], auto simp: thread_inv_def tone_moves)
next
  case (f_closes i)
  then show ?thesis using fw_thread [OF assms(2), of i]
    by (simp only:) (rule fw_inv_set' [OF assms(2)], auto simp: thread_inv_def tone_moves)
qed

interpretation tones: step_system "feedback_step sin32" fw_inv for sin32
  by unfold_locales (rule feedback_step_inv)

lemma fw_reachable: "(feedback_step sin32)\<^sup>*\<^sup>* fw_init w \<Longrightarrow> fw_inv w"
  by (erule tones.run_inv) (simp add: fw_inv_def fw_init_def)

text \<open>Two tones never sound together, and a device is closed only after it has been given the whole
  wave in order (or could not be opened).\<close>

theorem tones_do_not_overlap:
  assumes "(feedback_step sin32)\<^sup>*\<^sup>* fw_init w" "i < length (fw_threads w)" "j < length (fw_threads w)"
    "sounding (tt_at (fw_threads w ! i))" "sounding (tt_at (fw_threads w ! j))"
  shows "i = j"
  using fw_thread [OF fw_reachable [OF assms(1)]] assms(2-5) by (metis option.inject thread_inv_def)

theorem tone_played_whole:
  assumes "(feedback_step sin32)\<^sup>*\<^sup>* fw_init w" "i < length (fw_threads w)" "tt_at (fw_threads w ! i) = F_Draining"
  shows "\<exists>k. tt_output (fw_threads w ! i) = tt_wave (fw_threads w ! i) @ replicate k (Fin 0)"
  using fw_thread [OF fw_reachable [OF assms(1)] assms(2)] assms(3) by (auto simp: thread_inv_def tone_inv_def)

text \<open>The manager may be destroyed while a tone waits: the thread then locks a mutex that is gone.\<close>

theorem tone_outlives_manager:
  assumes "tone_wave sin32 t = Some wave" "wave \<noteq> []"
  shows "\<exists>w. (feedback_step sin32)\<^sup>*\<^sup>* fw_init w \<and> F_Freed \<in> tt_at ` set (fw_threads w)"
proof -
  let ?t = "\<lparr>tt_at = F_Waiting, tt_wave = wave, tt_cursor = 0, tt_output = []\<rparr>"
  let ?w1 = "fw_init\<lparr>fw_threads := [?t]\<rparr>"
  let ?w2 = "?w1\<lparr>fw_alive := False\<rparr>"
  let ?w3 = "?w2\<lparr>fw_threads := [?t\<lparr>tt_at := F_Freed\<rparr>]\<rparr>"
  have "feedback_step sin32 fw_init ?w1" using f_starts [of fw_init sin32 t wave] assms by (simp add: fw_init_def)
  moreover have "feedback_step sin32 ?w1 ?w2" by (rule f_destroyed)
  moreover have "feedback_step sin32 ?w2 ?w3" using f_freed [of 0 ?w2 sin32] by (simp add: fw_init_def)
  ultimately have "(feedback_step sin32)\<^sup>*\<^sup>* fw_init ?w3" by (meson rtranclp.rtrancl_into_rtrancl rtranclp.rtrancl_refl)
  then show ?thesis by (intro exI conjI) (assumption | simp)+
qed

end
