(* ===== verification/Avatar.thy ===== *)
theory Avatar
  imports Config_Records
begin

text \<open>
  The floating companion (src/src/avatar/avatar.h, avatar_core.cpp and the window loop of
  platform/avatar_x11.cpp): the characters, the animation state machine with its latches, the ticker
  between the daemon's thread and the window's, the captions, the click gesture and the compositing
  of a frame without transparency. Seconds are \<open>double\<close>s. The rasteriser is \<open>Avatar_Raster\<close>.
\<close>

section \<open>Characters\<close>

datatype avatar_signature = Sig_None | Wings | Inner_Ring | Crown | Motes

record avatar_character =
  ac_id :: string
  ac_name :: string
  ac_epithet :: string
  ac_accent :: "fl \<times> fl \<times> fl"
  ac_tempo :: fl
  ac_signature :: avatar_signature

definition character ::
  "string \<Rightarrow> string \<Rightarrow> string \<Rightarrow> rat \<Rightarrow> rat \<Rightarrow> rat \<Rightarrow> rat \<Rightarrow> avatar_signature \<Rightarrow> avatar_character" where
  "character i n e r g b t s = \<lparr>ac_id = i, ac_name = n, ac_epithet = e, ac_accent = (f32 r, f32 g, f32 b),
     ac_tempo = f32 t, ac_signature = s\<rparr>"

definition AVATAR_CHARACTERS :: "avatar_character list" where
  "AVATAR_CHARACTERS = [
     character ''echo'' ''Echo'' ''the one who answers'' (86/100) (26/100) (20/100) 1 Sig_None,
     character ''hermes'' ''Hermes'' ''the swift herald'' (25/100) (47/100) (95/100) (85/100) Wings,
     character ''mnemosyne'' ''Mnemosyne'' ''keeper of memory'' (83/100) (58/100) (18/100) (120/100) Inner_Ring,
     character ''kalliope'' ''Kalliope'' ''the beautiful-voiced'' (62/100) (32/100) (88/100) (95/100) Crown,
     character ''morpheus'' ''Morpheus'' ''the shape of dreams'' (18/100) (60/100) (58/100) (135/100) Motes]"

definition find_character :: "string \<Rightarrow> avatar_character" where
  "find_character i = (case find (\<lambda>c. ac_id c = i) AVATAR_CHARACTERS of Some c \<Rightarrow> c | None \<Rightarrow> hd AVATAR_CHARACTERS)"

section \<open>The state machine\<close>

datatype avatar_state = Hidden | Av_Idle | Summoned | Listening | Thinking | Av_Writing | Ambient | Av_Error

record avatar_machine =
  vm_requested :: avatar_state
  vm_shown :: avatar_state
  vm_shown_since :: fl
  vm_writing_until :: fl
  vm_summoned_until :: fl

definition new_machine :: avatar_machine where
  "new_machine = \<lparr>vm_requested = Av_Idle, vm_shown = Av_Idle, vm_shown_since = Fin 0,
     vm_writing_until = Fin (- 1), vm_summoned_until = Fin (- 1)\<rparr>"

definition vm_request :: "avatar_state \<Rightarrow> fl \<Rightarrow> avatar_machine \<Rightarrow> avatar_machine" where
  "vm_request s now m =
     (let m1 = m\<lparr>vm_requested := s\<rparr>;
          m2 = (if s = Summoned then m1\<lparr>vm_summoned_until := fl_add f64 now (f64 (45 / 100))\<rparr> else m1)
      in if s = Av_Writing then m2\<lparr>vm_writing_until := fl_add f64 now (f64 (14 / 10))\<rparr> else m2)"

definition vm_effective :: "fl \<Rightarrow> avatar_machine \<Rightarrow> avatar_state \<times> avatar_machine" where
  "vm_effective now m =
     (let out1 = (if vm_requested m = Summoned \<and> fl_le (vm_summoned_until m) now then Listening else vm_requested m);
          out2 = (if fl_lt now (vm_writing_until m) \<and> vm_requested m \<in> {Av_Idle, Av_Writing, Ambient}
                  then Av_Writing else out1);
          m1 = (if out2 \<noteq> vm_shown m then m\<lparr>vm_shown := out2, vm_shown_since := now\<rparr> else m)
      in (vm_shown m1, m1))"

definition vm_phase :: "fl \<Rightarrow> avatar_machine \<Rightarrow> fl" where
  "vm_phase now m =
     fl_max (Fin 0) (fl_sub f64 now (vm_shown_since m))"

fun avatar_state_label :: "avatar_state \<Rightarrow> string" where
  "avatar_state_label Summoned = ''READY''"
| "avatar_state_label Listening = ''LISTENING''"
| "avatar_state_label Thinking = ''THINKING''"
| "avatar_state_label Av_Writing = ''WRITING''"
| "avatar_state_label Ambient = ''IDLE''"
| "avatar_state_label Av_Error = ''ERROR''"
| "avatar_state_label _ = []"

section \<open>The ticker\<close>

text \<open>
  The daemon's thread stores a request; the window's thread consumes the latest one at each tick.
  \<open>tk_has_ambient\<close> and \<open>tk_has_level\<close> say whether the providers are set; what they would answer at
  a tick are its arguments.
\<close>

record avatar_ticker =
  tk_machine :: avatar_machine
  tk_has_level :: bool
  tk_has_ambient :: bool
  tk_requested :: avatar_state
  tk_dirty :: bool
  tk_start_time :: fl
  tk_ambient_countdown :: int
  tk_ambient_active :: bool

definition new_ticker :: "bool \<Rightarrow> bool \<Rightarrow> avatar_ticker" where
  "new_ticker level ambient = \<lparr>tk_machine = new_machine, tk_has_level = level, tk_has_ambient = ambient,
     tk_requested = Av_Idle, tk_dirty = False, tk_start_time = Fin (- 1), tk_ambient_countdown = 0,
     tk_ambient_active = False\<rparr>"

definition tk_request :: "avatar_state \<Rightarrow> avatar_ticker \<Rightarrow> avatar_ticker" where
  "tk_request s tk = tk\<lparr>tk_requested := s, tk_dirty := True\<rparr>"

record snapshot =
  sn_state :: avatar_state
  sn_t :: fl
  sn_phase :: fl
  sn_level :: fl

definition tk_tick :: "fl \<Rightarrow> fl \<Rightarrow> bool \<Rightarrow> avatar_ticker \<Rightarrow> snapshot \<times> avatar_ticker" where
  "tk_tick now level ambient tk =
     (let tk1 = (if fl_lt (tk_start_time tk) (Fin 0) then tk\<lparr>tk_start_time := now\<rparr> else tk);
          m1 = (if tk_dirty tk1 then vm_request (tk_requested tk1) now (tk_machine tk1) else tk_machine tk1);
          (s, m2) = vm_effective now m1;
          tk2 = tk1\<lparr>tk_machine := m2, tk_dirty := False\<rparr>;
          (s', tk3) =
            (if s = Av_Idle \<and> tk_has_ambient tk2 then
               let c = tk_ambient_countdown tk2 - 1;
                   tk3 = (if c \<le> 0 then tk2\<lparr>tk_ambient_countdown := 90, tk_ambient_active := ambient\<rparr>
                          else tk2\<lparr>tk_ambient_countdown := c\<rparr>)
               in (if tk_ambient_active tk3 then Ambient else s, tk3)
             else (s, tk2\<lparr>tk_ambient_countdown := 0, tk_ambient_active := False\<rparr>));
          lvl = (if s' = Listening \<and> tk_has_level tk3 then level else Fin 0)
      in (\<lparr>sn_state = s', sn_t = fl_sub f64 now (tk_start_time tk3), sn_phase = vm_phase now (tk_machine tk3),
             sn_level = lvl\<rparr>, tk3))"

section \<open>The window of the X11 shell\<close>

text \<open>A press that has not moved more than five pixels when released is a click, which toggles dictation.\<close>

datatype pointer_event = Press1 int int | Release1 | Motion int int

record drag =
  dg_dragging :: bool
  dg_moved :: bool
  dg_press :: "int \<times> int"

fun pointer_step :: "drag \<Rightarrow> pointer_event \<Rightarrow> drag \<times> bool" where
  "pointer_step d (Press1 x y) = (d\<lparr>dg_dragging := True, dg_moved := False, dg_press := (x, y)\<rparr>, False)"
| "pointer_step d Release1 = (d\<lparr>dg_dragging := False\<rparr>, \<not> dg_moved d)"
| "pointer_step d (Motion x y) =
     (if dg_dragging d then
        let dx = x - fst (dg_press d); dy = y - snd (dg_press d)
        in (if 25 < dx * dx + dy * dy then d\<lparr>dg_moved := True\<rparr> else d, False)
      else (d, False))"

fun pointer_run :: "drag \<Rightarrow> pointer_event list \<Rightarrow> drag \<times> nat" where
  "pointer_run d [] = (d, 0)"
| "pointer_run d (e # es) =
     (let (d1, click) = pointer_step d e; (d2, n) = pointer_run d1 es
      in (d2, (if click then 1 else 0) + n))"

text \<open>Compositing a premultiplied pixel over the dark plate, on 32-bit words.\<close>

definition plate_pixel :: "u32 \<Rightarrow> u32" where
  "plate_pixel px =
     (let a = drop_bit 24 px; inv = 255 - a;
          r = and (drop_bit 16 px) 0xff + (0x16 * inv + 127) div 255;
          g = and (drop_bit 8 px) 0xff + (0x16 * inv + 127) div 255;
          b = and px 0xff + (0x17 * inv + 127) div 255
      in or (or (or 0xff000000 (push_bit 16 r)) (push_bit 8 g)) b)"

section \<open>Facts\<close>

lemma requested_writing_until:
  "s \<noteq> Av_Writing \<Longrightarrow> vm_writing_until (vm_request s t m) = vm_writing_until m"
  by (simp add: vm_request_def Let_def)

lemma effective_fields:
  "vm_requested (snd (vm_effective now m)) = vm_requested m"
  "vm_writing_until (snd (vm_effective now m)) = vm_writing_until m"
  "vm_summoned_until (snd (vm_effective now m)) = vm_summoned_until m"
  by (simp_all add: vm_effective_def Let_def)

lemma effective_state:
  "fst (vm_effective now m) =
     (if fl_lt now (vm_writing_until m) \<and> vm_requested m \<in> {Av_Idle, Av_Writing, Ambient} then Av_Writing
      else if vm_requested m = Summoned \<and> fl_le (vm_summoned_until m) now then Listening else vm_requested m)"
  by (auto simp: vm_effective_def Let_def)

text \<open>Requests and looks at the machine after a request to write.\<close>

datatype machine_use = Ask avatar_state fl | Look fl

fun use_machine :: "machine_use \<Rightarrow> avatar_machine \<Rightarrow> avatar_machine" where
  "use_machine (Ask s t) m = vm_request s t m"
| "use_machine (Look t) m = snd (vm_effective t m)"

fun calm :: "machine_use \<Rightarrow> bool" where
  "calm (Ask s t) \<longleftrightarrow> s = Av_Idle \<or> s = Ambient"
| "calm (Look t) \<longleftrightarrow> True"

lemma calm_uses:
  assumes "list_all calm us" "vm_requested m \<in> {Av_Idle, Av_Writing, Ambient}"
  shows "vm_writing_until (fold use_machine us m) = vm_writing_until m \<and>
    vm_requested (fold use_machine us m) \<in> {Av_Idle, Av_Writing, Ambient}"
  using assms
proof (induction us arbitrary: m)
  case (Cons u us)
  have "vm_writing_until (use_machine u m) = vm_writing_until m \<and>
      vm_requested (use_machine u m) \<in> {Av_Idle, Av_Writing, Ambient}"
    using Cons.prems by (cases u) (auto simp: requested_writing_until effective_fields vm_request_def Let_def)
  then show ?case using Cons.IH [of "use_machine u m"] Cons.prems by simp
qed simp

text \<open>The click gesture.\<close>

lemma pointer_still:
  assumes "list_all (\<lambda>e. case e of Motion x y \<Rightarrow> (x - px) * (x - px) + (y - py) * (y - py) \<le> 25 | _ \<Rightarrow> False) ms"
    "dg_dragging d" "dg_press d = (px, py)"
  shows "pointer_run d ms = (d, 0)"
  using assms by (induction ms) (auto simp: Let_def split: pointer_event.splits)

lemma click_toggles_once:
  assumes "list_all (\<lambda>e. case e of Motion x y \<Rightarrow> (x - px) * (x - px) + (y - py) * (y - py) \<le> 25 | _ \<Rightarrow> False) ms"
  shows "snd (pointer_run d (Press1 px py # ms @ [Release1])) = 1"
proof -
  let ?d = "d\<lparr>dg_dragging := True, dg_moved := False, dg_press := (px, py)\<rparr>"
  have app: "snd (pointer_run e (as @ bs)) = snd (pointer_run e as) + snd (pointer_run (fst (pointer_run e as)) bs)" for e as bs
    by (induction as arbitrary: e) (simp_all add: Let_def case_prod_beta)
  show ?thesis using pointer_still [OF assms, of ?d] by (simp add: app)
qed

section \<open>Properties\<close>

text \<open>The writing latch: once the machine has been asked to write, it shows writing for the next
  1.4 seconds, whatever requests to rest and looks at it come in between, however short the writing
  itself was.\<close>

theorem writing_latched:
  assumes "list_all calm us" "fl_lt now (fl_add f64 t0 (f64 (14 / 10)))"
  shows "fst (vm_effective now (fold use_machine us (vm_request Av_Writing t0 m))) = Av_Writing"
proof -
  let ?m = "vm_request Av_Writing t0 m"
  have "vm_requested ?m \<in> {Av_Idle, Av_Writing, Ambient}" "vm_writing_until ?m = fl_add f64 t0 (f64 (14 / 10))"
    by (simp_all add: vm_request_def Let_def)
  then show ?thesis using calm_uses [OF assms(1), of ?m] assms(2) by (simp add: effective_state)
qed

text \<open>The latch is not reached through the ticker, which keeps only the last request: a request to
  write that is followed by one to rest before the next tick, as after every injection shorter than a
  frame, has no effect at all.\<close>

theorem ticker_drops_writing:
  "tk_tick now level ambient (tk_request s2 (tk_request s1 tk)) = tk_tick now level ambient (tk_request s2 tk)"
  by (simp add: tk_request_def)

lemma latch_positive: "fl_lt (Fin 0) (fl_add f64 (Fin 0) (f64 (14 / 10)))"
proof -
  have low: "two_pow (- 1022) \<le> (14 / 10 :: rat)" using two_pow_mono [of "- 1022" 0] by (simp add: two_pow_def)
  consider "f64 (14 / 10) = PInf" | r where "f64 (14 / 10) = Fin r" "two_pow (- 1022) \<le> r"
    using fround_normal [OF low, of 53 1023] by (auto simp: f64_def)
  then show ?thesis
  proof cases
    case (2 r)
    have "0 < r" using 2(2) two_pow_pos [of "- 1022"] by linarith
    then show ?thesis using 2 fround_pos [OF 2(2), of 53 1023] by (auto simp: f64_def)
  qed simp
qed

theorem writing_latched_witness:
  "fst (vm_effective (Fin 0) (fold use_machine [Ask Av_Idle (Fin 0)] (vm_request Av_Writing (Fin 0) new_machine))) = Av_Writing"
  using writing_latched [OF _ latch_positive, of "[Ask Av_Idle (Fin 0)]" new_machine] by simp

end
