(* ===== verification/Tray.thy ===== *)
theory Tray
  imports File_System
begin

text \<open>
  The tray icon (src/src/tray/tray.h, tray_common.cpp and platform/tray_gtk.cpp): how hotkeys are
  displayed (the labels of the platforms other than macOS), which icon file a state shows, the menu
  and its actions, and the manager's state; the placeholder of Windows (platform/tray_win32.cpp). The
  GTK calls are left out, except that the GTK loop runs on a thread of its own, which matters to
  \<open>stop\<close> and to when the menu is built.
\<close>

section \<open>Displaying hotkeys\<close>

definition upper_first :: "string \<Rightarrow> string" where
  "upper_first s = (case s of [] \<Rightarrow> [] | c # cs \<Rightarrow> to_upper_c c # cs)"

definition key_labels :: "(string \<times> string) list" where
  "key_labels = [(''shift'', ''Shift''), (''ctrl'', ''Ctrl''), (''alt'', ''Alt''), (''super'', ''Super''),
     (''esc'', ''Esc''), (''enter'', ''Enter''), (''space'', ''Space''), (''tab'', ''Tab''),
     (''media_play_pause'', ''Play/Pause''), (''media_volume_mute'', ''Mute''), (''media_volume_up'', ''Vol+''),
     (''media_volume_down'', ''Vol-''), (''media_next'', ''Next''), (''media_previous'', ''Prev'')]"

definition display_key :: "string \<Rightarrow> string" where
  "display_key keyname =
     (case map_of key_labels keyname of
        Some label \<Rightarrow> label
      | None \<Rightarrow> if length keyname = 1 then map to_upper_c keyname else upper_first keyname)"

definition join_display :: "string \<Rightarrow> string list \<Rightarrow> string" where
  "join_display sep parts = foldl (\<lambda>result part. (if result \<noteq> [] then result @ sep else result) @ part) [] parts"

definition display_hotkey :: "string \<Rightarrow> string" where
  "display_hotkey hotkey =
     (if hotkey = [] then [] else join_display ''+'' (map display_key (getlines (CHR ''+'') hotkey)))"

definition format_hotkeys :: "string list \<Rightarrow> string" where
  "format_hotkeys hotkeys =
     (if hotkeys = [] then ''(none)'' else join_display '', '' (map display_hotkey hotkeys))"

section \<open>Icons\<close>

datatype tray_state = Tr_Idle | Tr_Recording | Tr_Processing | Tr_Error

fun icon_name :: "tray_state \<Rightarrow> string" where
  "icon_name Tr_Idle = ''idle''"
| "icon_name Tr_Recording = ''recording''"
| "icon_name Tr_Processing = ''processing''"
| "icon_name Tr_Error = ''error''"

fun state_title :: "tray_state \<Rightarrow> string" where
  "state_title Tr_Idle = ''AutoWhisper - Ready''"
| "state_title Tr_Recording = ''AutoWhisper - Recording...''"
| "state_title Tr_Processing = ''AutoWhisper - Transcribing...''"
| "state_title Tr_Error = ''AutoWhisper - Error''"

text \<open>\<open>exe\<close> is where \<open>/proc/self/exe\<close> points, \<open>cwd\<close> the working directory.\<close>

definition icon_search_paths :: "string option \<Rightarrow> string list" where
  "icon_search_paths exe =
     (case exe of
        None \<Rightarrow> []
      | Some e \<Rightarrow>
          let exe_dir = parent_path e
          in [exe_dir @ ''/icons'', parent_path exe_dir @ ''/icons'', parent_path exe_dir @ ''/share/autowhisper/icons'']) @
     [''/usr/share/autowhisper/icons'', ''icons'', ''../icons'']"

definition absolute :: "string \<Rightarrow> string \<Rightarrow> string" where
  "absolute cwd p = (if starts_with ''/'' p then p else cwd @ ''/'' @ p)"

fun find_icon :: "fsys \<Rightarrow> string \<Rightarrow> string list \<Rightarrow> string option" where
  "find_icon fs name [] = None"
| "find_icon fs name (dir # dirs) =
     (let svg = dir @ ''/'' @ name @ ''.svg''; png = dir @ ''/'' @ name @ ''.png''
      in if fs_exists fs svg then Some svg else if fs_exists fs png then Some png else find_icon fs name dirs)"

definition get_icon_path :: "string option \<Rightarrow> string \<Rightarrow> fsys \<Rightarrow> tray_state \<Rightarrow> string" where
  "get_icon_path exe cwd fs s =
     (case find_icon fs (icon_name s) (icon_search_paths exe) of
        Some p \<Rightarrow> absolute cwd p | None \<Rightarrow> ''audio-input-microphone'')"

section \<open>The manager\<close>

record tray_manager =
  ty_on :: bool
  ty_state :: tray_state
  ty_input_device :: string
  ty_output_device :: string
  ty_trigger :: "string list"
  ty_cancel :: "string list"
  ty_loop :: bool
  ty_thread :: bool

definition tray_new :: "bool \<Rightarrow> bool \<Rightarrow> tray_manager" where
  "tray_new have_indicator enabled = \<lparr>ty_on = (enabled \<and> have_indicator), ty_state = Tr_Idle,
     ty_input_device = ''Default'', ty_output_device = ''Default'', ty_trigger = [''shift+super''],
     ty_cancel = [''esc''], ty_loop = False, ty_thread = False\<rparr>"

definition tray_start :: "tray_manager \<Rightarrow> tray_manager" where
  "tray_start t = (if \<not> ty_on t then t else t\<lparr>ty_loop := True, ty_thread := True\<rparr>)"

text \<open>
  \<open>on_gtk_thread\<close> tells which thread calls; a thread that joins itself makes \<open>join\<close> throw, which
  nothing catches (\<open>None\<close>).
\<close>

definition tray_stop :: "bool \<Rightarrow> tray_manager \<Rightarrow> tray_manager option" where
  "tray_stop on_gtk_thread t =
     (let t1 = t\<lparr>ty_loop := False\<rparr>
      in if ty_thread t1 then (if on_gtk_thread then None else Some (t1\<lparr>ty_thread := False\<rparr>)) else Some t1)"

definition tray_set_state :: "tray_state \<Rightarrow> tray_manager \<Rightarrow> tray_manager" where
  "tray_set_state s t = (if \<not> ty_on t then t else if s = ty_state t then t else t\<lparr>ty_state := s\<rparr>)"

text \<open>The menu item \<open>Quit\<close>: the daemon's callback, given as a function, and then \<open>stop\<close>, on the GTK thread.\<close>

definition quit_activated :: "('d \<Rightarrow> 'd) \<Rightarrow> tray_manager \<Rightarrow> 'd \<Rightarrow> ('d \<times> tray_manager) option" where
  "quit_activated on_quit t d = map_option (\<lambda>t'. (on_quit d, t')) (tray_stop True t)"

definition tray_set_input_device :: "string \<Rightarrow> tray_manager \<Rightarrow> tray_manager" where
  "tray_set_input_device name t = t\<lparr>ty_input_device := name\<rparr>"

definition tray_set_output_device :: "string \<Rightarrow> tray_manager \<Rightarrow> tray_manager" where
  "tray_set_output_device name t = t\<lparr>ty_output_device := name\<rparr>"

definition tray_set_hotkey :: "string list \<Rightarrow> tray_manager \<Rightarrow> tray_manager" where
  "tray_set_hotkey hotkeys t = t\<lparr>ty_trigger := hotkeys\<rparr>"

definition tray_set_cancel_hotkey :: "string list \<Rightarrow> tray_manager \<Rightarrow> tray_manager" where
  "tray_set_cancel_hotkey hotkeys t = t\<lparr>ty_cancel := hotkeys\<rparr>"

text \<open>
  The menu, as the GTK thread builds it once, from the manager's fields at that moment: labels that
  cannot be activated, separators and the two actions.
\<close>

datatype menu_entry = Menu_Label string | Menu_Separator | Menu_Item string

definition tray_menu :: "string \<Rightarrow> tray_manager \<Rightarrow> menu_entry list" where
  "tray_menu version t = [
     Menu_Label (''AutoWhisper v'' @ version), Menu_Separator,
     Menu_Label (''Record: '' @ format_hotkeys (ty_trigger t)),
     Menu_Label (''Cancel: '' @ format_hotkeys (ty_cancel t)), Menu_Separator,
     Menu_Item ''Open Config'', Menu_Item ''Quit'']"

text \<open>
  \<open>Open Config\<close>: the command line that is spawned, or \<open>None\<close> where the code only warns. \<open>link\<close> is what
  \<open>readlink\<close> gives for \<open>/proc/self/exe\<close>, cut to a buffer of \<open>PATH_MAX - 1\<close> bytes.
\<close>

definition open_config :: "string option \<Rightarrow> string \<Rightarrow> string list option" where
  "open_config link config_path =
     (if config_path = [] then None
      else case map_option (take 4095) link of
             None \<Rightarrow> None
           | Some exe \<Rightarrow> if exe = [] then None else Some [exe, ''config'', ''ui'', ''--config'', config_path])"

text \<open>The placeholder of Windows: a manager that is never enabled and whose operations do nothing.\<close>

definition tray_win32_new :: "bool \<Rightarrow> tray_manager" where
  "tray_win32_new enabled = \<lparr>ty_on = False, ty_state = Tr_Idle,
     ty_input_device = ''Default'', ty_output_device = ''Default'', ty_trigger = [''shift+super''],
     ty_cancel = [''esc''], ty_loop = False, ty_thread = False\<rparr>"

definition tray_win32_start :: "tray_manager \<Rightarrow> tray_manager" where
  "tray_win32_start t = t"

definition tray_win32_stop :: "tray_manager \<Rightarrow> tray_manager" where
  "tray_win32_stop t = t"

definition tray_win32_set_state :: "tray_state \<Rightarrow> tray_manager \<Rightarrow> tray_manager" where
  "tray_win32_set_state s t = t"

section \<open>Facts\<close>

text \<open>
  The daemon sets the hotkeys after it has started the tray, and nothing updates a label: a GTK thread
  that is quick enough shows the defaults, whatever the configuration says.
\<close>

lemma menu_of_started_tray:
  "Menu_Label ''Record: Shift+Super'' \<in> set (tray_menu version (tray_start (tray_new True enabled)))"
  by (cases enabled)
    (simp_all add: tray_menu_def tray_start_def tray_new_def format_hotkeys_def display_hotkey_def join_display_def
      getlines.simps getline_def display_key_def key_labels_def)

lemma open_config_runs_ui:
  "open_config link p = Some argv \<Longrightarrow> tl argv = [''config'', ''ui'', ''--config'', p] \<and> p \<noteq> [] \<and> hd argv \<noteq> []"
  by (auto simp: open_config_def split: if_splits option.splits)

lemma tray_set_state_fields [simp]:
  "ty_on (tray_set_state s t) = ty_on t" "ty_thread (tray_set_state s t) = ty_thread t"
  "ty_loop (tray_set_state s t) = ty_loop t"
  "ty_state (tray_set_state s t) = (if ty_on t then s else ty_state t)"
  by (auto simp: tray_set_state_def)

text \<open>Joining for display is joining, when no part is empty.\<close>

fun join_with :: "string \<Rightarrow> string list \<Rightarrow> string" where
  "join_with sep [] = []"
| "join_with sep [p] = p"
| "join_with sep (p # q # ps) = p @ sep @ join_with sep (q # ps)"

lemma join_display_gen:
  "acc \<noteq> [] \<Longrightarrow> list_all (\<lambda>p. p \<noteq> []) ps \<Longrightarrow>
   foldl (\<lambda>result part. (if result \<noteq> [] then result @ sep else result) @ part) acc ps =
     (if ps = [] then acc else acc @ sep @ join_with sep ps)"
proof (induction ps arbitrary: acc)
  case (Cons p ps)
  from Cons.IH [of "acc @ sep @ p"] Cons.prems show ?case by (cases ps) auto
qed simp

lemma join_display_join: "list_all (\<lambda>p. p \<noteq> []) ps \<Longrightarrow> join_display sep ps = join_with sep ps"
proof (cases ps)
  case (Cons p qs)
  assume a: "list_all (\<lambda>p. p \<noteq> []) ps"
  with Cons join_display_gen [of p qs sep] show ?thesis by (cases qs) (auto simp: join_display_def)
qed (simp add: join_display_def)

text \<open>Choosing \<open>Quit\<close> in the menu of a running tray ends the process by an exception.\<close>

lemma quit_from_menu_crashes: "ty_on t \<Longrightarrow> quit_activated on_quit (tray_start t) d = None"
  by (simp add: quit_activated_def tray_start_def tray_stop_def)

end
