(* ===== verification/Daemon.thy ===== *)
theory Daemon
  imports Config Hotkey Transcript_Pipeline Inference Output Feedback Audio Pulseaudio Avatar Tray
begin

text \<open>
  The daemon (src/src/daemon/daemon.h, daemon.cpp, the build for Linux): its state with all its
  components, the three handlers, the event queue, the reloading of the configuration, start-up and
  clean-up, and the loop as a step relation in which the other threads interleave. The macOS and
  Windows branches and the log messages are left out.
\<close>

section \<open>State\<close>

datatype daemon_state = IDLE | RECORDING | PROCESSING | SHUTDOWN

text \<open>
  Where the daemon's thread is: before the loop's check of the shutdown flag, in \<open>process_events\<close>,
  inside \<open>handle_stop\<close> with the audio taken from the recorder, or past the clean-up.
\<close>

datatype daemon_point = Loop_Check | Loop_Process | Loop_Stopping "fl list" | Loop_Done

record ('c, 'p) daemon =
  dn_config :: config
  dn_config_path :: string
  dn_state :: daemon_state
  dn_config_mtime :: "int option"
  dn_event_queue :: "hotkey_event list"
  dn_shutdown_requested :: bool
  dn_audio :: audio_manager
  dn_whisper :: "'c whisper_inference"
  dn_pipeline :: pipeline
  dn_output :: "'p output_manager"
  dn_tones :: "tone list"
  dn_pulse :: pulse
  dn_hotkey :: hotkey_manager
  dn_avatar :: "avatar_ticker option"
  dn_tray :: tray_manager
  dn_point :: daemon_point
  dn_fs :: fsys

text \<open>
  What is outside: the whisper, output and TOML libraries, the environment of the process, whether
  the tray was built with an indicator library, the process id, and whether \<open>remove\<close> succeeds.
\<close>

record ('c, 'p, 't) daemon_env =
  de_whisper :: "'c whisper_api"
  de_platform :: "'p platform_api"
  de_toml :: "'t toml_api"
  de_io :: io_env
  de_indicator :: bool
  de_pid :: nat
  de_remove :: "fsys \<Rightarrow> string \<Rightarrow> bool"

definition MIN_DURATION :: fl where
  "MIN_DURATION = f32 (1 / 2)"

section \<open>Showing a state\<close>

text \<open>\<open>avatar_->set_state\<close> reaches the ticker only while the companion runs.\<close>

definition show_avatar :: "avatar_state \<Rightarrow> ('c, 'p) daemon \<Rightarrow> ('c, 'p) daemon" where
  "show_avatar s d = d\<lparr>dn_avatar := map_option (tk_request s) (dn_avatar d)\<rparr>"

definition enter_state :: "daemon_state \<Rightarrow> tray_state \<Rightarrow> ('c, 'p) daemon \<Rightarrow> ('c, 'p) daemon" where
  "enter_state s t d = d\<lparr>dn_state := s, dn_tray := tray_set_state t (dn_tray d)\<rparr>"

definition play :: "(feedback_config \<Rightarrow> tone list) \<Rightarrow> ('c, 'p) daemon \<Rightarrow> ('c, 'p) daemon" where
  "play f d = d\<lparr>dn_tones := dn_tones d @ f (c_feedback (dn_config d))\<rparr>"

section \<open>The event queue\<close>

definition on_hotkey_event :: "hotkey_event \<Rightarrow> ('c, 'p) daemon \<Rightarrow> ('c, 'p) daemon" where
  "on_hotkey_event e d =
     (if length (dn_event_queue d) < 100 then d\<lparr>dn_event_queue := dn_event_queue d @ [e]\<rparr> else d)"

text \<open>A click on the companion.\<close>

definition on_toggle :: "('c, 'p) daemon \<Rightarrow> ('c, 'p) daemon" where
  "on_toggle d = on_hotkey_event (if dn_state d = RECORDING then STOP else START) d"

definition request_shutdown :: "('c, 'p) daemon \<Rightarrow> ('c, 'p) daemon" where
  "request_shutdown d = d\<lparr>dn_state := SHUTDOWN, dn_shutdown_requested := True\<rparr>"

definition on_signal :: "('c, 'p) daemon \<Rightarrow> ('c, 'p) daemon" where
  "on_signal d = d\<lparr>dn_shutdown_requested := True\<rparr>"

section \<open>The handlers\<close>

text \<open>
  \<open>init_ok\<close> and \<open>start_ok\<close> say whether the capture device can be initialised and started. \<open>None\<close> is
  the end of the process by \<open>std::terminate\<close>.
\<close>

definition handle_start :: "bool \<Rightarrow> bool \<Rightarrow> ('c, 'p) daemon \<Rightarrow> ('c, 'p) daemon option" where
  "handle_start init_ok start_ok d =
     (if dn_state d \<noteq> IDLE then Some d
      else
        let d1 = play play_start (show_avatar Summoned (enter_state RECORDING Tr_Recording d))
        in map_option (\<lambda>p. d1\<lparr>dn_pulse := p, dn_audio := start_recording init_ok start_ok (dn_audio d1)\<rparr>)
             (mute_other_apps True (dn_pulse d1)))"

text \<open>\<open>handle_stop\<close> up to the call of \<open>stop_recording\<close>, and the rest of it.\<close>

definition stop_begin :: "('c, 'p) daemon \<Rightarrow> ('c, 'p) daemon" where
  "stop_begin d =
     (if dn_state d \<noteq> RECORDING then d
      else
        let d1 = play play_stop (show_avatar Thinking (enter_state PROCESSING Tr_Processing d));
            (audio, am) = stop_recording (dn_audio d1)
        in d1\<lparr>dn_pulse := unmute_other_apps (dn_pulse d1), dn_audio := am, dn_point := Loop_Stopping audio\<rparr>)"

text \<open>Injecting the text, and the body of the \<open>try\<close> block with its handler; \<open>None\<close> is undefined behaviour.\<close>

definition deliver :: "('c, 'p, 't) daemon_env \<Rightarrow> string \<Rightarrow> ('c, 'p) daemon \<Rightarrow> ('c, 'p) daemon option" where
  "deliver E transcript d =
     (if transcript = [] then Some d
      else
        let d1 = show_avatar Av_Writing d
        in map_option (\<lambda>(success, om).
             (let d2 = d1\<lparr>dn_output := om\<rparr> in if success then d2 else show_avatar Av_Error (play play_error d2)))
             (output_inject (de_platform E) (dn_output d1) transcript))"

definition transcribe_audio :: "('c, 'p, 't) daemon_env \<Rightarrow> fl list \<Rightarrow> ('c, 'p) daemon \<Rightarrow> ('c, 'p) daemon option" where
  "transcribe_audio E audio d =
     (let (result, w) = inference_transcribe (de_whisper E) (dn_whisper d) audio [];
          d1 = d\<lparr>dn_whisper := w\<rparr>
      in case result of
           Inl e \<Rightarrow> Some (show_avatar Av_Error (play play_error d1))
         | Inr transcript \<Rightarrow> deliver E (process (dn_pipeline d1) transcript) d1)"

definition too_short :: "('c, 'p) daemon \<Rightarrow> fl list \<Rightarrow> bool" where
  "too_short d audio \<longleftrightarrow> fl_lt (seconds_of (length audio) (au_sample_rate (c_audio (dn_config d)))) MIN_DURATION"

definition stop_finish :: "('c, 'p, 't) daemon_env \<Rightarrow> fl list \<Rightarrow> ('c, 'p) daemon \<Rightarrow> ('c, 'p) daemon option" where
  "stop_finish E audio d =
     (if too_short d audio then Some (enter_state IDLE Tr_Idle (play play_short_beep d))
      else
        case trim_silence (au_sample_rate (am_config (dn_audio d))) default_threshold audio of
          None \<Rightarrow> None
        | Some trimmed \<Rightarrow>
            if trimmed = [] then Some (enter_state IDLE Tr_Idle d)
            else map_option (\<lambda>d1. show_avatar Av_Idle (enter_state IDLE Tr_Idle d1)) (transcribe_audio E trimmed d))"

text \<open>The daemon's thread leaves \<open>handle_stop\<close>.\<close>

definition stop_end :: "('c, 'p, 't) daemon_env \<Rightarrow> ('c, 'p) daemon \<Rightarrow> ('c, 'p) daemon option" where
  "stop_end E d =
     (case dn_point d of
        Loop_Stopping audio \<Rightarrow> map_option (\<lambda>d1. d1\<lparr>dn_point := Loop_Check\<rparr>) (stop_finish E audio d)
      | _ \<Rightarrow> Some d)"

definition handle_stop :: "('c, 'p, 't) daemon_env \<Rightarrow> ('c, 'p) daemon \<Rightarrow> ('c, 'p) daemon option" where
  "handle_stop E d = stop_end E (stop_begin d)"

definition handle_cancel :: "('c, 'p) daemon \<Rightarrow> ('c, 'p) daemon" where
  "handle_cancel d =
     (if dn_state d = PROCESSING then d
      else
        let d1 = (if dn_state d = RECORDING then
                    play play_error (d\<lparr>dn_audio := snd (stop_recording (dn_audio d)),
                                       dn_pulse := unmute_other_apps (dn_pulse d)\<rparr>)
                  else d)
        in show_avatar Av_Idle (enter_state IDLE Tr_Idle d1))"

section \<open>Reloading the configuration\<close>

text \<open>\<open>mtime\<close> is the answer of \<open>last_write_time\<close>, \<open>None\<close> being an error code.\<close>

definition maybe_reload_config ::
  "('c, 'p, 't) daemon_env \<Rightarrow> int option \<Rightarrow> ('c, 'p) daemon \<Rightarrow> ('c, 'p) daemon" where
  "maybe_reload_config E mtime d =
     (if mtime = None then d
      else if dn_config_mtime d = None then d\<lparr>dn_config_mtime := mtime\<rparr>
      else if mtime = dn_config_mtime d then d
      else
        let d1 = d\<lparr>dn_config_mtime := mtime\<rparr>
        in case config_load (de_toml E) (dn_fs d1) (dn_config_path d1) of
             Inl e \<Rightarrow> d1
           | Inr fresh \<Rightarrow>
               (let new = c_hotkeys fresh; old = c_hotkeys (dn_config d1)
                in if hk_trigger new \<noteq> hk_trigger old \<or> hk_cancel new \<noteq> hk_cancel old \<or>
                      hk_mode new \<noteq> hk_mode old \<or> hk_escape_to_cancel new \<noteq> hk_escape_to_cancel old
                   then d1\<lparr>dn_config := (dn_config d1)\<lparr>c_hotkeys := new\<rparr>, dn_hotkey := hm_set_config new (dn_hotkey d1)\<rparr>
                   else d1))"

text \<open>One turn of the loop's body; a STOP leaves the thread inside \<open>handle_stop\<close>.\<close>

definition process_events ::
  "('c, 'p, 't) daemon_env \<Rightarrow> int option \<Rightarrow> bool \<Rightarrow> bool \<Rightarrow> ('c, 'p) daemon \<Rightarrow> ('c, 'p) daemon option" where
  "process_events E mtime init_ok start_ok d =
     (let d1 = (maybe_reload_config E mtime d)\<lparr>dn_point := Loop_Check\<rparr>
      in case dn_event_queue d1 of
           [] \<Rightarrow> Some d1
         | event # rest \<Rightarrow>
             (let d2 = d1\<lparr>dn_event_queue := rest\<rparr>
              in case event of
                   START \<Rightarrow> handle_start init_ok start_ok d2
                 | STOP \<Rightarrow> Some (stop_begin d2)
                 | CANCEL \<Rightarrow> Some (handle_cancel d2)))"

section \<open>Start-up and clean-up\<close>

definition write_pid_file :: "('c, 'p, 't) daemon_env \<Rightarrow> string \<Rightarrow> fsys \<Rightarrow> fsys" where
  "write_pid_file E pid_file fs =
     (let parent = parent_path pid_file
      in if parent = [] \<or> \<not> io_mkdir (de_io E) fs parent then fs
         else
           let fs1 = fs_mkdirs fs parent
           in if io_open (de_io E) fs1 pid_file then fs_write fs1 pid_file (show_nat (de_pid E)) else fs1)"

definition remove_pid_file :: "('c, 'p, 't) daemon_env \<Rightarrow> string \<Rightarrow> fsys \<Rightarrow> fsys" where
  "remove_pid_file E pid_file fs =
     (if fs_exists fs pid_file \<and> de_remove E fs pid_file then fs(pid_file := None) else fs)"

text \<open>The answer of \<open>pactl list short sink-inputs\<close> is its exit code and output.\<close>

definition other_audio_playing :: "int \<times> string \<Rightarrow> bool" where
  "other_audio_playing res \<longleftrightarrow> fst res = 0 \<and> snd res \<noteq> []"

text \<open>
  What start-up meets: the devices, whether the sound server's main loop and context can be made,
  the states its connection goes through, and the sink inputs that exist.
\<close>

record startup =
  su_devices :: "device_lists option"
  su_mainloop :: bool
  su_context :: bool
  su_states :: "nat \<Rightarrow> pa_state"
  su_sinks :: "sink_input list"

text \<open>The ways it fails: an exception, a hotkey that does not parse, undefined behaviour, no return.\<close>

datatype init_failure = Init_Exception exn | Bad_Hotkey | Init_Undefined | Init_Hangs

definition start_avatar :: "avatar_config \<Rightarrow> avatar_ticker option" where
  "start_avatar c = (if av_enabled c then Some (tk_request Av_Idle (new_ticker True True)) else None)"

definition start_tray :: "bool \<Rightarrow> config \<Rightarrow> audio_manager \<Rightarrow> tray_manager" where
  "start_tray indicator c am =
     (tray_start (tray_new indicator (ty_enabled (c_tray c))))
       \<lparr>ty_input_device := am_input_device_name am, ty_output_device := am_output_device_name am,
        ty_trigger := hk_trigger (c_hotkeys c), ty_cancel := hk_cancel (c_hotkeys c)\<rparr>"

definition initialize ::
  "('c, 'p, 't) daemon_env \<Rightarrow> startup \<Rightarrow> 'p option \<Rightarrow> config \<Rightarrow> string \<Rightarrow> fsys \<Rightarrow> init_failure + ('c, 'p) daemon" where
  "initialize E su platform c path fs0 =
     (let fs = write_pid_file E (dm_pid_file (c_daemon c)) fs0
      in case audio_new (c_audio c) of
        None \<Rightarrow> Inl Init_Undefined
      | Some am0 \<Rightarrow>
        let am = audio_initialize (su_devices su) am0
        in case inference_load (de_whisper E) (io_home (de_io E)) fs (inference_new (c_model c)) of
          Inl e \<Rightarrow> Inl (Init_Exception e)
        | Inr w \<Rightarrow>
          case pulse_initialize (su_mainloop su) (su_context su) (su_states su)
                 (pulse_new (au_mute_other_apps (c_audio c)) (fb_duration (c_feedback c)) (su_sinks su)) of
            None \<Rightarrow> Inl Init_Hangs
          | Some p \<Rightarrow>
            case make_manager (c_hotkeys c) True of
              None \<Rightarrow> Inl Bad_Hotkey
            | Some hk \<Rightarrow>
              Inr \<lparr>dn_config = c, dn_config_path = path, dn_state = IDLE, dn_config_mtime = None,
                   dn_event_queue = [], dn_shutdown_requested = False, dn_audio = am, dn_whisper = w,
                   dn_pipeline = make_pipeline (c_formatting c) (md_language (c_model c)),
                   dn_output = output_initialize (de_platform E) (output_new (c_output c) platform),
                   dn_tones = [], dn_pulse = p, dn_hotkey = hk, dn_avatar = start_avatar (c_avatar c),
                   dn_tray = start_tray (de_indicator E) c am, dn_point = Loop_Check, dn_fs = fs\<rparr>)"

text \<open>
  The clean-up after the loop, on the daemon's thread: \<open>polls\<close> and \<open>exited\<close> are what the stop of the
  hotkey source reads (see \<open>x11_stop\<close>).
\<close>

definition cleanup :: "('c, 'p, 't) daemon_env \<Rightarrow> bool list \<Rightarrow> bool \<Rightarrow> ('c, 'p) daemon \<Rightarrow> ('c, 'p) daemon option" where
  "cleanup E polls exited d =
     (let d1 = d\<lparr>dn_hotkey := fst (x11_stop (hm_running (dn_hotkey d)) polls exited (dn_hotkey d)), dn_avatar := None\<rparr>
      in map_option (\<lambda>ty. d1\<lparr>dn_tray := ty,
             dn_audio := (if am_recording (dn_audio d1) then snd (stop_recording (dn_audio d1)) else dn_audio d1),
             dn_pulse := pulse_cleanup (dn_pulse d1),
             dn_fs := remove_pid_file E (dm_pid_file (c_daemon (dn_config d1))) (dn_fs d1), dn_point := Loop_Done\<rparr>)
           (tray_stop False (dn_tray d1)))"

section \<open>The running daemon\<close>

text \<open>\<open>run\<close> starts the hotkey source and enters the loop.\<close>

definition run_entry :: "x11_setup \<Rightarrow> ('c, 'p) daemon \<Rightarrow> ('c, 'p) daemon" where
  "run_entry xs d = d\<lparr>dn_hotkey := fst (x11_start xs (dn_hotkey d))\<rparr>"

text \<open>
  One step of one thread: the daemon's own loop, the hotkey source, the companion's window, the tray,
  a signal, the capture callback, the delayed mute, and other programs writing files. A handler is
  one step, except \<open>handle_stop\<close>, during whose transcription everything else goes on.
\<close>

inductive daemon_step :: "('c, 'p, 't) daemon_env \<Rightarrow> ('c, 'p) daemon \<Rightarrow> ('c, 'p) daemon \<Rightarrow> bool" for E where
  loop_on: "dn_point d = Loop_Check \<Longrightarrow> \<not> dn_shutdown_requested d \<Longrightarrow> daemon_step E d (d\<lparr>dn_point := Loop_Process\<rparr>)"
| loop_off: "dn_point d = Loop_Check \<Longrightarrow> dn_shutdown_requested d \<Longrightarrow> cleanup E polls exited d = Some d' \<Longrightarrow>
    daemon_step E d d'"
| event: "dn_point d = Loop_Process \<Longrightarrow> process_events E mtime init_ok start_ok d = Some d' \<Longrightarrow> daemon_step E d d'"
| stopped: "dn_point d = Loop_Stopping audio \<Longrightarrow> stop_end E d = Some d' \<Longrightarrow> daemon_step E d d'"
| key: "hm_running (dn_hotkey d) \<Longrightarrow> hotkey_step k (dn_hotkey d) = (hk, events) \<Longrightarrow>
    daemon_step E d (fold on_hotkey_event events (d\<lparr>dn_hotkey := hk\<rparr>))"
| click: "dn_avatar d \<noteq> None \<Longrightarrow> daemon_step E d (on_toggle d)"
| window: "dn_avatar d = Some tk \<Longrightarrow> daemon_step E d (d\<lparr>dn_avatar := Some (snd (tk_tick now level ambient tk))\<rparr>)"
| quit: "daemon_step E d (request_shutdown d)"
| signal: "daemon_step E d (on_signal d)"
| capture: "daemon_step E d (d\<lparr>dn_audio := audio_callback input n (dn_audio d)\<rparr>)"
| mute_timer: "daemon_step E d (d\<lparr>dn_pulse := timer_step (dn_pulse d)\<rparr>)"
| others: "daemon_step E d (d\<lparr>dn_fs := fs'\<rparr>)"

inductive daemon_run :: "('c, 'p, 't) daemon_env \<Rightarrow> ('c, 'p) daemon \<Rightarrow> ('c, 'p) daemon \<Rightarrow> bool" for E where
  run_start: "daemon_run E d d"
| run_step: "daemon_run E d d' \<Longrightarrow> daemon_step E d' d'' \<Longrightarrow> daemon_run E d d''"

end
