(* ===== verification/Daemon_Laws.thy ===== *)
theory Daemon_Laws
  imports Daemon Hotkey_Laws Config_Laws
begin

text \<open>
  Theorems about the daemon: the invariant of every interleaving, that other programs are audible
  whenever it is idle or gone, the outcome of \<open>handle_stop\<close> on each branch, the course of one
  dictation from the key press to the text, and what a reload of the configuration changes.
\<close>

section \<open>The handlers, field by field\<close>

lemma show_avatar_fields [simp]:
  "dn_config (show_avatar s d) = dn_config d" "dn_state (show_avatar s d) = dn_state d"
  "dn_event_queue (show_avatar s d) = dn_event_queue d" "dn_audio (show_avatar s d) = dn_audio d"
  "dn_shutdown_requested (show_avatar s d) = dn_shutdown_requested d"
  "dn_whisper (show_avatar s d) = dn_whisper d" "dn_pipeline (show_avatar s d) = dn_pipeline d"
  "dn_output (show_avatar s d) = dn_output d" "dn_tones (show_avatar s d) = dn_tones d"
  "dn_pulse (show_avatar s d) = dn_pulse d" "dn_hotkey (show_avatar s d) = dn_hotkey d"
  "dn_avatar (show_avatar s d) = map_option (tk_request s) (dn_avatar d)"
  "dn_tray (show_avatar s d) = dn_tray d" "dn_point (show_avatar s d) = dn_point d"
  by (simp_all add: show_avatar_def)

lemma enter_state_fields [simp]:
  "dn_config (enter_state s t d) = dn_config d" "dn_state (enter_state s t d) = s"
  "dn_event_queue (enter_state s t d) = dn_event_queue d" "dn_audio (enter_state s t d) = dn_audio d"
  "dn_shutdown_requested (enter_state s t d) = dn_shutdown_requested d"
  "dn_whisper (enter_state s t d) = dn_whisper d" "dn_pipeline (enter_state s t d) = dn_pipeline d"
  "dn_output (enter_state s t d) = dn_output d" "dn_tones (enter_state s t d) = dn_tones d"
  "dn_pulse (enter_state s t d) = dn_pulse d" "dn_hotkey (enter_state s t d) = dn_hotkey d"
  "dn_avatar (enter_state s t d) = dn_avatar d"
  "dn_tray (enter_state s t d) = tray_set_state t (dn_tray d)" "dn_point (enter_state s t d) = dn_point d"
  by (simp_all add: enter_state_def)

lemma play_fields [simp]:
  "dn_config (play f d) = dn_config d" "dn_state (play f d) = dn_state d"
  "dn_event_queue (play f d) = dn_event_queue d" "dn_audio (play f d) = dn_audio d"
  "dn_shutdown_requested (play f d) = dn_shutdown_requested d"
  "dn_whisper (play f d) = dn_whisper d" "dn_pipeline (play f d) = dn_pipeline d"
  "dn_output (play f d) = dn_output d" "dn_tones (play f d) = dn_tones d @ f (c_feedback (dn_config d))"
  "dn_pulse (play f d) = dn_pulse d" "dn_hotkey (play f d) = dn_hotkey d"
  "dn_avatar (play f d) = dn_avatar d" "dn_tray (play f d) = dn_tray d" "dn_point (play f d) = dn_point d"
  by (simp_all add: play_def)

lemma stop_recording_off [simp]:
  "\<not> am_recording (snd (stop_recording m))" "am_config (snd (stop_recording m)) = am_config m"
  by (auto simp: stop_recording_def Let_def)

lemma callback_off: "\<not> am_recording m \<Longrightarrow> audio_callback input n m = m"
  by (simp add: audio_callback_def)

lemma callback_frame:
  "am_recording (audio_callback input n m) = am_recording m" "am_config (audio_callback input n m) = am_config m"
  by (auto simp: audio_callback_def Let_def split: option.split)

lemma reload_frame:
  "dn_state (maybe_reload_config E t d) = dn_state d" "dn_event_queue (maybe_reload_config E t d) = dn_event_queue d"
  "dn_audio (maybe_reload_config E t d) = dn_audio d" "dn_pulse (maybe_reload_config E t d) = dn_pulse d"
  "dn_shutdown_requested (maybe_reload_config E t d) = dn_shutdown_requested d"
  "dn_tray (maybe_reload_config E t d) = dn_tray d" "dn_point (maybe_reload_config E t d) = dn_point d"
  "dn_output (maybe_reload_config E t d) = dn_output d" "dn_whisper (maybe_reload_config E t d) = dn_whisper d"
  "dn_pipeline (maybe_reload_config E t d) = dn_pipeline d" "dn_avatar (maybe_reload_config E t d) = dn_avatar d"
  "dn_tones (maybe_reload_config E t d) = dn_tones d"
  by (simp_all add: maybe_reload_config_def Let_def split: sum.split)

lemma on_hotkey_event_fields [simp]:
  "dn_state (on_hotkey_event e d) = dn_state d" "dn_audio (on_hotkey_event e d) = dn_audio d"
  "dn_pulse (on_hotkey_event e d) = dn_pulse d" "dn_tray (on_hotkey_event e d) = dn_tray d"
  "dn_shutdown_requested (on_hotkey_event e d) = dn_shutdown_requested d"
  "dn_point (on_hotkey_event e d) = dn_point d"
  "length (dn_event_queue d) \<le> 100 \<Longrightarrow> length (dn_event_queue (on_hotkey_event e d)) \<le> 100"
  by (simp_all add: on_hotkey_event_def)

lemma deliver_frame:
  "deliver E s d = Some d' \<Longrightarrow> dn_state d' = dn_state d \<and> dn_event_queue d' = dn_event_queue d \<and>
     dn_audio d' = dn_audio d \<and> dn_pulse d' = dn_pulse d \<and> dn_shutdown_requested d' = dn_shutdown_requested d \<and>
     dn_tray d' = dn_tray d \<and> dn_point d' = dn_point d"
  by (auto simp: deliver_def Let_def split: if_splits)

lemma stop_finish_frame:
  "stop_finish E audio d = Some d' \<Longrightarrow> dn_state d' = IDLE \<and> dn_event_queue d' = dn_event_queue d \<and>
     dn_audio d' = dn_audio d \<and> dn_pulse d' = dn_pulse d \<and> dn_shutdown_requested d' = dn_shutdown_requested d \<and>
     dn_tray d' = tray_set_state Tr_Idle (dn_tray d) \<and> dn_point d' = dn_point d"
  by (auto simp: stop_finish_def transcribe_audio_def case_prod_beta Let_def dest!: deliver_frame
      split: if_splits option.splits sum.splits)

section \<open>The invariant\<close>

fun tray_of :: "daemon_state \<Rightarrow> tray_state" where
  "tray_of RECORDING = Tr_Recording"
| "tray_of PROCESSING = Tr_Processing"
| "tray_of _ = Tr_Idle"

definition stopping :: "daemon_point \<Rightarrow> bool" where
  "stopping p \<longleftrightarrow> (\<exists>audio. p = Loop_Stopping audio)"

lemma stopping_simps [simp]:
  "stopping (Loop_Stopping audio)" "\<not> stopping Loop_Check" "\<not> stopping Loop_Process" "\<not> stopping Loop_Done"
  by (simp_all add: stopping_def)

text \<open>The components are in step with the state.\<close>

definition in_step :: "('c, 'p) daemon \<Rightarrow> bool" where
  "in_step d \<longleftrightarrow>
     (dn_state d = PROCESSING \<longleftrightarrow> stopping (dn_point d)) \<and>
     (am_recording (dn_audio d) \<longrightarrow> dn_state d = RECORDING) \<and>
     (dn_state d \<noteq> RECORDING \<longrightarrow> pulse_quiet (dn_pulse d)) \<and>
     (ty_on (dn_tray d) \<longrightarrow> ty_state (dn_tray d) = tray_of (dn_state d))"

definition daemon_ok :: "sink_input list \<Rightarrow> ('c, 'p) daemon \<Rightarrow> bool" where
  "daemon_ok s0 d \<longleftrightarrow> length (dn_event_queue d) \<le> 100 \<and> pulse_ok s0 (dn_pulse d) \<and>
     (dn_state d = SHUTDOWN \<longrightarrow> dn_shutdown_requested d) \<and>
     (dn_point d = Loop_Done \<longrightarrow> \<not> am_recording (dn_audio d) \<and> pulse_quiet (dn_pulse d) \<and> dn_shutdown_requested d) \<and>
     (\<not> dn_shutdown_requested d \<longrightarrow> in_step d)"

lemma ok_start:
  assumes "daemon_ok s0 d" "dn_point d = Loop_Check" "handle_start i s d = Some d'"
  shows "daemon_ok s0 d'"
proof (cases "dn_state d = IDLE")
  case True
  then obtain p where p: "mute_other_apps True (dn_pulse d) = Some p"
    and d': "dn_state d' = RECORDING" "dn_pulse d' = p" "dn_tray d' = tray_set_state Tr_Recording (dn_tray d)"
      "dn_event_queue d' = dn_event_queue d" "dn_point d' = Loop_Check"
      "dn_shutdown_requested d' = dn_shutdown_requested d"
    using assms(2,3) by (auto simp: handle_start_def Let_def)
  then have "pulse_ok s0 p" using assms(1) pm.mute_ok by (auto simp: daemon_ok_def)
  with d' assms(1) show ?thesis by (auto simp: daemon_ok_def in_step_def)
qed (use assms in \<open>simp add: handle_start_def\<close>)

lemma ok_stop_begin:
  assumes "daemon_ok s0 d" "dn_point d = Loop_Check"
  shows "daemon_ok s0 (stop_begin d)"
  using assms pm.unmute_ok [of s0 "dn_pulse d"]
  by (auto simp: stop_begin_def daemon_ok_def in_step_def case_prod_beta Let_def)

lemma ok_cancel:
  assumes "daemon_ok s0 d" "dn_point d = Loop_Check"
  shows "daemon_ok s0 (handle_cancel d)"
  using assms pm.unmute_ok [of s0 "dn_pulse d"]
  by (auto simp: handle_cancel_def daemon_ok_def in_step_def Let_def)

lemma ok_process:
  assumes "daemon_ok s0 d" "dn_point d = Loop_Process" "process_events E t i s d = Some d'"
  shows "daemon_ok s0 d'"
proof -
  let ?d = "(maybe_reload_config E t d)\<lparr>dn_point := Loop_Check\<rparr>"
  have d: "daemon_ok s0 (?d\<lparr>dn_event_queue := q\<rparr>)" if "length q \<le> 100" for q
    using assms(1,2) that by (auto simp: daemon_ok_def in_step_def reload_frame)
  show ?thesis
  proof (cases "dn_event_queue d")
    case Nil
    moreover have "daemon_ok s0 ?d" using assms(1,2) by (auto simp: daemon_ok_def in_step_def reload_frame)
    ultimately show ?thesis using assms(3) by (simp add: process_events_def Let_def reload_frame)
  next
    case (Cons e rest)
    then have "length rest \<le> 100" using assms(1) by (simp add: daemon_ok_def)
    note d = d [OF this]
    show ?thesis
      using Cons assms(3) ok_start [OF d] ok_stop_begin [OF d] ok_cancel [OF d]
      by (auto simp: process_events_def Let_def reload_frame split: hotkey_event.splits)
  qed
qed

lemma ok_stop_end:
  assumes "daemon_ok s0 d" "dn_point d = Loop_Stopping audio" "stop_end E d = Some d'"
  shows "daemon_ok s0 d'"
  using assms by (auto simp: stop_end_def daemon_ok_def in_step_def dest!: stop_finish_frame)

lemma ok_cleanup:
  assumes "daemon_ok s0 d" "cleanup E polls exited d = Some d'" "dn_shutdown_requested d"
  shows "daemon_ok s0 d'"
  using assms pm.shut_ok [of s0 "dn_pulse d"]
  by (auto simp: cleanup_def daemon_ok_def Let_def split: if_splits)

lemma ok_events: "daemon_ok s0 d \<Longrightarrow> daemon_ok s0 (fold on_hotkey_event es d)"
  by (induction es arbitrary: d) (auto simp: daemon_ok_def in_step_def)

lemma ok_step: "daemon_step E d d' \<Longrightarrow> daemon_ok s0 d \<Longrightarrow> daemon_ok s0 d'"
proof (induction rule: daemon_step.induct)
  case (loop_on d)
  then show ?case by (simp add: daemon_ok_def in_step_def)
next
  case (loop_off d polls exited d')
  then show ?case by (blast intro: ok_cleanup)
next
  case (event d t i s d')
  then show ?case by (blast intro: ok_process)
next
  case (stopped d audio d')
  then show ?case by (blast intro: ok_stop_end)
next
  case (key d k hk events)
  then have "daemon_ok s0 (d\<lparr>dn_hotkey := hk\<rparr>)" by (simp add: daemon_ok_def in_step_def)
  then show ?case by (rule ok_events)
next
  case (click d)
  then show ?case by (simp add: on_toggle_def daemon_ok_def in_step_def)
next
  case (window d tk now level ambient)
  then show ?case by (simp add: daemon_ok_def in_step_def)
next
  case (quit d)
  then show ?case by (simp add: request_shutdown_def daemon_ok_def)
next
  case (signal d)
  then show ?case by (simp add: on_signal_def daemon_ok_def)
next
  case (capture d input n)
  then show ?case by (simp add: daemon_ok_def in_step_def callback_frame)
next
  case (mute_timer d)
  then show ?case
    using pm.tick_ok [of s0 "dn_pulse d"] pm.tick_quiet [of "dn_pulse d"]
    by (auto simp: daemon_ok_def in_step_def)
next
  case (others d fs')
  then show ?case by (simp add: daemon_ok_def in_step_def)
qed

lemma ok_run: "daemon_run E d d' \<Longrightarrow> daemon_ok s0 d \<Longrightarrow> daemon_ok s0 d'"
  by (induction rule: daemon_run.induct) (auto intro: ok_step)

section \<open>Start-up\<close>

lemma initialize_cases:
  assumes "initialize E su platform c path fs = Inr d"
  shows "dn_state d = IDLE \<and> dn_event_queue d = [] \<and> \<not> dn_shutdown_requested d \<and> dn_point d = Loop_Check \<and>
    dn_config d = c \<and> audio_new (c_audio c) \<noteq> None \<and>
    dn_audio d = audio_initialize (su_devices su) (the (audio_new (c_audio c))) \<and>
    pulse_initialize (su_mainloop su) (su_context su) (su_states su)
      (pulse_new (au_mute_other_apps (c_audio c)) (fb_duration (c_feedback c)) (su_sinks su)) = Some (dn_pulse d) \<and>
    dn_tray d = start_tray (de_indicator E) c (dn_audio d)"
  using assms by (auto simp: initialize_def Let_def split: option.splits sum.splits)

lemma audio_fresh:
  "audio_new c = Some m \<Longrightarrow> \<not> am_recording (audio_initialize devs m) \<and> am_config (audio_initialize devs m) = c"
  by (auto simp: audio_new_def audio_initialize_def split: option.splits)

lemma pulse_fresh:
  assumes "pulse_initialize ml ctx states (pulse_new e b sinks) = Some p" "distinct (map si_index sinks)"
  shows "pulse_ok sinks p \<and> pulse_quiet p"
proof -
  have q: "pu_muted_inputs p = [] \<and> pu_timer p = No_Thread \<and> \<not> pu_timer_active p \<and> pu_sinks p = sinks \<and>
      pu_initialized p = pu_context p"
    using assms(1) by (auto simp: pulse_initialize_def pulse_new_def split: if_splits)
  then show ?thesis
    using assms(2) by (auto simp: pulse_ok_def pulse_quiet_def restorable_def timer_ok_def to_change_simps mark_none)
qed

lemma ok_initialize:
  assumes "initialize E su platform c path fs = Inr d" "distinct (map si_index (su_sinks su))"
  shows "daemon_ok (su_sinks su) (run_entry xs d)"
  using initialize_cases [OF assms(1)] pulse_fresh [OF _ assms(2)] audio_fresh
  by (fastforce simp: run_entry_def daemon_ok_def in_step_def start_tray_def tray_start_def tray_new_def)

text \<open>A state reached by a daemon that was started.\<close>

definition daemon_reached ::
  "('c, 'p, 't) daemon_env \<Rightarrow> startup \<Rightarrow> 'p option \<Rightarrow> config \<Rightarrow> string \<Rightarrow> fsys \<Rightarrow> ('c, 'p) daemon \<Rightarrow> bool" where
  "daemon_reached E su platform c path fs d \<longleftrightarrow>
     (\<exists>d0 xs. initialize E su platform c path fs = Inr d0 \<and> daemon_run E (run_entry xs d0) d)"

lemma reached_ok:
  "daemon_reached E su platform c path fs d \<Longrightarrow> distinct (map si_index (su_sinks su)) \<Longrightarrow> daemon_ok (su_sinks su) d"
  unfolding daemon_reached_def using ok_run ok_initialize by metis

section \<open>Stopping\<close>

text \<open>What the daemon needs of a configuration to stop a recording without undefined behaviour.\<close>

definition can_stop :: "('c, 'p) daemon \<Rightarrow> bool" where
  "can_stop d \<longleftrightarrow> inference_is_loaded (dn_whisper d) \<and> sane_rate (au_sample_rate (am_config (dn_audio d))) \<and>
     total_samples (dn_audio d) < 2 ^ 63 \<and>
     fl_to_int (fl_mul f32 (ou_paste_delay (om_config (dn_output d))) (Fin 1000)) \<noteq> None"

lemma clipboard_defined:
  "fl_to_int (fl_mul f32 (ou_paste_delay c) (Fin 1000)) \<noteq> None \<Longrightarrow> deliver_clipboard P c p s post \<noteq> None"
  by (auto simp: deliver_clipboard_def Let_def split: prod.split)

lemma inject_defined:
  assumes "fl_to_int (fl_mul f32 (ou_paste_delay (om_config om)) (Fin 1000)) \<noteq> None"
  shows "\<exists>ok om'. output_inject P om s = Some (ok, om')"
  using clipboard_defined [OF assms, of P]
  by (auto simp: output_inject_def Let_def split: option.split prod.split)

lemma recorded_audio:
  "am_recording m \<Longrightarrow> fst (stop_recording m) = concat (am_buffer m)"
  by (auto simp: stop_recording_def Let_def)

text \<open>The transcript of a recording: trimmed, transcribed in the configured language, processed.\<close>

definition transcript_of ::
  "('c, 'p, 't) daemon_env \<Rightarrow> ('c, 'p) daemon \<Rightarrow> fl list \<Rightarrow> string \<times> 'c whisper_inference" where
  "transcript_of E d audio =
     (case trim_silence (au_sample_rate (am_config (dn_audio d))) default_threshold audio of
        None \<Rightarrow> ([], dn_whisper d)
      | Some trimmed \<Rightarrow>
          (case inference_transcribe (de_whisper E) (dn_whisper d) trimmed [] of
             (Inr raw, w) \<Rightarrow> (process (dn_pipeline d) raw, w)
           | (Inl e, w) \<Rightarrow> ([], w)))"

lemma handle_stop_outcome_lemma:
  assumes r: "dn_state d = RECORDING" "am_recording (dn_audio d)" and c: "can_stop d"
    and audio: "audio = concat (am_buffer (dn_audio d))"
    and tr: "transcript_of E d audio = (transcript, w)"
  shows "\<exists>d'. handle_stop E d = Some d' \<and> dn_state d' = IDLE \<and> dn_point d' = Loop_Check \<and>
    dn_audio d' = snd (stop_recording (dn_audio d)) \<and>
    dn_pulse d' = unmute_other_apps (dn_pulse d) \<and> dn_event_queue d' = dn_event_queue d \<and>
    dn_hotkey d' = dn_hotkey d \<and> dn_config d' = dn_config d \<and>
    (if too_short d audio \<or> audio = [] then
       dn_output d' = dn_output d \<and> dn_whisper d' = dn_whisper d \<and>
       dn_avatar d' = map_option (tk_request Thinking) (dn_avatar d) \<and>
       dn_tones d' = dn_tones d @ play_stop (c_feedback (dn_config d)) @
         (if too_short d audio then play_short_beep (c_feedback (dn_config d)) else [])
     else
       dn_whisper d' = w \<and> dn_avatar d' = map_option (tk_request Av_Idle) (dn_avatar d) \<and>
       (if transcript = [] then
          dn_output d' = dn_output d \<and> dn_tones d' = dn_tones d @ play_stop (c_feedback (dn_config d))
        else
          \<exists>ok. output_inject (de_platform E) (dn_output d) transcript = Some (ok, dn_output d') \<and>
            dn_tones d' = dn_tones d @ play_stop (c_feedback (dn_config d)) @
              (if ok then [] else play_error (c_feedback (dn_config d)))))"
proof -
  define d1 where "d1 = stop_begin d"
  have d1: "dn_point d1 = Loop_Stopping audio" "dn_config d1 = dn_config d" "dn_event_queue d1 = dn_event_queue d"
    "dn_audio d1 = snd (stop_recording (dn_audio d))" "dn_pulse d1 = unmute_other_apps (dn_pulse d)"
    "dn_hotkey d1 = dn_hotkey d" "dn_output d1 = dn_output d" "dn_whisper d1 = dn_whisper d"
    "dn_pipeline d1 = dn_pipeline d" "dn_avatar d1 = map_option (tk_request Thinking) (dn_avatar d)"
    "dn_tones d1 = dn_tones d @ play_stop (c_feedback (dn_config d))"
    using r recorded_audio [OF r(2)] audio by (simp_all add: d1_def stop_begin_def case_prod_beta Let_def)
  have short: "too_short d1 audio = too_short d audio" by (simp add: too_short_def d1)
  have hs: "handle_stop E d = map_option (\<lambda>d2. d2\<lparr>dn_point := Loop_Check\<rparr>) (stop_finish E audio d1)"
    by (simp add: handle_stop_def stop_end_def d1_def [symmetric] d1)
  have rq: "tk_request s (tk_request t tk) = tk_request s tk" for s t tk by (simp add: tk_request_def)
  consider "too_short d audio" | "\<not> too_short d audio" "audio = []" | "\<not> too_short d audio" "audio \<noteq> []" by blast
  then show ?thesis
  proof cases
    case 1
    then show ?thesis using hs d1 by (simp add: stop_finish_def short)
  next
    case 2
    then show ?thesis using hs d1 short by (simp add: stop_finish_def trim_silence_def)
  next
    case 3
    have "length audio < 2 ^ 63" using c by (simp add: can_stop_def audio total_samples_def length_concat)
    then obtain trimmed where t: "trim_silence (au_sample_rate (am_config (dn_audio d))) default_threshold audio = Some trimmed"
      "trimmed \<noteq> []"
      using trim_silence_range [of _ audio default_threshold] c 3(2) by (fastforce simp: can_stop_def)
    obtain raw where i: "inference_transcribe (de_whisper E) (dn_whisper d) trimmed [] = (Inr raw, w)"
      "transcript = process (dn_pipeline d) raw"
      using transcribe_never_throws [of "dn_whisper d" "de_whisper E" trimmed "[]"] c tr t(1)
      by (auto simp: can_stop_def transcript_of_def split: prod.splits)
    have sf: "stop_finish E audio d1 = map_option (\<lambda>d2. show_avatar Av_Idle (enter_state IDLE Tr_Idle d2))
        (deliver E transcript (d1\<lparr>dn_whisper := w\<rparr>))"
      using 3 t i by (simp add: stop_finish_def short d1 transcribe_audio_def)
    obtain ok om where o1: "output_inject (de_platform E) (dn_output d) transcript = Some (ok, om)"
      using inject_defined c by (fastforce simp: can_stop_def)
    show ?thesis using 3 hs sf o1 d1
      by (cases "transcript = []") (auto simp: deliver_def Let_def option.map_comp comp_def rq)
  qed
qed

section \<open>A dictation\<close>

lemma event_hotkey: "(on_hotkey_event e d)\<lparr>dn_hotkey := hk\<rparr> = on_hotkey_event e (d\<lparr>dn_hotkey := hk\<rparr>)"
  by (cases d) (simp add: on_hotkey_event_def)

lemma fold_events_hotkey:
  "(fold on_hotkey_event es d)\<lparr>dn_hotkey := hk\<rparr> = fold on_hotkey_event es (d\<lparr>dn_hotkey := hk\<rparr>)"
  "dn_hotkey (fold on_hotkey_event es d) = dn_hotkey d"
  by (induction es arbitrary: d) (auto simp: event_hotkey, simp add: on_hotkey_event_def)

lemma run_trans: "daemon_run E d' d'' \<Longrightarrow> daemon_run E d d' \<Longrightarrow> daemon_run E d d''"
  by (induction rule: daemon_run.induct) (auto intro: run_step)

lemma run_first: "daemon_step E d d' \<Longrightarrow> daemon_run E d' d'' \<Longrightarrow> daemon_run E d d''"
  using run_trans [OF _ run_step [OF run_start]] by blast

lemma keys_run:
  "hotkey_run ks (dn_hotkey d) = (hk, es) \<Longrightarrow> hm_running (dn_hotkey d) \<Longrightarrow>
     daemon_run E d (fold on_hotkey_event es (d\<lparr>dn_hotkey := hk\<rparr>))"
proof (induction ks arbitrary: d es)
  case Nil
  then have eq: "d\<lparr>dn_hotkey := hk\<rparr> = d" by (cases d) simp
  have "es = []" using Nil.prems by simp
  then show ?case unfolding eq by (simp add: run_start)
next
  case (Cons k ks)
  obtain h1 es1 where s: "hotkey_step k (dn_hotkey d) = (h1, es1)" by fastforce
  obtain es2 where r: "hotkey_run ks h1 = (hk, es2)" "es = es1 @ es2"
    using Cons.prems(1) s by (auto split: prod.splits)
  let ?d = "fold on_hotkey_event es1 (d\<lparr>dn_hotkey := h1\<rparr>)"
  have "daemon_run E ?d (fold on_hotkey_event es2 (?d\<lparr>dn_hotkey := hk\<rparr>))"
    using Cons.IH [of ?d es2] r(1) hotkey_step_frame [OF s] Cons.prems(2) by (simp add: fold_events_hotkey)
  then have "daemon_run E ?d (fold on_hotkey_event es (d\<lparr>dn_hotkey := hk\<rparr>))"
    by (simp add: fold_events_hotkey r(2))
  then show ?case using run_first daemon_step.key [OF Cons.prems(2) s] by blast
qed

lemma captures_run: "daemon_run E d (d\<lparr>dn_audio := run_callbacks cbs (dn_audio d)\<rparr>)"
proof (induction cbs arbitrary: d)
  case (Cons cb cbs)
  obtain input n where cb: "cb = (input, n)" by fastforce
  from run_first [OF daemon_step.capture [where input = input and n = n] Cons.IH] show ?case
    by (simp add: cb run_callbacks_def)
qed (simp add: run_callbacks_def run_start)

lemma process_event:
  "dn_event_queue d = e # es \<Longrightarrow> process_events E None True True d =
     (let d2 = d\<lparr>dn_point := Loop_Check, dn_event_queue := es\<rparr>
      in case e of START \<Rightarrow> handle_start True True d2 | STOP \<Rightarrow> Some (stop_begin d2) | CANCEL \<Rightarrow> Some (handle_cancel d2))"
  by (simp add: process_events_def maybe_reload_config_def Let_def)

text \<open>A turn of the loop that finds an event.\<close>

lemma turn_run:
  assumes "dn_point d = Loop_Check" "\<not> dn_shutdown_requested d"
    "process_events E None True True (d\<lparr>dn_point := Loop_Process\<rparr>) = Some d'"
  shows "daemon_run E d d'"
  using run_first [OF daemon_step.loop_on [OF assms(1,2)] run_step [OF run_start daemon_step.event [OF _ assms(3)]]]
  by simp

definition can_dictate :: "('c, 'p) daemon \<Rightarrow> bool" where
  "can_dictate d \<longleftrightarrow> inference_is_loaded (dn_whisper d) \<and> sane_rate (au_sample_rate (am_config (dn_audio d))) \<and>
     am_max_samples (dn_audio d) \<le> 2 ^ 30 \<and> hm_running (dn_hotkey d) \<and>
     fl_to_int (fl_mul f32 (ou_paste_delay (om_config (dn_output d))) (Fin 1000)) \<noteq> None"

lemma dictation_run:
  assumes idle: "dn_state d = IDLE" "dn_point d = Loop_Check" "\<not> dn_shutdown_requested d" "dn_event_queue d = []"
      "\<not> am_recording (dn_audio d)"
    and can: "can_dictate d" "mute_other_apps True (dn_pulse d) = Some p"
    and keys: "hotkey_run press (dn_hotkey d) = (hk1, [START])" "hotkey_run release hk1 = (hk2, [STOP])"
    and spoken: "audio = concat (delivered_chunks cbs)" "int (length audio) < am_max_samples (dn_audio d)"
      "\<not> too_short d audio" "audio \<noteq> []"
    and tr: "transcript_of E d audio = (transcript, w)" "transcript \<noteq> []"
  shows "\<exists>d' ok. daemon_run E d d' \<and> dn_state d' = IDLE \<and> dn_point d' = Loop_Check \<and> dn_event_queue d' = [] \<and>
    dn_hotkey d' = hk2 \<and> dn_pulse d' = unmute_other_apps p \<and>
    output_inject (de_platform E) (dn_output d) transcript = Some (ok, dn_output d') \<and>
    dn_tones d' = dn_tones d @ play_start (c_feedback (dn_config d)) @ play_stop (c_feedback (dn_config d)) @
      (if ok then [] else play_error (c_feedback (dn_config d)))"
proof -
  have running: "hm_running hk1"
    using hotkey_run_invariant [of hm_running "dn_hotkey d" press hk1] hotkey_step_frame keys(1) can(1)
    by (fastforce simp: can_dictate_def)
  define d1 where "d1 = d\<lparr>dn_hotkey := hk1, dn_event_queue := [START]\<rparr>"
  have r1: "daemon_run E d d1"
    using keys_run [OF keys(1)] can(1) idle(4) by (simp add: can_dictate_def on_hotkey_event_def d1_def)
  obtain d2 where d2: "handle_start True True (d1\<lparr>dn_point := Loop_Check, dn_event_queue := []\<rparr>) = Some d2"
    "dn_state d2 = RECORDING" "dn_point d2 = Loop_Check" "dn_event_queue d2 = []" "\<not> dn_shutdown_requested d2"
    "dn_hotkey d2 = hk1" "dn_audio d2 = start_recording True True (dn_audio d)" "dn_pulse d2 = p"
    "dn_config d2 = dn_config d" "dn_whisper d2 = dn_whisper d" "dn_pipeline d2 = dn_pipeline d"
    "dn_output d2 = dn_output d" "dn_tones d2 = dn_tones d @ play_start (c_feedback (dn_config d))"
    using idle can(2) by (auto simp: handle_start_def d1_def Let_def)
  have r2: "daemon_run E d1 d2"
    by (rule turn_run) (use d2(1) idle in \<open>simp_all add: d1_def process_event Let_def\<close>)
  let ?m = "run_callbacks cbs (dn_audio d2)"
  have m: "am_buffer ?m = delivered_chunks cbs" "am_recording ?m" "am_config ?m = am_config (dn_audio d)"
    using run_callbacks_all [of "dn_audio d2" cbs] d2(7) idle(5) can(1) spoken(1,2)
    by (auto simp: start_recording_def can_dictate_def total_samples_def)
  define d3 where "d3 = d2\<lparr>dn_audio := ?m, dn_hotkey := hk2, dn_event_queue := [STOP]\<rparr>"
  have r3: "daemon_run E d2 d3"
    using run_trans [OF keys_run [of release "d2\<lparr>dn_audio := ?m\<rparr>" hk2 "[STOP]" E] captures_run [of E d2 cbs]]
      keys(2) running d2 by (simp add: on_hotkey_event_def d3_def)
  define d4 where "d4 = d3\<lparr>dn_point := Loop_Check, dn_event_queue := []\<rparr>"
  have "total_samples ?m < 2 ^ 63"
    using m(1) spoken(1,2) can(1) by (simp add: total_samples_def length_concat can_dictate_def)
  then have can4: "can_stop d4"
    using can(1) m d2 by (simp add: can_dictate_def can_stop_def d4_def d3_def)
  have f4: "dn_whisper d4 = dn_whisper d" "dn_pipeline d4 = dn_pipeline d" "am_config (dn_audio d4) = am_config (dn_audio d)"
    using m(3) d2 by (simp_all add: d4_def d3_def)
  have tr4: "transcript_of E d4 audio = (transcript, w)"
    using tr(1) unfolding transcript_of_def f4 .
  have short4: "\<not> too_short d4 audio" using spoken(3) d2 by (simp add: too_short_def d4_def d3_def)
  have s4: "dn_state d4 = RECORDING" "am_recording (dn_audio d4)" "audio = concat (am_buffer (dn_audio d4))"
    "dn_event_queue d4 = []" "dn_hotkey d4 = hk2" "dn_output d4 = dn_output d" "dn_config d4 = dn_config d"
    "dn_pulse d4 = p" "dn_tones d4 = dn_tones d @ play_start (c_feedback (dn_config d))"
    using d2 m spoken(1) by (simp_all add: d4_def d3_def)
  have ne: "\<not> (too_short d4 audio \<or> audio = [])" using short4 spoken(4) by simp
  obtain d5 ok where d5: "handle_stop E d4 = Some d5" "dn_state d5 = IDLE" "dn_point d5 = Loop_Check"
    "dn_event_queue d5 = []" "dn_hotkey d5 = hk2" "dn_pulse d5 = unmute_other_apps p"
    "output_inject (de_platform E) (dn_output d) transcript = Some (ok, dn_output d5)"
    "dn_tones d5 = dn_tones d @ play_start (c_feedback (dn_config d)) @ play_stop (c_feedback (dn_config d)) @
      (if ok then [] else play_error (c_feedback (dn_config d)))"
    using handle_stop_outcome_lemma [OF s4(1,2) can4 s4(3) tr4] unfolding if_not_P [OF ne] if_not_P [OF tr(2)] s4(4-9)
    by fastforce
  have r4: "daemon_run E d3 (stop_begin d4)"
    by (rule turn_run) (use d2 in \<open>simp_all add: d3_def d4_def process_event Let_def\<close>)
  have "dn_point (stop_begin d4) = Loop_Stopping audio"
    using s4 recorded_audio [OF s4(2)] by (simp add: stop_begin_def case_prod_beta Let_def)
  from daemon_step.stopped [OF this] d5(1) have "daemon_step E (stop_begin d4) d5" by (simp add: handle_stop_def)
  then have "daemon_run E d d5" using r1 r2 r3 r4 run_trans run_step by metis
  with d5 show ?thesis by blast
qed

section \<open>Reloading\<close>

lemma hotkeys_equal:
  "(c :: hotkey_config) = c' \<longleftrightarrow> hk_trigger c = hk_trigger c' \<and> hk_cancel c = hk_cancel c' \<and> hk_mode c = hk_mode c' \<and>
     hk_escape_to_cancel c = hk_escape_to_cancel c'"
  by (cases c; cases c') auto

lemma no_release_after_reset:
  "snd (hotkey_step (ModUp m) (hm_set_config c hk)) = []" "snd (hotkey_step (KeyUp k) (hm_set_config c hk)) = []"
  by (simp_all add: on_modifier_release_def on_key_release_def hm_set_config_def Let_def)

lemma reload_loaded:
  assumes "config_load (de_toml E) (dn_fs d) (dn_config_path d) = Inr fresh" "dn_config_mtime d = Some t0" "t1 \<noteq> t0"
  shows "maybe_reload_config E (Some t1) d = d\<lparr>dn_config_mtime := Some t1,
    dn_config := (dn_config d)\<lparr>c_hotkeys := c_hotkeys fresh\<rparr>,
    dn_hotkey := (if c_hotkeys (dn_config d) = c_hotkeys fresh then dn_hotkey d
                  else hm_set_config (c_hotkeys fresh) (dn_hotkey d))\<rparr>"
proof (cases "c_hotkeys (dn_config d) = c_hotkeys fresh")
  case True
  then have e: "(dn_config d)\<lparr>c_hotkeys := c_hotkeys fresh\<rparr> = dn_config d" by (cases "dn_config d") simp
  have "maybe_reload_config E (Some t1) d = d\<lparr>dn_config_mtime := Some t1\<rparr>"
    using assms True by (simp add: maybe_reload_config_def)
  also have "\<dots> = d\<lparr>dn_config_mtime := Some t1, dn_config := dn_config d, dn_hotkey := dn_hotkey d\<rparr>" by (cases d) simp
  finally show ?thesis by (simp only: e True if_True simp_thms)
next
  case False
  then have "hk_trigger (c_hotkeys fresh) \<noteq> hk_trigger (c_hotkeys (dn_config d)) \<or>
      hk_cancel (c_hotkeys fresh) \<noteq> hk_cancel (c_hotkeys (dn_config d)) \<or>
      hk_mode (c_hotkeys fresh) \<noteq> hk_mode (c_hotkeys (dn_config d)) \<or>
      hk_escape_to_cancel (c_hotkeys fresh) \<noteq> hk_escape_to_cancel (c_hotkeys (dn_config d))"
    by (auto simp: hotkeys_equal)
  then show ?thesis using assms False by (simp add: maybe_reload_config_def Let_def)
qed

section \<open>Properties\<close>


text \<open>C4: No other program is left muted. In every reachable state in which the daemon is not recording
  and no shutdown is pending, and after its clean-up in any case, each sink input is as it was when
  the daemon started, and no thread remains that could mute one later.\<close>

theorem idle_leaves_others_audible:
  assumes "daemon_reached E su platform c path fs d" "distinct (map si_index (su_sinks su))"
    and "(dn_state d \<noteq> RECORDING \<and> \<not> dn_shutdown_requested d) \<or> dn_point d = Loop_Done"
  shows "pu_sinks (dn_pulse d) = su_sinks su \<and> pu_muted_inputs (dn_pulse d) = [] \<and>
    timer_step (dn_pulse d) = dn_pulse d"
proof -
  have ok: "pulse_ok (su_sinks su) (dn_pulse d)" and q: "pulse_quiet (dn_pulse d)"
    using reached_ok [OF assms(1,2)] assms(3) by (auto simp: daemon_ok_def in_step_def)
  show ?thesis using quiet_sinks [OF ok q] pm.tick_quiet [OF q] q by (simp add: pulse_quiet_def)
qed


text \<open>C1: A dictation, from the keys to the text. Let a started daemon be idle with no event waiting, let
  key events make the hotkey manager send START, the microphone deliver chunks shorter together than
  the limit and no shorter than half a second, and further key events make it send STOP. Then the
  daemon has a run that ends idle with every other program as audible as before, in which the output
  was given, once, exactly the processed transcript of the trimmed concatenation of those chunks.
  (The premise on the mute excludes the defect of the second delayed mute; it holds whenever muting
  is switched off.)\<close>

theorem dictation_delivers:
  assumes "daemon_reached E su platform c path fs d" "distinct (map si_index (su_sinks su))"
    and "dn_state d = IDLE" "dn_point d = Loop_Check" "\<not> dn_shutdown_requested d" "dn_event_queue d = []"
    and "can_dictate d" "mute_other_apps True (dn_pulse d) = Some p"
    and "hotkey_run press (dn_hotkey d) = (hk1, [START])" "hotkey_run release hk1 = (hk2, [STOP])"
    and "audio = concat (delivered_chunks cbs)" "int (length audio) < am_max_samples (dn_audio d)"
      "\<not> too_short d audio" "audio \<noteq> []"
    and "transcript_of E d audio = (transcript, w)" "transcript \<noteq> []"
  shows "\<exists>d' ok. daemon_run E d d' \<and> dn_state d' = IDLE \<and> dn_point d' = Loop_Check \<and> dn_event_queue d' = [] \<and>
    dn_hotkey d' = hk2 \<and> pu_sinks (dn_pulse d') = su_sinks su \<and>
    output_inject (de_platform E) (dn_output d) transcript = Some (ok, dn_output d') \<and>
    dn_tones d' = dn_tones d @ play_start (c_feedback (dn_config d)) @ play_stop (c_feedback (dn_config d)) @
      (if ok then [] else play_error (c_feedback (dn_config d)))"
proof -
  have ok: "daemon_ok (su_sinks su) d" by (rule reached_ok [OF assms(1,2)])
  then have off: "\<not> am_recording (dn_audio d)" using assms(3,5) by (auto simp: daemon_ok_def in_step_def)
  have "pulse_ok (su_sinks su) p" using ok assms(8) pm.mute_ok by (auto simp: daemon_ok_def)
  then have "pu_sinks (unmute_other_apps p) = su_sinks su" using quiet_sinks pm.unmute_ok by blast
  with dictation_run [OF assms(3-6) off assms(7-16)] show ?thesis by metis
qed


section \<open>An example\<close>

text \<open>Eight samples a second, muting switched on, an engine that always hears the same word.\<close>

definition demo_audio :: audio_config where
  "demo_audio = default_audio\<lparr>au_sample_rate := 8, au_mute_other_apps := True\<rparr>"

definition demo_config :: config where
  "demo_config = default_config\<lparr>c_audio := demo_audio\<rparr>"

definition hello_engine :: "nat whisper_api" where
  "hello_engine = \<lparr>wh_context_default = \<lparr>cp_use_gpu = True, cp_flash_attn = False\<rparr>,
     wh_full_default = (\<lambda>s. \<lparr>wp_strategy = s, wp_n_threads = 4, wp_no_context = True, wp_no_timestamps = False,
        wp_single_segment = False, wp_print_special = False, wp_print_progress = True, wp_print_realtime = False,
        wp_print_timestamps = True, wp_language = Some ''en'', wp_temperature = Fin 0, wp_temperature_inc = Fin 0,
        wp_entropy_thold = Fin 0, wp_logprob_thold = Fin (- 1), wp_no_speech_thold = Fin 0, wp_best_of = 5,
        wp_beam_size = 0\<rparr>),
     wh_init = (\<lambda>fs p c. Some 0), wh_full = (\<lambda>c p a. (0, c + 1)), wh_segments = (\<lambda>c. [Some '' hello''])\<rparr>"

definition typing_platform :: "string platform_api" where
  "typing_platform = \<lparr>po_initialize = (\<lambda>p. p), po_inject = (\<lambda>p s. (True, p @ s)), po_copy = (\<lambda>p s. (False, p)),
     po_paste = (\<lambda>p. (False, p)), po_return = (\<lambda>p. (True, p)), po_can_post = (\<lambda>p. True), po_can_copy = (\<lambda>p. False)\<rparr>"

definition demo_env :: "(nat, string, toml_value) daemon_env" where
  "demo_env = \<lparr>de_whisper = hello_engine, de_platform = typing_platform, de_toml = mini_toml,
     de_io = open_env\<lparr>io_mkdir := \<lambda>fs p. False\<rparr>, de_indicator = True, de_pid = 7, de_remove = (\<lambda>fs p. True)\<rparr>"

definition demo_startup :: startup where
  "demo_startup = \<lparr>su_devices = None, su_mainloop = True, su_context = True, su_states = (\<lambda>i. PA_READY),
     su_sinks = [\<lparr>si_index = 7, si_name = ''Music'', si_binary = Some ''/usr/bin/player'', si_mute = False\<rparr>]\<rparr>"

definition demo_recorder :: audio_manager where
  "demo_recorder = \<lparr>am_config = demo_audio, am_buffer = [], am_recording = False, am_peak = Fin 0,
     am_input_device_name = ''Unknown'', am_output_device_name = ''Unknown'', am_max_samples = 4800,
     am_silence_threshold_samples = 2, am_device_initialized = False\<rparr>"

definition demo_keys :: x11_setup where
  "demo_keys = \<lparr>xs_displays = True, xs_record_ext = True, xs_range = True, xs_context = True, xs_enable = True\<rparr>"

definition demo_daemon :: "(nat, string) daemon" where
  "demo_daemon = \<lparr>dn_config = demo_config, dn_config_path = ''/c.toml'', dn_state = IDLE, dn_config_mtime = None,
     dn_event_queue = [], dn_shutdown_requested = False, dn_audio = demo_recorder,
     dn_whisper = \<lparr>wi_config = default_model, wi_ctx = Some 0\<rparr>, dn_pipeline = make_pipeline default_formatting ''en'',
     dn_output = output_new default_output (Some []), dn_tones = [],
     dn_pulse = (pulse_new True (fb_duration default_feedback) (su_sinks demo_startup))
       \<lparr>pu_context := True, pu_initialized := True\<rparr>,
     dn_hotkey = the (make_manager default_hotkeys True), dn_avatar = start_avatar default_avatar,
     dn_tray = start_tray True demo_config demo_recorder, dn_point = Loop_Check, dn_fs = (\<lambda>p. Some Dir)\<rparr>"

lemma demo_recorder_new: "audio_new demo_audio = Some demo_recorder"
  by code_simp

lemma demo_model: "resolve_model_path (Some ''/home/u'') (\<lambda>p. Some Dir) default_model =
    Inr (get_model_path (Some ''/home/u'') ''distil-large-v3'')"
  by code_simp

lemma demo_hotkeys: "make_manager default_hotkeys True \<noteq> None"
  by code_simp

lemma demo_pulse_starts:
  "pulse_initialize True True (\<lambda>i. PA_READY) (pulse_new True b sinks) =
     Some ((pulse_new True b sinks)\<lparr>pu_context := True, pu_initialized := True\<rparr>)"
  by (simp add: pulse_initialize_def pulse_new_def wait_connected.simps)

lemma demo_initialize:
  "initialize demo_env demo_startup (Some []) demo_config ''/c.toml'' (\<lambda>p. Some Dir) = Inr demo_daemon"
proof -
  have "au_mute_other_apps demo_audio" "md_language default_model = ''en''"
    by (simp_all add: demo_audio_def default_model_def)
  then show ?thesis
    using demo_hotkeys
    by (auto simp: initialize_def demo_config_def demo_daemon_def demo_recorder_new demo_env_def open_env_def
        write_pid_file_def inference_load_def inference_new_def demo_model bind_r_def hello_engine_def demo_startup_def
        audio_initialize_def demo_pulse_starts output_initialize_def output_new_def typing_platform_def
        default_config_def Let_def)
qed

definition demo_idle :: "(nat, string) daemon" where
  "demo_idle = run_entry demo_keys demo_daemon"

lemma demo_reached: "daemon_reached demo_env demo_startup (Some []) demo_config ''/c.toml'' (\<lambda>p. Some Dir) demo_idle"
  unfolding daemon_reached_def demo_idle_def using demo_initialize run_start by blast

lemma demo_sinks: "distinct (map si_index (su_sinks demo_startup))"
  by (simp add: demo_startup_def)

lemma demo_hotkey: "dn_hotkey demo_idle = chord_manager"
  by (simp add: demo_idle_def run_entry_def demo_daemon_def) (code_simp)

lemma demo_press:
  "hotkey_run [ModDown ''shift'', ModDown ''super''] chord_manager =
     (fst (hotkey_run [ModDown ''shift'', ModDown ''super''] chord_manager), [START])"
  "hotkey_run [ModUp ''shift'', ModUp ''super''] (fst (hotkey_run [ModDown ''shift'', ModDown ''super''] chord_manager)) =
     (chord_manager, [STOP])"
  by (code_simp, code_simp)

definition demo_chunks :: "(fl list option \<times> nat) list" where
  "demo_chunks = [(Some [Fin 1, Fin 1], 2), (None, 2), (Some [Fin 1, Fin 1], 2)]"

definition demo_spoken :: "fl list" where
  "demo_spoken = replicate 4 (Fin 1)"

lemma demo_rate: "sane_rate 8"
proof -
  have "pad_samples 8 = Some 0" by code_simp
  then show ?thesis by (simp add: sane_rate_def)
qed

text \<open>Equal samples are all loud or all quiet; nothing is trimmed either way.\<close>

lemma demo_trim: "trim_silence 8 default_threshold demo_spoken = Some demo_spoken"
proof -
  have n: "demo_spoken \<noteq> []" "length demo_spoken = 4" by (simp_all add: demo_spoken_def)
  have eq: "demo_spoken ! k = Fin 1" if "k < 4" for k
    using that by (simp add: demo_spoken_def)
  obtain a b where t: "trim_silence 8 default_threshold demo_spoken = Some (take (b - a) (drop a demo_spoken))"
    "b \<le> 4" "\<forall>k < 4. loud default_threshold (demo_spoken ! k) \<longrightarrow> a \<le> k \<and> k < b"
    "(\<exists>k < 4. loud default_threshold (demo_spoken ! k)) \<or> (a = 0 \<and> b = 4)"
    using trim_silence_range [OF demo_rate n(1), of default_threshold] n(2) by auto
  have "a = 0 \<and> b = 4"
  proof (cases "loud default_threshold (Fin 1)")
    case True
    then show ?thesis using t(2) t(3) [rule_format, of 0] t(3) [rule_format, of 3] by (simp add: eq)
  next
    case False
    then show ?thesis using t(4) eq by auto
  qed
  then show ?thesis using t(1) n(2) by simp
qed

lemma demo_delay: "fl_to_int (fl_mul f32 (ou_paste_delay default_output) (Fin 1000)) \<noteq> None"
  by code_simp

lemma demo_hello: "process (make_pipeline default_formatting ''en'') (trim_by is_space '' hello'') = ''Hello''"
  by code_simp

lemma fl_lt_irrefl: "\<not> fl_lt x x"
  by (cases x) auto

lemma demo_long: "\<not> fl_lt (seconds_of 4 8) MIN_DURATION"
proof -
  have "seconds_of 4 8 = f32 (4 / 8)" using f32_of_int [of 4] f32_of_int [of 8] by (simp add: seconds_of_def)
  then show ?thesis by (simp add: MIN_DURATION_def fl_lt_irrefl)
qed

lemma demo_transcript:
  "transcript_of demo_env demo_idle demo_spoken = (''Hello'', \<lparr>wi_config = default_model, wi_ctx = Some 1\<rparr>)"
proof -
  have f: "au_sample_rate (am_config (dn_audio demo_idle)) = 8" "dn_pipeline demo_idle = make_pipeline default_formatting ''en''"
    "dn_whisper demo_idle = \<lparr>wi_config = default_model, wi_ctx = Some 0\<rparr>"
    by (simp_all add: demo_idle_def run_entry_def demo_daemon_def demo_recorder_def demo_audio_def)
  have "inference_transcribe (de_whisper demo_env) (dn_whisper demo_idle) demo_spoken [] =
      (Inr (trim_by is_space '' hello''), \<lparr>wi_config = default_model, wi_ctx = Some 1\<rparr>)"
    by (simp add: f inference_transcribe_def demo_spoken_def demo_env_def hello_engine_def collect_segments_def)
  then show ?thesis by (simp add: transcript_of_def f demo_trim demo_hello)
qed

lemma demo_can: "can_dictate demo_idle"
proof -
  have "hm_running (dn_hotkey demo_idle)" unfolding demo_hotkey by code_simp
  then show ?thesis
    using demo_delay demo_rate
    by (simp add: can_dictate_def) (simp add: demo_idle_def run_entry_def demo_daemon_def demo_recorder_def demo_audio_def
        inference_is_loaded_def output_new_def)
qed

lemma demo_mutes: "mute_other_apps True (dn_pulse demo_idle) = Some ((dn_pulse demo_idle)\<lparr>pu_timer_active := True, pu_timer := Sleeping\<rparr>)"
  by (simp add: demo_idle_def run_entry_def demo_daemon_def mute_other_apps_def pulse_new_def joinable_def)

theorem dictation_delivers_witness:
  "\<exists>d' ok. daemon_run demo_env demo_idle d' \<and> dn_state d' = IDLE \<and> pu_sinks (dn_pulse d') = su_sinks demo_startup \<and>
     output_inject typing_platform (output_new default_output (Some [])) ''Hello'' = Some (ok, dn_output d')"
proof -
  have f: "dn_state demo_idle = IDLE" "dn_point demo_idle = Loop_Check" "\<not> dn_shutdown_requested demo_idle"
    "dn_event_queue demo_idle = []" "am_max_samples (dn_audio demo_idle) = 4800"
    "dn_output demo_idle = output_new default_output (Some [])" "dn_config demo_idle = demo_config"
    by (simp_all add: demo_idle_def run_entry_def demo_daemon_def demo_recorder_def)
  have c: "demo_spoken = concat (delivered_chunks demo_chunks)"
    by (simp add: delivered_chunks_def demo_chunks_def demo_spoken_def eval_nat_numeral)
  have l: "\<not> too_short demo_idle demo_spoken"
  proof -
    have "length demo_spoken = 4" "au_sample_rate (c_audio (dn_config demo_idle)) = 8"
      by (simp_all add: demo_spoken_def f demo_config_def demo_audio_def)
    with demo_long show ?thesis by (simp only: too_short_def not_False_eq_True)
  qed
  from dictation_delivers [OF demo_reached demo_sinks f(1-4) demo_can demo_mutes
      demo_press(1) [folded demo_hotkey] demo_press(2) [folded demo_hotkey] c _ l _ demo_transcript]
  show ?thesis by (auto simp: f demo_env_def demo_spoken_def)
qed


theorem idle_leaves_others_audible_witness: "pu_sinks (dn_pulse demo_idle) = su_sinks demo_startup"
  using idle_leaves_others_audible [OF demo_reached demo_sinks]
  by (simp add: demo_idle_def run_entry_def demo_daemon_def)

definition demo_recording :: "(nat, string) daemon" where
  "demo_recording = demo_idle\<lparr>dn_state := RECORDING, dn_audio := demo_recorder\<lparr>am_recording := True, am_buffer := [demo_spoken]\<rparr>\<rparr>"

lemma demo_recording_can: "can_stop demo_recording"
  using demo_can
  by (simp add: can_dictate_def can_stop_def demo_recording_def total_samples_def demo_spoken_def demo_recorder_def
      demo_audio_def demo_rate)


definition saved_fs :: fsys where
  "saved_fs = fs_write (fs_mkdirs (\<lambda>_. None) ''/home/u'') ''/home/u/c.toml''
     (t_print (memo_toml quiet_config) (toml_of_config (memo_toml quiet_config) quiet_config))"

lemma quiet_saved: "config_save (memo_toml quiet_config) open_env (\<lambda>_. None) quiet_config ''/home/u/c.toml'' = Inr saved_fs"
proof -
  have "config_validate quiet_config = None" "parent_path ''/home/u/c.toml'' = ''/home/u''" by code_simp+
  then show ?thesis by (simp add: config_save_def open_env_def Let_def saved_fs_def)
qed


end
