(* ===== verification/Subprocess.thy ===== *)
theory Subprocess
  imports AW_Prelude
begin

text \<open>
  Running external commands (src/src/util/subprocess.h, subprocess.cpp, the POSIX build). What the
  operating system answers is a script given as an argument: the turns of the poll loop, the results
  of the successive reads of each pipe, of the writes and of the waits. A function returns \<open>None\<close> when
  its script ends before it does, that is when it is still waiting; a call on a pipe that blocks for
  good is such an end. The close, kill and wait calls are recorded, since their balance is what keeps
  the daemon from leaking descriptors and zombies.
\<close>

section \<open>Calls and answers\<close>

datatype chan = Stdin | Stdout | Stderr

text \<open>The parent's end of each pipe and the child's.\<close>

datatype pipe_end = Parent_End chan | Child_End chan

datatype proc_call = Close pipe_end | Kill | Reap

record process_result =
  pr_exit_code :: int
  pr_stdout :: string
  pr_stderr :: string

definition no_result :: process_result where
  "no_result = \<lparr>pr_exit_code = - 1, pr_stdout = [], pr_stderr = []\<rparr>"

text \<open>A read gives data (never empty), the end, or -1 with \<open>EAGAIN\<close>, \<open>EINTR\<close> or another error.\<close>

datatype read_result = Data string | Eof | Again | Intr | Read_Fail

datatype wait_answer = Still_Running | Exited nat | Signaled | Wait_Intr | Wait_Error

text \<open>\<open>WIFEXITED(status) ? WEXITSTATUS(status) : -1\<close>.\<close>

fun exit_code_of :: "wait_answer \<Rightarrow> int" where
  "exit_code_of (Exited n) = int n"
| "exit_code_of _ = - 1"

text \<open>\<open>waitpid\<close> with \<open>WNOHANG\<close> returning the child itself.\<close>

fun reaped :: "wait_answer \<Rightarrow> bool" where
  "reaped (Exited n) = True"
| "reaped Signaled = True"
| "reaped _ = False"

definition append_to :: "chan \<Rightarrow> string \<Rightarrow> process_result \<Rightarrow> process_result" where
  "append_to ch s r =
     (if ch = Stdout then r\<lparr>pr_stdout := pr_stdout r @ s\<rparr> else r\<lparr>pr_stderr := pr_stderr r @ s\<rparr>)"

definition aborted :: "string \<Rightarrow> process_result \<Rightarrow> process_result" where
  "aborted why r = r\<lparr>pr_exit_code := - 1, pr_stderr := why\<rparr>"

definition terminate_child :: "proc_call list" where
  "terminate_child = [Kill, Reap]"

text \<open>
  The wait loop: each answer of \<open>waitpid\<close> with whether the deadline has passed by then. The result is
  the status, or \<open>None\<close> for \<open>false\<close>.
\<close>

fun wait_for_child :: "(wait_answer \<times> bool) list \<Rightarrow> wait_answer option option" where
  "wait_for_child [] = None"
| "wait_for_child ((w, late) # ws) =
     (case w of
        Exited n \<Rightarrow> Some (Some (Exited n))
      | Signaled \<Rightarrow> Some (Some Signaled)
      | Wait_Intr \<Rightarrow> wait_for_child ws
      | Wait_Error \<Rightarrow> Some None
      | Still_Running \<Rightarrow> if late then Some None else wait_for_child ws)"

text \<open>The end of both functions, when every pipe is at its end.\<close>

definition finish_child :: "(wait_answer \<times> bool) list \<Rightarrow> process_result \<Rightarrow> proc_call list \<Rightarrow> (process_result \<times> proc_call list) option" where
  "finish_child waits r calls =
     map_option (\<lambda>w. case w of
         None \<Rightarrow> (aborted ''timeout'' r, calls @ terminate_child)
       | Some st \<Rightarrow> (r\<lparr>pr_exit_code := exit_code_of st\<rparr>, calls @ [Reap]))
       (wait_for_child waits)"

section \<open>run_command\<close>

text \<open>
  A turn of the loop: the milliseconds left at its head, and the answer of \<open>poll\<close>: nothing before the
  timeout, an error (with whether it is \<open>EINTR\<close>), or for each pipe whether \<open>POLLIN\<close> and whether
  \<open>POLLHUP\<close> or \<open>POLLERR\<close> are set.
\<close>

record revents =
  rv_in :: bool
  rv_hup :: bool

datatype poll_answer = Poll_Zero | Poll_Fail bool | Poll_Events "chan \<Rightarrow> revents"

record cmd_state =
  cs_result :: process_result
  cs_open :: "chan list"
  cs_reads :: "chan \<Rightarrow> read_result list"

definition mark_done :: "chan \<Rightarrow> cmd_state \<Rightarrow> cmd_state" where
  "mark_done ch st = st\<lparr>cs_open := filter (\<lambda>c. c \<noteq> ch) (cs_open st)\<rparr>"

definition read_one :: "chan \<Rightarrow> cmd_state \<Rightarrow> cmd_state option" where
  "read_one ch st =
     (case cs_reads st ch of
        [] \<Rightarrow> None
      | r # rs \<Rightarrow>
          let st1 = st\<lparr>cs_reads := (cs_reads st)(ch := rs)\<rparr>
          in Some (case r of Data s \<Rightarrow> st1\<lparr>cs_result := append_to ch s (cs_result st1)\<rparr> | _ \<Rightarrow> mark_done ch st1))"

text \<open>\<open>while ((n = read(...)) > 0)\<close>: the data and the rest of the script.\<close>

fun drain :: "read_result list \<Rightarrow> (string \<times> read_result list) option" where
  "drain [] = None"
| "drain (Data s # rs) = map_option (\<lambda>(t, rest). (s @ t, rest)) (drain rs)"
| "drain (r # rs) = Some ([], rs)"

definition drain_channel :: "chan \<Rightarrow> cmd_state \<Rightarrow> cmd_state option" where
  "drain_channel ch st =
     map_option (\<lambda>(s, rest). mark_done ch
       (st\<lparr>cs_result := append_to ch s (cs_result st), cs_reads := (cs_reads st)(ch := rest)\<rparr>))
       (drain (cs_reads st ch))"

definition serve_channel :: "(chan \<Rightarrow> revents) \<Rightarrow> chan \<Rightarrow> cmd_state \<Rightarrow> cmd_state option" where
  "serve_channel ev ch st =
     Option.bind (if rv_in (ev ch) then read_one ch st else Some st)
       (\<lambda>st1. if rv_hup (ev ch) then drain_channel ch st1 else Some st1)"

fun serve_all :: "(chan \<Rightarrow> revents) \<Rightarrow> chan list \<Rightarrow> cmd_state \<Rightarrow> cmd_state option" where
  "serve_all ev [] st = Some st"
| "serve_all ev (ch # chs) st = Option.bind (serve_channel ev ch st) (serve_all ev chs)"

text \<open>The loop ends with the state when both pipes are done, or with the reason it gave up.\<close>

fun command_loop :: "(int \<times> poll_answer) list \<Rightarrow> cmd_state \<Rightarrow> (string option \<times> cmd_state) option" where
  "command_loop [] st = (if cs_open st = [] then Some (None, st) else None)"
| "command_loop ((remaining, ans) # ts) st =
     (if cs_open st = [] then Some (None, st)
      else if remaining \<le> 0 then Some (Some ''timeout'', st)
      else case ans of
        Poll_Zero \<Rightarrow> Some (Some ''timeout'', st)
      | Poll_Fail eintr \<Rightarrow> if eintr then command_loop ts st else Some (Some ''poll_error'', st)
      | Poll_Events ev \<Rightarrow> Option.bind (serve_all ev (cs_open st) st) (command_loop ts))"

text \<open>Starting the child: how many of the pipes can be made, and whether \<open>fork\<close> succeeds.\<close>

record spawn =
  sp_pipes :: nat
  sp_fork :: bool

definition close_pipe :: "chan \<Rightarrow> proc_call list" where
  "close_pipe ch = [Close (Parent_End ch), Close (Child_End ch)]"

definition run_command ::
  "string list \<Rightarrow> spawn \<Rightarrow> (int \<times> poll_answer) list \<Rightarrow> (chan \<Rightarrow> read_result list) \<Rightarrow> (wait_answer \<times> bool) list \<Rightarrow>
     (process_result \<times> proc_call list) option" where
  "run_command args sp turns reads waits =
     (if args = [] then Some (no_result, [])
      else if sp_pipes sp = 0 then Some (no_result, [])
      else if sp_pipes sp = 1 then Some (no_result, close_pipe Stdout)
      else if \<not> sp_fork sp then Some (no_result, close_pipe Stdout @ close_pipe Stderr)
      else
        let calls = [Close (Child_End Stdout), Close (Child_End Stderr)];
            ends = [Close (Parent_End Stdout), Close (Parent_End Stderr)]
        in Option.bind (command_loop turns \<lparr>cs_result = no_result, cs_open = [Stdout, Stderr], cs_reads = reads\<rparr>)
          (\<lambda>(gave_up, st). case gave_up of
               Some why \<Rightarrow> Some (aborted why (cs_result st), calls @ terminate_child @ ends)
             | None \<Rightarrow> finish_child waits (cs_result st) (calls @ ends)))"

text \<open>\<open>command_exists\<close>, given what \<open>run_command({"which", name}, 5)\<close> does.\<close>

definition command_exists :: "(string list \<Rightarrow> process_result) \<Rightarrow> string \<Rightarrow> bool" where
  "command_exists run name \<longleftrightarrow> pr_exit_code (run [''which'', name]) = 0"

text \<open>
  \<open>run_passthrough\<close>: the one \<open>waitpid\<close>. When it fails the status is read uninitialised, which is
  undefined (\<open>None\<close>).
\<close>

definition run_passthrough :: "string list \<Rightarrow> bool \<Rightarrow> wait_answer \<Rightarrow> int option" where
  "run_passthrough args fork_ok w =
     (if args = [] then Some (- 1)
      else if \<not> fork_ok then Some (- 1)
      else if w = Wait_Error \<or> w = Wait_Intr then None
      else Some (exit_code_of w))"

section \<open>run_command_with_input\<close>

text \<open>
  A write gives the count, \<open>EAGAIN\<close> or \<open>EINTR\<close>, another error, or the signal \<open>SIGPIPE\<close>, which nothing
  ignores and which ends the process. A turn has the time left, the answer of \<open>poll\<close> (an error, or the
  pipes that are ready, none of them when it timed out), and the answer of this turn's \<open>waitpid\<close>.
\<close>

datatype write_result = Wrote nat | Write_Again | Write_Fail | Write_Sigpipe

datatype ready_answer = Ready_Fail bool | Ready "chan list"

record input_turn =
  it_remaining :: int
  it_ready :: ready_answer
  it_wait :: wait_answer

record inp_state =
  is_result :: process_result
  is_open :: "chan list"
  is_reads :: "chan \<Rightarrow> read_result list"
  is_writes :: "write_result list"
  is_written :: nat
  is_sent :: string
  is_log :: "proc_call list"

text \<open>\<open>close_fd\<close>: a descriptor that is closed already is -1. A pipe is done exactly when it is closed.\<close>

definition close_fd :: "chan \<Rightarrow> inp_state \<Rightarrow> inp_state" where
  "close_fd ch st =
     (if ch \<in> set (is_open st) then
        st\<lparr>is_open := filter (\<lambda>c. c \<noteq> ch) (is_open st), is_log := is_log st @ [Close (Parent_End ch)]\<rparr>
      else st)"

definition close_all :: "inp_state \<Rightarrow> inp_state" where
  "close_all st = close_fd Stderr (close_fd Stdout (close_fd Stdin st))"

datatype 'a run_outcome = Goes 'a | Killed_By_Sigpipe

text \<open>Writing: at most 4096 bytes a turn.\<close>

definition write_input :: "string \<Rightarrow> inp_state \<Rightarrow> inp_state run_outcome option" where
  "write_input input st =
     (if is_written st < length input then
        (case is_writes st of
           [] \<Rightarrow> None
         | w # ws \<Rightarrow>
             let st1 = st\<lparr>is_writes := ws\<rparr>;
                 chunk = take 4096 (drop (is_written st1) input)
             in (case w of
                   Wrote n \<Rightarrow>
                     let st2 = (if 0 < n then st1\<lparr>is_written := is_written st1 + n, is_sent := is_sent st1 @ take n chunk\<rparr>
                                else st1\<lparr>is_written := length input\<rparr>)
                     in Some (Goes (if length input \<le> is_written st2 then close_fd Stdin st2 else st2))
                 | Write_Again \<Rightarrow> Some (Goes st1)
                 | Write_Fail \<Rightarrow> Some (Goes (close_fd Stdin (st1\<lparr>is_written := length input\<rparr>)))
                 | Write_Sigpipe \<Rightarrow> Some Killed_By_Sigpipe))
      else Some (Goes (close_fd Stdin st)))"

text \<open>Reading until the pipe has no more for now: the data, the rest, and whether the pipe is done.\<close>

fun read_some :: "read_result list \<Rightarrow> (string \<times> read_result list \<times> bool) option" where
  "read_some [] = None"
| "read_some (Data s # rs) = map_option (\<lambda>(t, rest, fin). (s @ t, rest, fin)) (read_some rs)"
| "read_some (Intr # rs) = read_some rs"
| "read_some (Again # rs) = Some ([], rs, False)"
| "read_some (Eof # rs) = Some ([], rs, True)"
| "read_some (Read_Fail # rs) = Some ([], rs, True)"

definition read_channel :: "chan \<Rightarrow> inp_state \<Rightarrow> inp_state option" where
  "read_channel ch st =
     map_option (\<lambda>(s, rest, fin).
         let st1 = st\<lparr>is_result := append_to ch s (is_result st), is_reads := (is_reads st)(ch := rest)\<rparr>
         in if fin then close_fd ch st1 else st1)
       (read_some (is_reads st ch))"

fun serve_ready :: "string \<Rightarrow> chan list \<Rightarrow> chan list \<Rightarrow> inp_state \<Rightarrow> inp_state run_outcome option" where
  "serve_ready input ready [] st = Some (Goes st)"
| "serve_ready input ready (ch # chs) st =
     (if ch \<notin> set ready then serve_ready input ready chs st
      else if ch = Stdin then
        Option.bind (write_input input st)
          (\<lambda>o1. case o1 of Killed_By_Sigpipe \<Rightarrow> Some Killed_By_Sigpipe | Goes st1 \<Rightarrow> serve_ready input ready chs st1)
      else Option.bind (read_channel ch st) (serve_ready input ready chs))"

text \<open>What an exited child has left in the pipes that are still open.\<close>

definition drain_open :: "chan \<Rightarrow> inp_state \<Rightarrow> inp_state option" where
  "drain_open ch st =
     (if ch \<in> set (is_open st) then
        map_option (\<lambda>(s, rest). st\<lparr>is_result := append_to ch s (is_result st), is_reads := (is_reads st)(ch := rest)\<rparr>)
          (drain (is_reads st ch))
      else Some st)"

definition child_exit :: "wait_answer \<Rightarrow> inp_state \<Rightarrow> inp_state option" where
  "child_exit w st =
     (let st1 = st\<lparr>is_log := is_log st @ [Reap],
                   is_result := (case w of Exited n \<Rightarrow> (is_result st)\<lparr>pr_exit_code := int n\<rparr> | _ \<Rightarrow> is_result st)\<rparr>
      in map_option close_all (Option.bind (drain_open Stdout st1) (drain_open Stderr)))"

text \<open>The loop ends still to wait for the child (\<open>False\<close>) or with everything done (\<open>True\<close>).\<close>

fun input_loop :: "string \<Rightarrow> input_turn list \<Rightarrow> inp_state \<Rightarrow> (bool \<times> inp_state) run_outcome option" where
  "input_loop input [] st = (if is_open st = [] then Some (Goes (False, st)) else None)"
| "input_loop input (t # ts) st =
     (if is_open st = [] then Some (Goes (False, st))
      else if it_remaining t \<le> 0 then
        Some (Goes (True, close_all (st\<lparr>is_log := is_log st @ terminate_child, is_result := aborted ''timeout'' (is_result st)\<rparr>)))
      else
        let served = (case it_ready t of Ready_Fail eintr \<Rightarrow> Some (Goes st) | Ready ready \<Rightarrow> serve_ready input ready (is_open st) st)
        in if it_ready t = Ready_Fail False then
             Some (Goes (True, close_all (st\<lparr>is_log := is_log st @ terminate_child, is_result := aborted ''poll_error'' (is_result st)\<rparr>)))
           else
             Option.bind served (\<lambda>o1. case o1 of
                 Killed_By_Sigpipe \<Rightarrow> Some Killed_By_Sigpipe
               | Goes st1 \<Rightarrow>
                   if Stdin \<notin> set (is_open st1) \<and> reaped (it_wait t) then
                     map_option (\<lambda>st2. Goes (True, st2)) (child_exit (it_wait t) st1)
                   else input_loop input ts st1))"

definition input_start :: "string \<Rightarrow> (chan \<Rightarrow> read_result list) \<Rightarrow> write_result list \<Rightarrow> inp_state" where
  "input_start input reads writes =
     (let st = \<lparr>is_result = no_result, is_open = [Stdin, Stdout, Stderr], is_reads = reads, is_writes = writes,
                is_written = 0, is_sent = [],
                is_log = [Close (Child_End Stdin), Close (Child_End Stdout), Close (Child_End Stderr)]\<rparr>
      in if input = [] then close_fd Stdin st else st)"

text \<open>The result, the calls made, and what the child was sent.\<close>

definition run_command_with_input ::
  "string list \<Rightarrow> string \<Rightarrow> spawn \<Rightarrow> input_turn list \<Rightarrow> (chan \<Rightarrow> read_result list) \<Rightarrow> write_result list \<Rightarrow>
     (wait_answer \<times> bool) list \<Rightarrow> (process_result \<times> proc_call list \<times> string) run_outcome option" where
  "run_command_with_input args input sp turns reads writes waits =
     (if args = [] then Some (Goes (no_result, [], []))
      else if sp_pipes sp = 0 then Some (Goes (no_result, [], []))
      else if sp_pipes sp = 1 then Some (Goes (no_result, close_pipe Stdin, []))
      else if sp_pipes sp = 2 then Some (Goes (no_result, close_pipe Stdin @ close_pipe Stdout, []))
      else if \<not> sp_fork sp then Some (Goes (no_result, close_pipe Stdin @ close_pipe Stdout @ close_pipe Stderr, []))
      else Option.bind (input_loop input turns (input_start input reads writes)) (\<lambda>o1. case o1 of
             Killed_By_Sigpipe \<Rightarrow> Some Killed_By_Sigpipe
           | Goes (True, st) \<Rightarrow> Some (Goes (is_result st, is_log st, is_sent st))
           | Goes (False, st) \<Rightarrow>
               map_option (\<lambda>(r, calls). Goes (r, calls, is_sent st)) (finish_child waits (is_result st) (is_log st))))"

end
