(* ===== verification/Subprocess_Laws.thy ===== *)
theory Subprocess_Laws
  imports Subprocess "HOL-Library.Sublist"
begin

text \<open>
  Theorems about running commands: every path closes each descriptor once and reaps the child once,
  an exit code is one the child gave, the captured output is what the child wrote, and what the child
  is sent is the input, in order. The last section shows how a child that does not read its input
  ends the whole process.
\<close>

section \<open>Accounting\<close>

text \<open>Each of the pipes is closed once at both ends, and the child is waited for once.\<close>

definition balanced :: "chan list \<Rightarrow> proc_call list \<Rightarrow> bool" where
  "balanced chs calls \<longleftrightarrow>
     (\<forall>ch \<in> set chs. count_list calls (Close (Parent_End ch)) = 1 \<and> count_list calls (Close (Child_End ch)) = 1) \<and>
     count_list calls Reap = 1 \<and> count_list calls Kill \<le> 1"

definition captured :: "chan \<Rightarrow> process_result \<Rightarrow> string" where
  "captured ch r = (if ch = Stdout then pr_stdout r else pr_stderr r)"

lemma append_to_fields [simp]:
  "pr_exit_code (append_to ch s r) = pr_exit_code r"
  "captured ch (append_to ch s r) = captured ch r @ s"
  "ch \<in> {Stdout, Stderr} \<Longrightarrow> ch' \<in> {Stdout, Stderr} \<Longrightarrow> ch' \<noteq> ch \<Longrightarrow> captured ch' (append_to ch s r) = captured ch' r"
  by (auto simp: append_to_def captured_def)

lemma wait_for_child_exited:
  "wait_for_child ws = Some (Some st) \<Longrightarrow> (\<exists>late. (st, late) \<in> set ws) \<and> (st = Signaled \<or> (\<exists>n. st = Exited n))"
  by (induction ws rule: wait_for_child.induct) (auto split: wait_answer.splits if_splits)

lemma finish_child_cases:
  assumes "finish_child ws r calls = Some (r', calls')"
  shows "(r' = aborted ''timeout'' r \<and> calls' = calls @ [Kill, Reap]) \<or>
    (\<exists>st late. (st, late) \<in> set ws \<and> r' = r\<lparr>pr_exit_code := exit_code_of st\<rparr> \<and> calls' = calls @ [Reap])"
  using assms wait_for_child_exited by (fastforce simp: finish_child_def terminate_child_def split: option.splits)

lemma exit_code_of_nonneg: "0 \<le> exit_code_of st \<Longrightarrow> st = Exited (nat (exit_code_of st))"
  by (cases st) auto

section \<open>Streams of a blocking pipe\<close>

text \<open>The data before the first read that gives none; a plain stream has none after it.\<close>

fun leading :: "read_result list \<Rightarrow> string" where
  "leading (Data s # rs) = s @ leading rs"
| "leading _ = []"

fun no_data :: "read_result \<Rightarrow> bool" where
  "no_data (Data s) = False"
| "no_data _ = True"

fun plain_stream :: "read_result list \<Rightarrow> bool" where
  "plain_stream (Data s # rs) = plain_stream rs"
| "plain_stream rs = list_all no_data rs"

lemma quiet_leading: "list_all no_data rs \<Longrightarrow> leading rs = [] \<and> plain_stream rs"
proof (cases rs)
  case (Cons r rs')
  then show "list_all no_data rs \<Longrightarrow> leading rs = [] \<and> plain_stream rs" by (cases r) auto
qed simp

lemma drain_leading: "drain rs = Some (s, rest) \<Longrightarrow> plain_stream rs \<Longrightarrow> s = leading rs \<and> leading rest = [] \<and> plain_stream rest"
  by (induction rs arbitrary: s rule: drain.induct) (auto dest: quiet_leading)

text \<open>The invariant of the loop on one pipe; \<open>T\<close> is the whole stream.\<close>

definition capturing :: "(chan \<Rightarrow> string) \<Rightarrow> chan \<Rightarrow> cmd_state \<Rightarrow> bool" where
  "capturing T ch st \<longleftrightarrow> captured ch (cs_result st) @ leading (cs_reads st ch) = T ch \<and> plain_stream (cs_reads st ch) \<and>
     (ch \<notin> set (cs_open st) \<longrightarrow> leading (cs_reads st ch) = [])"

definition capturing_both :: "(chan \<Rightarrow> string) \<Rightarrow> cmd_state \<Rightarrow> bool" where
  "capturing_both T st \<longleftrightarrow> (\<forall>ch \<in> {Stdout, Stderr}. capturing T ch st)"

lemma mark_done_fields [simp]:
  "cs_result (mark_done ch st) = cs_result st" "cs_reads (mark_done ch st) = cs_reads st"
  "set (cs_open (mark_done ch st)) = set (cs_open st) - {ch}"
  by (auto simp: mark_done_def)

lemma capturing_read_one:
  assumes "read_one ch st = Some st'" "capturing_both T st" "ch \<in> {Stdout, Stderr}"
  shows "capturing_both T st'"
proof -
  obtain r rs where c: "cs_reads st ch = r # rs" using assms(1) by (auto simp: read_one_def split: list.splits)
  have i: "capturing T Stdout st" "capturing T Stderr st" using assms(2) by (simp_all add: capturing_both_def)
  then have ch: "capturing T ch st" using assms(3) by auto
  show ?thesis
  proof (cases "\<exists>s. r = Data s")
    case True
    then show ?thesis using assms(1,3) c i
      by (auto simp: read_one_def capturing_both_def capturing_def Let_def)
  next
    case False
    then have "list_all no_data rs" "leading (r # rs) = []" "plain_stream (r # rs)"
      using ch c by (cases r; auto simp: capturing_def)+
    then show ?thesis using assms(1,3) c False i quiet_leading [of rs]
      by (cases r) (auto simp: read_one_def capturing_both_def capturing_def Let_def)
  qed
qed

lemma capturing_drain:
  assumes "drain_channel ch st = Some st'" "capturing_both T st" "ch \<in> {Stdout, Stderr}"
  shows "capturing_both T st'"
proof -
  obtain s rest where d: "drain (cs_reads st ch) = Some (s, rest)"
    and st': "st' = mark_done ch (st\<lparr>cs_result := append_to ch s (cs_result st), cs_reads := (cs_reads st)(ch := rest)\<rparr>)"
    using assms(1) by (auto simp: drain_channel_def)
  have "plain_stream (cs_reads st ch)" using assms(2,3) by (auto simp: capturing_both_def capturing_def)
  with drain_leading [OF d] show ?thesis
    using assms(2,3) unfolding st' by (auto simp: capturing_both_def capturing_def)
qed

lemma capturing_serve:
  "serve_channel ev ch st = Some st' \<Longrightarrow> capturing_both T st \<Longrightarrow> ch \<in> {Stdout, Stderr} \<Longrightarrow> capturing_both T st'"
  by (auto simp: serve_channel_def bind_eq_Some_conv split: if_splits
      dest: capturing_read_one capturing_drain)

lemma capturing_serve_all:
  "serve_all ev chs st = Some st' \<Longrightarrow> capturing_both T st \<Longrightarrow> set chs \<subseteq> {Stdout, Stderr} \<Longrightarrow> capturing_both T st'"
proof (induction ev chs st rule: serve_all.induct)
  case (2 ev ch chs st)
  then obtain st1 where s: "serve_channel ev ch st = Some st1" "serve_all ev chs st1 = Some st'"
    by (auto simp: bind_eq_Some_conv)
  from 2(1) [OF s(1,2) capturing_serve [OF s(1) 2(3)]] 2(4) show ?case by auto
qed simp

lemma open_serve: "serve_channel ev ch st = Some st' \<Longrightarrow> set (cs_open st') \<subseteq> set (cs_open st)"
  by (auto simp: serve_channel_def read_one_def drain_channel_def bind_eq_Some_conv Let_def
      split: if_splits list.splits read_result.splits)

lemma open_serve_all: "serve_all ev chs st = Some st' \<Longrightarrow> set (cs_open st') \<subseteq> set (cs_open st)"
  by (induction ev chs st rule: serve_all.induct) (auto simp: bind_eq_Some_conv dest: open_serve)

lemma exit_serve: "serve_channel ev ch st = Some st' \<Longrightarrow> pr_exit_code (cs_result st') = pr_exit_code (cs_result st)"
  by (auto simp: serve_channel_def read_one_def drain_channel_def bind_eq_Some_conv Let_def
      split: if_splits list.splits read_result.splits)

lemma command_loop_done:
  "command_loop ts st = Some (gave_up, st') \<Longrightarrow> capturing_both T st \<Longrightarrow> set (cs_open st) \<subseteq> {Stdout, Stderr} \<Longrightarrow>
     capturing_both T st' \<and> (gave_up = None \<longrightarrow> cs_open st' = []) \<and> gave_up \<in> {None, Some ''timeout'', Some ''poll_error''}"
proof (induction ts st rule: command_loop.induct)
  case (2 remaining ans ts st)
  show ?case
  proof (cases "cs_open st = [] \<or> remaining \<le> 0")
    case True
    with 2(3-) show ?thesis by (auto split: if_splits)
  next
    case go: False
    show ?thesis
    proof (cases ans)
      case (Poll_Events ev)
      then obtain st1 where s: "serve_all ev (cs_open st) st = Some st1" "command_loop ts st1 = Some (gave_up, st')"
        using 2(3) go by (auto simp: bind_eq_Some_conv)
      have "capturing_both T st1" "set (cs_open st1) \<subseteq> {Stdout, Stderr}"
        using capturing_serve_all [OF s(1) 2(4,5)] open_serve_all [OF s(1)] 2(5) by auto
      then show ?thesis using 2(2) [OF _ _ Poll_Events s(1,2)] go by auto
    qed (use 2 go in \<open>auto split: if_splits\<close>)
  qed
qed (auto split: if_splits)

lemma run_command_split:
  assumes "run_command args sp turns reads waits = Some (r, calls)" "args \<noteq> []" "2 \<le> sp_pipes sp" "sp_fork sp"
  shows "\<exists>gave_up st. command_loop turns \<lparr>cs_result = no_result, cs_open = [Stdout, Stderr], cs_reads = reads\<rparr> = Some (gave_up, st) \<and>
    (case gave_up of
       Some why \<Rightarrow> r = aborted why (cs_result st) \<and>
         calls = [Close (Child_End Stdout), Close (Child_End Stderr), Kill, Reap, Close (Parent_End Stdout), Close (Parent_End Stderr)]
     | None \<Rightarrow> finish_child waits (cs_result st) [Close (Child_End Stdout), Close (Child_End Stderr),
         Close (Parent_End Stdout), Close (Parent_End Stderr)] = Some (r, calls))"
proof -
  have "sp_pipes sp \<noteq> 0" "sp_pipes sp \<noteq> 1" using assms(3) by auto
  with assms obtain gave_up st
    where "command_loop turns \<lparr>cs_result = no_result, cs_open = [Stdout, Stderr], cs_reads = reads\<rparr> = Some (gave_up, st)"
    by (auto simp: run_command_def Let_def bind_eq_Some_conv)
  with assms \<open>sp_pipes sp \<noteq> 0\<close> \<open>sp_pipes sp \<noteq> 1\<close> show ?thesis
    by (cases gave_up) (simp_all add: run_command_def Let_def terminate_child_def)
qed

section \<open>The loop with input\<close>

text \<open>All the data a nonblocking pipe gives up to its end.\<close>

fun all_data :: "read_result list \<Rightarrow> string" where
  "all_data (Data s # rs) = s @ all_data rs"
| "all_data (Again # rs) = all_data rs"
| "all_data (Intr # rs) = all_data rs"
| "all_data _ = []"

lemma read_some_data:
  "read_some rs = Some (s, rest, fin) \<Longrightarrow> s @ (if fin then [] else all_data rest) = all_data rs"
  by (induction rs arbitrary: s rule: read_some.induct) auto

lemma drain_prefix: "drain rs = Some (s, rest) \<Longrightarrow> prefix s (all_data rs)"
  by (induction rs arbitrary: s rule: drain.induct) auto

definition accounted :: "inp_state \<Rightarrow> bool" where
  "accounted st \<longleftrightarrow>
     (\<forall>ch. count_list (is_log st) (Close (Parent_End ch)) = (if ch \<in> set (is_open st) then 0 else 1) \<and>
           count_list (is_log st) (Close (Child_End ch)) = 1)"

definition sent_ok :: "string \<Rightarrow> inp_state \<Rightarrow> bool" where
  "sent_ok input st \<longleftrightarrow> prefix (is_sent st) input \<and> (Stdin \<in> set (is_open st) \<longrightarrow> is_sent st = take (is_written st) input) \<and>
     (\<forall>n. Wrote n \<in> set (is_writes st) \<longrightarrow> n \<le> 4096)"

definition texts_ok :: "(chan \<Rightarrow> string) \<Rightarrow> inp_state \<Rightarrow> bool" where
  "texts_ok F st \<longleftrightarrow> (\<forall>ch \<in> {Stdout, Stderr}.
     captured ch (is_result st) @ (if ch \<in> set (is_open st) then all_data (is_reads st ch) else []) = F ch)"

definition loop_ok :: "string \<Rightarrow> (chan \<Rightarrow> string) \<Rightarrow> inp_state \<Rightarrow> bool" where
  "loop_ok input F st \<longleftrightarrow> accounted st \<and> sent_ok input st \<and> texts_ok F st \<and> pr_exit_code (is_result st) = - 1 \<and>
     count_list (is_log st) Reap = 0 \<and> count_list (is_log st) Kill = 0"

lemma close_fd_fields [simp]:
  "is_result (close_fd ch st) = is_result st" "is_reads (close_fd ch st) = is_reads st"
  "is_writes (close_fd ch st) = is_writes st" "is_written (close_fd ch st) = is_written st"
  "is_sent (close_fd ch st) = is_sent st" "set (is_open (close_fd ch st)) = set (is_open st) - {ch}"
  "count_list (is_log (close_fd ch st)) Reap = count_list (is_log st) Reap"
  "count_list (is_log (close_fd ch st)) Kill = count_list (is_log st) Kill"
  by (auto simp: close_fd_def)

lemma accounted_close: "accounted st \<Longrightarrow> accounted (close_fd ch st)"
  by (auto simp: accounted_def close_fd_def)

lemma accounted_frame:
  "accounted (st\<lparr>is_result := r\<rparr>) = accounted st" "accounted (st\<lparr>is_reads := rs\<rparr>) = accounted st"
  "accounted (st\<lparr>is_writes := ws\<rparr>) = accounted st" "accounted (st\<lparr>is_written := n\<rparr>) = accounted st"
  "accounted (st\<lparr>is_sent := t\<rparr>) = accounted st"
  "ch = Kill \<or> ch = Reap \<Longrightarrow> accounted (st\<lparr>is_log := is_log st @ [ch]\<rparr>) = accounted st"
  "accounted (st\<lparr>is_log := is_log st @ [Kill, Reap]\<rparr>) = accounted st"
  by (auto simp: accounted_def)

lemma balanced_accounted:
  assumes "accounted st" "count_list (is_log st) Reap = 1" "count_list (is_log st) Kill \<le> 1"
  shows "balanced [Stdin, Stdout, Stderr] (is_log (close_all st))"
proof -
  have "accounted (close_all st)" using assms(1) by (simp add: close_all_def accounted_close)
  moreover have "set (is_open (close_all st)) = set (is_open st) - {Stdin, Stdout, Stderr}" by (auto simp: close_all_def)
  moreover have "count_list (is_log (close_all st)) Reap = 1" "count_list (is_log (close_all st)) Kill \<le> 1"
    using assms(2,3) by (simp_all add: close_all_def)
  ultimately show ?thesis by (simp add: balanced_def accounted_def)
qed

lemma take_more: "n \<le> 4096 \<Longrightarrow> take w xs @ take n (take 4096 (drop w xs)) = take (w + n) xs"
  by (simp add: take_add min_def)

lemma loop_write:
  assumes "write_input input st = Some (Goes st')" "loop_ok input F st" "Stdin \<in> set (is_open st)"
  shows "loop_ok input F st'"
proof (cases "is_written st < length input")
  case False
  then have "st' = close_fd Stdin st" using assms(1) by (simp add: write_input_def)
  then show ?thesis using assms(2) by (auto simp: loop_ok_def accounted_close sent_ok_def texts_ok_def)
next
  case True
  then obtain w ws where w: "is_writes st = w # ws" using assms(1) by (auto simp: write_input_def split: list.splits)
  have sent: "is_sent st = take (is_written st) input" "\<And>n. Wrote n \<in> set (w # ws) \<Longrightarrow> n \<le> 4096"
    using assms(2,3) w by (auto simp: loop_ok_def sent_ok_def)
  have t: "texts_ok F (close_fd Stdin (st\<lparr>is_writes := ws, is_written := k, is_sent := u\<rparr>))"
    "texts_ok F (st\<lparr>is_writes := ws, is_written := k, is_sent := u\<rparr>)" for k u
    using assms(2) by (auto simp: loop_ok_def texts_ok_def)
  have a: "accounted (close_fd Stdin (st\<lparr>is_writes := ws, is_written := k, is_sent := u\<rparr>))"
    "accounted (st\<lparr>is_writes := ws, is_written := k, is_sent := u\<rparr>)" for k u
    using assms(2) by (auto simp: loop_ok_def accounted_close accounted_frame)
  define m where "m = (case w of Wrote n \<Rightarrow> n | _ \<Rightarrow> 0)"
  define k where "k = (if w = Write_Again then is_written st else if 0 < m then is_written st + m else length input)"
  define u where "u = is_sent st @ take m (take 4096 (drop (is_written st) input))"
  have m: "m \<le> 4096" using sent(2) by (cases w) (auto simp: m_def)
  have u: "u = take (is_written st + m) input" unfolding u_def sent(1) by (rule take_more [OF m])
  have "st = st\<lparr>is_written := is_written st, is_sent := is_sent st\<rparr>" by simp
  then have st': "st' = (if length input \<le> k then close_fd Stdin (st\<lparr>is_writes := ws, is_written := k, is_sent := u\<rparr>)
      else st\<lparr>is_writes := ws, is_written := k, is_sent := u\<rparr>)"
    using assms(1) True w by (cases w; cases st) (auto simp: write_input_def Let_def k_def u_def m_def)
  have s: "sent_ok input st'"
    using sent(2) u True unfolding st' by (cases w) (auto simp: sent_ok_def take_is_prefix k_def m_def)
  show ?thesis using assms(2) s t a unfolding st' by (auto simp: loop_ok_def)
qed

lemma loop_read:
  assumes "read_channel ch st = Some st'" "loop_ok input F st" "ch \<in> set (is_open st)" "ch \<in> {Stdout, Stderr}"
  shows "loop_ok input F st'"
proof -
  obtain s rest fin where r: "read_some (is_reads st ch) = Some (s, rest, fin)"
    and st': "st' = (let st1 = st\<lparr>is_result := append_to ch s (is_result st), is_reads := (is_reads st)(ch := rest)\<rparr>
         in if fin then close_fd ch st1 else st1)"
    using assms(1) by (auto simp: read_channel_def)
  have d: "s @ (if fin then [] else all_data rest) = all_data (is_reads st ch)" by (rule read_some_data [OF r])
  have t: "captured c (is_result st) @ (if c \<in> set (is_open st) then all_data (is_reads st c) else []) = F c"
    if "c \<in> {Stdout, Stderr}" for c using assms(2) that unfolding loop_ok_def texts_ok_def by blast
  have "texts_ok F st'"
    using assms(3,4) d t [of Stdout] t [of Stderr] unfolding st'
    by (cases ch) (auto simp: texts_ok_def Let_def split: if_splits)
  moreover have "accounted st'" using assms(2) unfolding st' by (auto simp: loop_ok_def Let_def accounted_close accounted_frame)
  moreover have "sent_ok input st'" using assms(2,4) unfolding st' by (auto simp: loop_ok_def sent_ok_def Let_def)
  ultimately show ?thesis using assms(2) unfolding st' by (auto simp: loop_ok_def Let_def)
qed

lemma open_write: "write_input input st = Some (Goes st') \<Longrightarrow> set (is_open st) - {Stdin} \<subseteq> set (is_open st')"
  by (auto simp: write_input_def Let_def split: if_splits list.splits write_result.splits)

lemma open_read: "read_channel ch st = Some st' \<Longrightarrow> set (is_open st) - {ch} \<subseteq> set (is_open st')"
  by (auto simp: read_channel_def Let_def split: if_splits)

lemma case_goes:
  "(case y of Killed_By_Sigpipe \<Rightarrow> Some Killed_By_Sigpipe | Goes a \<Rightarrow> f a) = Some (Goes b) \<longleftrightarrow>
     (\<exists>a. y = Goes a \<and> f a = Some (Goes b))"
  by (cases y) auto

lemmas bind_goes = bind_eq_Some_conv case_goes

lemma serve_ready_step:
  assumes "serve_ready input ready (ch # chs) st = Some (Goes st')"
  shows "(ch \<notin> set ready \<and> serve_ready input ready chs st = Some (Goes st')) \<or>
    (\<exists>st1. (if ch = Stdin then write_input input st = Some (Goes st1) else read_channel ch st = Some st1) \<and>
      serve_ready input ready chs st1 = Some (Goes st'))"
  using assms by (auto simp: bind_goes split: if_splits)

lemma loop_serve:
  "serve_ready input ready chs st = Some (Goes st') \<Longrightarrow> loop_ok input F st \<Longrightarrow> distinct chs \<Longrightarrow>
     set chs \<subseteq> set (is_open st) \<Longrightarrow> loop_ok input F st'"
proof (induction chs arbitrary: st)
  case (Cons ch chs)
  consider "ch \<notin> set ready" | "ch \<in> set ready" "ch = Stdin" | "ch \<in> set ready" "ch \<in> {Stdout, Stderr}"
    by (cases ch) auto
  then show ?case
  proof cases
    case 1
    then show ?thesis using Cons by simp
  next
    case 2
    then obtain st1 where w: "write_input input st = Some (Goes st1)" "serve_ready input ready chs st1 = Some (Goes st')"
      using serve_ready_step [OF Cons.prems(1)] by auto
    have "set chs \<subseteq> set (is_open st1)" using open_write [OF w(1)] Cons.prems(3,4) 2 by auto
    then show ?thesis using Cons.IH [OF w(2) loop_write [OF w(1) Cons.prems(2)]] Cons.prems(3,4) 2 by simp
  next
    case 3
    then obtain st1 where r: "read_channel ch st = Some st1" "serve_ready input ready chs st1 = Some (Goes st')"
      using Cons.prems(1) by (auto simp: bind_eq_Some_conv)
    have "set chs \<subseteq> set (is_open st1)" using open_read [OF r(1)] Cons.prems(3,4) by auto
    then show ?thesis using Cons.IH [OF r(2) loop_read [OF r(1) Cons.prems(2)]] Cons.prems(3,4) 3 by simp
  qed
qed simp

lemma open_distinct_close: "distinct (is_open st) \<Longrightarrow> distinct (is_open (close_fd ch st))"
  by (simp add: close_fd_def)

lemma open_distinct_write: "write_input input st = Some (Goes st') \<Longrightarrow> distinct (is_open st) \<Longrightarrow> distinct (is_open st')"
  by (auto simp: write_input_def Let_def open_distinct_close split: if_splits list.splits write_result.splits)

lemma open_distinct_read: "read_channel ch st = Some st' \<Longrightarrow> distinct (is_open st) \<Longrightarrow> distinct (is_open st')"
  by (auto simp: read_channel_def Let_def open_distinct_close split: if_splits)

lemma open_distinct:
  "serve_ready input ready chs st = Some (Goes st') \<Longrightarrow> distinct (is_open st) \<Longrightarrow> distinct (is_open st')"
proof (induction chs arbitrary: st)
  case (Cons ch chs)
  from serve_ready_step [OF Cons.prems(1)] show ?case
    using Cons.IH Cons.prems(2) open_distinct_write open_distinct_read by (metis (full_types))
qed simp

text \<open>What a finished run has: the accounts, what was sent, and an honest exit code.\<close>

definition honest_exit :: "(chan \<Rightarrow> string) \<Rightarrow> wait_answer set \<Rightarrow> process_result \<Rightarrow> bool" where
  "honest_exit F ws r \<longleftrightarrow> 0 \<le> pr_exit_code r \<longrightarrow>
     Exited (nat (pr_exit_code r)) \<in> ws \<and> (\<forall>ch \<in> {Stdout, Stderr}. prefix (captured ch r) (F ch))"

lemma close_all_fields [simp]: "is_result (close_all st) = is_result st" "is_sent (close_all st) = is_sent st"
  by (simp_all add: close_all_def)

lemma drain_open_frame:
  assumes "drain_open ch st = Some st'" "ch \<in> {Stdout, Stderr}"
  shows "is_open st' = is_open st" "is_log st' = is_log st" "is_sent st' = is_sent st"
    "pr_exit_code (is_result st') = pr_exit_code (is_result st)"
    "c \<noteq> ch \<Longrightarrow> is_reads st' c = is_reads st c"
    "c \<noteq> ch \<Longrightarrow> c \<in> {Stdout, Stderr} \<Longrightarrow> captured c (is_result st') = captured c (is_result st)"
  using assms by (auto simp: drain_open_def split: if_splits)

lemma drain_open_prefix:
  assumes "drain_open ch st = Some st'"
    "captured ch (is_result st) @ (if ch \<in> set (is_open st) then all_data (is_reads st ch) else []) = t"
  shows "prefix (captured ch (is_result st')) t"
proof (cases "ch \<in> set (is_open st)")
  case True
  then obtain s rest where "drain (is_reads st ch) = Some (s, rest)"
      "st' = st\<lparr>is_result := append_to ch s (is_result st), is_reads := (is_reads st)(ch := rest)\<rparr>"
    using assms(1) by (auto simp: drain_open_def)
  then show ?thesis using assms(2) True drain_prefix by force
qed (use assms in \<open>auto simp: drain_open_def\<close>)

lemma child_exit_final:
  assumes "child_exit w st = Some st'" "loop_ok input F st" "reaped w"
  shows "balanced [Stdin, Stdout, Stderr] (is_log st') \<and> prefix (is_sent st') input \<and> honest_exit F {w} (is_result st')"
proof -
  define st1 where "st1 = st\<lparr>is_log := is_log st @ [Reap],
    is_result := (case w of Exited n \<Rightarrow> (is_result st)\<lparr>pr_exit_code := int n\<rparr> | _ \<Rightarrow> is_result st)\<rparr>"
  obtain st2 st3 where d: "drain_open Stdout st1 = Some st2" "drain_open Stderr st2 = Some st3" "st' = close_all st3"
    using assms(1) by (auto simp: child_exit_def st1_def [symmetric] Let_def bind_eq_Some_conv)
  have c1: "captured ch (is_result st1) = captured ch (is_result st)" for ch
    by (cases w) (auto simp: st1_def captured_def)
  have f1: "is_open st1 = is_open st" "is_reads st1 = is_reads st" by (simp_all add: st1_def)
  have t: "\<forall>ch \<in> {Stdout, Stderr}. captured ch (is_result st1) @ (if ch \<in> set (is_open st1) then all_data (is_reads st1 ch) else []) = F ch"
    using assms(2) unfolding loop_ok_def texts_ok_def c1 f1 by blast
  note d1 = drain_open_frame [OF d(1), simplified] and d2 = drain_open_frame [OF d(2), simplified]
  have "prefix (captured Stdout (is_result st2)) (F Stdout)"
    by (rule drain_open_prefix [OF d(1)]) (use t in blast)
  moreover have "prefix (captured Stderr (is_result st3)) (F Stderr)"
    by (rule drain_open_prefix [OF d(2)]) (use t d1 in auto)
  ultimately have p: "prefix (captured Stdout (is_result st3)) (F Stdout)" "prefix (captured Stderr (is_result st3)) (F Stderr)"
    using d2 by simp_all
  have "accounted st3" "count_list (is_log st3) Reap = 1" "count_list (is_log st3) Kill \<le> 1"
    using assms(2) d1 d2 by (auto simp: loop_ok_def accounted_def st1_def)
  then have "balanced [Stdin, Stdout, Stderr] (is_log st')" unfolding d(3) by (rule balanced_accounted)
  moreover have "is_sent st' = is_sent st" using d1 d2 by (simp add: d(3) st1_def)
  moreover have "honest_exit F {w} (is_result st')"
    using assms(2,3) d1 d2 p by (cases w) (auto simp: honest_exit_def d(3) st1_def loop_ok_def)
  ultimately show ?thesis using assms(2) by (simp add: loop_ok_def sent_ok_def)
qed

lemma input_loop_final:
  assumes "input_loop input ts st = Some (Goes (finished, st'))" "loop_ok input F st" "distinct (is_open st)"
  shows "if finished
    then balanced [Stdin, Stdout, Stderr] (is_log st') \<and> prefix (is_sent st') input \<and>
      honest_exit F (it_wait ` set ts) (is_result st')
    else loop_ok input F st' \<and> is_open st' = []"
  using assms
proof (induction ts arbitrary: st)
  case (Cons t ts)
  have gave_up: "balanced [Stdin, Stdout, Stderr] (is_log (close_all (st\<lparr>is_log := is_log st @ terminate_child, is_result := r\<rparr>))) \<and>
      prefix (is_sent (close_all (st\<lparr>is_log := is_log st @ terminate_child, is_result := r\<rparr>))) input" for r
  proof
    show "balanced [Stdin, Stdout, Stderr] (is_log (close_all (st\<lparr>is_log := is_log st @ terminate_child, is_result := r\<rparr>)))"
      by (rule balanced_accounted) (use Cons.prems(2) in \<open>auto simp: loop_ok_def accounted_def terminate_child_def\<close>)
  qed (use Cons.prems(2) in \<open>simp add: loop_ok_def sent_ok_def\<close>)
  consider (idle) "is_open st = []"
    | (late) "is_open st \<noteq> []" "it_remaining t \<le> 0"
    | (error) "is_open st \<noteq> []" "0 < it_remaining t" "it_ready t = Ready_Fail False"
    | (serve) "is_open st \<noteq> []" "0 < it_remaining t" "it_ready t \<noteq> Ready_Fail False"
    by linarith
  then show ?case
  proof cases
    case serve
    define served where
      "served = (case it_ready t of Ready_Fail eintr \<Rightarrow> Some (Goes st) | Ready ready \<Rightarrow> serve_ready input ready (is_open st) st)"
    have "Option.bind served (\<lambda>o1. case o1 of
                 Killed_By_Sigpipe \<Rightarrow> Some Killed_By_Sigpipe
               | Goes st1 \<Rightarrow>
                   if Stdin \<notin> set (is_open st1) \<and> reaped (it_wait t) then
                     map_option (\<lambda>st2. Goes (True, st2)) (child_exit (it_wait t) st1)
                   else input_loop input ts st1) = Some (Goes (finished, st'))"
      using Cons.prems(1) serve by (simp add: served_def)
    then obtain st1 where s: "served = Some (Goes st1)"
      and rest: "(if Stdin \<notin> set (is_open st1) \<and> reaped (it_wait t) then
                     map_option (\<lambda>st2. Goes (True, st2)) (child_exit (it_wait t) st1)
                   else input_loop input ts st1) = Some (Goes (finished, st'))"
      unfolding bind_goes by blast
    have ok: "loop_ok input F st1 \<and> distinct (is_open st1)"
      using s Cons.prems(2,3) unfolding served_def
      by (cases "it_ready t") (auto dest: loop_serve open_distinct)
    show ?thesis
    proof (cases "Stdin \<notin> set (is_open st1) \<and> reaped (it_wait t)")
      case True
      then have f: "finished" "child_exit (it_wait t) st1 = Some st'" using rest by auto
      show ?thesis using child_exit_final [OF f(2), of input F] ok True f(1) by (auto simp: honest_exit_def)
    next
      case False
      have "input_loop input ts st1 = Some (Goes (finished, st'))" using rest unfolding if_not_P [OF False] .
      from Cons.IH [OF this] ok show ?thesis by (auto simp: honest_exit_def split: if_splits)
    qed
  qed (use Cons.prems gave_up in \<open>auto simp: aborted_def honest_exit_def\<close>)
qed (auto split: if_splits)

section \<open>The contracts\<close>

lemma run_command_result:
  assumes "run_command args sp turns reads waits = Some (r, calls)" "args \<noteq> []" "2 \<le> sp_pipes sp" "sp_fork sp"
    and "plain_stream (reads Stdout)" "plain_stream (reads Stderr)"
  shows "balanced [Stdout, Stderr] calls \<and> (0 \<le> pr_exit_code r \<longrightarrow>
    (\<exists>late. (Exited (nat (pr_exit_code r)), late) \<in> set waits) \<and>
    pr_stdout r = leading (reads Stdout) \<and> pr_stderr r = leading (reads Stderr))"
proof -
  let ?T = "\<lambda>ch. leading (reads ch)" and ?s0 = "\<lparr>cs_result = no_result, cs_open = [Stdout, Stderr], cs_reads = reads\<rparr>"
  obtain gave_up st where l: "command_loop turns ?s0 = Some (gave_up, st)"
    and g: "case gave_up of
       Some why \<Rightarrow> r = aborted why (cs_result st) \<and>
         calls = [Close (Child_End Stdout), Close (Child_End Stderr), Kill, Reap, Close (Parent_End Stdout), Close (Parent_End Stderr)]
     | None \<Rightarrow> finish_child waits (cs_result st) [Close (Child_End Stdout), Close (Child_End Stderr),
         Close (Parent_End Stdout), Close (Parent_End Stderr)] = Some (r, calls)"
    using run_command_split [OF assms(1-4)] by blast
  have "capturing_both ?T ?s0" using assms(5,6) by (auto simp: capturing_both_def capturing_def captured_def no_result_def)
  from command_loop_done [OF l this] have c: "capturing_both ?T st" "gave_up = None \<longrightarrow> cs_open st = []" by auto
  show ?thesis
  proof (cases gave_up)
    case (Some why)
    then show ?thesis using g by (simp add: balanced_def aborted_def)
  next
    case None
    then have "pr_stdout (cs_result st) = ?T Stdout" "pr_stderr (cs_result st) = ?T Stderr"
      using c by (auto simp: capturing_both_def capturing_def captured_def)
    moreover have "finish_child waits (cs_result st) [Close (Child_End Stdout), Close (Child_End Stderr),
         Close (Parent_End Stdout), Close (Parent_End Stderr)] = Some (r, calls)" using g None by simp
    note finish_child_cases [OF this]
    ultimately show ?thesis using exit_code_of_nonneg by (auto simp: balanced_def aborted_def)
  qed
qed

lemma all_chan: "(\<forall>ch. P ch) \<longleftrightarrow> P Stdin \<and> P Stdout \<and> P Stderr"
  by (metis chan.exhaust)

lemma input_start_ok:
  assumes "\<And>n. Wrote n \<in> set writes \<Longrightarrow> n \<le> 4096"
  shows "loop_ok input (\<lambda>ch. all_data (reads ch)) (input_start input reads writes)"
    "distinct (is_open (input_start input reads writes))"
proof -
  show "loop_ok input (\<lambda>ch. all_data (reads ch)) (input_start input reads writes)"
    using assms by (simp add: loop_ok_def input_start_def Let_def accounted_def all_chan sent_ok_def texts_ok_def
        close_fd_def no_result_def captured_def)
qed (simp add: input_start_def Let_def close_fd_def)

lemma run_with_input_result:
  assumes "run_command_with_input args input sp turns reads writes waits = Some (Goes (r, calls, sent))"
    and "args \<noteq> []" "3 \<le> sp_pipes sp" "sp_fork sp" "\<And>n. Wrote n \<in> set writes \<Longrightarrow> n \<le> 4096"
  shows "balanced [Stdin, Stdout, Stderr] calls \<and> prefix sent input \<and>
    honest_exit (\<lambda>ch. all_data (reads ch)) (it_wait ` set turns \<union> fst ` set waits) r"
proof -
  have "sp_pipes sp \<noteq> 0" "sp_pipes sp \<noteq> 1" "sp_pipes sp \<noteq> 2" using assms(3) by auto
  then obtain finished st where l: "input_loop input turns (input_start input reads writes) = Some (Goes (finished, st))"
    and g: "(case (finished, st) of (True, st) \<Rightarrow> Some (Goes (is_result st, is_log st, is_sent st))
           | (False, st) \<Rightarrow>
               map_option (\<lambda>(r, calls). Goes (r, calls, is_sent st)) (finish_child waits (is_result st) (is_log st)))
         = Some (Goes (r, calls, sent))"
    using assms(1-4) by (auto simp: run_command_with_input_def bind_goes)
  note final = input_loop_final [OF l input_start_ok [OF assms(5)]]
  show ?thesis
  proof (cases finished)
    case True
    then show ?thesis using final g by (auto simp: honest_exit_def)
  next
    case False
    then have f: "finish_child waits (is_result st) (is_log st) = Some (r, calls)" "sent = is_sent st"
      and ok: "loop_ok input (\<lambda>ch. all_data (reads ch)) st" "is_open st = []" using final g by auto
    have acc: "balanced [Stdin, Stdout, Stderr] (is_log st @ [Reap])" "balanced [Stdin, Stdout, Stderr] (is_log st @ [Kill, Reap])"
      using ok by (simp_all add: loop_ok_def accounted_def balanced_def)
    have t: "\<forall>ch \<in> {Stdout, Stderr}. captured ch (is_result st) = all_data (reads ch)"
      using ok by (simp add: loop_ok_def texts_ok_def)
    have "honest_exit (\<lambda>ch. all_data (reads ch)) (fst ` set waits) r"
      using finish_child_cases [OF f(1)]
    proof (elim disjE exE conjE)
      fix w late
      assume w: "(w, late) \<in> set waits" "r = is_result st\<lparr>pr_exit_code := exit_code_of w\<rparr>"
      have "captured ch r = captured ch (is_result st)" for ch by (simp add: w(2) captured_def)
      then show ?thesis using w t exit_code_of_nonneg [of w] by (force simp: honest_exit_def)
    qed (simp add: honest_exit_def aborted_def)
    then show ?thesis using finish_child_cases [OF f(1)] acc f(2) ok by (auto simp: loop_ok_def sent_ok_def honest_exit_def)
  qed
qed


definition demo_reads :: "chan \<Rightarrow> read_result list" where
  "demo_reads ch = (if ch = Stdout then [Data ''a'', Data ''b'', Eof] else [Eof])"

definition demo_spawn :: spawn where "demo_spawn = \<lparr>sp_pipes = 3, sp_fork = True\<rparr>"

lemma demo_streams:
  "plain_stream (demo_reads Stdout)" "plain_stream (demo_reads Stderr)" "leading (demo_reads Stdout) = ''ab''"
  "leading (demo_reads Stderr) = []"
  "2 \<le> sp_pipes demo_spawn" "3 \<le> sp_pipes demo_spawn" "sp_fork demo_spawn"
  by (simp_all add: demo_reads_def demo_spawn_def)

definition demo_turns :: "(int \<times> poll_answer) list" where
  "demo_turns = [(5000, Poll_Events (\<lambda>ch. \<lparr>rv_in = (ch = Stdout), rv_hup = False\<rparr>)),
     (4990, Poll_Events (\<lambda>ch. \<lparr>rv_in = (ch = Stdout), rv_hup = True\<rparr>))]"

lemma demo_command_run:
  "run_command [''ls''] demo_spawn demo_turns demo_reads [(Still_Running, False), (Exited 0, False)] =
     Some (\<lparr>pr_exit_code = 0, pr_stdout = ''ab'', pr_stderr = []\<rparr>,
       [Close (Child_End Stdout), Close (Child_End Stderr), Close (Parent_End Stdout), Close (Parent_End Stderr), Reap])"
  by code_simp


text \<open>C18: a command with input that finishes has closed every end of its three pipes once, has reaped its child
  once and sent it a prefix of the input; and an exit code that is not -1 is one \<open>waitpid\<close> reported, with
  outputs that start what the child wrote. \<open>write\<close> is taken to write at most what it was given.\<close>

theorem input_command_contract:
  assumes "run_command_with_input args input sp turns reads writes waits = Some (Goes (r, calls, sent))"
    and "args \<noteq> []" "3 \<le> sp_pipes sp" "sp_fork sp" "\<And>n. Wrote n \<in> set writes \<Longrightarrow> n \<le> 4096"
  shows "balanced [Stdin, Stdout, Stderr] calls \<and> prefix sent input \<and> (0 \<le> pr_exit_code r \<longrightarrow>
    Exited (nat (pr_exit_code r)) \<in> it_wait ` set turns \<union> fst ` set waits \<and>
    prefix (pr_stdout r) (all_data (reads Stdout)) \<and> prefix (pr_stderr r) (all_data (reads Stderr)))"
  using run_with_input_result [OF assms] by (simp add: honest_exit_def captured_def)

definition demo_input_turns :: "input_turn list" where
  "demo_input_turns = [\<lparr>it_remaining = 5000, it_ready = Ready [Stdin], it_wait = Still_Running\<rparr>,
     \<lparr>it_remaining = 4990, it_ready = Ready [Stdout], it_wait = Exited 3\<rparr>]"

definition demo_input_reads :: "chan \<Rightarrow> read_result list" where
  "demo_input_reads ch = (if ch = Stdout then [Data ''a'', Intr, Again, Data ''b'', Eof] else [Eof])"

lemma demo_input_run:
  "run_command_with_input [''xclip''] ''hello'' demo_spawn demo_input_turns demo_input_reads [Wrote 5] [] =
     Some (Goes (\<lparr>pr_exit_code = 3, pr_stdout = ''ab'', pr_stderr = []\<rparr>,
       [Close (Child_End Stdin), Close (Child_End Stdout), Close (Child_End Stderr), Close (Parent_End Stdin), Reap,
        Close (Parent_End Stdout), Close (Parent_End Stderr)], ''hello''))"
  by code_simp

theorem input_command_contract_witness:
  "balanced [Stdin, Stdout, Stderr]
     [Close (Child_End Stdin), Close (Child_End Stdout), Close (Child_End Stderr), Close (Parent_End Stdin), Reap,
      Close (Parent_End Stdout), Close (Parent_End Stderr)] \<and> prefix ''ab'' (all_data (demo_input_reads Stdout))"
  using input_command_contract [OF demo_input_run _ demo_streams(6,7)] by simp

text \<open>No signal is ignored by the daemon, so a child that has closed its end of the standard input when the parent first writes
  ends the whole process, however the run would have gone on.\<close>

lemma sigpipe_ends_process:
  assumes "args \<noteq> []" "input \<noteq> []" "3 \<le> sp_pipes sp" "sp_fork sp"
    and "0 < it_remaining t" "it_ready t = Ready ready" "Stdin \<in> set ready"
  shows "run_command_with_input args input sp (t # ts) reads (Write_Sigpipe # ws) waits = Some Killed_By_Sigpipe"
proof -
  have "sp_pipes sp \<noteq> 0" "sp_pipes sp \<noteq> 1" "sp_pipes sp \<noteq> 2" using assms(3) by auto
  with assms show ?thesis by (simp add: run_command_with_input_def input_start_def Let_def write_input_def)
qed

end
