(* ===== verification/Terminal.thy ===== *)
theory Terminal
  imports AW_Prelude
begin

text \<open>
  What the commands write to a terminal: line ends, the colour sequences, and the outcome of a
  command, its exit code with the text of its standard output and standard error.
\<close>

definition nl :: string where "nl = [CHR 0x0A]"

definition ansi :: "string \<Rightarrow> string" where
  "ansi n = [CHR 0x1B] @ ''['' @ n @ ''m''"

definition red_line :: "string \<Rightarrow> string" where
  "red_line t = ansi ''31'' @ t @ ansi ''0'' @ nl"

definition green_line :: "string \<Rightarrow> string" where
  "green_line t = ansi ''32'' @ t @ ansi ''0'' @ nl"

record outcome =
  oc_exit :: int
  oc_out :: string
  oc_err :: string

definition ends :: "int \<Rightarrow> string \<Rightarrow> string \<Rightarrow> outcome" where
  "ends n out err = \<lparr>oc_exit = n, oc_out = out, oc_err = err\<rparr>"

lemma ends_fields [simp]: "oc_exit (ends n out err) = n" "oc_out (ends n out err) = out" "oc_err (ends n out err) = err"
  by (simp_all add: ends_def)

text \<open>What the calling process sees of an exit code.\<close>

definition exit_status :: "int \<Rightarrow> int" where
  "exit_status n = n mod 256"

end
