(* ===== verification/Strtod.thy ===== *)
theory Strtod
  imports AW_Prelude Cfloat
begin

text \<open>
  \<open>std::stod\<close> of the C++ standard library: the longest numeral at the start of a text, decimal or
  hexadecimal, correctly rounded to \<open>double\<close>. \<open>None\<close> is an exception: no numeral, or a value out of
  range. The forms \<open>inf\<close> and \<open>nan\<close> are left out: the sources read a text as a \<open>double\<close> only when an
  integer starts it.
\<close>

definition is_xdigit :: "char \<Rightarrow> bool" where
  "is_xdigit c \<longleftrightarrow> is_digit c \<or> (97 \<le> code c \<and> code c \<le> 102) \<or> (65 \<le> code c \<and> code c \<le> 70)"

definition xdigit_value :: "char \<Rightarrow> nat" where
  "xdigit_value c = (if is_digit c then code c - 48 else if is_lower c then code c - 87 else code c - 55)"

definition number_value :: "nat \<Rightarrow> string \<Rightarrow> nat" where
  "number_value b ds = foldl (\<lambda>a c. b * a + xdigit_value c) 0 ds"

definition rat_pow :: "rat \<Rightarrow> int \<Rightarrow> rat" where
  "rat_pow b e = (if 0 \<le> e then b ^ nat e else 1 / b ^ nat (- e))"

text \<open>The exponent and its length; without a digit there is no exponent.\<close>

definition scan_exponent :: "string \<Rightarrow> string \<Rightarrow> int \<times> nat" where
  "scan_exponent marks s =
     (case s of
        [] \<Rightarrow> (0, 0)
      | c # r \<Rightarrow>
          if c \<in> set marks then
            (let sg = (case r of d # _ \<Rightarrow> if d = CHR ''-'' \<or> d = CHR ''+'' then 1 else 0 | [] \<Rightarrow> 0);
                 neg = (case r of d # _ \<Rightarrow> d = CHR ''-'' | [] \<Rightarrow> False);
                 ds = takeWhile is_digit (drop sg r);
                 v = int (digits_value 0 ds)
             in if ds = [] then (0, 0) else (if neg then - v else v, Suc sg + length ds))
          else (0, 0))"

definition scan_number :: "nat \<Rightarrow> (char \<Rightarrow> bool) \<Rightarrow> string \<Rightarrow> rat \<Rightarrow> string \<Rightarrow> (rat \<times> nat) option" where
  "scan_number b P marks eb s =
     (let ip = takeWhile P s;
          r = drop (length ip) s;
          dot = (case r of c # _ \<Rightarrow> if c = CHR ''.'' then 1 else 0 | [] \<Rightarrow> 0);
          fp = (if dot = 1 then takeWhile P (drop 1 r) else []);
          n = length ip + dot + length fp;
          (e, k) = scan_exponent marks (drop n s)
      in if ip = [] \<and> fp = [] then None
         else Some (of_nat (number_value b (ip @ fp)) / of_nat b ^ length fp * rat_pow eb e, n + k))"

definition strtod :: "string \<Rightarrow> (rat \<times> nat) option" where
  "strtod s =
     (let t = dropWhile is_space s;
          neg = (case t of c # _ \<Rightarrow> c = CHR ''-'' | [] \<Rightarrow> False);
          u = (case t of c # r \<Rightarrow> if c = CHR ''-'' \<or> c = CHR ''+'' then r else t | [] \<Rightarrow> t);
          hex = (if lower_s (take 2 u) = ''0x'' then scan_number 16 is_xdigit ''pP'' 2 (drop 2 u) else None);
          scanned = (case hex of Some (q, n) \<Rightarrow> Some (q, n + 2) | None \<Rightarrow> scan_number 10 is_digit ''eE'' 10 u)
      in map_option (\<lambda>(q, n). (if neg then - q else q, length s - length u + n)) scanned)"

text \<open>\<open>ERANGE\<close>: an overflow, or a rounded value below the normal range.\<close>

fun range_error :: "rat \<Rightarrow> fl \<Rightarrow> bool" where
  "range_error q (Fin x) = (x \<noteq> q \<and> \<bar>x\<bar> < two_pow (- 1022))"
| "range_error q _ = True"

definition stod :: "string \<Rightarrow> (fl \<times> nat) option" where
  "stod s =
     (case strtod s of
        None \<Rightarrow> None
      | Some (q, n) \<Rightarrow> if range_error q (f64 q) then None else Some (f64 q, n))"

lemma strtod_examples:
  "strtod ''0.25'' = Some (1/4, 4)" "strtod ''-1.5e2x'' = Some (- 150, 6)" "strtod ''0x10'' = Some (16, 4)"
  "strtod ''.5'' = Some (1/2, 2)" "strtod ''12e'' = Some (12, 2)" "strtod ''e5'' = None"
  by code_simp+

end
