(* ===== verification/Logging.thy ===== *)
theory Logging
  imports AW_Prelude
begin

text \<open>
  The loggers (src/src/util/logging.cpp and \<open>setup_machine_logging\<close> of src/src/cli/cli.cpp): which sinks
  they write to and from which level on. The level names are the ones of the configuration. The
  levels are ordered as the library orders them: a logger passes on what is at least its level.
\<close>

datatype log_level = L_Trace | L_Debug | L_Info | L_Warn | L_Err | L_Critical | L_Off

fun level_rank :: "log_level \<Rightarrow> nat" where
  "level_rank L_Trace = 0"
| "level_rank L_Debug = 1"
| "level_rank L_Info = 2"
| "level_rank L_Warn = 3"
| "level_rank L_Err = 4"
| "level_rank L_Critical = 5"
| "level_rank L_Off = 6"

lemma level_rank_eq [simp]: "level_rank a = level_rank b \<longleftrightarrow> a = b"
  by (cases a; cases b; simp)

instantiation log_level :: linorder
begin

definition less_eq_log_level :: "log_level \<Rightarrow> log_level \<Rightarrow> bool" where
  "less_eq_log_level a b \<longleftrightarrow> level_rank a \<le> level_rank b"

definition less_log_level :: "log_level \<Rightarrow> log_level \<Rightarrow> bool" where
  "less_log_level a b \<longleftrightarrow> level_rank a < level_rank b"

instance
  by standard (auto simp: less_eq_log_level_def less_log_level_def)

end

datatype sink = Stderr_Sink | File_Sink string

record logger =
  lg_name :: string
  lg_sinks :: "sink list"
  lg_level :: log_level
  lg_flush :: log_level

definition level_of_name :: "string \<Rightarrow> log_level" where
  "level_of_name level =
     (if level = ''trace'' then L_Trace
      else if level = ''debug'' then L_Debug
      else if level = ''info'' then L_Info
      else if level = ''warn'' \<or> level = ''warning'' then L_Warn
      else if level = ''error'' then L_Err
      else L_Info)"

text \<open>\<open>can_open\<close>: whether the file sink can be made; the warning of a failure goes to the old logger.\<close>

definition setup_logging :: "(string \<Rightarrow> bool) \<Rightarrow> string \<Rightarrow> string \<Rightarrow> logger" where
  "setup_logging can_open level log_file =
     \<lparr>lg_name = ''autowhisper'',
      lg_sinks = Stderr_Sink # (if log_file \<noteq> [] \<and> can_open log_file then [File_Sink log_file] else []),
      lg_level = level_of_name level, lg_flush = L_Warn\<rparr>"

definition setup_machine_logging :: "log_level \<Rightarrow> bool \<Rightarrow> logger" where
  "setup_machine_logging flush verbose =
     \<lparr>lg_name = ''autowhisper-machine'', lg_sinks = [Stderr_Sink],
      lg_level = (if verbose then L_Debug else L_Warn), lg_flush = flush\<rparr>"

definition logs :: "logger \<Rightarrow> log_level \<Rightarrow> bool" where
  "logs lg msg \<longleftrightarrow> lg_level lg \<le> msg"

text \<open>
  The schema offers seven levels; the last two are taken for \<open>info\<close>, so a user who asks for silence or
  for critical messages only gets the informational ones as well.
\<close>

lemma level_names:
  "map level_of_name [''trace'', ''debug'', ''info'', ''warn'', ''error''] = [L_Trace, L_Debug, L_Info, L_Warn, L_Err]"
  "level_of_name ''critical'' = L_Info" "level_of_name ''off'' = L_Info"
  by code_simp+

lemma off_is_not_silent: "logs (setup_logging can_open ''off'' f) L_Info"
  by (simp add: logs_def setup_logging_def level_of_name_def)

lemma verbose_logs_more: "logs (setup_machine_logging fl False) m \<Longrightarrow> logs (setup_machine_logging fl True) m"
  by (cases m) (simp_all add: logs_def setup_machine_logging_def less_eq_log_level_def)

end
