(* ===== verification/Service.thy ===== *)
theory Service
  imports Subprocess Terminal
begin

text \<open>
  Managing the background service (src/src/service/service.h, service_linux.cpp, service_win32.cpp)
  and the commands of the command line that use it (src/src/cli/cli.cpp). The abstract class
  \<open>ServiceManager\<close> is a record of operations over the state of the system; what a client may rely on
  is the locale \<open>service_manager\<close>: an operation that reports success has done its work.
\<close>

record service_result =
  sr_exit_code :: int
  sr_stdout :: string
  sr_stderr :: string

record 's service_ops =
  sv_start :: "'s \<Rightarrow> service_result \<times> 's"
  sv_stop :: "'s \<Rightarrow> service_result \<times> 's"
  sv_restart :: "'s \<Rightarrow> service_result \<times> 's"
  sv_status :: "'s \<Rightarrow> service_result \<times> 's"
  sv_tail_logs :: "bool \<Rightarrow> int \<Rightarrow> 's \<Rightarrow> int \<times> 's"
  sv_backend_name :: string

section \<open>systemd\<close>

text \<open>What \<open>run_command\<close> and \<open>run_passthrough\<close> answer and do to the system is a parameter.\<close>

record 's command_runner =
  cr_run :: "string list \<Rightarrow> int \<Rightarrow> 's \<Rightarrow> process_result \<times> 's"
  cr_pass :: "string list \<Rightarrow> 's \<Rightarrow> int \<times> 's"

definition kServiceName :: string where "kServiceName = ''autowhisper''"

definition run_systemctl :: "'s command_runner \<Rightarrow> string list \<Rightarrow> 's \<Rightarrow> process_result \<times> 's" where
  "run_systemctl R args s = cr_run R ([''systemctl'', ''--user''] @ args) 10 s"

definition to_service_result :: "process_result \<Rightarrow> service_result" where
  "to_service_result pr = \<lparr>sr_exit_code = pr_exit_code pr, sr_stdout = pr_stdout pr, sr_stderr = pr_stderr pr\<rparr>"

definition journal_command :: "bool \<Rightarrow> int \<Rightarrow> string list" where
  "journal_command follow lines =
     [''journalctl'', ''--user'', ''-u'', kServiceName, ''-n'', show_int lines] @ (if follow then [''-f''] else [])"

definition systemd_manager :: "'s command_runner \<Rightarrow> 's service_ops" where
  "systemd_manager R =
     \<lparr>sv_start = (\<lambda>s. apfst to_service_result (run_systemctl R [''start'', kServiceName] s)),
      sv_stop = (\<lambda>s. apfst to_service_result (run_systemctl R [''stop'', kServiceName] s)),
      sv_restart = (\<lambda>s. apfst to_service_result (run_systemctl R [''restart'', kServiceName] s)),
      sv_status = (\<lambda>s. apfst to_service_result (run_systemctl R [''status'', kServiceName] s)),
      sv_tail_logs = (\<lambda>follow lines. cr_pass R (journal_command follow lines)),
      sv_backend_name = ''systemd''\<rparr>"

section \<open>The placeholder for Windows\<close>

definition unsupported :: "string \<Rightarrow> service_result" where
  "unsupported action = \<lparr>sr_exit_code = 1, sr_stdout = [],
     sr_stderr = ''Windows service '' @ action @
       '' is not implemented yet. Track Windows runtime readiness in desktop platform diagnostics.''\<rparr>"

definition win32_manager :: "'s service_ops" where
  "win32_manager =
     \<lparr>sv_start = (\<lambda>s. (unsupported ''start'', s)), sv_stop = (\<lambda>s. (unsupported ''stop'', s)),
      sv_restart = (\<lambda>s. (unsupported ''restart'', s)), sv_status = (\<lambda>s. (unsupported ''status'', s)),
      sv_tail_logs = (\<lambda>_ _ s. (1, s)), sv_backend_name = ''win32-placeholder''\<rparr>"

section \<open>The commands\<close>

definition report :: "string \<Rightarrow> string \<Rightarrow> service_result \<times> 's \<Rightarrow> outcome \<times> 's" where
  "report done_text verb = (\<lambda>(r, s).
     (if sr_exit_code r = 0 then ends 0 (green_line (''AutoWhisper '' @ done_text)) []
      else ends 1 [] (red_line (''Failed to '' @ verb @ '': '' @ sr_stderr r)), s))"

definition cmd_start :: "'s service_ops \<Rightarrow> 's \<Rightarrow> outcome \<times> 's" where
  "cmd_start S s = report ''started'' ''start'' (sv_start S s)"

definition cmd_stop :: "'s service_ops \<Rightarrow> 's \<Rightarrow> outcome \<times> 's" where
  "cmd_stop S s = report ''stopped'' ''stop'' (sv_stop S s)"

definition cmd_restart :: "'s service_ops \<Rightarrow> 's \<Rightarrow> outcome \<times> 's" where
  "cmd_restart S s = report ''restarted'' ''restart'' (sv_restart S s)"

definition cmd_status :: "'s service_ops \<Rightarrow> 's \<Rightarrow> outcome \<times> 's" where
  "cmd_status S s = (case sv_status S s of (r, s') \<Rightarrow> (ends (sr_exit_code r) (sr_stdout r) (sr_stderr r), s'))"

definition cmd_logs :: "'s service_ops \<Rightarrow> bool \<Rightarrow> int \<Rightarrow> 's \<Rightarrow> int \<times> 's" where
  "cmd_logs S follow lines s = sv_tail_logs S follow lines s"

section \<open>The contract\<close>

locale service_manager =
  fixes S :: "'s service_ops" and active :: "'s \<Rightarrow> bool"
  assumes start_law: "sr_exit_code (fst (sv_start S s)) = 0 \<Longrightarrow> active (snd (sv_start S s))"
    and stop_law: "sr_exit_code (fst (sv_stop S s)) = 0 \<Longrightarrow> \<not> active (snd (sv_stop S s))"
    and restart_law: "sr_exit_code (fst (sv_restart S s)) = 0 \<Longrightarrow> active (snd (sv_restart S s))"
begin

text \<open>Success is printed and returned exactly when the manager reports it, and then it is true.\<close>

lemma commands_honest:
  "oc_exit (fst (cmd_start S s)) \<in> {0, 1}" "oc_exit (fst (cmd_stop S s)) \<in> {0, 1}" "oc_exit (fst (cmd_restart S s)) \<in> {0, 1}"
  "oc_exit (fst (cmd_start S s)) = 0 \<Longrightarrow> active (snd (cmd_start S s)) \<and> oc_err (fst (cmd_start S s)) = []"
  "oc_exit (fst (cmd_stop S s)) = 0 \<Longrightarrow> \<not> active (snd (cmd_stop S s)) \<and> oc_err (fst (cmd_stop S s)) = []"
  "oc_exit (fst (cmd_restart S s)) = 0 \<Longrightarrow> active (snd (cmd_restart S s)) \<and> oc_err (fst (cmd_restart S s)) = []"
  using start_law [of s] stop_law [of s] restart_law [of s]
  by (auto simp: cmd_start_def cmd_stop_def cmd_restart_def report_def split: prod.splits if_splits)

text \<open>Stopping and starting again is what a restart promises.\<close>

lemma stop_start:
  assumes "oc_exit (fst (cmd_stop S s)) = 0" "oc_exit (fst (cmd_start S (snd (cmd_stop S s)))) = 0"
  shows "active (snd (cmd_start S (snd (cmd_stop S s))))"
  using commands_honest(4) [OF assms(2)] by simp

end

text \<open>The exit codes of \<open>systemctl\<close>, as its manual has them.\<close>

definition systemctl_ok :: "'s command_runner \<Rightarrow> ('s \<Rightarrow> bool) \<Rightarrow> bool" where
  "systemctl_ok R active \<longleftrightarrow>
     (\<forall>s r s'. (run_systemctl R [''start'', kServiceName] s = (r, s') \<longrightarrow> pr_exit_code r = 0 \<longrightarrow> active s') \<and>
       (run_systemctl R [''restart'', kServiceName] s = (r, s') \<longrightarrow> pr_exit_code r = 0 \<longrightarrow> active s') \<and>
       (run_systemctl R [''stop'', kServiceName] s = (r, s') \<longrightarrow> pr_exit_code r = 0 \<longrightarrow> \<not> active s'))"

lemma systemd_service_manager: "systemctl_ok R active \<Longrightarrow> service_manager (systemd_manager R) active"
  by unfold_locales
    (auto simp: systemctl_ok_def systemd_manager_def to_service_result_def apfst_def map_prod_def split: prod.splits)

interpretation win32_service: service_manager win32_manager active for active :: "'s \<Rightarrow> bool"
  by unfold_locales (simp_all add: win32_manager_def unsupported_def)

text \<open>A model of \<open>systemctl\<close> over one unit, on which the hypothesis holds.\<close>

definition one_unit :: "bool command_runner" where
  "one_unit = \<lparr>cr_run = (\<lambda>args t s.
       let r = \<lparr>pr_exit_code = 0, pr_stdout = [], pr_stderr = []\<rparr>
       in if args = [''systemctl'', ''--user'', ''stop'', kServiceName] then (r, False) else (r, True)),
     cr_pass = (\<lambda>args s. (0, s))\<rparr>"

lemma one_unit_ok: "systemctl_ok one_unit (\<lambda>s. s)"
  by (simp add: systemctl_ok_def one_unit_def run_systemctl_def kServiceName_def)

interpretation systemd_service: service_manager "systemd_manager one_unit" "\<lambda>s. s"
  by (rule systemd_service_manager [OF one_unit_ok])

end
