(* ===== verification/Doctor.thy ===== *)
theory Doctor
  imports Config Subprocess Terminal "HOL-Library.State_Monad"
begin

text \<open>
  The diagnosis of \<open>autowhisper doctor\<close> (src/src/doctor/doctor.h, doctor.cpp, the checks for Linux in
  platform/doctor_linux.cpp and the placeholder of platform/doctor_win32.cpp). The machine is a
  parameter: what \<open>run_command\<close> answers and does to it, and the files and environment variables seen
  there. A check is a program of the state monad over the machine, the commands run so far and the
  text printed so far.
\<close>

section \<open>Results\<close>

datatype check_status = Check_OK | Check_WARN | Check_FAIL | Check_INFO

record check_result =
  ck_status :: check_status
  ck_label :: string
  ck_message :: string
  ck_fix :: string

record check_group =
  cg_header :: string
  cg_results :: "check_result list"

definition check :: "check_status \<Rightarrow> string \<Rightarrow> string \<Rightarrow> string \<Rightarrow> check_result" where
  "check st l m f = \<lparr>ck_status = st, ck_label = l, ck_message = m, ck_fix = f\<rparr>"

section \<open>The machine\<close>

record 'w machine =
  mc_run :: "string list \<Rightarrow> int \<Rightarrow> 'w \<Rightarrow> process_result \<times> 'w"
  mc_files :: "'w \<Rightarrow> fsys"
  mc_io :: io_env
  mc_display :: "string option"

record 'w shell =
  sh_world :: 'w
  sh_log :: "string list list"
  sh_out :: string

definition run_cmd :: "'w machine \<Rightarrow> string list \<Rightarrow> int \<Rightarrow> ('w shell, process_result) state" where
  "run_cmd M args timeout = State (\<lambda>s.
     let (r, w) = mc_run M args timeout (sh_world s) in (r, s\<lparr>sh_world := w, sh_log := sh_log s @ [args]\<rparr>))"

definition has_command :: "'w machine \<Rightarrow> string \<Rightarrow> ('w shell, bool) state" where
  "has_command M name = do {
     r \<leftarrow> run_cmd M [''which'', name] 5;
     State_Monad.return (command_exists (\<lambda>_. r) name) }"

definition say :: "string \<Rightarrow> ('w shell, unit) state" where
  "say t = State (\<lambda>s. ((), s\<lparr>sh_out := sh_out s @ t\<rparr>))"

definition file_there :: "'w machine \<Rightarrow> string \<Rightarrow> ('w shell, bool) state" where
  "file_there M p = State (\<lambda>s. (fs_exists (mc_files M (sh_world s)) p, s))"

text \<open>\<open>while (!line.empty() && (line.back() == '\n' || line.back() == '\r')) line.pop_back();\<close>\<close>

definition chomp :: "string \<Rightarrow> string" where
  "chomp s = rev (dropWhile (\<lambda>c. c = CHR 0x0A \<or> c = CHR 0x0D) (rev s))"

section \<open>The checks for Linux\<close>

text \<open>\<open>name, driver, memory\<close>: \<open>p1 + 2\<close> wraps round to 1 when there is no comma at all.\<close>

definition gpu_details :: "string \<Rightarrow> check_result list" where
  "gpu_details line =
     (let p1 = sfind '', '' line 0;
          p2 = sfind '', '' line (case p1 of Some p \<Rightarrow> p + 2 | None \<Rightarrow> 1)
      in case (p1, p2) of
           (Some a, Some b) \<Rightarrow>
             [check Check_INFO ''GPU:'' (take a line) [],
              check Check_INFO ''Driver:'' (take (b - a - 2) (drop (a + 2) line)) [],
              check Check_INFO ''VRAM:'' (drop (b + 2) line) []]
         | _ \<Rightarrow> [])"

definition check_gpu :: "'w machine \<Rightarrow> bool \<Rightarrow> ('w shell, check_group) state" where
  "check_gpu M fix_it = do {
     smi_there \<leftarrow> has_command M ''nvidia-smi'';
     if \<not> smi_there then State_Monad.return \<lparr>cg_header = ''NVIDIA GPU'', cg_results =
       [check Check_FAIL ''nvidia-smi not found'' [] ''sudo apt install nvidia-driver-535 && sudo reboot'']\<rparr>
     else do {
       smi \<leftarrow> run_cmd M [''nvidia-smi''] 10;
       if pr_exit_code smi \<noteq> 0 then
         if sfind ''Driver/library version mismatch'' (pr_stderr smi) 0 \<noteq> None then do {
           _ \<leftarrow> (if fix_it then do {
                  _ \<leftarrow> say (''    Attempting fix: reloading nvidia modules...'' @ nl);
                  _ \<leftarrow> run_cmd M [''sudo'', ''rmmod'', ''nvidia_uvm'', ''nvidia_drm'', ''nvidia_modeset'', ''nvidia''] 10;
                  _ \<leftarrow> run_cmd M [''sudo'', ''modprobe'', ''nvidia''] 10;
                  State_Monad.return () }
                else State_Monad.return ());
           State_Monad.return \<lparr>cg_header = ''NVIDIA GPU'', cg_results =
             [check Check_FAIL ''NVIDIA driver/library version mismatch'' [] ''sudo reboot (or run: autowhisper doctor --fix)'']\<rparr> }
         else State_Monad.return \<lparr>cg_header = ''NVIDIA GPU'', cg_results =
             [check Check_FAIL (''nvidia-smi failed: '' @ pr_stderr smi) [] []]\<rparr>
       else do {
         query \<leftarrow> run_cmd M [''nvidia-smi'', ''--query-gpu=name,driver_version,memory.total'', ''--format=csv,noheader''] 10;
         State_Monad.return \<lparr>cg_header = ''NVIDIA GPU'', cg_results =
           (if pr_exit_code query = 0 \<and> pr_stdout query \<noteq> []
            then gpu_details (chomp (pr_stdout query)) @ [check Check_OK ''NVIDIA GPU detected and working'' [] []]
            else [])\<rparr> } } }"

definition audio_group :: "check_result \<Rightarrow> check_group" where
  "audio_group r = \<lparr>cg_header = ''Audio'', cg_results = [r]\<rparr>"

definition check_pulse :: "'w machine \<Rightarrow> ('w shell, check_group) state" where
  "check_pulse M = do {
     pactl \<leftarrow> has_command M ''pactl'';
     sources \<leftarrow> (if pactl then run_cmd M [''pactl'', ''list'', ''short'', ''sources''] 10 else State_Monad.return no_result);
     State_Monad.return (audio_group
       (if pactl \<and> pr_exit_code sources = 0 \<and> pr_stdout sources \<noteq> []
        then check Check_OK ''Audio capture devices found (PulseAudio)'' [] []
        else check Check_FAIL ''No audio input devices found'' [] ''Check microphone connection'')) }"

definition check_audio :: "'w machine \<Rightarrow> ('w shell, check_group) state" where
  "check_audio M = do {
     arecord \<leftarrow> has_command M ''arecord'';
     devices \<leftarrow> (if arecord then run_cmd M [''arecord'', ''-l''] 10 else State_Monad.return no_result);
     if arecord \<and> pr_exit_code devices = 0 \<and> sfind ''card'' (pr_stdout devices) 0 \<noteq> None
     then State_Monad.return (audio_group (check Check_OK ''Audio capture devices found (ALSA)'' [] []))
     else check_pulse M }"

definition check_display :: "'w machine \<Rightarrow> ('w shell, check_group) state" where
  "check_display M =
     (case mc_display M of
        None \<Rightarrow> State_Monad.return \<lparr>cg_header = ''Display'', cg_results =
          [check Check_FAIL ''No DISPLAY environment variable'' [] ''Run from a graphical session, not SSH'']\<rparr>
      | Some display \<Rightarrow>
          if display = [] then State_Monad.return \<lparr>cg_header = ''Display'', cg_results =
            [check Check_FAIL ''No DISPLAY environment variable'' [] ''Run from a graphical session, not SSH'']\<rparr>
          else do {
            xdpy \<leftarrow> run_cmd M [''xdpyinfo''] 3;
            State_Monad.return \<lparr>cg_header = ''Display'', cg_results =
              [check Check_OK ''X11 display:'' display [],
               (if pr_exit_code xdpy = 0 then check Check_OK ''X11 connection successful'' [] []
                else check Check_WARN ''X11 connection check failed (non-fatal)'' [] [])]\<rparr> })"

definition tools :: "(string \<times> string \<times> string) list" where
  "tools = [(''xdotool'', ''Text injection'', ''sudo apt install xdotool''),
            (''xclip'', ''Clipboard access'', ''sudo apt install xclip'')]"

definition check_tool :: "'w machine \<Rightarrow> bool \<Rightarrow> string \<times> string \<times> string \<Rightarrow> ('w shell, check_result) state" where
  "check_tool M fix_it = (\<lambda>(name, desc, install). do {
     there \<leftarrow> has_command M name;
     if there then State_Monad.return (check Check_OK (desc @ '' ('' @ name @ '')'') [] [])
     else do {
       _ \<leftarrow> (if fix_it then do {
              _ \<leftarrow> say (''    Installing '' @ name @ ''...'' @ nl);
              _ \<leftarrow> run_cmd M [''sudo'', ''apt'', ''install'', ''-y'', name] 10;
              State_Monad.return () }
            else State_Monad.return ());
       State_Monad.return (check Check_FAIL (desc @ '' ('' @ name @ '') not found'') [] install) } })"

definition check_tools :: "'w machine \<Rightarrow> bool \<Rightarrow> ('w shell, check_group) state" where
  "check_tools M fix_it = do {
     rs \<leftarrow> State_Monad.traverse_list (check_tool M fix_it) tools;
     State_Monad.return \<lparr>cg_header = ''Tools'', cg_results = rs\<rparr> }"

definition service_path :: "io_env \<Rightarrow> string" where
  "service_path e = (case io_home e of Some h \<Rightarrow> h | None \<Rightarrow> ''/tmp'') @ ''/.config/systemd/user/autowhisper.service''"

definition check_service :: "'w machine \<Rightarrow> bool \<Rightarrow> ('w shell, check_group) state" where
  "check_service M fix_it = do {
     active \<leftarrow> run_cmd M [''systemctl'', ''--user'', ''is-active'', ''autowhisper''] 10;
     if pr_exit_code active = 0 \<and> chomp (pr_stdout active) = ''active''
     then State_Monad.return \<lparr>cg_header = ''Service'', cg_results = [check Check_OK ''AutoWhisper service is running'' [] []]\<rparr>
     else do {
       installed \<leftarrow> file_there M (service_path (mc_io M));
       _ \<leftarrow> (if fix_it then do {
              _ \<leftarrow> say (''    Starting service...'' @ nl);
              _ \<leftarrow> run_cmd M [''systemctl'', ''--user'', ''start'', ''autowhisper''] 10;
              State_Monad.return () }
            else State_Monad.return ());
       State_Monad.return \<lparr>cg_header = ''Service'', cg_results =
         (if \<not> installed then [check Check_WARN ''Service not installed'' [] ''Install the service file'']
          else [check Check_INFO ''Service is stopped'' [] [], check Check_INFO ''Start with: autowhisper start'' [] []])\<rparr> } }"

definition platform_checks :: "'w machine \<Rightarrow> bool \<Rightarrow> ('w shell, check_group list) state" where
  "platform_checks M fix_it = do {
     gpu \<leftarrow> check_gpu M fix_it;
     audio \<leftarrow> check_audio M;
     display \<leftarrow> check_display M;
     tool_group \<leftarrow> check_tools M fix_it;
     service \<leftarrow> check_service M fix_it;
     State_Monad.return [gpu, audio, display, tool_group, service] }"

text \<open>The build for Windows.\<close>

definition platform_checks_win32 :: "check_group list" where
  "platform_checks_win32 =
     [\<lparr>cg_header = ''Windows'', cg_results = [check Check_FAIL ''Windows runtime checks are not implemented yet''
         ''This build proves Windows artifact generation only; runtime validation still requires a Windows host, VM, or proven Wine-capable x86_64 runner.''
         ''Run AutoWhisper on a real Windows validation host before claiming Windows runtime readiness.'']\<rparr>]"

section \<open>The checks of every platform\<close>

definition model_results :: "'t toml_api \<Rightarrow> io_env \<Rightarrow> fsys \<Rightarrow> check_result list" where
  "model_results T e fs =
     (case bind_r (find_config_or_throw e fs) (config_load T fs) of
        Inl m \<Rightarrow> [check Check_WARN (''Model check failed: '' @ m) [] []]
      | Inr c \<Rightarrow>
          (let name = md_size (c_model c)
           in [check Check_INFO ''Configured model:'' name [],
               (if is_model_downloaded (io_home e) fs name
                then check Check_OK (''Model '' @ name @ '' is downloaded'') [] []
                else check Check_WARN (''Model '' @ name @ '' not found in cache'') [] (''autowhisper model download '' @ name))]))"

definition common_checks :: "'t toml_api \<Rightarrow> 'w machine \<Rightarrow> ('w shell, check_group list) state" where
  "common_checks T M = State (\<lambda>s.
     ([\<lparr>cg_header = ''Model'', cg_results = model_results T (mc_io M) (mc_files M (sh_world s))\<rparr>], s))"

section \<open>Rendering\<close>

fun status_mark :: "check_status \<Rightarrow> string" where
  "status_mark Check_OK = ansi ''32'' @ [CHR 0xE2, CHR 0x9C, CHR 0x93]"
| "status_mark Check_WARN = ansi ''33'' @ ''!''"
| "status_mark Check_FAIL = ansi ''31'' @ [CHR 0xE2, CHR 0x9C, CHR 0x97]"
| "status_mark Check_INFO = ansi ''34'' @ [CHR 0xE2, CHR 0x80, CHR 0xA2]"

definition print_result :: "check_result \<Rightarrow> string" where
  "print_result r =
     ''  '' @ status_mark (ck_status r) @ ansi ''0'' @ '' '' @ ck_label r @
     (if ck_message r \<noteq> [] then '' '' @ ck_message r else []) @ nl @
     (if ck_fix r \<noteq> [] then ''    '' @ [CHR 0xE2, CHR 0x86, CHR 0x92] @ '' '' @ ansi ''2'' @ ck_fix r @ ansi ''0'' @ nl else [])"

definition print_group :: "check_group \<Rightarrow> string" where
  "print_group g =
     nl @ ansi ''1'' @ cg_header g @ ansi ''0'' @ nl @ replicate (length (cg_header g)) (CHR ''-'') @ nl @
     concat (map print_result (cg_results g))"

definition count_status :: "check_status \<Rightarrow> check_group list \<Rightarrow> nat" where
  "count_status st groups = length (filter (\<lambda>r. ck_status r = st) (concat (map cg_results groups)))"

definition render_text :: "check_group list \<Rightarrow> string" where
  "render_text groups =
     concat (map print_group groups) @
     nl @ ansi ''1'' @ ''Summary'' @ ansi ''0'' @ nl @ ''-------'' @ nl @
     ''  '' @ ansi ''32'' @ ''Passed:   '' @ ansi ''0'' @ show_nat (count_status Check_OK groups) @ nl @
     ''  '' @ ansi ''33'' @ ''Warnings: '' @ ansi ''0'' @ show_nat (count_status Check_WARN groups) @ nl @
     ''  '' @ ansi ''31'' @ ''Failed:   '' @ ansi ''0'' @ show_nat (count_status Check_FAIL groups) @ nl @ nl @
     (if count_status Check_FAIL groups = 0 then
        (if count_status Check_WARN groups = 0
         then ansi ''32'' @ ''System is fully ready for AutoWhisper!'' @ ansi ''0'' @ nl
         else ansi ''33'' @ ''System is ready with some warnings.'' @ ansi ''0'' @ nl) @
        nl @ ''Start with: autowhisper start'' @ nl
      else ansi ''31'' @ ''Please fix the issues above.'' @ ansi ''0'' @ nl) @ nl"

definition render_and_exit :: "check_group list \<Rightarrow> ('w shell, nat) state" where
  "render_and_exit groups = do {
     _ \<leftarrow> say (render_text groups);
     State_Monad.return (count_status Check_FAIL groups) }"

definition run_diagnostics :: "'t toml_api \<Rightarrow> 'w machine \<Rightarrow> bool \<Rightarrow> ('w shell, nat) state" where
  "run_diagnostics T M fix_it = do {
     _ \<leftarrow> say (nl @ ansi ''1'' @ ''AutoWhisper System Check'' @ ansi ''0'' @ nl @ ''========================'' @ nl);
     platform \<leftarrow> platform_checks M fix_it;
     common \<leftarrow> common_checks T M;
     render_and_exit (platform @ common) }"

end
