(* ===== verification/Doctor_Laws.thy ===== *)
theory Doctor_Laws
  imports Doctor "HOL-Library.Sublist"
begin

text \<open>
  Theorems about the diagnosis: without \<open>--fix\<close> it only looks, with it it runs the four repairs and
  no others; and its exit code counts the failed checks, few enough for an exit status to hold.
\<close>

section \<open>Programs of the state monad\<close>

lemma pred_bind: "pred_state Q m \<Longrightarrow> (\<And>a. Q a \<Longrightarrow> pred_state P (f a)) \<Longrightarrow> pred_state P (State_Monad.bind m f)"
  by (rule bind_predI) (blast intro: pred_stateI dest: pred_stateD)

lemma pred_any: "pred_state (\<lambda>_. True) m"
  by (rule pred_stateI) simp

lemma pred_return: "P a \<Longrightarrow> pred_state P (State_Monad.return a)"
  by (rule pred_stateI) simp

lemma pred_then: "(\<And>a. pred_state P (f a)) \<Longrightarrow> pred_state P (State_Monad.bind m f)"
  by (rule pred_bind [OF pred_any]) simp

text \<open>The commands a program adds to the log are among \<open>C\<close>.\<close>

definition logs_within :: "string list set \<Rightarrow> 'w shell \<Rightarrow> 'w shell \<Rightarrow> bool" where
  "logs_within C s s' \<longleftrightarrow> (\<exists>cs. sh_log s' = sh_log s @ cs \<and> set cs \<subseteq> C)"

definition only_runs :: "string list set \<Rightarrow> ('w shell, 'a) state \<Rightarrow> bool" where
  "only_runs C m \<longleftrightarrow> state_io_rel (logs_within C) m"

named_theorems runs

lemma logs_within_refl: "logs_within C s s"
  by (simp add: logs_within_def)

lemma logs_within_trans: "logs_within C s1 s2 \<Longrightarrow> logs_within C s2 s3 \<Longrightarrow> logs_within C s1 s3"
  by (force simp: logs_within_def)

lemma runs_bind [runs]:
  assumes "only_runs C m" "\<And>a. only_runs C (f a)"
  shows "only_runs C (State_Monad.bind m f)"
  using assms unfolding only_runs_def state_io_rel_def
  by (auto split: prod.splits) (metis logs_within_trans snd_conv)

lemma runs_return [runs]: "only_runs C (State_Monad.return a)"
  by (simp add: only_runs_def state_io_rel_def logs_within_refl)

lemma runs_cmd [runs]: "args \<in> C \<Longrightarrow> only_runs C (run_cmd M args t)"
  by (auto simp: only_runs_def state_io_rel_def run_cmd_def logs_within_def split: prod.splits)

lemma runs_say [runs]: "only_runs C (say t)"
  by (simp add: only_runs_def state_io_rel_def say_def logs_within_def)

lemma runs_file_there [runs]: "only_runs C (file_there M p)"
  by (simp add: only_runs_def state_io_rel_def file_there_def logs_within_def)

lemma runs_common [runs]: "only_runs C (common_checks T M)"
  by (simp add: only_runs_def state_io_rel_def common_checks_def logs_within_def)

lemma runs_if [runs]: "(b \<Longrightarrow> only_runs C m) \<Longrightarrow> (\<not> b \<Longrightarrow> only_runs C n) \<Longrightarrow> only_runs C (if b then m else n)"
  by simp

lemma runs_traverse [runs]: "(\<And>x. x \<in> set xs \<Longrightarrow> only_runs C (f x)) \<Longrightarrow> only_runs C (State_Monad.traverse_list f xs)"
  by (induction xs) (auto intro!: runs)

lemma runs_has_command [runs]: "[''which'', name] \<in> C \<Longrightarrow> only_runs C (has_command M name)"
  unfolding has_command_def by (intro runs)

section \<open>The commands of the diagnosis\<close>

definition diagnostic_commands :: "string list list" where
  "diagnostic_commands =
     map (\<lambda>n. [''which'', n]) [''nvidia-smi'', ''arecord'', ''pactl'', ''xdotool'', ''xclip''] @
     [[''nvidia-smi''], [''nvidia-smi'', ''--query-gpu=name,driver_version,memory.total'', ''--format=csv,noheader''],
      [''arecord'', ''-l''], [''pactl'', ''list'', ''short'', ''sources''], [''xdpyinfo''],
      [''systemctl'', ''--user'', ''is-active'', ''autowhisper'']]"

definition repair_commands :: "string list list" where
  "repair_commands =
     [[''sudo'', ''rmmod'', ''nvidia_uvm'', ''nvidia_drm'', ''nvidia_modeset'', ''nvidia''], [''sudo'', ''modprobe'', ''nvidia''],
      [''sudo'', ''apt'', ''install'', ''-y'', ''xdotool''], [''sudo'', ''apt'', ''install'', ''-y'', ''xclip''],
      [''systemctl'', ''--user'', ''start'', ''autowhisper'']]"

definition allowed_commands :: "bool \<Rightarrow> string list set" where
  "allowed_commands fix_it = set diagnostic_commands \<union> (if fix_it then set repair_commands else {})"

lemma diagnostic_allowed: "c \<in> set diagnostic_commands \<Longrightarrow> c \<in> allowed_commands fix_it"
  by (simp add: allowed_commands_def)

lemma repair_allowed: "fix_it \<Longrightarrow> c \<in> set repair_commands \<Longrightarrow> c \<in> allowed_commands fix_it"
  by (simp add: allowed_commands_def)

lemmas allowed_defs = diagnostic_commands_def repair_commands_def allowed_commands_def

lemma runs_gpu: "only_runs (allowed_commands fix_it) (check_gpu M fix_it)"
  unfolding check_gpu_def by (intro runs) (simp_all add: allowed_defs)

lemma runs_audio: "only_runs (allowed_commands fix_it) (check_audio M)"
  unfolding check_audio_def check_pulse_def by (intro runs) (simp_all add: allowed_defs)

lemma runs_display: "only_runs (allowed_commands fix_it) (check_display M)"
proof (cases "mc_display M")
  case (Some d)
  then show ?thesis by (cases "d = []") (auto simp: check_display_def allowed_defs intro!: runs)
qed (auto simp: check_display_def intro!: runs)

lemma runs_tool: "t \<in> set tools \<Longrightarrow> only_runs (allowed_commands fix_it) (check_tool M fix_it t)"
  by (cases t) (auto simp: check_tool_def tools_def allowed_defs intro!: runs)

lemma runs_tools: "only_runs (allowed_commands fix_it) (check_tools M fix_it)"
  unfolding check_tools_def by (intro runs runs_tool)

lemma runs_service: "only_runs (allowed_commands fix_it) (check_service M fix_it)"
  unfolding check_service_def by (intro runs) (simp_all add: allowed_defs)

lemma runs_diagnostics: "only_runs (allowed_commands fix_it) (run_diagnostics T M fix_it)"
  unfolding run_diagnostics_def platform_checks_def render_and_exit_def
  by (intro runs runs_gpu runs_audio runs_display runs_tools runs_service)

text \<open>C20: whatever the machine answers, \<open>doctor\<close> without \<open>--fix\<close> runs only the commands that look, none of them
  with \<open>sudo\<close>; with \<open>--fix\<close> it adds at most the repairs: reloading the driver, installing the two
  tools, starting the service.\<close>

theorem diagnosis_only_looks:
  "\<exists>cs. sh_log (snd (run_state (run_diagnostics T M fix_it) s)) = sh_log s @ cs \<and>
     set cs \<subseteq> set diagnostic_commands \<union> (if fix_it then set repair_commands else {}) \<and>
     (fix_it \<or> list_all (\<lambda>c. hd c \<noteq> ''sudo'') cs)"
proof -
  have "logs_within (allowed_commands fix_it) s (snd (run_state (run_diagnostics T M fix_it) s))"
    using runs_diagnostics [of fix_it T M] by (simp add: only_runs_def state_io_rel_def)
  then obtain cs where cs: "sh_log (snd (run_state (run_diagnostics T M fix_it) s)) = sh_log s @ cs" "set cs \<subseteq> allowed_commands fix_it"
    by (auto simp: logs_within_def)
  have "\<forall>c \<in> set diagnostic_commands. hd c \<noteq> ''sudo''" by (simp add: diagnostic_commands_def)
  then show ?thesis using cs by (auto simp: allowed_commands_def list_all_iff)
qed

section \<open>The exit code\<close>

abbreviation fails :: "check_group \<Rightarrow> nat" where
  "fails g \<equiv> count_status Check_FAIL [g]"

lemma count_status_Cons: "count_status st (g # gs) = count_status st [g] + count_status st gs"
  by (simp add: count_status_def)

lemma count_status_append: "count_status st (gs @ hs) = count_status st gs + count_status st hs"
  by (simp add: count_status_def)

lemma check_fields [simp]: "ck_status (check st l m f) = st"
  by (simp add: check_def)

lemma gpu_details_infos: "filter (\<lambda>r. ck_status r = Check_FAIL) (gpu_details line) = []"
  by (simp add: gpu_details_def Let_def split: option.splits)

lemma pred_if: "(b \<Longrightarrow> pred_state P m) \<Longrightarrow> (\<not> b \<Longrightarrow> pred_state P n) \<Longrightarrow> pred_state P (if b then m else n)"
  by simp

lemma gpu_fails: "pred_state (\<lambda>g. fails g \<le> 1) (check_gpu M fix_it)"
  unfolding check_gpu_def
  by (intro pred_then pred_if pred_return) (simp_all add: count_status_def gpu_details_infos)

lemma audio_fails: "pred_state (\<lambda>g. fails g \<le> 1) (check_audio M)"
  unfolding check_audio_def check_pulse_def
  by (intro pred_then pred_if pred_return) (simp_all add: count_status_def audio_group_def)

lemma display_fails: "pred_state (\<lambda>g. fails g \<le> 1) (check_display M)"
  unfolding check_display_def
  by (auto intro!: pred_then pred_return simp: count_status_def split: option.split)

lemma traverse_length: "pred_state (\<lambda>rs. length rs = length xs) (State_Monad.traverse_list f xs)"
proof (induction xs)
  case (Cons x xs)
  show ?case
    unfolding State_Monad.traverse_list.simps
    by (rule pred_then, rule pred_bind [OF Cons.IH], rule pred_return) simp
qed (simp add: pred_return)

lemma tools_fails: "pred_state (\<lambda>g. fails g \<le> 2) (check_tools M fix_it)"
  unfolding check_tools_def
  by (rule pred_bind [OF traverse_length], rule pred_return)
    (auto simp: count_status_def tools_def intro: order_trans [OF length_filter_le])

lemma service_fails: "pred_state (\<lambda>g. fails g = 0) (check_service M fix_it)"
  unfolding check_service_def
  by (intro pred_then pred_if pred_return) (simp_all add: count_status_def)

lemma platform_fails: "pred_state (\<lambda>gs. count_status Check_FAIL gs \<le> 5) (platform_checks M fix_it)"
  unfolding platform_checks_def
  by (rule pred_bind [OF gpu_fails], rule pred_bind [OF audio_fails], rule pred_bind [OF display_fails],
      rule pred_bind [OF tools_fails], rule pred_bind [OF service_fails], rule pred_return)
    (simp add: count_status_Cons [of _ _ "_ # _"])

lemma common_fails: "pred_state (\<lambda>gs. count_status Check_FAIL gs = 0) (common_checks T M)"
  by (rule pred_stateI) (auto simp: common_checks_def count_status_def model_results_def Let_def split: sum.splits)

text \<open>The last line but one of the report.\<close>

definition ready_line :: string where
  "ready_line = nl @ ''Start with: autowhisper start'' @ nl @ nl"

lemma render_ready: "suffix ready_line (u @ render_text groups) \<longleftrightarrow> count_status Check_FAIL groups = 0"
proof (cases "count_status Check_FAIL groups = 0")
  case True
  then show ?thesis by (simp add: render_text_def ready_line_def suffix_def)
next
  case False
  obtain v where v: "u @ render_text groups = v @ ''above.'' @ ansi ''0'' @ nl @ nl"
    using False by (simp add: render_text_def)
  have "\<not> suffix ready_line (v @ ''above.'' @ ansi ''0'' @ nl @ nl)"
    by (simp add: suffix_to_prefix ready_line_def ansi_def nl_def)
  then show ?thesis using False v by simp
qed

text \<open>the exit code of \<open>doctor\<close> is the number of failed checks: at most five, so no exit status wraps it round to
  success, and zero exactly when the report ends by telling the user to start the program.\<close>

theorem doctor_exit_code:
  "fst (run_state (run_diagnostics T M fix_it) s) \<le> 5 \<and>
   (fst (run_state (run_diagnostics T M fix_it) s) = 0 \<longleftrightarrow> suffix ready_line (sh_out (snd (run_state (run_diagnostics T M fix_it) s))))"
proof -
  obtain u s1 gs s2 cs s3 where
    u: "run_state (say (nl @ ansi ''1'' @ ''AutoWhisper System Check'' @ ansi ''0'' @ nl @ ''========================'' @ nl)) s = (u, s1)"
    and p: "run_state (platform_checks M fix_it) s1 = (gs, s2)" and c: "run_state (common_checks T M) s2 = (cs, s3)"
    by (metis prod.exhaust)
  have run: "run_state (run_diagnostics T M fix_it) s = (count_status Check_FAIL (gs @ cs), s3\<lparr>sh_out := sh_out s3 @ render_text (gs @ cs)\<rparr>)"
    unfolding run_diagnostics_def using u p c by (simp add: render_and_exit_def say_def)
  have "count_status Check_FAIL (gs @ cs) \<le> 5"
    using pred_stateD [OF platform_fails p] pred_stateD [OF common_fails c] by (simp add: count_status_append)
  then show ?thesis using render_ready by (simp add: run)
qed

end
