(* ===== verification/Cli.thy ===== *)
theory Cli
  imports Config Strtod Logging Service Doctor Runtime Local_Protocol
begin

text \<open>
  The commands of the command line (src/src/cli/cli.h, cli.cpp, the build for Linux): each gives its
  exit code with what it prints, and the file system or system it leaves. An exception that leaves a
  command ends the process by \<open>std::terminate\<close> and is \<open>None\<close>. The command line library is a
  parameter: what it delivers is the command found and the values of its options.
\<close>

section \<open>Configuration commands\<close>

definition get_config_path_cli :: "io_env \<Rightarrow> fsys \<Rightarrow> string + string" where
  "get_config_path_cli e fs =
     (let user_config = get_user_config_path e
      in if fs_exists fs user_config then Inr user_config else find_config_or_throw e fs)"

definition cmd_config_show :: "io_env \<Rightarrow> fsys \<Rightarrow> outcome" where
  "cmd_config_show e fs =
     (case get_config_path_cli e fs of
        Inl m \<Rightarrow> ends 1 [] (red_line ''No config file found'')
      | Inr path \<Rightarrow> ends 0 (''Config file: '' @ path @ nl @ nl @
          (case fs_content fs path of Some s \<Rightarrow> s | None \<Rightarrow> [])) [])"

definition cmd_config_path :: "io_env \<Rightarrow> fsys \<Rightarrow> outcome" where
  "cmd_config_path e fs =
     (case get_config_path_cli e fs of
        Inl m \<Rightarrow> ends 1 [] (red_line ''No config file found'')
      | Inr path \<Rightarrow> ends 0 (path @ nl) [])"

text \<open>\<open>pass\<close> is \<open>run_passthrough\<close>; \<open>copy_file\<close> without options does not overwrite and throws when it fails.\<close>

definition editor_of :: "string option \<Rightarrow> string" where
  "editor_of var = (case var of Some ed \<Rightarrow> ed | None \<Rightarrow> ''nano'')"

definition cmd_config_edit :: "io_env \<Rightarrow> string option \<Rightarrow> (string list \<Rightarrow> fsys \<Rightarrow> int \<times> fsys) \<Rightarrow> fsys \<Rightarrow> (outcome \<times> fsys) option" where
  "cmd_config_edit e editor pass fs =
     (case get_config_path_cli e fs of
        Inr path \<Rightarrow> (case pass [editor_of editor, path] fs of (n, fs') \<Rightarrow> Some (ends n [] [], fs'))
      | Inl m \<Rightarrow>
          (let user_config = get_user_config_path e; parent = parent_path user_config
           in if \<not> io_mkdir e fs parent then None
              else
                (let fs1 = fs_mkdirs fs parent
                 in if fs_exists fs1 ''/etc/autowhisper/config.toml'' then
                      (if fs_exists fs1 user_config then None
                       else case fs_copy e fs1 ''/etc/autowhisper/config.toml'' user_config of
                         None \<Rightarrow> None
                       | Some fs2 \<Rightarrow> (case pass [editor_of editor, user_config] fs2 of (n, fs3) \<Rightarrow> Some (ends n [] [], fs3)))
                    else Some (ends 1 [] (red_line ''No config file found to edit''), fs1))))"

text \<open>What the text of a value is taken for.\<close>

datatype set_value = SV_Bool bool | SV_Int int | SV_Dbl fl | SV_Str string

definition detect_value :: "string \<Rightarrow> set_value" where
  "detect_value v =
     (if v = ''true'' \<or> v = ''false'' then SV_Bool (v = ''true'')
      else case stoi v of
        None \<Rightarrow> SV_Str v
      | Some (i, pos) \<Rightarrow>
          if pos = length v then SV_Int i
          else case stod v of
            None \<Rightarrow> SV_Str v
          | Some (d, pos2) \<Rightarrow> if pos2 = length v then SV_Dbl d else SV_Str v)"

fun node_of :: "'t toml_api \<Rightarrow> set_value \<Rightarrow> 't" where
  "node_of T (SV_Bool b) = mk_bool T b"
| "node_of T (SV_Int i) = mk_int T i"
| "node_of T (SV_Dbl d) = mk_dbl T d"
| "node_of T (SV_Str s) = mk_str T s"

text \<open>\<open>insert_or_assign\<close> of a table, which is kept in the order of its keys.\<close>

fun key_less :: "string \<Rightarrow> string \<Rightarrow> bool" where
  "key_less [] t = (t \<noteq> [])"
| "key_less (c # s) [] = False"
| "key_less (c # s) (d # t) = (code c < code d \<or> c = d \<and> key_less s t)"

fun tbl_assign :: "string \<Rightarrow> 't \<Rightarrow> (string \<times> 't) list \<Rightarrow> (string \<times> 't) list" where
  "tbl_assign k v [] = [(k, v)]"
| "tbl_assign k v ((k', v') # es) =
     (if k = k' then (k, v) # es
      else if key_less k k' \<and> k \<notin> fst ` set es then (k, v) # (k', v') # es
      else (k', v') # tbl_assign k v es)"

text \<open>\<open>toml::parse_file\<close>.\<close>

definition parse_file :: "'t toml_api \<Rightarrow> fsys \<Rightarrow> string \<Rightarrow> string + (string \<times> 't) list" where
  "parse_file T fs path = (case fs_content fs path of None \<Rightarrow> Inl (t_io_error T) | Some s \<Rightarrow> t_parse T s)"

text \<open>The stream is not checked: when the file cannot be opened nothing is written and nothing said.\<close>

definition cmd_config_set :: "'t toml_api \<Rightarrow> io_env \<Rightarrow> fsys \<Rightarrow> string \<Rightarrow> string \<Rightarrow> outcome \<times> fsys" where
  "cmd_config_set T e fs key value =
     (case get_config_path_cli e fs of
        Inl m \<Rightarrow> (ends 1 [] (red_line m), fs)
      | Inr path \<Rightarrow>
          (case sfind ''.'' key 0 of
             None \<Rightarrow> (ends 1 [] (red_line ''Key must be in format: section.key''), fs)
           | Some dot \<Rightarrow>
               (case config_load T fs path of
                  Inl m \<Rightarrow> (ends 1 [] (red_line m), fs)
                | Inr _ \<Rightarrow>
                    (case parse_file T fs path of
                       Inl m \<Rightarrow> (ends 1 [] (red_line m), fs)
                     | Inr tbl \<Rightarrow>
                         (let section' = take dot key; option' = drop (dot + 1) key
                          in case sub_table T tbl section' of
                               None \<Rightarrow> (ends 1 [] (red_line (''Unknown section: '' @ section')), fs)
                             | Some sect \<Rightarrow>
                                 (let sect' = tbl_assign option' (node_of T (detect_value value)) sect;
                                      tbl' = tbl_assign section' (mk_tab T sect') tbl
                                  in (ends 0 (green_line (''Set '' @ key @ '' = '' @ value) @
                                              ''Restart service for changes to take effect: autowhisper restart'' @ nl) [],
                                      if io_open e fs path then fs_write fs path (t_print T tbl') else fs)))))))"

section \<open>Running\<close>

definition load_runtime_config :: "'t toml_api \<Rightarrow> io_env \<Rightarrow> fsys \<Rightarrow> string \<Rightarrow> string \<Rightarrow> string \<Rightarrow> string + config" where
  "load_runtime_config T e fs config_path device model =
     bind_r (if config_path = [] then find_config_or_throw e fs else Inr config_path) (\<lambda>path.
     bind_r (config_load T fs path) (\<lambda>c.
       Inr (c\<lparr>c_model := (c_model c)\<lparr>md_device := (if device \<noteq> [] then device else md_device (c_model c)),
                                       md_size := (if model \<noteq> [] then model else md_size (c_model c))\<rparr>\<rparr>)))"

text \<open>\<open>daemon\<close> is what constructing, initialising and running the daemon throws, if anything.\<close>

definition run_overrides :: "string \<Rightarrow> string \<Rightarrow> bool \<Rightarrow> config \<Rightarrow> config" where
  "run_overrides device model verbose c =
     (let c1 = (if verbose then c\<lparr>c_daemon := (c_daemon c)\<lparr>dm_log_level := ''debug''\<rparr>\<rparr> else c);
          c2 = (if device \<noteq> [] then c1\<lparr>c_model := (c_model c1)\<lparr>md_device := device\<rparr>\<rparr> else c1)
      in (if model \<noteq> [] then c2\<lparr>c_model := (c_model c2)\<lparr>md_size := model\<rparr>\<rparr> else c2))"

definition cmd_run ::
  "'t toml_api \<Rightarrow> io_env \<Rightarrow> fsys \<Rightarrow> (string \<Rightarrow> bool) \<Rightarrow> (logger \<Rightarrow> config \<Rightarrow> string \<Rightarrow> string option) \<Rightarrow>
     string \<Rightarrow> string \<Rightarrow> string \<Rightarrow> bool \<Rightarrow> outcome" where
  "cmd_run T e fs can_open daemon config_path device model verbose =
     (case (if config_path = [] then find_config_or_throw e fs else Inr config_path) of
        Inl m \<Rightarrow> ends 1 [] (''Error: '' @ m @ nl)
      | Inr path \<Rightarrow>
          (let said = ''Loading configuration from '' @ path @ nl
           in case config_load T fs path of
                Inl m \<Rightarrow> ends 1 said (''Error: '' @ m @ nl)
              | Inr c0 \<Rightarrow>
                  (let c = run_overrides device model verbose c0;
                       lg = setup_logging can_open (dm_log_level (c_daemon c))
                              (case dm_log_file (c_daemon c) of Some f \<Rightarrow> f | None \<Rightarrow> [])
                   in case daemon lg c path of
                        Some m \<Rightarrow> ends 1 said (''Error: '' @ m @ nl)
                      | None \<Rightarrow> ends 0 said [])))"

text \<open>
  The runtime behind a command: its environment, the file system while the model is loaded, and the
  message of the exception that printing an unprintable document throws.
\<close>

record ('t, 'c, 'j) runtime_cli =
  rc_toml :: "'t toml_api"
  rc_io :: io_env
  rc_fs :: fsys
  rc_runtime :: "'c runtime_env"
  rc_json :: "'j json_api"
  rc_dump_error :: string

definition start_runtime :: "('t, 'c, 'j) runtime_cli \<Rightarrow> string \<Rightarrow> string \<Rightarrow> string \<Rightarrow> string + 'c runtime" where
  "start_runtime R config_path device model =
     bind_r (load_runtime_config (rc_toml R) (rc_io R) (rc_fs R) config_path device model) (\<lambda>c.
       case runtime_load (rc_runtime R) (rc_fs R) (runtime_new (c_model c)) of
         Inl ex \<Rightarrow> Inl (what ex)
       | Inr rt \<Rightarrow> Inr rt)"

definition cmd_serve :: "('t, 'c, 'j) runtime_cli \<Rightarrow> string \<Rightarrow> string \<Rightarrow> string \<Rightarrow> bool \<Rightarrow> string \<Rightarrow> outcome" where
  "cmd_serve R config_path device model stdio input =
     (if \<not> stdio then ends 2 [] (''Error: serve currently requires --stdio'' @ nl)
      else case start_runtime R config_path device model of
        Inl m \<Rightarrow> ends 1 [] (''AutoWhisper service failed: '' @ m @ nl)
      | Inr rt \<Rightarrow>
          (case stdio_run (rc_json R) (transcribe_file (rc_runtime R))
                  \<lparr>ph_transcriber = rt, ph_shutdown_requested = False\<rparr> input [] of
             (Some n, outp, h) \<Rightarrow> ends n outp []
           | (None, outp, h) \<Rightarrow> ends 1 outp (''AutoWhisper service failed: '' @ rc_dump_error R @ nl)))"

definition make_cli_request_id :: "int \<Rightarrow> string" where
  "make_cli_request_id ticks = ''cli-'' @ show_int ticks"

definition print_transcription :: "('t, 'c, 'j) runtime_cli \<Rightarrow> bool \<Rightarrow> transcription_result \<Rightarrow> outcome" where
  "print_transcription R json_output r =
     (let code = (if tr_status r = Failed then 1 else 0)
      in if json_output then
           (case j_dump (rc_json R) (result_to_json (rc_json R) r) of
              Some s \<Rightarrow> ends code (s @ nl) []
            | None \<Rightarrow> ends 1 [] (''Transcription failed: '' @ rc_dump_error R @ nl))
         else if tr_status r = Completed then ends code (tr_text r @ nl) []
         else if tr_status r = No_Speech then ends code nl []
         else case tr_error r of
           Some te \<Rightarrow> ends code [] (''Transcription failed: '' @ te_message te @ nl)
         | None \<Rightarrow> ends code [] [])"

definition cmd_transcribe ::
  "('t, 'c, 'j) runtime_cli \<Rightarrow> int \<Rightarrow> string \<Rightarrow> string \<Rightarrow> string \<Rightarrow> string \<Rightarrow> string \<Rightarrow> bool \<Rightarrow> outcome" where
  "cmd_transcribe R ticks input_path config_path device model language json_output =
     (case start_runtime R config_path device model of
        Inl m \<Rightarrow> ends 1 [] (''Transcription failed: '' @ m @ nl)
      | Inr rt \<Rightarrow>
          (let options = \<lparr>to_request_id = make_cli_request_id ticks, to_language = language, to_model = model\<rparr>
           in case fst (transcribe_file (rc_runtime R) rt input_path options) of
                Inl ex \<Rightarrow> ends 1 [] (''Transcription failed: '' @ what ex @ nl)
              | Inr r \<Rightarrow> print_transcription R json_output r))"

section \<open>Doctor and models\<close>

definition cmd_doctor :: "'t toml_api \<Rightarrow> 'w machine \<Rightarrow> bool \<Rightarrow> 'w \<Rightarrow> outcome" where
  "cmd_doctor T M fix_it w =
     (case run_state (run_diagnostics T M fix_it) \<lparr>sh_world = w, sh_log = [], sh_out = []\<rparr> of
        (n, s) \<Rightarrow> ends (int n) (sh_out s) [])"

definition model_entry :: "bool \<Rightarrow> model_info \<Rightarrow> string" where
  "model_entry downloaded m =
     ''  '' @ (if downloaded then ansi ''32'' @ [CHR 0xE2, CHR 0x9C, CHR 0x93] @ ansi ''0'' else '' '') @ '' '' @
     ansi ''1'' @ mi_name m @ ansi ''0'' @ (if mi_name m = ''distil-small.en'' then '' (recommended)'' else []) @ nl @
     ''      '' @ mi_description m @ nl @
     ''      Size: '' @ mi_size m @ '' | Speed: '' @ mi_speed m @ '' | Languages: '' @
     (if mi_english_only m then ''English'' else ''100+ (auto-detect)'') @ nl @ nl"

definition list_models :: "string option \<Rightarrow> fsys \<Rightarrow> string" where
  "list_models home fs =
     nl @ ansi ''1'' @ ''Available Models'' @ ansi ''0'' @ nl @ replicate 60 (CHR ''-'') @ nl @ nl @
     concat (map (\<lambda>m. model_entry (is_model_downloaded home fs (mi_name m)) m) MODELS) @
     replicate 60 (CHR ''-'') @ nl @ ''  '' @ [CHR 0xE2, CHR 0x9C, CHR 0x93] @ '' = downloaded'' @ nl @ nl @
     ''Download a model: autowhisper model download <name>'' @ nl @ nl"

definition cmd_model_list :: "string option \<Rightarrow> fsys \<Rightarrow> outcome" where
  "cmd_model_list home fs = ends 0 (list_models home fs) []"

definition cmd_model_download :: "download_world \<Rightarrow> string \<Rightarrow> fsys \<Rightarrow> int \<times> fsys" where
  "cmd_model_download w name fs = download_model w name fs"

section \<open>The command line\<close>

text \<open>
  What \<open>setup_cli\<close> tells the command line library: the commands with their options and flags, which of
  them are required and which values they admit. The library delivers a \<open>parsed\<close> command line.
\<close>

datatype option_kind = Flag | Value | Value_In "string list" | Number

record cli_option =
  op_names :: string
  op_kind :: option_kind
  op_required :: bool

record cli_command =
  cc_path :: "string list"
  cc_help :: string
  cc_options :: "cli_option list"

definition opt :: "string \<Rightarrow> option_kind \<Rightarrow> bool \<Rightarrow> cli_option" where
  "opt n k r = \<lparr>op_names = n, op_kind = k, op_required = r\<rparr>"

definition cmd :: "string list \<Rightarrow> string \<Rightarrow> cli_option list \<Rightarrow> cli_command" where
  "cmd p h os = \<lparr>cc_path = p, cc_help = h, cc_options = os\<rparr>"

definition devices :: option_kind where
  "devices = Value_In [''cuda'', ''cpu'', ''auto'']"

definition setup_cli :: "cli_command list" where
  "setup_cli =
     [cmd [''start''] ''Start the AutoWhisper service'' [],
      cmd [''stop''] ''Stop the AutoWhisper service'' [],
      cmd [''restart''] ''Restart the AutoWhisper service'' [],
      cmd [''status''] ''Show AutoWhisper service status'' [],
      cmd [''logs''] ''Show AutoWhisper service logs'' [opt ''-f,--follow'' Flag False, opt ''-n,--lines'' Number False],
      cmd [''run''] ''Run AutoWhisper in foreground (for testing)''
        [opt ''-c,--config'' Value False, opt ''--device'' devices False, opt ''--model'' Value False,
         opt ''-v,--verbose'' Flag False],
      cmd [''serve''] ''Run the reusable local transcription service''
        [opt ''-c,--config'' Value False, opt ''--device'' devices False, opt ''--model'' Value False,
         opt ''--stdio'' Flag True, opt ''-v,--verbose'' Flag False],
      cmd [''transcribe''] ''Transcribe one local audio file''
        [opt ''input'' Value True, opt ''-c,--config'' Value False, opt ''--device'' devices False,
         opt ''--model'' Value False, opt ''--language'' Value False, opt ''--json'' Flag False,
         opt ''-v,--verbose'' Flag False],
      cmd [''config''] ''View and edit configuration'' [],
      cmd [''config'', ''show''] ''Show current configuration'' [],
      cmd [''config'', ''edit''] ''Open configuration in editor'' [],
      cmd [''config'', ''set''] ''Set a configuration value'' [opt ''key'' Value True, opt ''value'' Value True],
      cmd [''config'', ''path''] ''Show config file path'' [],
      cmd [''config'', ''ui''] ''Open settings UI in browser'' [opt ''-c,--config'' Value False, opt ''--no-browser'' Flag False],
      cmd [''avatar''] ''Companion avatar tools'' [],
      cmd [''avatar'', ''demo''] ''Show the companion and cycle through its states (smoke test)''
        [opt ''--seconds'' Number False, opt ''--character'' Value False],
      cmd [''doctor''] ''Diagnose system configuration'' [opt ''--fix'' Flag False],
      cmd [''model''] ''Manage Whisper models'' [],
      cmd [''model'', ''list''] ''List available models'' [],
      cmd [''model'', ''download''] ''Download a Whisper model'' [opt ''name'' Value True]]"

text \<open>A parsed command line: the command, and the option names given with their values (a flag has none).\<close>

record parsed =
  pa_path :: "string list"
  pa_values :: "(string \<times> string) list"

definition given :: "parsed \<Rightarrow> string \<Rightarrow> bool" where
  "given a n \<longleftrightarrow> n \<in> fst ` set (pa_values a)"

definition arg :: "parsed \<Rightarrow> string \<Rightarrow> string \<Rightarrow> string" where
  "arg a n d = (case map_of (pa_values a) n of Some v \<Rightarrow> v | None \<Rightarrow> d)"

definition int_arg :: "parsed \<Rightarrow> string \<Rightarrow> int \<Rightarrow> int option" where
  "int_arg a n d =
     (case map_of (pa_values a) n of
        None \<Rightarrow> Some d
      | Some v \<Rightarrow> (case stoi v of Some (i, pos) \<Rightarrow> if pos = length v then Some i else None | None \<Rightarrow> None))"

definition value_fits :: "cli_option \<Rightarrow> string \<Rightarrow> bool" where
  "value_fits o1 v =
     (case op_kind o1 of
        Value_In allowed \<Rightarrow> v \<in> set allowed
      | Number \<Rightarrow> (case stoi v of Some (i, pos) \<Rightarrow> pos = length v | None \<Rightarrow> False)
      | _ \<Rightarrow> True)"

text \<open>What the library accepts: known options with admitted values, and the required ones present.\<close>

definition accepted :: "cli_command \<Rightarrow> parsed \<Rightarrow> bool" where
  "accepted c a \<longleftrightarrow>
     pa_path a = cc_path c \<and> distinct (map fst (pa_values a)) \<and>
     list_all (\<lambda>(n, v). list_ex (\<lambda>o1. op_names o1 = n \<and> value_fits o1 v) (cc_options c)) (pa_values a) \<and>
     list_all (\<lambda>o1. op_required o1 \<longrightarrow> given a (op_names o1)) (cc_options c)"

datatype request =
    Req_Start | Req_Stop | Req_Restart | Req_Status
  | Req_Logs bool int
  | Req_Run string string string bool
  | Req_Serve string string string bool bool
  | Req_Transcribe string string string string string bool bool
  | Req_Config_Edit | Req_Config_Show
  | Req_Config_Set string string
  | Req_Config_Path
  | Req_Config_Ui string bool
  | Req_Avatar_Demo string int
  | Req_Doctor bool
  | Req_Model_List
  | Req_Model_Download string
  | Req_Help

text \<open>The callbacks: which handler is called with which arguments.\<close>

definition callback :: "parsed \<Rightarrow> request option" where
  "callback a =
     (let config = arg a ''-c,--config'' []; device = arg a ''--device'' []; model = arg a ''--model'' [];
          verbose = given a ''-v,--verbose''
      in if pa_path a = [''start''] then Some Req_Start
         else if pa_path a = [''stop''] then Some Req_Stop
         else if pa_path a = [''restart''] then Some Req_Restart
         else if pa_path a = [''status''] then Some Req_Status
         else if pa_path a = [''logs''] then map_option (Req_Logs (given a ''-f,--follow'')) (int_arg a ''-n,--lines'' 50)
         else if pa_path a = [''run''] then Some (Req_Run config device model verbose)
         else if pa_path a = [''serve''] then Some (Req_Serve config device model (given a ''--stdio'') verbose)
         else if pa_path a = [''transcribe''] then
           Some (Req_Transcribe (arg a ''input'' []) config device model (arg a ''--language'' []) (given a ''--json'') verbose)
         else if pa_path a = [''config''] then Some Req_Config_Edit
         else if pa_path a = [''config'', ''show''] then Some Req_Config_Show
         else if pa_path a = [''config'', ''edit''] then Some Req_Config_Edit
         else if pa_path a = [''config'', ''set''] then Some (Req_Config_Set (arg a ''key'' []) (arg a ''value'' []))
         else if pa_path a = [''config'', ''path''] then Some Req_Config_Path
         else if pa_path a = [''config'', ''ui''] then Some (Req_Config_Ui config (\<not> given a ''--no-browser''))
         else if pa_path a = [''avatar'', ''demo''] then
           map_option (Req_Avatar_Demo (arg a ''--character'' ''echo'')) (int_arg a ''--seconds'' 14)
         else if pa_path a = [''doctor''] then Some (Req_Doctor (given a ''--fix''))
         else if pa_path a = [''model'', ''list''] then Some Req_Model_List
         else if pa_path a = [''model'', ''download''] then Some (Req_Model_Download (arg a ''name'' []))
         else None)"

text \<open>
  \<open>main\<close>: on macOS (\<open>apple\<close>) a launch from an application bundle, with no argument or the ones Launch
  Services adds, is a \<open>run\<close>. Without a command the help is shown; \<open>avatar\<close> alone does nothing, \<open>model\<close>
  alone is refused by the library.
\<close>

definition launched_from_macos_app_bundle :: "bool \<Rightarrow> string \<Rightarrow> bool" where
  "launched_from_macos_app_bundle apple executable_path \<longleftrightarrow>
     apple \<and> sfind ''.app/Contents/MacOS/'' executable_path 0 \<noteq> None"

definition has_only_launchservices_args :: "bool \<Rightarrow> string list \<Rightarrow> bool" where
  "has_only_launchservices_args apple args \<longleftrightarrow> apple \<and> list_all (starts_with ''-psn_'') (tl args)"

definition main_args :: "bool \<Rightarrow> string list \<Rightarrow> string list" where
  "main_args apple args =
     (if args \<noteq> [] \<and> launched_from_macos_app_bundle apple (hd args) \<and> has_only_launchservices_args apple args
      then [hd args, ''run''] else args)"

lemma main_args_elsewhere: "main_args False args = args"
  by (simp add: main_args_def launched_from_macos_app_bundle_def)

definition main_request :: "parsed option \<Rightarrow> request option" where
  "main_request line = (case line of None \<Rightarrow> Some Req_Help | Some a \<Rightarrow> callback a)"

end
