(* ===== verification/Cli_Laws.thy ===== *)
theory Cli_Laws
  imports Cli Config_Laws
begin

text \<open>
  Theorems about the commands: what \<open>config set\<close> changes and how a value it does not check locks the
  command line out, what \<open>transcribe\<close> prints, and that every accepted command line reaches a handler.
\<close>

section \<open>Setting a value\<close>

lemma map_of_tbl_assign: "map_of (tbl_assign k v es) = (map_of es)(k \<mapsto> v)"
  by (induction k v es rule: tbl_assign.induct) auto

lemma keys_tbl_assign: "fst ` set (tbl_assign k v es) = insert k (fst ` set es)"
  by (induction k v es rule: tbl_assign.induct) auto

lemma distinct_tbl_assign: "distinct (map fst es) \<Longrightarrow> distinct (map fst (tbl_assign k v es))"
  by (induction k v es rule: tbl_assign.induct) (auto simp: keys_tbl_assign)

lemma detect_show_nat:
  assumes "n < 2 ^ 31"
  shows "detect_value (show_nat n) = SV_Int (int n)"
proof -
  have "\<not> is_digit (CHR ''t'')" "\<not> is_digit (CHR ''f'')" by (simp_all add: is_digit_def code_def)
  then have "show_nat n \<noteq> ''true''" "show_nat n \<noteq> ''false''" using show_nat_digits [of n] by auto
  then show ?thesis using stoi_show_nat [OF assms] by (simp add: detect_value_def)
qed

text \<open>Numerals that do not start like an \<open>int\<close> are stored as text, and so are integers beyond its range.\<close>

lemma detect_examples:
  "detect_value ''.5'' = SV_Str ''.5''" "detect_value ''3000000000'' = SV_Str ''3000000000''"
  "detect_value ''true'' = SV_Bool True" "detect_value ''-7'' = SV_Int (- 7)" "detect_value ''large-v3'' = SV_Str ''large-v3''"
  by (simp_all add: detect_value_def stoi_def is_space_def is_digit_def code_def)

text \<open>Looking up an option in a document.\<close>

definition toml_lookup :: "'t toml_api \<Rightarrow> (string \<times> 't) list \<Rightarrow> string \<Rightarrow> string \<Rightarrow> 't option" where
  "toml_lookup T tbl s k = Option.bind (sub_table T tbl s) (\<lambda>es. map_of es k)"

text \<open>The tables of the library have one entry for a key.\<close>

definition tables_distinct :: "'t toml_api \<Rightarrow> (string \<times> 't) list \<Rightarrow> bool" where
  "tables_distinct T tbl \<longleftrightarrow> list_all (\<lambda>(s, n). case t_tab T n of Some es \<Rightarrow> distinct (map fst es) | None \<Rightarrow> True) tbl"

lemma sub_table_distinct: "tables_distinct T tbl \<Longrightarrow> sub_table T tbl s = Some es \<Longrightarrow> distinct (map fst es)"
  by (force simp: tables_distinct_def sub_table_def list_all_iff bind_eq_Some_conv dest: map_of_SomeD split: option.splits)

lemma lookup_assigned:
  assumes "toml_ok T" "sub_table T tbl s = Some sect" "distinct (map fst sect)"
  shows "toml_lookup T (tbl_assign s (mk_tab T (tbl_assign k v sect)) tbl) s' k' =
    (if s' = s \<and> k' = k then Some v else toml_lookup T tbl s' k')"
proof -
  obtain es' where es': "t_tab T (mk_tab T (tbl_assign k v sect)) = Some es'" "map_of es' = map_of (tbl_assign k v sect)"
    using assms(1) distinct_tbl_assign [OF assms(3)] unfolding toml_ok_def by metis
  show ?thesis
    using assms(2) es' by (auto simp: toml_lookup_def sub_table_def map_of_tbl_assign bind_eq_Some_conv)
qed

lemma lookup_same_map: "map_of es' = map_of es \<Longrightarrow> toml_lookup T es' s k = toml_lookup T es s k"
  by (simp add: toml_lookup_def sub_table_def)

text \<open>A successful \<open>config set\<close>, taken apart.\<close>

lemma config_set_success:
  assumes "cmd_config_set T e fs key value = (oc, fs')" "oc_exit oc = 0"
  obtains path dot tbl sect where
    "get_config_path_cli e fs = Inr path" "sfind ''.'' key 0 = Some dot" "parse_file T fs path = Inr tbl"
    "sub_table T tbl (take dot key) = Some sect"
    "fs' = (if io_open e fs path then fs_write fs path (t_print T (tbl_assign (take dot key)
        (mk_tab T (tbl_assign (drop (dot + 1) key) (node_of T (detect_value value)) sect)) tbl)) else fs)"
proof -
  obtain path where p: "get_config_path_cli e fs = Inr path"
    using assms by (cases "get_config_path_cli e fs") (auto simp: cmd_config_set_def)
  obtain dot where d: "sfind ''.'' key 0 = Some dot"
    using assms p by (cases "sfind ''.'' key 0") (auto simp: cmd_config_set_def)
  obtain c where c: "config_load T fs path = Inr c"
    using assms p d by (cases "config_load T fs path") (auto simp: cmd_config_set_def)
  obtain tbl where t: "parse_file T fs path = Inr tbl"
    using assms p d c by (cases "parse_file T fs path") (auto simp: cmd_config_set_def)
  obtain sect where st: "sub_table T tbl (take dot key) = Some sect"
    using assms p d c t by (cases "sub_table T tbl (take dot key)") (auto simp: cmd_config_set_def Let_def)
  have "fs' = (if io_open e fs path then fs_write fs path (t_print T (tbl_assign (take dot key)
        (mk_tab T (tbl_assign (drop (dot + 1) key) (node_of T (detect_value value)) sect)) tbl)) else fs)"
    using assms p d c t st by (auto simp: cmd_config_set_def Let_def)
  then show thesis by (rule that [OF p d t st])
qed

lemma parse_content: "parse_file T fs path = Inr tbl \<Longrightarrow> \<exists>s. fs_content fs path = Some s"
  by (auto simp: parse_file_def split: option.splits)

text \<open>Writing over a file does not change which files there are.\<close>

lemma write_over:
  assumes "fs_content fs p = Some s"
  shows "fs_exists (fs_write fs p c) q = fs_exists fs q" "fs_regular (fs_write fs p c) q = fs_regular fs q"
    "get_config_path_cli e (fs_write fs p c) = get_config_path_cli e fs"
proof -
  show 1: "fs_exists (fs_write fs p c) q = fs_exists fs q" "fs_regular (fs_write fs p c) q = fs_regular fs q" for q
    using assms by (auto simp: fs_exists_def fs_regular_def fs_write_def fs_content_def split: option.splits fs_node.splits)
  then have r: "fs_regular (fs_write fs p c) = fs_regular fs" by blast
  show "get_config_path_cli e (fs_write fs p c) = get_config_path_cli e fs"
    unfolding get_config_path_cli_def find_config_or_throw_def find_config_file_def r 1 ..
qed

lemma config_set_file:
  assumes "cmd_config_set T e fs key value = (oc, fs')"
  shows "fs' = fs \<or> (\<exists>path s c. fs_content fs path = Some s \<and> fs' = fs_write fs path c)"
proof (cases "oc_exit oc = 0")
  case True
  from config_set_success [OF assms True] show ?thesis by (metis parse_content)
next
  case False
  then show ?thesis using assms
    by (cases "get_config_path_cli e fs"; cases "sfind ''.'' key 0")
      (auto simp: cmd_config_set_def Let_def split: sum.splits option.splits)
qed

lemma config_set_path:
  assumes "cmd_config_set T e fs key value = (oc, fs')"
  shows "get_config_path_cli e fs' = get_config_path_cli e fs"
  using config_set_file [OF assms] write_over(3) by fastforce


text \<open>C12: a value is written without being validated, and each \<open>config set\<close> loads the file first: once one has written a
  value the loader rejects, every later one fails with that same error and changes nothing, the one
  that would repair it included.\<close>

theorem config_set_lockout:
  assumes "cmd_config_set T e fs key value = (oc, fs')" "get_config_path_cli e fs = Inr path"
    and "config_load T fs' path = Inl m"
  shows "snd (cmd_config_set T e fs' key2 value2) = fs' \<and> oc_exit (fst (cmd_config_set T e fs' key2 value2)) = 1 \<and>
    (sfind ''.'' key2 0 = None \<or> oc_err (fst (cmd_config_set T e fs' key2 value2)) = red_line m)"
proof -
  have "get_config_path_cli e fs' = Inr path" using config_set_path [OF assms(1)] assms(2) by simp
  then show ?thesis using assms(3) by (cases "sfind ''.'' key2 0") (simp_all add: cmd_config_set_def)
qed


text \<open>A library that knows two documents, and a file with the first one.\<close>

definition two_docs :: "(string \<times> toml_value) list \<Rightarrow> (string \<times> toml_value) list \<Rightarrow> toml_value toml_api" where
  "two_docs old new = mini_toml\<lparr>t_parse := (\<lambda>s. Inr (if s = ''#'' then new else old))\<rparr>"

definition one_channel :: "(string \<times> toml_value) list" where
  "one_channel = [(''audio'', TT [(''channels'', TI 1)])]"

definition bad_rate :: "(string \<times> toml_value) list" where
  "bad_rate = [(''audio'', TT [(''channels'', TI 1), (''sample_rate'', TI (- 1))])]"

lemma set_bad_rate:
  "oc_exit (fst (cmd_config_set (two_docs one_channel bad_rate) open_env one_file ''audio.sample_rate'' ''-1'')) = 0"
  "get_config_path_cli open_env one_file = Inr ''/home/u/.config/autowhisper/config.toml''"
  "config_load (two_docs one_channel bad_rate)
     (snd (cmd_config_set (two_docs one_channel bad_rate) open_env one_file ''audio.sample_rate'' ''-1''))
     ''/home/u/.config/autowhisper/config.toml'' = Inl ''Invalid sample_rate: must be > 0''"
  by code_simp+


theorem config_set_lockout_witness:
  "let T = two_docs one_channel bad_rate;
       fs = snd (cmd_config_set T open_env one_file ''audio.sample_rate'' ''-1'')
   in snd (cmd_config_set T open_env fs ''audio.sample_rate'' ''16000'') = fs \<and>
      oc_exit (fst (cmd_config_set T open_env fs ''audio.sample_rate'' ''16000'')) = 1"
  unfolding Let_def
  using config_set_lockout [OF prod.collapse [symmetric] set_bad_rate(2,3), of "''audio.sample_rate''" "''16000''"] by blast

definition two_channels :: "(string \<times> toml_value) list" where
  "two_channels = [(''audio'', TT [(''channels'', TI 2)])]"

lemma two_docs_ok: "toml_ok (two_docs old new)"
  by (auto simp: toml_ok_def two_docs_def mini_toml_def)

lemma set_two_channels:
  "oc_exit (fst (cmd_config_set (two_docs one_channel two_channels) open_env one_file ''audio.channels'' ''2'')) = 0"
  "parse_file (two_docs one_channel two_channels) one_file ''/home/u/.config/autowhisper/config.toml'' = Inr one_channel"
  "tables_distinct (two_docs one_channel two_channels) one_channel"
  "io_open open_env one_file ''/home/u/.config/autowhisper/config.toml''"
  by code_simp+


section \<open>Transcribing a file\<close>

lemma start_runtime_ready:
  assumes "start_runtime R config_path device model = Inr rt"
  shows "runtime_inv rt \<and> runtime_is_loaded rt \<and> (model = [] \<or> md_size (rt_config rt) = model)"
proof -
  obtain c where c: "load_runtime_config (rc_toml R) (rc_io R) (rc_fs R) config_path device model = Inr c"
    and l: "runtime_load (rc_runtime R) (rc_fs R) (runtime_new (c_model c)) = Inr rt"
    using assms by (auto simp: start_runtime_def bind_r_def split: sum.splits)
  have "rt_config rt = c_model c"
    using l by (auto simp: runtime_load_def runtime_new_def runtime_is_loaded_def bind_r_def split: sum.splits)
  moreover have "model = [] \<or> md_size (c_model c) = model"
    using c by (auto simp: load_runtime_config_def bind_r_def split: sum.splits if_splits)
  ultimately show ?thesis using runtime_inv_load [OF runtime_inv_new l] by simp
qed

lemma loaded_error_codes:
  assumes "runtime_is_loaded rt" "to_model opts = [] \<or> md_size (rt_config rt) = to_model opts"
    and "fst (transcribe_file env rt p opts) = Inr r" "tr_error r = Some te"
  shows "te_code te \<in> {''invalid_audio'', ''transcription_failed''}"
proof -
  obtain i where i: "rt_inference rt = Some i" "inference_is_loaded i"
    using assms(1) by (auto simp: runtime_is_loaded_def split: option.splits)
  have c: "tr_error (caught q e) = Some te \<Longrightarrow> te_code te \<in> {''invalid_audio'', ''transcription_failed''}" for q e
    by (cases e) (auto simp: caught_def failed_transcription_def)
  show ?thesis using assms(2-4) i c
    by (auto simp: transcribe_file_def Let_def split: sum.splits prod.splits)
qed

lemma never_cancelled: "fst (transcribe_file env rt p opts) = Inr r \<Longrightarrow> tr_status r \<noteq> Cancelled"
  by (auto simp: transcribe_file_def Let_def failed_transcription_def split: option.splits if_splits sum.splits prod.splits)

text \<open>C13: \<open>transcribe\<close>, from the command line through the runtime to what is printed: when the runtime starts, the result
  carries the request id of the command, is never a refusal (no runtime, another model), and the exit
  code is 0 exactly without an error. Standard output has the document and nothing else with
  \<open>--json\<close>, otherwise the text; an error goes to standard error only.\<close>

theorem transcribe_command:
  assumes "sane_clock (rc_runtime R)" "start_runtime R config_path device model = Inr rt"
  shows "\<exists>r. fst (transcribe_file (rc_runtime R) rt input_path
      \<lparr>to_request_id = make_cli_request_id ticks, to_language = language, to_model = model\<rparr>) = Inr r \<and>
    tr_request_id r = make_cli_request_id ticks \<and>
    (\<forall>te. tr_error r \<noteq> Some te \<or> te_code te \<in> {''invalid_audio'', ''transcription_failed''}) \<and>
    cmd_transcribe R ticks input_path config_path device model language json =
      (if json then
         (case j_dump (rc_json R) (result_to_json (rc_json R) r) of
            Some s \<Rightarrow> ends (if tr_error r = None then 0 else 1) (s @ nl) []
          | None \<Rightarrow> ends 1 [] (''Transcription failed: '' @ rc_dump_error R @ nl))
       else
         (case tr_error r of
            None \<Rightarrow> ends 0 (tr_text r @ nl) []
          | Some te \<Rightarrow> ends 1 [] (''Transcription failed: '' @ te_message te @ nl)))"
proof -
  let ?o = "\<lparr>to_request_id = make_cli_request_id ticks, to_language = language, to_model = model\<rparr>"
  note ready = start_runtime_ready [OF assms(2)]
  obtain r t' where t: "transcribe_file (rc_runtime R) rt input_path ?o = (Inr r, t')"
    using rt.no_throw [of rt "rc_runtime R" input_path ?o] ready assms(1) by blast
  have i: "tr_request_id r = make_cli_request_id ticks" and p: "proper_result r"
    using rt.echoes [OF _ t] rt.proper [OF _ t] ready assms(1) by auto
  have e: "\<forall>te. tr_error r \<noteq> Some te \<or> te_code te \<in> {''invalid_audio'', ''transcription_failed''}"
    using loaded_error_codes [of rt ?o "rc_runtime R" input_path r] ready t by auto
  have s: "(tr_status r = Failed) = (tr_error r \<noteq> None)" "(tr_text r = []) = (tr_status r \<noteq> Completed)"
    using p by (simp_all add: proper_result_def)
  have "cmd_transcribe R ticks input_path config_path device model language json = print_transcription R json r"
    by (simp add: cmd_transcribe_def assms(2) t)
  also have "\<dots> = (if json then
         (case j_dump (rc_json R) (result_to_json (rc_json R) r) of
            Some s \<Rightarrow> ends (if tr_error r = None then 0 else 1) (s @ nl) []
          | None \<Rightarrow> ends 1 [] (''Transcription failed: '' @ rc_dump_error R @ nl))
       else
         (case tr_error r of
            None \<Rightarrow> ends 0 (tr_text r @ nl) []
          | Some te \<Rightarrow> ends 1 [] (''Transcription failed: '' @ te_message te @ nl)))"
    using s never_cancelled [of "rc_runtime R" rt input_path ?o r] t by (cases "tr_status r"; cases "tr_error r") (auto simp: print_transcription_def split: option.split)
  finally show ?thesis using t i e by auto
qed

definition demo_cli :: "(toml_value, nat, json_value) runtime_cli" where
  "demo_cli = \<lparr>rc_toml = mini_toml, rc_io = open_env, rc_fs = (\<lambda>_. Some (File [])), rc_runtime = sample_env,
     rc_json = mini_json, rc_dump_error = ''invalid UTF-8''\<rparr>"

lemma demo_loads: "\<not> isl (load_runtime_config mini_toml open_env (\<lambda>_. Some (File [])) ''/c.toml'' [] [])"
  by code_simp

lemma demo_starts: "\<exists>rt. start_runtime demo_cli ''/c.toml'' [] [] = Inr rt"
proof -
  obtain c where c: "load_runtime_config mini_toml open_env (\<lambda>_. Some (File [])) ''/c.toml'' [] [] = Inr c"
    using demo_loads by (metis isl_def sum.exhaust)
  have "\<exists>p \<in> set (search_paths None (c_model c)). fs_exists (\<lambda>_. Some (File [])) p"
    by (auto simp: search_paths_def Let_def fs_exists_def)
  then have "find (fs_exists (\<lambda>_. Some (File []))) (search_paths None (c_model c)) \<noteq> None"
    unfolding find_None_iff by blast
  then obtain p where "resolve_model_path None (\<lambda>_. Some (File [])) (c_model c) = Inr p"
    by (auto simp: resolve_model_path_def)
  then show ?thesis
    by (simp add: start_runtime_def demo_cli_def c runtime_load_def runtime_is_loaded_def runtime_new_def inference_load_def
        inference_new_def sample_env_def broken_engine_def)
qed

theorem transcribe_command_witness:
  "\<exists>rt r. fst (transcribe_file sample_env rt ''/a.wav''
        \<lparr>to_request_id = make_cli_request_id 7, to_language = [], to_model = []\<rparr>) = Inr r \<and>
     tr_request_id r = ''cli-7'' \<and>
     (cmd_transcribe demo_cli 7 ''/a.wav'' ''/c.toml'' [] [] [] False = ends 0 (tr_text r @ nl) [] \<or>
      oc_exit (cmd_transcribe demo_cli 7 ''/a.wav'' ''/c.toml'' [] [] [] False) = 1)"
proof -
  obtain rt where rt: "start_runtime demo_cli ''/c.toml'' [] [] = Inr rt" using demo_starts by blast
  have clock: "sane_clock (rc_runtime demo_cli)" by (simp add: sane_clock_def demo_cli_def sample_env_def)
  have "rc_runtime demo_cli = sample_env" "make_cli_request_id 7 = ''cli-7''"
    by (simp add: demo_cli_def) code_simp
  with transcribe_command [OF clock rt, of "''/a.wav''" 7 "[]" False] show ?thesis by (force split: option.splits)
qed

section \<open>The command line\<close>

lemma accepted_value:
  assumes "accepted c a" "map_of (pa_values a) n = Some v"
  shows "\<exists>o1 \<in> set (cc_options c). op_names o1 = n \<and> value_fits o1 v"
  using map_of_SomeD [OF assms(2)] assms(1) by (force simp: accepted_def list_all_iff list_ex_iff)

lemma int_arg_accepted:
  assumes "accepted c a" "\<And>o1. o1 \<in> set (cc_options c) \<Longrightarrow> op_names o1 = n \<Longrightarrow> op_kind o1 = Number"
  shows "\<exists>i. int_arg a n d = Some i"
proof (cases "map_of (pa_values a) n")
  case (Some v)
  obtain o1 where "op_kind o1 = Number" "value_fits o1 v" using accepted_value [OF assms(1) Some] assms(2) by blast
  then show ?thesis using Some by (auto simp: int_arg_def value_fits_def split: option.splits)
qed (simp add: int_arg_def)

lemma device_accepted:
  assumes "accepted c a" "\<And>o1. o1 \<in> set (cc_options c) \<Longrightarrow> op_names o1 = ''--device'' \<Longrightarrow> op_kind o1 = devices"
  shows "arg a ''--device'' [] \<in> {[], ''cuda'', ''cpu'', ''auto''}"
proof (cases "map_of (pa_values a) ''--device''")
  case (Some v)
  obtain o1 where "op_kind o1 = devices" "value_fits o1 v" using accepted_value [OF assms(1) Some] assms(2) by blast
  then show ?thesis using Some by (auto simp: arg_def value_fits_def devices_def)
qed (simp add: arg_def)

text \<open>Every accepted command line but the bare \<open>avatar\<close> and \<open>model\<close> reaches a handler.\<close>

lemma accepted_reaches_handler:
  assumes "accepted c a" "c \<in> set setup_cli"
  shows "callback a = None \<longleftrightarrow> cc_path c \<in> {[''avatar''], [''model'']}"
proof -
  have p: "pa_path a = cc_path c" using assms(1) by (simp add: accepted_def)
  have logs: "cc_path c = [''logs''] \<Longrightarrow> \<exists>i. int_arg a ''-n,--lines'' 50 = Some i"
    by (rule int_arg_accepted [OF assms(1)]) (use assms(2) in \<open>auto simp: setup_cli_def cmd_def opt_def\<close>)
  have demo: "cc_path c = [''avatar'', ''demo''] \<Longrightarrow> \<exists>i. int_arg a ''--seconds'' 14 = Some i"
    by (rule int_arg_accepted [OF assms(1)]) (use assms(2) in \<open>auto simp: setup_cli_def cmd_def opt_def\<close>)
  have "cc_path c \<in> cc_path ` set setup_cli" using assms(2) by (rule imageI)
  then show ?thesis
    using logs demo unfolding callback_def p Let_def by (auto simp: setup_cli_def cmd_def)
qed

end
