(* ===== verification/Settings_Ui.thy ===== *)
theory Settings_Ui
  imports Settings Terminal
begin

text \<open>
  The command \<open>config ui\<close> (src/src/cli/cli_settings_ui.cpp): one settings server for a configuration
  file. Instances meet at the sidecar file, whose lock the serving one holds and in which it publishes
  its address. A system is the lock, the content of the sidecar and the instances, known by their
  process ids; an instance moves from one system call to the next, what the operating system answers
  being given with the move. A run is a list of moves of any instances in any order.
\<close>

section \<open>Files and addresses\<close>

definition settings_url :: "int \<Rightarrow> string \<Rightarrow> string" where
  "settings_url port token =
     ''http://127.0.0.1:'' @ show_int port @ ''/'' @ (if token \<noteq> [] then ''?token='' @ token else [])"

definition read_all :: "bool \<Rightarrow> string \<Rightarrow> string" where
  "read_all seek_ok content = (if seek_ok then content else [])"

text \<open>Successive writes: the bytes written, or \<open>None\<close> for zero or an error.\<close>

fun write_loop :: "nat option list \<Rightarrow> string \<Rightarrow> string \<Rightarrow> string" where
  "write_loop ws acc [] = acc"
| "write_loop [] acc (c # cs) = acc"
| "write_loop (w # ws) acc (c # cs) =
     (case w of
        None \<Rightarrow> acc
      | Some n \<Rightarrow> if n = 0 then acc else write_loop ws (acc @ take n (c # cs)) (drop n (c # cs)))"

definition write_full :: "bool \<Rightarrow> bool \<Rightarrow> nat option list \<Rightarrow> string \<Rightarrow> string \<Rightarrow> string" where
  "write_full truncate_ok seek_ok writes old data =
     (if \<not> truncate_ok then old else if \<not> seek_ok then [] else write_loop writes [] data)"

section \<open>Instances\<close>

text \<open>\<open>Ui_Contended\<close> is in the waiting loop after a failed attempt at the lock.\<close>

datatype ui_point =
    Ui_Init | Ui_Waiting | Ui_Contended | Ui_Acquired | Ui_Truncated
  | Ui_Bound int string | Ui_Ready int string | Ui_Serving int string
  | Ui_Exited int

record ui_proc =
  up_point :: ui_point
  up_browser :: bool
  up_out :: string
  up_err :: string
  up_opened :: "string list"

record ui_system =
  us_lock :: "nat option"
  us_content :: string
  us_procs :: "nat \<Rightarrow> ui_proc"

datatype ui_answer =
    An_Open_Error | An_Open | An_Deadline | An_Poll | An_Read bool | An_Truncate bool
  | An_Bind "(int \<times> string) option" | An_Pipe bool | An_Publish bool bool "nat option list"
  | An_Stop | An_Die

definition put :: "nat \<Rightarrow> ui_proc \<Rightarrow> ui_system \<Rightarrow> ui_system" where
  "put p u s = s\<lparr>us_procs := (us_procs s)(p := u)\<rparr>"

text \<open>Leaving: closing the descriptor gives the lock back, if it is held.\<close>

definition release :: "nat \<Rightarrow> ui_system \<Rightarrow> ui_system" where
  "release p s = (if us_lock s = Some p then s\<lparr>us_lock := None\<rparr> else s)"

definition leave :: "nat \<Rightarrow> int \<Rightarrow> string \<Rightarrow> ui_system \<Rightarrow> ui_system" where
  "leave p n err s =
     release p (put p ((us_procs s p)\<lparr>up_point := Ui_Exited n, up_err := up_err (us_procs s p) @ err\<rparr>) s)"

definition go :: "nat \<Rightarrow> ui_point \<Rightarrow> ui_system \<Rightarrow> ui_system" where
  "go p pt s = put p ((us_procs s p)\<lparr>up_point := pt\<rparr>) s"

text \<open>\<open>launch_browser\<close>: the address handed to the browser.\<close>

definition launch_browser :: "string \<Rightarrow> ui_proc \<Rightarrow> ui_proc" where
  "launch_browser url u = (if up_browser u then u\<lparr>up_opened := up_opened u @ [url]\<rparr> else u)"

text \<open>The first attempt at the lock, and the ones of the waiting loop.\<close>

definition ui_open :: "nat \<Rightarrow> ui_system \<Rightarrow> ui_system" where
  "ui_open p s = (if us_lock s = None then (go p Ui_Acquired s)\<lparr>us_lock := Some p\<rparr> else go p Ui_Waiting s)"

definition ui_poll :: "nat \<Rightarrow> ui_system \<Rightarrow> ui_system" where
  "ui_poll p s = (if us_lock s = None then (go p Ui_Acquired s)\<lparr>us_lock := Some p\<rparr> else go p Ui_Contended s)"

definition ui_read :: "(nat \<Rightarrow> string) \<Rightarrow> nat \<Rightarrow> bool \<Rightarrow> ui_system \<Rightarrow> ui_system" where
  "ui_read canon p seek_ok s =
     (case parse_sidecar (read_all seek_ok (us_content s)) of
        None \<Rightarrow> go p Ui_Waiting s
      | Some sc \<Rightarrow>
          if sc_path sc = canon p then
            (let url = settings_url (sc_port sc) (sc_token sc); u = us_procs s p
             in put p (launch_browser url (u\<lparr>up_out := up_out u @ ''Settings UI already running at '' @ url @ nl,
                                            up_point := Ui_Exited 0\<rparr>)) s)
          else go p Ui_Waiting s)"

definition ui_publish :: "(nat \<Rightarrow> string) \<Rightarrow> nat \<Rightarrow> int \<Rightarrow> string \<Rightarrow> bool \<Rightarrow> bool \<Rightarrow> nat option list \<Rightarrow> ui_system \<Rightarrow> ui_system" where
  "ui_publish canon p port token truncate_ok seek_ok writes s =
     (let contents = \<lparr>sc_pid = int p, sc_port = port, sc_path = canon p, sc_token = token\<rparr>;
          url = settings_url port token; u = us_procs s p
      in put p (launch_browser url (u\<lparr>up_out := up_out u @ ''AutoWhisper Settings: '' @ url @ nl @
                   ''Config file: '' @ canon p @ nl @ ''Press Ctrl+C to close'' @ nl,
                 up_point := Ui_Serving port token\<rparr>))
           (s\<lparr>us_content := write_full truncate_ok seek_ok writes (us_content s) (format_sidecar contents)\<rparr>))"

definition ui_move :: "string \<Rightarrow> (nat \<Rightarrow> string) \<Rightarrow> nat \<Rightarrow> ui_answer \<Rightarrow> ui_system \<Rightarrow> ui_system option" where
  "ui_move sidecar_path canon p a s =
     (case up_point (us_procs s p) of
        Ui_Init \<Rightarrow>
          (case a of
             An_Open_Error \<Rightarrow> Some (leave p 1 (''Failed to open sidecar: '' @ sidecar_path @ nl) s)
           | An_Open \<Rightarrow> Some (ui_open p s)
           | An_Die \<Rightarrow> Some (leave p 137 [] s) | _ \<Rightarrow> None)
      | Ui_Waiting \<Rightarrow>
          (case a of
             An_Deadline \<Rightarrow> Some (leave p 1 (''Settings UI unresponsive (sidecar held but not published)'' @ nl) s)
           | An_Poll \<Rightarrow> Some (ui_poll p s)
           | An_Die \<Rightarrow> Some (leave p 137 [] s) | _ \<Rightarrow> None)
      | Ui_Contended \<Rightarrow>
          (case a of An_Read seek_ok \<Rightarrow> Some (ui_read canon p seek_ok s)
           | An_Die \<Rightarrow> Some (leave p 137 [] s) | _ \<Rightarrow> None)
      | Ui_Acquired \<Rightarrow>
          (case a of
             An_Truncate truncated \<Rightarrow>
               Some (if truncated then go p Ui_Truncated (s\<lparr>us_content := []\<rparr>)
                     else leave p 1 (''Failed to truncate sidecar: '' @ sidecar_path @ nl) s)
           | An_Die \<Rightarrow> Some (leave p 137 [] s) | _ \<Rightarrow> None)
      | Ui_Truncated \<Rightarrow>
          (case a of
             An_Bind None \<Rightarrow> Some (leave p 1 (''Failed to bind settings UI to localhost'' @ nl) s)
           | An_Bind (Some (port, token)) \<Rightarrow> Some (go p (Ui_Bound port token) s)
           | An_Die \<Rightarrow> Some (leave p 137 [] s) | _ \<Rightarrow> None)
      | Ui_Bound port token \<Rightarrow>
          (case a of
             An_Pipe installed \<Rightarrow>
               Some (if installed then go p (Ui_Ready port token) s
                     else leave p 1 (''Failed to install signal-pipe shutdown'' @ nl) s)
           | An_Die \<Rightarrow> Some (leave p 137 [] s) | _ \<Rightarrow> None)
      | Ui_Ready port token \<Rightarrow>
          (case a of An_Publish t k ws \<Rightarrow> Some (ui_publish canon p port token t k ws s)
           | An_Die \<Rightarrow> Some (leave p 137 [] s) | _ \<Rightarrow> None)
      | Ui_Serving port token \<Rightarrow>
          (case a of An_Stop \<Rightarrow> Some (leave p 0 [] s)
           | An_Die \<Rightarrow> Some (leave p 137 [] s) | _ \<Rightarrow> None)
      | Ui_Exited n \<Rightarrow> None)"

fun ui_run :: "string \<Rightarrow> (nat \<Rightarrow> string) \<Rightarrow> (nat \<times> ui_answer) list \<Rightarrow> ui_system \<Rightarrow> ui_system option" where
  "ui_run sp canon [] s = Some s"
| "ui_run sp canon ((p, a) # tr) s = Option.bind (ui_move sp canon p a s) (ui_run sp canon tr)"

text \<open>All instances before their start; \<open>browse\<close> says which are to open a browser.\<close>

definition ui_start :: "(nat \<Rightarrow> bool) \<Rightarrow> string \<Rightarrow> ui_system" where
  "ui_start browse old =
     \<lparr>us_lock = None, us_content = old,
      us_procs = (\<lambda>p. \<lparr>up_point = Ui_Init, up_browser = browse p, up_out = [], up_err = [], up_opened = []\<rparr>)\<rparr>"

text \<open>The build for Windows.\<close>

definition cmd_config_ui_win32 :: outcome where
  "cmd_config_ui_win32 = ends 1 []
     (''Settings UI server is not implemented on Windows yet. Use the desktop platform diagnostics to track Windows readiness.'' @ nl)"

end
