(* ===== verification/Settings_Ui_Laws.thy ===== *)
theory Settings_Ui_Laws
  imports Settings_Ui Settings_Laws
begin

text \<open>
  Theorems about the instances of the settings server: one serves at a time, a later one finds it,
  and the window in which a later one is sent to a server that is gone.
\<close>

section \<open>The lock\<close>

fun holds :: "ui_point \<Rightarrow> bool" where
  "holds Ui_Acquired = True"
| "holds Ui_Truncated = True"
| "holds (Ui_Bound port token) = True"
| "holds (Ui_Ready port token) = True"
| "holds (Ui_Serving port token) = True"
| "holds _ = False"

definition lock_inv :: "ui_system \<Rightarrow> bool" where
  "lock_inv s \<longleftrightarrow> (\<forall>p. holds (up_point (us_procs s p)) \<longleftrightarrow> us_lock s = Some p)"

lemma browser_point [simp]: "up_point (launch_browser url u) = up_point u" "up_out (launch_browser url u) = up_out u"
  by (simp_all add: launch_browser_def)

lemma go_fields [simp]:
  "us_lock (go p pt s) = us_lock s" "us_content (go p pt s) = us_content s"
  "up_point (us_procs (go p pt s) q) = (if q = p then pt else up_point (us_procs s q))"
  "q \<noteq> p \<Longrightarrow> us_procs (go p pt s) q = us_procs s q"
  by (simp_all add: go_def put_def)

lemma put_fields [simp]:
  "us_lock (put p u s) = us_lock s" "us_content (put p u s) = us_content s"
  "us_procs (put p u s) q = (if q = p then u else us_procs s q)"
  by (simp_all add: put_def)

lemma leave_fields [simp]:
  "us_lock (leave p n e s) = (if us_lock s = Some p then None else us_lock s)" "us_content (leave p n e s) = us_content s"
  "up_point (us_procs (leave p n e s) q) = (if q = p then Ui_Exited n else up_point (us_procs s q))"
  "q \<noteq> p \<Longrightarrow> us_procs (leave p n e s) q = us_procs s q"
  by (simp_all add: leave_def release_def)

text \<open>What a move does to the lock: it leaves, takes a free lock, or changes nothing about it.\<close>

definition lock_effect :: "nat \<Rightarrow> ui_system \<Rightarrow> ui_system \<Rightarrow> bool" where
  "lock_effect p s s' \<longleftrightarrow>
     (\<forall>q. q \<noteq> p \<longrightarrow> us_procs s' q = us_procs s q) \<and>
     ((\<exists>n e. s' = leave p n e s) \<or>
      us_lock s = None \<and> us_lock s' = Some p \<and> \<not> holds (up_point (us_procs s p)) \<and> holds (up_point (us_procs s' p)) \<or>
      us_lock s' = us_lock s \<and> holds (up_point (us_procs s' p)) = holds (up_point (us_procs s p)))"

lemma effect_leave: "lock_effect p s (leave p n e s)"
  by (auto simp: lock_effect_def)

lemma effect_go: "holds pt = holds (up_point (us_procs s p)) \<Longrightarrow> lock_effect p s (go p pt s)"
  by (simp add: lock_effect_def)

lemma effect_open: "\<not> holds (up_point (us_procs s p)) \<Longrightarrow> lock_effect p s (ui_open p s)"
  by (simp add: lock_effect_def ui_open_def)

lemma effect_poll: "\<not> holds (up_point (us_procs s p)) \<Longrightarrow> lock_effect p s (ui_poll p s)"
  by (simp add: lock_effect_def ui_poll_def)

lemma effect_read: "\<not> holds (up_point (us_procs s p)) \<Longrightarrow> lock_effect p s (ui_read canon p k s)"
  by (simp add: lock_effect_def ui_read_def Let_def split: option.split)

lemma effect_publish: "holds (up_point (us_procs s p)) \<Longrightarrow> lock_effect p s (ui_publish canon p port token t k ws s)"
  by (simp add: lock_effect_def ui_publish_def Let_def)

lemma effect_truncate: "up_point (us_procs s p) = Ui_Acquired \<Longrightarrow> lock_effect p s (go p Ui_Truncated (s\<lparr>us_content := []\<rparr>))"
  by (simp add: lock_effect_def go_def)

lemmas effects = effect_leave effect_go effect_open effect_poll effect_read effect_publish effect_truncate

lemma move_effect:
  assumes "ui_move sp canon p a s = Some s'"
  shows "lock_effect p s s'"
proof (cases "up_point (us_procs s p)")
  case Ui_Truncated
  then show ?thesis using assms
    by (cases a) (auto simp: ui_move_def intro!: effects split: option.splits)
qed (use assms in \<open>cases a; auto simp: ui_move_def intro!: effects split: if_splits\<close>)+

lemma lock_inv_start: "lock_inv (ui_start browse old)"
  by (simp add: lock_inv_def ui_start_def)

lemma lock_inv_move:
  assumes "lock_inv s" "ui_move sp canon p a s = Some s'"
  shows "lock_inv s'"
proof -
  have i: "holds (up_point (us_procs s q)) \<longleftrightarrow> us_lock s = Some q" for q using assms(1) by (simp add: lock_inv_def)
  have e: "lock_effect p s s'" by (rule move_effect [OF assms(2)])
  show ?thesis
  proof (cases "\<exists>n e. s' = leave p n e s")
    case True
    then show ?thesis using i by (auto simp: lock_inv_def split: if_splits)
  next
    case False
    then show ?thesis using e i unfolding lock_inv_def lock_effect_def by (metis option.inject option.distinct(1))
  qed
qed

lemma lock_inv_run: "ui_run sp canon tr s = Some s' \<Longrightarrow> lock_inv s \<Longrightarrow> lock_inv s'"
proof (induction tr arbitrary: s)
  case (Cons m tr)
  then show ?case by (cases m) (auto simp: bind_eq_Some_conv dest: lock_inv_move)
qed simp

lemma lock_inv_reachable: "ui_run sp canon tr (ui_start browse old) = Some s \<Longrightarrow> lock_inv s"
  using lock_inv_run lock_inv_start by blast

section \<open>The content of the sidecar\<close>

text \<open>Only the holder of the lock writes it.\<close>

lemma content_kept:
  assumes "ui_move sp canon q a s = Some s'" "\<not> holds (up_point (us_procs s q)) \<or> (\<exists>port token. up_point (us_procs s q) = Ui_Serving port token)"
  shows "us_content s' = us_content s"
proof -
  have rest: "us_content (ui_open q s) = us_content s" "us_content (ui_poll q s) = us_content s"
    "us_content (ui_read canon q k s) = us_content s" for k
    by (simp_all add: ui_open_def ui_poll_def ui_read_def Let_def split: option.split)
  show ?thesis
    using assms rest by (cases "up_point (us_procs s q)"; cases a; auto simp: ui_move_def split: if_splits)
qed

lemma serving_never_back:
  assumes "ui_move sp canon p a s = Some s'" "up_point (us_procs s p) = Ui_Serving port token"
  shows "\<exists>n. up_point (us_procs s' p) = Ui_Exited n"
  using assms by (cases a) (auto simp: ui_move_def)

lemma exited_stays: "up_point (us_procs s p) = Ui_Exited n \<Longrightarrow> ui_move sp canon p a s = None"
  by (simp add: ui_move_def)

text \<open>While the server serves, the sidecar keeps what was published.\<close>

lemma exited_run:
  "ui_run sp canon tr s = Some s' \<Longrightarrow> up_point (us_procs s p) = Ui_Exited n \<Longrightarrow> up_point (us_procs s' p) = Ui_Exited n"
proof (induction tr arbitrary: s)
  case (Cons m tr)
  obtain q a where m: "m = (q, a)" by (cases m)
  then obtain s1 where s1: "ui_move sp canon q a s = Some s1" "ui_run sp canon tr s1 = Some s'"
    using Cons.prems(1) by (auto simp: bind_eq_Some_conv)
  then have "q \<noteq> p" using exited_stays [OF Cons.prems(2)] by auto
  then have "us_procs s1 p = us_procs s p" using move_effect [OF s1(1)] by (simp add: lock_effect_def)
  then show ?case using Cons.IH [OF s1(2)] Cons.prems(2) by simp
qed simp

lemma serving_content:
  "ui_run sp canon tr s = Some s' \<Longrightarrow> lock_inv s \<Longrightarrow> up_point (us_procs s p) = Ui_Serving port token \<Longrightarrow>
     up_point (us_procs s' p) = Ui_Serving port token \<Longrightarrow> us_content s' = us_content s"
proof (induction tr arbitrary: s)
  case (Cons m tr)
  obtain q a where m: "m = (q, a)" by (cases m)
  then obtain s1 where s1: "ui_move sp canon q a s = Some s1" "ui_run sp canon tr s1 = Some s'"
    using Cons.prems(1) by (auto simp: bind_eq_Some_conv)
  have q: "q \<noteq> p"
  proof
    assume "q = p"
    then obtain n where "up_point (us_procs s1 p) = Ui_Exited n" using serving_never_back s1(1) Cons.prems(3) by blast
    from exited_run [OF s1(2) this] Cons.prems(4) show False by simp
  qed
  have "us_lock s = Some p" using Cons.prems(2,3) by (metis lock_inv_def holds.simps(5))
  then have "\<not> holds (up_point (us_procs s q))" using Cons.prems(2) q by (simp add: lock_inv_def)
  then have c: "us_content s1 = us_content s" using content_kept [OF s1(1)] by blast
  have "us_procs s1 p = us_procs s p" using move_effect [OF s1(1)] q by (simp add: lock_effect_def)
  then show ?case using Cons.IH [OF s1(2) lock_inv_move [OF Cons.prems(2) s1(1)]] Cons.prems(3,4) c by simp
qed simp

text \<open>A script that writes everything.\<close>

fun writes_all :: "nat option list \<Rightarrow> nat \<Rightarrow> bool" where
  "writes_all ws 0 = True"
| "writes_all [] (Suc n) = False"
| "writes_all (w # ws) (Suc n) = (case w of None \<Rightarrow> False | Some k \<Rightarrow> 0 < k \<and> writes_all ws (Suc n - k))"

lemma write_loop_all: "writes_all ws (length data) \<Longrightarrow> write_loop ws acc data = acc @ data"
  by (induction ws acc data rule: write_loop.induct) (auto split: option.splits)

section \<open>The guarantees\<close>

text \<open>C9: however the instances interleave, fail or are killed, at most one at a time serves a configuration, and it
  holds the lock while it does.\<close>

theorem one_settings_server:
  assumes "ui_run sp canon tr (ui_start browse old) = Some s" "up_point (us_procs s p) = Ui_Serving port token"
  shows "us_lock s = Some p \<and> (\<forall>q port' token'. up_point (us_procs s q) \<noteq> Ui_Serving port' token' \<or> q = p)"
  using lock_inv_reachable [OF assms(1)] assms(2) unfolding lock_inv_def by (metis holds.simps(5) option.inject)

lemma demo_text:
  "format_sidecar \<lparr>sc_pid = int 1, sc_port = 8080, sc_path = ''/c.toml'', sc_token = ''ab''\<rparr> =
     ''1'' @ nl @ ''8080'' @ nl @ ''/c.toml'' @ nl @ ''ab'' @ nl"
  "settings_url 8080 ''ab'' = ''http://127.0.0.1:8080/?token=ab''"
  by (simp_all add: format_sidecar_def settings_url_def show_int_def show_nat.simps digit_char_def char_of_def bit_0 nl_def)

text \<open>A run in which the first instance serves and a second one has found the lock taken.\<close>

definition demo_trace :: "(nat \<times> ui_answer) list" where
  "demo_trace = [(1, An_Open), (1, An_Truncate True), (1, An_Bind (Some (8080, ''ab''))), (1, An_Pipe True)]"

definition demo_canon :: "nat \<Rightarrow> string" where "demo_canon = (\<lambda>_. ''/c.toml'')"

definition demo_publish :: "nat \<times> ui_answer" where
  "demo_publish = (1, An_Publish True True [Some 10, Some 100])"

definition demo_second :: "(nat \<times> ui_answer) list" where
  "demo_second = [(2, An_Open), (2, An_Poll)]"

lemma demo_runs:
  "\<exists>s0 s1 s2. ui_run ''/i'' demo_canon demo_trace (ui_start (\<lambda>_. True) ''junk'') = Some s0 \<and>
     ui_move ''/i'' demo_canon 1 (An_Publish True True [Some 10, Some 100]) s0 = Some s1 \<and>
     ui_run ''/i'' demo_canon demo_second s1 = Some s2 \<and>
     up_point (us_procs s0 1) = Ui_Ready 8080 ''ab'' \<and>
     up_point (us_procs s1 1) = Ui_Serving 8080 ''ab'' \<and>
     up_point (us_procs s2 1) = Ui_Serving 8080 ''ab'' \<and> up_point (us_procs s2 2) = Ui_Contended \<and> up_out (us_procs s2 2) = []"
  by (simp add: demo_trace_def demo_second_def ui_move_def ui_open_def ui_poll_def ui_publish_def go_def put_def ui_start_def
      launch_browser_def Let_def)

theorem one_settings_server_witness:
  "\<exists>s :: ui_system. us_lock s = Some 1 \<and> up_point (us_procs s 1) = Ui_Serving 8080 ''ab'' \<and>
     (\<forall>port' token'. up_point (us_procs s 2) \<noteq> Ui_Serving port' token')"
proof -
  obtain s0 s1 where "ui_run ''/i'' demo_canon demo_trace (ui_start (\<lambda>_. True) ''junk'') = Some s0"
    "ui_move ''/i'' demo_canon 1 (An_Publish True True [Some 10, Some 100]) s0 = Some s1"
    "up_point (us_procs s1 1) = Ui_Serving 8080 ''ab''"
    using demo_runs by blast
  then have "ui_run ''/i'' demo_canon (demo_trace @ [demo_publish]) (ui_start (\<lambda>_. True) ''junk'') = Some s1"
    and p: "up_point (us_procs s1 1) = Ui_Serving 8080 ''ab''"
    by (auto simp: demo_trace_def demo_publish_def bind_eq_Some_conv)
  note o1 = one_settings_server [OF this]
  have "up_point (us_procs s1 2) \<noteq> Ui_Serving port' token'" for port' token'
  proof
    assume "up_point (us_procs s1 2) = Ui_Serving port' token'"
    then have "(2::nat) = 1" using o1 by blast
    then show False by simp
  qed
  then show ?thesis using o1 p by blast
qed

text \<open>C14: once an instance has published its address in full, any instance of the same configuration that finds the
  lock taken while it still serves ends with exit code 0, pointing its user to exactly that server.\<close>

theorem second_instance_finds_first:
  assumes "ui_run sp canon tr0 (ui_start browse old) = Some s0" "up_point (us_procs s0 p) = Ui_Ready port token"
    and "ui_move sp canon p (An_Publish True True ws) s0 = Some s1"
    and "writes_all ws (length (format_sidecar \<lparr>sc_pid = int p, sc_port = port, sc_path = canon p, sc_token = token\<rparr>))"
    and "ui_run sp canon tr s1 = Some s2" "up_point (us_procs s2 p) = Ui_Serving port token"
    and "up_point (us_procs s2 q) = Ui_Contended" "canon q = canon p"
    and "0 < p" "p < 2 ^ 31" "0 < port" "port \<le> 65535" "CHR 0x0A \<notin> set (canon p)" "CHR 0x0A \<notin> set token"
  shows "\<exists>s3. ui_move sp canon q (An_Read True) s2 = Some s3 \<and> up_point (us_procs s3 q) = Ui_Exited 0 \<and>
    up_out (us_procs s3 q) = up_out (us_procs s2 q) @ ''Settings UI already running at '' @ settings_url port token @ nl"
proof -
  let ?c = "\<lparr>sc_pid = int p, sc_port = port, sc_path = canon p, sc_token = token\<rparr>"
  have "int p < 2 ^ 31" using assms(10) by (metis of_nat_less_iff of_nat_numeral of_nat_power)
  then have parse: "parse_sidecar (format_sidecar ?c) = Some ?c"
    by (intro sidecar_round_trip) (use assms(9,11-14) in simp_all)
  have s1: "s1 = ui_publish canon p port token True True ws s0" using assms(2,3) by (simp add: ui_move_def)
  then have c1: "us_content s1 = format_sidecar ?c"
    using write_loop_all [OF assms(4), of "[]"] by (simp add: ui_publish_def Let_def write_full_def)
  have p1: "up_point (us_procs s1 p) = Ui_Serving port token" by (simp add: s1 ui_publish_def Let_def)
  have "lock_inv s1" using lock_inv_move [OF lock_inv_reachable [OF assms(1)] assms(3)] .
  from serving_content [OF assms(5) this p1 assms(6)] have "us_content s2 = format_sidecar ?c" using c1 by simp
  then show ?thesis
    using assms(7,8) parse by (simp add: ui_move_def ui_read_def read_all_def Let_def)
qed


theorem second_instance_finds_first_witness:
  "\<exists>s3 :: ui_system. up_point (us_procs s3 2) = Ui_Exited 0 \<and>
     up_out (us_procs s3 2) = ''Settings UI already running at http://127.0.0.1:8080/?token=ab'' @ nl"
proof -
  obtain s0 s1 s2 where d: "ui_run ''/i'' demo_canon demo_trace (ui_start (\<lambda>_. True) ''junk'') = Some s0"
    "ui_move ''/i'' demo_canon 1 (An_Publish True True [Some 10, Some 100]) s0 = Some s1"
    "ui_run ''/i'' demo_canon demo_second s1 = Some s2" "up_point (us_procs s0 1) = Ui_Ready 8080 ''ab''"
    "up_point (us_procs s2 1) = Ui_Serving 8080 ''ab''" "up_point (us_procs s2 2) = Ui_Contended"
    "up_out (us_procs s2 2) = []"
    using demo_runs by blast
  have w: "writes_all [Some 10, Some 100]
      (length (format_sidecar \<lparr>sc_pid = int 1, sc_port = 8080, sc_path = demo_canon 1, sc_token = ''ab''\<rparr>))"
    unfolding demo_canon_def demo_text nl_def by (simp add: eval_nat_numeral)
  show ?thesis
    using second_instance_finds_first [OF d(1,4,2) w d(3,5,6)] d(7) by (auto simp: demo_canon_def demo_text)
qed

text \<open>The address an instance prints can be that of a server that is gone: a new instance has taken the lock over
  but not yet emptied the sidecar when a third one reads what the first has left, and is sent, with
  exit code 0, to an address nobody serves.\<close>

definition stale_trace :: "(nat \<times> ui_answer) list" where
  "stale_trace = demo_trace @ [demo_publish, (1, An_Stop), (2, An_Open), (3, An_Open), (3, An_Poll), (3, An_Read True)]"

theorem stale_address_printed:
  "\<exists>s. ui_run ''/i'' demo_canon stale_trace (ui_start (\<lambda>_. True) []) = Some s \<and>
     up_point (us_procs s 1) = Ui_Exited 0 \<and> up_point (us_procs s 2) = Ui_Acquired \<and>
     up_point (us_procs s 3) = Ui_Exited 0 \<and>
     up_out (us_procs s 3) = ''Settings UI already running at '' @ settings_url 8080 ''ab'' @ nl \<and>
     up_opened (us_procs s 3) = [settings_url 8080 ''ab'']"
proof -
  have p: "parse_sidecar (format_sidecar \<lparr>sc_pid = int 1, sc_port = 8080, sc_path = ''/c.toml'', sc_token = ''ab''\<rparr>) =
      Some \<lparr>sc_pid = int 1, sc_port = 8080, sc_path = ''/c.toml'', sc_token = ''ab''\<rparr>"
    by (rule sidecar_round_trip) simp_all
  have w: "write_full True True [Some 10, Some 100] []
      (format_sidecar \<lparr>sc_pid = int 1, sc_port = 8080, sc_path = ''/c.toml'', sc_token = ''ab''\<rparr>) =
      format_sidecar \<lparr>sc_pid = int 1, sc_port = 8080, sc_path = ''/c.toml'', sc_token = ''ab''\<rparr>"
    unfolding demo_text nl_def by (simp add: write_full_def)
  show ?thesis
    using p w
    by (simp add: stale_trace_def demo_publish_def demo_trace_def demo_canon_def ui_move_def ui_open_def ui_poll_def ui_read_def
        ui_publish_def leave_def release_def go_def put_def ui_start_def launch_browser_def read_all_def Let_def)
qed

end
