(* ===== verification/Settings_Shutdown.thy ===== *)
theory Settings_Shutdown
  imports Step_Systems
begin

text \<open>
  How a serving \<open>config ui\<close> ends (src/src/cli/cli_settings_ui.cpp): the signal handler writes a byte to a
  pipe, a watcher thread reads it and stops the HTTP server, the main thread returns from listening and
  joins the watcher. What the server library does when it is told to stop before it listens is a
  parameter (\<open>early\<close>: it counts), and so is whether listening may end by itself (\<open>fails\<close>).
\<close>

section \<open>The threads\<close>

text \<open>The main thread after it has started the watcher.\<close>

datatype serving_at = Sv_Publishing | Sv_Listening | Sv_Joining | Sv_Exited
datatype watcher_at = Wt_Reading | Wt_Stopping | Wt_Ended

record shutdown =
  sd_main :: serving_at
  sd_watcher :: watcher_at
  sd_pipe :: nat
  sd_told :: bool

definition sd_init :: shutdown where
  "sd_init = \<lparr>sd_main = Sv_Publishing, sd_watcher = Wt_Reading, sd_pipe = 0, sd_told = False\<rparr>"

definition shutdown_signal_handler :: "shutdown \<Rightarrow> shutdown" where
  "shutdown_signal_handler s = s\<lparr>sd_pipe := Suc (sd_pipe s)\<rparr>"

inductive shutdown_step :: "bool \<Rightarrow> bool \<Rightarrow> shutdown \<Rightarrow> shutdown \<Rightarrow> bool" for early :: bool and fails :: bool and s :: shutdown where
  sd_listens: "sd_main s = Sv_Publishing \<Longrightarrow> shutdown_step early fails s (s\<lparr>sd_main := Sv_Listening\<rparr>)"
| sd_reads: "sd_watcher s = Wt_Reading \<Longrightarrow> sd_pipe s = Suc n \<Longrightarrow>
    shutdown_step early fails s (s\<lparr>sd_watcher := Wt_Stopping, sd_pipe := n\<rparr>)"
| sd_stops: "sd_watcher s = Wt_Stopping \<Longrightarrow>
    shutdown_step early fails s (s\<lparr>sd_watcher := Wt_Ended, sd_told := sd_main s = Sv_Listening \<or> sd_main s = Sv_Publishing \<and> early\<rparr>)"
| sd_returns: "sd_main s = Sv_Listening \<Longrightarrow> sd_told s \<Longrightarrow> shutdown_step early fails s (s\<lparr>sd_main := Sv_Joining\<rparr>)"
| sd_breaks: "sd_main s = Sv_Listening \<Longrightarrow> fails \<Longrightarrow> shutdown_step early fails s (s\<lparr>sd_main := Sv_Joining\<rparr>)"
| sd_joins: "sd_main s = Sv_Joining \<Longrightarrow> sd_watcher s = Wt_Ended \<Longrightarrow> shutdown_step early fails s (s\<lparr>sd_main := Sv_Exited\<rparr>)"

text \<open>With signals at any time.\<close>

definition shutdown_any :: "bool \<Rightarrow> bool \<Rightarrow> shutdown \<Rightarrow> shutdown \<Rightarrow> bool" where
  "shutdown_any early fails s t \<longleftrightarrow> shutdown_step early fails s t \<or> t = shutdown_signal_handler s"

section \<open>A signal ends it\<close>

definition sd_inv :: "bool \<Rightarrow> shutdown \<Rightarrow> bool" where
  "sd_inv early s \<longleftrightarrow> (early \<and> sd_watcher s = Wt_Ended \<and> (sd_main s = Sv_Publishing \<or> sd_main s = Sv_Listening) \<longrightarrow> sd_told s)"

interpretation shutdown_system: step_system "shutdown_any early fails" "sd_inv early" for early fails
  by unfold_locales (auto simp: shutdown_any_def shutdown_signal_handler_def sd_inv_def elim!: shutdown_step.cases)

lemma sd_reachable: "(shutdown_any early fails)\<^sup>*\<^sup>* sd_init s \<Longrightarrow> sd_inv early s"
  by (erule shutdown_system.run_inv) (simp add: sd_inv_def sd_init_def)

definition signalled :: "shutdown \<Rightarrow> bool" where
  "signalled s \<longleftrightarrow> 0 < sd_pipe s \<or> sd_watcher s \<noteq> Wt_Reading"

fun sd_left :: "shutdown \<Rightarrow> nat" where
  "sd_left s =
     (case sd_main s of Sv_Publishing \<Rightarrow> 3 | Sv_Listening \<Rightarrow> 2 | Sv_Joining \<Rightarrow> 1 | Sv_Exited \<Rightarrow> 0) +
     (case sd_watcher s of Wt_Reading \<Rightarrow> 2 | Wt_Stopping \<Rightarrow> 1 | Wt_Ended \<Rightarrow> 0)"

lemma sd_left_falls: "shutdown_step early fails s t \<Longrightarrow> signalled s \<Longrightarrow> sd_left t < sd_left s \<and> signalled t"
  by (erule shutdown_step.cases) (cases "sd_main s"; cases "sd_watcher s"; simp add: signalled_def)+

text \<open>When stopping a server that does not listen yet counts, one signal at any time is enough: until the
  process has exited some step is possible, each of them is one of at most five, and further signals
  do no harm.\<close>

theorem signal_shuts_down:
  assumes "(shutdown_any True fails)\<^sup>*\<^sup>* sd_init s" "signalled s" "sd_main s \<noteq> Sv_Exited"
  shows "sd_left s \<le> 5 \<and> (\<exists>t. shutdown_step True fails s t) \<and>
    \<not> (\<exists>t. shutdown_step True fails s t \<and> (sd_left s \<le> sd_left t \<or> \<not> signalled t)) \<and>
    sd_left (shutdown_signal_handler s) = sd_left s \<and> signalled (shutdown_signal_handler s)"
proof (intro conjI)
  have i: "sd_inv True s" by (rule sd_reachable [OF assms(1)])
  show "sd_left s \<le> 5" by (simp split: serving_at.split watcher_at.split)
  show "\<exists>t. shutdown_step True fails s t"
  proof (cases "sd_watcher s")
    case Wt_Reading
    then obtain n where "sd_pipe s = Suc n" using assms(2) by (auto simp: signalled_def gr0_conv_Suc)
    then show ?thesis using sd_reads [OF Wt_Reading] by blast
  next
    case Wt_Stopping
    then show ?thesis using sd_stops by blast
  next
    case Wt_Ended
    then show ?thesis
      using i assms(3) sd_listens [of s] sd_returns [of s] sd_joins [of s] by (cases "sd_main s") (auto simp: sd_inv_def)
  qed
  show "\<not> (\<exists>t. shutdown_step True fails s t \<and> (sd_left s \<le> sd_left t \<or> \<not> signalled t))"
    using sd_left_falls [OF _ assms(2)] by (meson leD)
qed (simp_all add: shutdown_signal_handler_def signalled_def)

section \<open>Executions in which it does not\<close>

text \<open>When it does not count, a signal between the start of the watcher and listening is used up: the watcher
  is gone, the server listens, and no later signal is heard.\<close>

definition deaf :: "shutdown \<Rightarrow> bool" where
  "deaf s \<longleftrightarrow> sd_watcher s = Wt_Ended \<and> \<not> sd_told s \<and> (sd_main s = Sv_Publishing \<or> sd_main s = Sv_Listening)"

interpretation deaf_server: step_trap "shutdown_any False False" deaf "\<lambda>s. sd_main s = Sv_Exited"
  by unfold_locales (auto simp: shutdown_any_def shutdown_signal_handler_def deaf_def elim!: shutdown_step.cases)

lemma shutdown_run:
  "shutdown_step early fails s t \<Longrightarrow> (shutdown_any early fails)\<^sup>*\<^sup>* r s \<Longrightarrow> (shutdown_any early fails)\<^sup>*\<^sup>* r t"
  by (rule rtranclp.rtrancl_into_rtrancl, assumption, unfold shutdown_any_def, rule disjI1)

theorem early_signal_lost:
  "\<exists>s. (shutdown_any False False)\<^sup>*\<^sup>* sd_init s \<and> deaf s \<and> \<not> (\<exists>t. (shutdown_any False False)\<^sup>*\<^sup>* s t \<and> sd_main t = Sv_Exited)"
proof -
  let ?s1 = "shutdown_signal_handler sd_init"
  let ?s2 = "?s1\<lparr>sd_watcher := Wt_Stopping, sd_pipe := 0\<rparr>"
  let ?s3 = "?s2\<lparr>sd_watcher := Wt_Ended, sd_told := sd_main ?s2 = Sv_Listening \<or> sd_main ?s2 = Sv_Publishing \<and> False\<rparr>"
  have a: "(shutdown_any False False)\<^sup>*\<^sup>* sd_init ?s1" by (rule r_into_rtranclp) (simp add: shutdown_any_def)
  have b: "shutdown_step False False ?s1 ?s2" by (rule sd_reads) (simp_all add: shutdown_signal_handler_def sd_init_def)
  have c: "shutdown_step False False ?s2 ?s3" by (rule sd_stops) simp
  show ?thesis
    by (rule deaf_server.reaches_trap [OF shutdown_run [OF c shutdown_run [OF b a]]])
       (simp add: deaf_def shutdown_signal_handler_def sd_init_def)
qed

text \<open>When listening ends by itself the main thread waits for a watcher that waits for a signal.\<close>

theorem broken_server_lingers:
  "\<exists>s. (shutdown_any early True)\<^sup>*\<^sup>* sd_init s \<and> sd_main s = Sv_Joining \<and> \<not> (\<exists>t. shutdown_step early True s t)"
proof -
  let ?s1 = "sd_init\<lparr>sd_main := Sv_Listening\<rparr>"
  let ?s2 = "?s1\<lparr>sd_main := Sv_Joining\<rparr>"
  have a: "shutdown_step early True sd_init ?s1" by (rule sd_listens) (simp add: sd_init_def)
  have b: "shutdown_step early True ?s1 ?s2" by (rule sd_breaks) simp_all
  have "(shutdown_any early True)\<^sup>*\<^sup>* sd_init ?s2" by (rule shutdown_run [OF b shutdown_run [OF a rtranclp.rtrancl_refl]])
  moreover have "\<not> (\<exists>t. shutdown_step early True ?s2 t)" by (auto simp: sd_init_def elim!: shutdown_step.cases)
  ultimately show ?thesis by (intro exI conjI) (assumption | simp)+
qed

end
