(* ===== verification/Cfloat_Mono.thy ===== *)
theory Cfloat_Mono
  imports Cfloat
begin

text \<open>
  Rounding is monotone and keeps representable bounds; from these, the intervals in which sums,
  products and quotients of bounded floats lie. Used where the program relies on a float staying
  within a range.
\<close>

section \<open>Monotonicity\<close>

text \<open>The rounded value before the overflow test.\<close>

definition frd :: "nat \<Rightarrow> int \<Rightarrow> rat \<Rightarrow> rat" where
  "frd p emin q =
     (if q = 0 then 0
      else let u = two_pow (max (ilog2 \<bar>q\<bar>) emin - int p + 1) in of_int (round_even (q / u)) * u)"

lemma fround_frd:
  "fround p emin emax q =
     (if \<bar>frd p emin q\<bar> < two_pow (emax + 1) then Fin (frd p emin q) else if 0 < frd p emin q then PInf else NInf)"
  by (simp add: fround_def frd_def Let_def)

lemma round_even_mono: "a \<le> b \<Longrightarrow> round_even a \<le> round_even b"
proof -
  assume ab: "a \<le> b"
  have f: "\<lfloor>a\<rfloor> \<le> \<lfloor>b\<rfloor>" using ab by (rule floor_mono)
  show ?thesis
  proof (cases "\<lfloor>a\<rfloor> = \<lfloor>b\<rfloor>")
    case True
    then show ?thesis using ab by (auto simp: round_even_def Let_def)
  next
    case False
    have "round_even a \<le> \<lfloor>a\<rfloor> + 1" "\<lfloor>b\<rfloor> \<le> round_even b" by (auto simp: round_even_def Let_def)
    with False f show ?thesis by linarith
  qed
qed

lemma frd_minus: "frd p emin (- q) = - frd p emin q"
  by (simp add: frd_def Let_def round_even_minus)

lemma frd_nonneg: "0 \<le> q \<Longrightarrow> 0 \<le> frd p emin q"
  using round_even_mono [of 0] round_even_of_int [of 0]
  by (auto simp: frd_def Let_def less_imp_le [OF two_pow_pos] intro!: mult_nonneg_nonneg divide_nonneg_pos)

lemma frd_mono_pos:
  assumes "0 < a" "a \<le> b" "1 \<le> p"
  shows "frd p emin a \<le> frd p emin b"
proof -
  define ea where "ea = max (ilog2 \<bar>a\<bar>) emin"
  define eb where "eb = max (ilog2 \<bar>b\<bar>) emin"
  define ua where "ua = two_pow (ea - int p + 1)"
  define ub where "ub = two_pow (eb - int p + 1)"
  have A: "two_pow (ilog2 a) \<le> a" "a < two_pow (ilog2 a + 1)" using ilog2_bounds assms by auto
  have B: "two_pow (ilog2 b) \<le> b" "b < two_pow (ilog2 b + 1)" using ilog2_bounds assms by auto
  have "two_pow (ilog2 a) < two_pow (ilog2 b + 1)" using A(1) B(2) assms by linarith
  then have "ea \<le> eb" using assms by (auto simp: ea_def eb_def two_pow_less_iff)
  have f: "frd p emin a = of_int (round_even (a / ua)) * ua" "frd p emin b = of_int (round_even (b / ub)) * ub"
    using assms by (simp_all add: frd_def Let_def ea_def eb_def ua_def ub_def)
  show ?thesis
  proof (cases "ea = eb")
    case True
    then have "round_even (a / ua) \<le> round_even (b / ub)"
      using assms by (intro round_even_mono) (simp add: ua_def ub_def divide_right_mono less_imp_le)
    then show ?thesis using True unfolding f ua_def ub_def by (simp add: mult_right_mono less_imp_le)
  next
    case False
    with \<open>ea \<le> eb\<close> have lt: "ea < eb" by simp
    have "a \<le> two_pow (ea + 1)" using A(2) two_pow_mono [of "ilog2 a + 1" "ea + 1"] assms by (simp add: ea_def)
    then have "a / ua \<le> two_pow (int p)"
      by (simp add: ua_def field_simps flip: two_pow_add)
    then have "round_even (a / ua) \<le> 2 ^ p"
      using round_even_mono [of "a / ua" "two_pow (int p)"] round_even_of_int [of "2 ^ p"] by (simp add: two_pow_nat)
    then have "frd p emin a \<le> two_pow (int p) * ua"
      unfolding f two_pow_nat by (intro mult_right_mono) (simp_all add: ua_def less_imp_le flip: of_int_le_iff)
    also have "\<dots> = two_pow (ea + 1)" by (simp add: ua_def flip: two_pow_add)
    also have "\<dots> \<le> two_pow eb" using lt by (intro two_pow_mono) simp
    also have "\<dots> = two_pow (int p - 1) * ub" by (simp add: ub_def flip: two_pow_add)
    also have "\<dots> \<le> frd p emin b"
    proof -
      have "eb = ilog2 b" using lt assms by (auto simp: ea_def eb_def)
      then have "two_pow (int p - 1) \<le> b / ub"
        using B(1) by (simp add: ub_def field_simps flip: two_pow_add)
      moreover have "two_pow (int p - 1) = of_int (2 ^ (p - 1))"
        using assms(3) by (simp add: two_pow_nat [symmetric] of_nat_diff)
      ultimately have "2 ^ (p - 1) \<le> round_even (b / ub)" by (metis round_even_ge)
      then have "two_pow (int p - 1) \<le> of_int (round_even (b / ub))"
        using \<open>two_pow (int p - 1) = of_int (2 ^ (p - 1))\<close> by (metis of_int_le_iff)
      then show ?thesis unfolding f by (intro mult_right_mono) (simp_all add: ub_def less_imp_le)
    qed
    finally show ?thesis .
  qed
qed

lemma frd_mono:
  assumes "a \<le> b" "1 \<le> p"
  shows "frd p emin a \<le> frd p emin b"
proof -
  consider "0 < a" | "a \<le> 0" "0 \<le> b" | "b < 0" by linarith
  then show ?thesis
  proof cases
    case 1
    then show ?thesis using frd_mono_pos assms by blast
  next
    case 2
    then have "0 \<le> frd p emin b" "0 \<le> frd p emin (- a)" by (simp_all add: frd_nonneg)
    then show ?thesis by (simp add: frd_minus)
  next
    case 3
    then have "frd p emin (- b) \<le> frd p emin (- a)" using frd_mono_pos [of "- b" "- a" p emin] assms by simp
    then show ?thesis by (simp add: frd_minus)
  qed
qed

section \<open>Bounds\<close>

lemma fround_fixed: "fround p emin emax l = Fin l \<Longrightarrow> frd p emin l = l \<and> \<bar>l\<bar> < two_pow (emax + 1)"
  by (auto simp: fround_frd split: if_splits)

lemma fround_between:
  assumes "fround p emin emax l = Fin l" "fround p emin emax u = Fin u" "l \<le> q" "q \<le> u" "1 \<le> p"
  shows "\<exists>r. fround p emin emax q = Fin r \<and> l \<le> r \<and> r \<le> u"
proof -
  have "l \<le> frd p emin q" "frd p emin q \<le> u"
    using frd_mono [of l q p emin] frd_mono [of q u p emin] assms fround_fixed by auto
  then show ?thesis
    using fround_fixed [OF assms(1)] fround_fixed [OF assms(2)] by (auto simp: fround_frd abs_less_iff)
qed

lemma fround_mono:
  assumes "a \<le> b" "fround p emin emax a = Fin r" "fround p emin emax b = Fin s" "1 \<le> p"
  shows "r \<le> s"
  using assms frd_mono [of a b p emin] by (auto simp: fround_frd split: if_splits)

lemma f32_between:
  "f32 l = Fin l \<Longrightarrow> f32 u = Fin u \<Longrightarrow> l \<le> q \<Longrightarrow> q \<le> u \<Longrightarrow> \<exists>r. f32 q = Fin r \<and> l \<le> r \<and> r \<le> u"
  unfolding f32_def by (rule fround_between) simp_all

lemma f32_mono: "a \<le> b \<Longrightarrow> f32 a = Fin r \<Longrightarrow> f32 b = Fin s \<Longrightarrow> r \<le> s"
  unfolding f32_def using fround_mono [of a b 24 "- 126" 127 r s] by simp

lemma f32_int: "\<bar>i\<bar> < 2 ^ 24 \<Longrightarrow> q = of_int i \<Longrightarrow> f32 q = Fin q"
  using f32_of_int by simp

lemma f32_small [simp]: "f32 0 = Fin 0" "f32 1 = Fin 1" "f32 255 = Fin 255"
  using f32_int [of 0] f32_int [of 1] f32_int [of 255] by simp_all

text \<open>The rounding error up to one, and what is hardly above one.\<close>

lemma frd_error:
  assumes "0 < q"
  shows "\<bar>frd p emin q - q\<bar> \<le> two_pow (max (ilog2 q) emin - int p + 1) / 2"
proof -
  define u where "u = two_pow (max (ilog2 q) emin - int p + 1)"
  have u: "0 < u" by (simp add: u_def)
  have "frd p emin q - q = (of_int (round_even (q / u)) - q / u) * u"
    using assms u by (simp add: frd_def Let_def u_def left_diff_distrib)
  then have "\<bar>frd p emin q - q\<bar> = \<bar>of_int (round_even (q / u)) - q / u\<bar> * u" using u by (simp add: abs_mult)
  also have "\<dots> \<le> 1 / 2 * u" using round_even_error u by (intro mult_right_mono) auto
  finally show ?thesis by (simp add: u_def)
qed

lemma f32_frd: "f32 q = Fin r \<Longrightarrow> r = frd 24 (- 126) q"
  by (simp add: f32_def fround_frd split: if_splits)

lemma f32_error_below_one:
  assumes "0 \<le> q" "q \<le> 1" "f32 q = Fin r"
  shows "r \<le> q + 1 / 2 ^ 25"
proof (cases "0 < q \<and> q < 1")
  case True
  define v where "v = two_pow (max (ilog2 q) (- 126) - int 24 + 1)"
  have "two_pow (ilog2 q) < two_pow 0" using ilog2_bounds [of q] True by (simp add: two_pow_def)
  then have "ilog2 q < 0" by (simp only: two_pow_less_iff)
  then have "v \<le> two_pow (- 24)" unfolding v_def by (intro two_pow_mono) simp
  also have "\<dots> = 1 / 2 ^ 24" by (simp add: two_pow_def)
  finally have v: "v / 2 \<le> 1 / 2 ^ 25" by simp
  have "\<bar>r - q\<bar> \<le> v / 2" unfolding f32_frd [OF assms(3)] v_def using True frd_error [of q 24 "- 126"] by blast
  then have "r - q \<le> v / 2" by (rule abs_le_D1 [THEN order_trans [OF _ order_refl]])
  then show ?thesis using v by linarith
next
  case False
  then have "q = 0 \<or> q = 1" using assms by auto
  then show ?thesis using assms(3) by auto
qed

lemma f32_above_one:
  assumes "x \<le> 1 + 1 / 2 ^ 25" "f32 x = Fin r"
  shows "r \<le> 1"
proof -
  define x1 :: rat where "x1 = 1 + 1 / 2 ^ 25"
  have l: "ilog2 x1 = 0" by (simp add: ilog2_def x1_def bits.simps)
  have "x1 / two_pow (- 23) = 2 ^ 23 + 1 / 4" by (simp add: x1_def two_pow_def)
  moreover have "round_even (2 ^ 23 + 1 / 4) = 2 ^ 23"
  proof -
    have "\<lfloor>(2 ^ 23 + 1 / 4 :: rat)\<rfloor> = 2 ^ 23" by (intro floor_unique) simp_all
    then show ?thesis by (simp add: round_even_def)
  qed
  ultimately have "frd 24 (- 126) x1 = 1" using l by (simp add: frd_def Let_def) (simp add: x1_def two_pow_def)
  moreover have "frd 24 (- 126) x \<le> frd 24 (- 126) x1" using assms(1) by (intro frd_mono) (simp_all add: x1_def)
  moreover have "r = frd 24 (- 126) x" using assms(2) by (simp add: f32_def fround_frd split: if_splits)
  ultimately show ?thesis by simp
qed

section \<open>Rounded values are representable\<close>

lemma frd_idem:
  assumes "fround p emin emax q = Fin r" "1 \<le> p"
  shows "fround p emin emax r = Fin r"
proof (cases "q = 0")
  case True
  then show ?thesis using assms by simp
next
  case False
  define e where "e = max (ilog2 \<bar>q\<bar>) emin"
  define u where "u = two_pow (e - int p + 1)"
  define m where "m = round_even (q / u)"
  have r: "r = of_int m * u" "\<bar>r\<bar> < two_pow (emax + 1)"
    using assms(1) False by (auto simp: fround_frd frd_def Let_def e_def u_def m_def split: if_splits)
  have "\<bar>q\<bar> < two_pow (ilog2 \<bar>q\<bar> + 1)" using ilog2_bounds [of "\<bar>q\<bar>"] False by simp
  also have "\<dots> \<le> two_pow (e + 1)" by (intro two_pow_mono) (simp add: e_def)
  also have "\<dots> = 2 ^ p * u" by (simp add: u_def two_pow_nat flip: two_pow_add)
     (simp flip: two_pow_nat two_pow_add)
  finally have "\<bar>q\<bar> / u \<le> 2 ^ p" using two_pow_pos unfolding u_def by (simp only: pos_divide_le_eq less_imp_le)
  moreover have "\<bar>q / u\<bar> = \<bar>q\<bar> / u" by (simp only: abs_divide u_def abs_of_pos [OF two_pow_pos])
  ultimately have "\<bar>q / u\<bar> \<le> 2 ^ p" by (simp only:)
  then have "q / u \<le> of_int (2 ^ p)" "of_int (- (2 ^ p)) \<le> q / u" by (simp_all only: abs_le_iff of_int_power of_int_numeral of_int_minus) linarith
  then have "m \<le> 2 ^ p" "- (2 ^ p) \<le> m"
    using round_even_mono round_even_of_int unfolding m_def by metis+
  then consider "\<bar>m\<bar> < 2 ^ p" | "\<bar>m\<bar> = 2 ^ p" by linarith
  then show ?thesis
  proof cases
    case 1
    then show ?thesis using r by (intro fround_representable [where m = m and k = "e - int p + 1"]) (auto simp: u_def e_def)
  next
    case 2
    then have m: "m = sgn m * 2 ^ p" by (metis abs_mult_sgn mult.commute)
    have "r = of_int (sgn m * 2 ^ p) * u" using r(1) m by (rule trans [OF _ arg_cong [where f = "\<lambda>m. of_int m * u"]])
    then have "r = of_int (sgn m) * two_pow (int p + (e - int p + 1))"
      by (simp only: u_def two_pow_add two_pow_nat of_int_mult of_int_power of_int_numeral mult.assoc)
    then show ?thesis using r(2) assms(2)
      by (intro fround_representable [where m = "sgn m" and k = "int p + (e - int p + 1)"])
        (auto simp: e_def sgn_if)
  qed
qed

section \<open>Finite floats in an interval\<close>

definition f32_exact :: "rat \<Rightarrow> bool" where
  "f32_exact q \<longleftrightarrow> f32 q = Fin q"

definition flr :: "rat \<Rightarrow> rat \<Rightarrow> fl \<Rightarrow> bool" where
  "flr l u x \<longleftrightarrow> (\<exists>q. x = Fin q \<and> f32_exact q \<and> l \<le> q \<and> q \<le> u)"

lemma f32_exact_int: "\<bar>i\<bar> < 2 ^ 24 \<Longrightarrow> f32_exact (of_int i)"
  by (simp add: f32_exact_def f32_of_int)

lemma flrE: "flr l u x \<Longrightarrow> (\<And>q. x = Fin q \<Longrightarrow> f32_exact q \<Longrightarrow> l \<le> q \<Longrightarrow> q \<le> u \<Longrightarrow> P) \<Longrightarrow> P"
  unfolding flr_def by blast

lemma flr_weaken: "flr l u x \<Longrightarrow> l' \<le> l \<Longrightarrow> u \<le> u' \<Longrightarrow> flr l' u' x"
  unfolding flr_def by auto

lemma flr_f32:
  assumes "f32_exact l" "f32_exact u" "l \<le> q" "q \<le> u"
  shows "flr l u (f32 q)"
proof -
  obtain r where r: "f32 q = Fin r" "l \<le> r" "r \<le> u" using f32_between [of l u q] assms by (auto simp: f32_exact_def)
  then have "f32_exact r" unfolding f32_exact_def f32_def by (intro frd_idem [of 24 "- 126" 127 q]) (simp_all add: f32_def)
  then show ?thesis using r by (auto simp: flr_def)
qed

lemma flr_add:
  assumes "flr l u x" "flr l' u' y" "f32_exact (l + l')" "f32_exact (u + u')"
  shows "flr (l + l') (u + u') (fl_add f32 x y)"
proof -
  obtain p q where "x = Fin p" "y = Fin q" "l \<le> p" "p \<le> u" "l' \<le> q" "q \<le> u'" using assms(1,2) by (elim flrE)
  then show ?thesis using assms(3,4) by (auto intro!: flr_f32 add_mono)
qed

lemma interval_mul:
  assumes "l \<le> p" "p \<le> u" "l' \<le> q" "q \<le> u'"
    "a \<le> l * l'" "a \<le> l * u'" "a \<le> u * l'" "a \<le> u * u'"
  shows "a \<le> p * (q :: rat)"
proof -
  have corner: "a \<le> c * q" if "a \<le> c * l'" "a \<le> c * u'" for c
  proof (cases "0 \<le> c")
    case True
    then have "c * l' \<le> c * q" using assms(3) by (rule mult_left_mono [rotated])
    then show ?thesis using that by linarith
  next
    case False
    then have "c * u' \<le> c * q" using assms(4) by (intro mult_left_mono_neg) auto
    then show ?thesis using that by linarith
  qed
  have "a \<le> l * q" "a \<le> u * q" using corner assms by blast+
  moreover have "l * q \<le> p * q \<or> u * q \<le> p * q"
    using assms(1,2) by (cases "0 \<le> q") (auto intro: mult_right_mono mult_right_mono_neg)
  ultimately show ?thesis by linarith
qed

lemma flr_mul:
  assumes x: "flr l u x" and y: "flr l' u' y" and e: "f32_exact a" "f32_exact b"
    and lo: "a \<le> l * l'" "a \<le> l * u'" "a \<le> u * l'" "a \<le> u * u'"
    and hi: "l * l' \<le> b" "l * u' \<le> b" "u * l' \<le> b" "u * u' \<le> b"
  shows "flr a b (fl_mul f32 x y)"
proof -
  obtain p q where pq: "x = Fin p" "y = Fin q" "l \<le> p" "p \<le> u" "l' \<le> q" "q \<le> u'" using x y by (elim flrE)
  have "a \<le> p * q" using pq(3-6) lo by (rule interval_mul)
  moreover have "- b \<le> p * (- q)"
    using pq(3-4) neg_le_iff_le [THEN iffD2, OF pq(6)] neg_le_iff_le [THEN iffD2, OF pq(5)]
    by (rule interval_mul) (simp_all only: mult_minus_right neg_le_iff_le hi)
  then have "p * q \<le> b" by (simp only: mult_minus_right neg_le_iff_le)
  ultimately have "flr a b (f32 (p * q))" using e by (intro flr_f32)
  then show ?thesis using pq(1,2) by (simp add: fl_mul_def)
qed

text \<open>Bounded by a power of two: the coarse interval that sums and products preserve.\<close>

definition sm :: "nat \<Rightarrow> fl \<Rightarrow> bool" where
  "sm k x \<longleftrightarrow> flr (- (2 ^ k)) (2 ^ k) x"

lemma f32_exact_pow: "k \<le> 126 \<Longrightarrow> f32_exact (2 ^ k)" "k \<le> 126 \<Longrightarrow> f32_exact (- (2 ^ k))"
proof -
  assume k: "k \<le> 126"
  have "\<bar>two_pow (int k)\<bar> < two_pow 128" using two_pow_less_iff [of "int k" 128] k by (simp add: less_imp_le)
  then have "fround 24 (- 126) 127 q = Fin q" if "q = of_int s * two_pow (int k)" "\<bar>s\<bar> = 1" for q s
    using that by (intro fround_representable [where m = s and k = "int k"]) (auto simp: abs_mult simp flip: of_int_abs)
  from this [of "2 ^ k" 1] this [of "- (2 ^ k)" "- 1"]
  show "f32_exact (2 ^ k)" "f32_exact (- (2 ^ k))" by (simp_all add: f32_exact_def f32_def two_pow_nat)
qed

lemma sm_weaken: "sm k x \<Longrightarrow> k \<le> k' \<Longrightarrow> sm k' x"
  using power_increasing [of k k' "2::rat"] unfolding sm_def by (auto elim!: flr_weaken)

lemma sm_f32: "\<bar>q\<bar> \<le> 2 ^ k \<Longrightarrow> k \<le> 126 \<Longrightarrow> sm k (f32 q)"
  unfolding sm_def by (intro flr_f32 f32_exact_pow) (auto simp: abs_le_iff)

lemma smE: "sm k x \<Longrightarrow> (\<And>q. x = Fin q \<Longrightarrow> f32_exact q \<Longrightarrow> \<bar>q\<bar> \<le> 2 ^ k \<Longrightarrow> P) \<Longrightarrow> P"
  unfolding sm_def by (elim flrE) (auto simp: abs_le_iff)

lemma flr_sm: "flr l u x \<Longrightarrow> - (2 ^ k) \<le> l \<Longrightarrow> u \<le> 2 ^ k \<Longrightarrow> sm k x"
  unfolding sm_def by (rule flr_weaken)

lemma sm_add: "sm i x \<Longrightarrow> sm j y \<Longrightarrow> max i j < 126 \<Longrightarrow> sm (Suc (max i j)) (fl_add f32 x y)"
proof -
  assume a: "sm i x" "sm j y" "max i j < 126"
  then obtain p q where "x = Fin p" "y = Fin q" "\<bar>p\<bar> \<le> 2 ^ max i j" "\<bar>q\<bar> \<le> 2 ^ max i j"
    by (metis sm_weaken smE max.cobounded1 max.cobounded2)
  then show ?thesis using a(3) sm_f32 [of "p + q" "Suc (max i j)"] by simp
qed

lemma sm_mul: "sm i x \<Longrightarrow> sm j y \<Longrightarrow> i + j \<le> 126 \<Longrightarrow> sm (i + j) (fl_mul f32 x y)"
proof -
  assume a: "sm i x" "sm j y" "i + j \<le> 126"
  then obtain p q where pq: "x = Fin p" "y = Fin q" "\<bar>p\<bar> \<le> 2 ^ i" "\<bar>q\<bar> \<le> 2 ^ j" by (elim smE)
  then have "\<bar>p * q\<bar> \<le> 2 ^ (i + j)" by (simp add: abs_mult power_add mult_mono)
  then show ?thesis using a(3) pq sm_f32 [of "p * q" "i + j"] by (simp add: fl_mul_def)
qed

lemma sm_cast:
  assumes "sm k x" "k \<le> 30"
  shows "\<exists>i. fl_to_int x = Some i \<and> \<bar>i\<bar> \<le> 2 ^ k"
proof -
  obtain q where q: "x = Fin q" "q \<le> of_int (2 ^ k)" "of_int (- (2 ^ k)) \<le> q"
    using assms(1) by (elim smE) (auto simp: abs_le_iff)
  have "- (2 ^ k) \<le> \<lfloor>q\<rfloor>" "\<lceil>q\<rceil> \<le> 2 ^ k" using q(2,3) by (simp_all only: le_floor_iff ceiling_le_iff)
  then have "\<bar>trunc q\<bar> \<le> 2 ^ k" by (auto simp: trunc_def abs_le_iff intro: order_trans [OF floor_le_ceiling] order_trans [OF _ floor_le_ceiling]
      simp del: floor_le_iff ceiling_le_iff)
       (meson floor_le_ceiling minus_le_iff order_trans)
  moreover have "(2::int) ^ k \<le> 2 ^ 30" using assms(2) by (intro power_increasing) auto
  ultimately show ?thesis using q(1) by (auto simp: Let_def abs_le_iff)
qed

end
