(* ===== verification/Avatar_Raster.thy ===== *)
theory Avatar_Raster
  imports Avatar Cfloat_Mono
begin

text \<open>
  The software renderer of the companion (src/src/avatar/avatar_core.cpp): the pixel blend, the
  signed-distance primitives, the bitmap font and the frame. The buffer is a list of 32-bit words; a
  painter changes it, or has none (\<open>None\<close>) where the code would convert a float that is out of the
  range of the target type or write outside the buffer. Arithmetic is rounded after every operation,
  in \<open>float\<close> or \<open>double\<close> as the C++ types say (no contraction, no excess precision). The functions of
  the mathematical library are a parameter.
\<close>

section \<open>Arithmetic\<close>

text \<open>\<open>std::min\<close>, \<open>std::clamp\<close> and \<open>std::fmod\<close> (an exact operation).\<close>

definition fl_min :: "fl \<Rightarrow> fl \<Rightarrow> fl" where
  "fl_min a b = (if fl_lt b a then b else a)"

definition fl_clamp :: "fl \<Rightarrow> fl \<Rightarrow> fl \<Rightarrow> fl" where
  "fl_clamp v lo hi = (if fl_lt v lo then lo else if fl_lt hi v then hi else v)"

fun fl_fmod :: "fl \<Rightarrow> fl \<Rightarrow> fl" where
  "fl_fmod (Fin x) (Fin y) = (if y = 0 then NaN else Fin (x - y * of_int (trunc (x / y))))"
| "fl_fmod (Fin x) PInf = Fin x"
| "fl_fmod (Fin x) NInf = Fin x"
| "fl_fmod _ _ = NaN"

abbreviation fadd :: "fl \<Rightarrow> fl \<Rightarrow> fl" where "fadd \<equiv> fl_add f32"
abbreviation fsub :: "fl \<Rightarrow> fl \<Rightarrow> fl" where "fsub \<equiv> fl_sub f32"
abbreviation fmul :: "fl \<Rightarrow> fl \<Rightarrow> fl" where "fmul \<equiv> fl_mul f32"
abbreviation fdiv :: "fl \<Rightarrow> fl \<Rightarrow> fl" where "fdiv \<equiv> fl_div f32"
abbreviation dadd :: "fl \<Rightarrow> fl \<Rightarrow> fl" where "dadd \<equiv> fl_add f64"
abbreviation dsub :: "fl \<Rightarrow> fl \<Rightarrow> fl" where "dsub \<equiv> fl_sub f64"
abbreviation dmul :: "fl \<Rightarrow> fl \<Rightarrow> fl" where "dmul \<equiv> fl_mul f64"
abbreviation ddiv :: "fl \<Rightarrow> fl \<Rightarrow> fl" where "ddiv \<equiv> fl_div f64"

text \<open>An \<open>int\<close> operand of a float operation.\<close>

definition fi :: "int \<Rightarrow> fl" where
  "fi i = f32 (of_int i)"

fun fl_to_u32 :: "fl \<Rightarrow> u32 option" where
  "fl_to_u32 (Fin q) = (let i = trunc q in if 0 \<le> i \<and> i < 2 ^ 32 then Some (word_of_int i) else None)"
| "fl_to_u32 _ = None"

text \<open>The functions of \<open>cmath\<close>: \<open>sin\<close> on doubles, \<open>sin\<close>, \<open>cos\<close> and \<open>hypot\<close> on floats.\<close>

record libm =
  lm_sin :: "fl \<Rightarrow> fl"
  lm_sinf :: "fl \<Rightarrow> fl"
  lm_cosf :: "fl \<Rightarrow> fl"
  lm_hypotf :: "fl \<Rightarrow> fl \<Rightarrow> fl"

section \<open>Painters\<close>

type_synonym canvas = "u32 list"
type_synonym painter = "canvas \<Rightarrow> canvas option"

fun paint_all :: "painter list \<Rightarrow> painter" where
  "paint_all [] buf = Some buf"
| "paint_all (p # ps) buf = Option.bind (p buf) (paint_all ps)"

definition cast_int :: "fl \<Rightarrow> (int \<Rightarrow> painter) \<Rightarrow> painter" where
  "cast_int x k = (case fl_to_int x of Some i \<Rightarrow> k i | None \<Rightarrow> (\<lambda>_. None))"

record col =
  c_r :: fl
  c_g :: fl
  c_b :: fl

section \<open>One pixel\<close>

definition channel :: "nat \<Rightarrow> u32 \<Rightarrow> u32" where
  "channel k px = and (drop_bit k px) 0xff"

definition channel_f :: "nat \<Rightarrow> u32 \<Rightarrow> fl" where
  "channel_f k px = fdiv (fi (uint (channel k px))) (f32 255)"

definition over :: "fl \<Rightarrow> fl \<Rightarrow> fl \<Rightarrow> fl" where
  "over src dst a = fadd src (fmul dst (fsub (f32 1) a))"

definition to_byte :: "fl \<Rightarrow> u32 option" where
  "to_byte x = fl_to_u32 (fadd (fmul x (f32 255)) (f32 (1/2)))"

definition pack :: "u32 \<Rightarrow> u32 \<Rightarrow> u32 \<Rightarrow> u32 \<Rightarrow> u32" where
  "pack a r g b = or (or (or (push_bit 24 a) (push_bit 16 r)) (push_bit 8 g)) b"

definition blend_pixel :: "u32 \<Rightarrow> col \<Rightarrow> fl \<Rightarrow> u32 option" where
  "blend_pixel px c a =
     (case (to_byte (over a (channel_f 24 px) a), to_byte (over (fmul (c_r c) a) (channel_f 16 px) a),
            to_byte (over (fmul (c_g c) a) (channel_f 8 px) a), to_byte (over (fmul (c_b c) a) (channel_f 0 px) a)) of
        (Some oa, Some orr, Some og, Some ob) \<Rightarrow> Some (pack oa orr og ob)
      | _ \<Rightarrow> None)"

definition blend :: "int \<Rightarrow> int \<Rightarrow> int \<Rightarrow> col \<Rightarrow> fl \<Rightarrow> painter" where
  "blend sz x y c a buf =
     (if fl_le a (Fin 0) \<or> x < 0 \<or> y < 0 \<or> sz \<le> x \<or> sz \<le> y then Some buf
      else let i = nat (y * sz + x)
           in if i < length buf then map_option (\<lambda>px. buf[i := px]) (blend_pixel (buf ! i) c (fl_min a (f32 1)))
              else None)"

section \<open>Primitives\<close>

definition cov :: "fl \<Rightarrow> fl" where
  "cov d = fl_clamp (fsub (f32 (1/2)) (fdiv d (f32 (12/10)))) (f32 0) (f32 1)"

text \<open>The two nested loops over a rectangle, rows first; and the rectangle a shape is clipped to.\<close>

definition pixels :: "int \<Rightarrow> int \<Rightarrow> int \<Rightarrow> int \<Rightarrow> (int \<times> int) list" where
  "pixels x0 x1 y0 y1 = concat (map (\<lambda>y. map (\<lambda>x. (x, y)) [x0..x1]) [y0..y1])"

definition clipped :: "int \<Rightarrow> fl \<Rightarrow> fl \<Rightarrow> fl \<Rightarrow> fl \<Rightarrow> (int \<times> int \<Rightarrow> painter) \<Rightarrow> painter" where
  "clipped sz minx maxx miny maxy f =
     cast_int minx (\<lambda>x0. cast_int maxx (\<lambda>x1. cast_int miny (\<lambda>y0. cast_int maxy (\<lambda>y1.
       paint_all (map f (pixels (max 0 x0) (min (sz - 1) x1) (max 0 y0) (min (sz - 1) y1)))))))"

definition distance :: "libm \<Rightarrow> fl \<Rightarrow> fl \<Rightarrow> int \<times> int \<Rightarrow> fl" where
  "distance lm cx cy xy =
     lm_hypotf lm (fsub (fadd (fi (fst xy)) (f32 (1/2))) cx) (fsub (fadd (fi (snd xy)) (f32 (1/2))) cy)"

definition disc :: "libm \<Rightarrow> int \<Rightarrow> fl \<Rightarrow> fl \<Rightarrow> fl \<Rightarrow> col \<Rightarrow> fl \<Rightarrow> painter" where
  "disc lm sz cx cy r c a =
     clipped sz (fsub (fsub cx r) (f32 2)) (fadd (fadd cx r) (f32 2)) (fsub (fsub cy r) (f32 2)) (fadd (fadd cy r) (f32 2))
       (\<lambda>xy. let d = fsub (distance lm cx cy xy) r
             in blend sz (fst xy) (snd xy) c (fmul a (cov d)))"

definition ring :: "libm \<Rightarrow> int \<Rightarrow> fl \<Rightarrow> fl \<Rightarrow> fl \<Rightarrow> fl \<Rightarrow> col \<Rightarrow> fl \<Rightarrow> painter" where
  "ring lm sz cx cy r w c a =
     (let ro = fadd r (fmul w (f32 (1/2)))
      in clipped sz (fsub (fsub cx ro) (f32 2)) (fadd (fadd cx ro) (f32 2)) (fsub (fsub cy ro) (f32 2)) (fadd (fadd cy ro) (f32 2))
           (\<lambda>xy. let d = fsub (fl_abs (fsub (distance lm cx cy xy) r)) (fmul w (f32 (1/2)))
                 in blend sz (fst xy) (snd xy) c (fmul a (cov d))))"

definition glow :: "libm \<Rightarrow> int \<Rightarrow> fl \<Rightarrow> fl \<Rightarrow> fl \<Rightarrow> col \<Rightarrow> fl \<Rightarrow> painter" where
  "glow lm sz cx cy radius c a =
     clipped sz (fsub cx radius) (fadd cx radius) (fsub cy radius) (fadd cy radius)
       (\<lambda>xy. let d = fdiv (distance lm cx cy xy) radius
             in if fl_le (f32 1) d then Some
                else let fall = fsub (f32 1) d
                     in blend sz (fst xy) (snd xy) c (fmul (fmul a fall) fall))"

definition capsule :: "libm \<Rightarrow> int \<Rightarrow> fl \<Rightarrow> fl \<Rightarrow> fl \<Rightarrow> fl \<Rightarrow> fl \<Rightarrow> col \<Rightarrow> fl \<Rightarrow> painter" where
  "capsule lm sz ax ay bx by' w c a =
     (let minx = fsub (fsub (fl_min ax bx) w) (f32 2); maxx = fadd (fadd (fl_max ax bx) w) (f32 2);
          miny = fsub (fsub (fl_min ay by') w) (f32 2); maxy = fadd (fadd (fl_max ay by') w) (f32 2);
          vx = fsub bx ax; vy = fsub by' ay;
          len2 = fl_max (fadd (fmul vx vx) (fmul vy vy)) (f32 (1/1000000))
      in clipped sz minx maxx miny maxy
           (\<lambda>xy. let px = fsub (fadd (fi (fst xy)) (f32 (1/2))) ax; py = fsub (fadd (fi (snd xy)) (f32 (1/2))) ay;
                     t = fl_clamp (fdiv (fadd (fmul px vx) (fmul py vy)) len2) (f32 0) (f32 1);
                     d = fsub (lm_hypotf lm (fsub px (fmul t vx)) (fsub py (fmul t vy))) (fmul w (f32 (1/2)))
                 in blend sz (fst xy) (snd xy) c (fmul a (cov d))))"

definition kInk :: col where
  "kInk = \<lparr>c_r = f32 (96/100), c_g = f32 (96/100), c_b = f32 (95/100)\<rparr>"

definition kRim :: col where
  "kRim = \<lparr>c_r = f32 (7/100), c_g = f32 (7/100), c_b = f32 (8/100)\<rparr>"

section \<open>Labels\<close>

definition kFont :: "(char \<times> nat list) list" where
  "kFont = [
     (CHR '' '', [0,0,0,0,0,0,0]),
     (CHR ''A'', [0x0E,0x11,0x11,0x1F,0x11,0x11,0x11]),
     (CHR ''B'', [0x1E,0x11,0x11,0x1E,0x11,0x11,0x1E]),
     (CHR ''C'', [0x0E,0x11,0x10,0x10,0x10,0x11,0x0E]),
     (CHR ''D'', [0x1E,0x11,0x11,0x11,0x11,0x11,0x1E]),
     (CHR ''E'', [0x1F,0x10,0x10,0x1E,0x10,0x10,0x1F]),
     (CHR ''G'', [0x0E,0x11,0x10,0x17,0x11,0x11,0x0F]),
     (CHR ''H'', [0x11,0x11,0x11,0x1F,0x11,0x11,0x11]),
     (CHR ''I'', [0x0E,0x04,0x04,0x04,0x04,0x04,0x0E]),
     (CHR ''K'', [0x11,0x12,0x14,0x18,0x14,0x12,0x11]),
     (CHR ''L'', [0x10,0x10,0x10,0x10,0x10,0x10,0x1F]),
     (CHR ''M'', [0x11,0x1B,0x15,0x15,0x11,0x11,0x11]),
     (CHR ''N'', [0x11,0x19,0x15,0x13,0x11,0x11,0x11]),
     (CHR ''O'', [0x0E,0x11,0x11,0x11,0x11,0x11,0x0E]),
     (CHR ''R'', [0x1E,0x11,0x11,0x1E,0x14,0x12,0x11]),
     (CHR ''S'', [0x0F,0x10,0x10,0x0E,0x01,0x01,0x1E]),
     (CHR ''T'', [0x1F,0x04,0x04,0x04,0x04,0x04,0x04]),
     (CHR ''V'', [0x11,0x11,0x11,0x11,0x11,0x0A,0x04]),
     (CHR ''W'', [0x11,0x11,0x11,0x15,0x15,0x1B,0x11]),
     (CHR ''Y'', [0x11,0x11,0x0A,0x04,0x04,0x04,0x04])]"

definition find_glyph :: "char \<Rightarrow> nat list" where
  "find_glyph c =
     (let c1 = (if 97 \<le> code c \<and> code c \<le> 122 then char_of (code c - 97 + 65) else c)
      in case map_of kFont c1 of Some rows \<Rightarrow> rows | None \<Rightarrow> snd (hd kFont))"

definition draw_glyph :: "int \<Rightarrow> nat list \<Rightarrow> fl \<Rightarrow> fl \<Rightarrow> fl \<Rightarrow> col \<Rightarrow> fl \<Rightarrow> painter" where
  "draw_glyph sz rows x cy px c a =
     paint_all (concat (map (\<lambda>row. map (\<lambda>col.
       if bit (rows ! nat row) (nat (4 - col)) then
         cast_int (fadd x (fmul (fi col) px)) (\<lambda>gx. cast_int (fadd cy (fmul (fi row) px)) (\<lambda>gy.
         cast_int (fadd px (f32 (1/2))) (\<lambda>g. let gpx = max 1 g in
           paint_all (map (\<lambda>xy. blend sz (gx + fst xy) (gy + snd xy) c a) (pixels 0 (gpx - 1) 0 (gpx - 1))))))
       else Some) [0..4]) [0..6]))"

fun draw_glyphs :: "int \<Rightarrow> string \<Rightarrow> fl \<Rightarrow> fl \<Rightarrow> fl \<Rightarrow> fl \<Rightarrow> col \<Rightarrow> fl \<Rightarrow> painter" where
  "draw_glyphs sz [] x cy px advance c a = Some"
| "draw_glyphs sz (ch # cs) x cy px advance c a =
     paint_all [draw_glyph sz (find_glyph ch) x cy px c a,
       draw_glyphs sz cs (fadd x advance) cy px advance c a]"

definition draw_label :: "int \<Rightarrow> string \<Rightarrow> fl \<Rightarrow> fl \<Rightarrow> fl \<Rightarrow> col \<Rightarrow> fl \<Rightarrow> painter" where
  "draw_label sz s cx cy px c a =
     (if s = [] then Some
      else let gw = fmul (f32 5) px; gap = fmul px (f32 (16/10)); advance = fadd gw gap;
               total = fsub (fmul (fi (int (length s))) advance) gap
           in draw_glyphs sz s (fsub cx (fmul total (f32 (1/2)))) cy px advance c a)"

section \<open>The frame\<close>

definition kTau :: fl where
  "kTau = f64 (6283185307179586 / 1000000000000000)"

text \<open>\<open>float(std::sin(tt * kTau / period))\<close>.\<close>

definition wobble :: "libm \<Rightarrow> fl \<Rightarrow> rat \<Rightarrow> fl" where
  "wobble lm tt period = to_f32 (lm_sin lm (ddiv (dmul tt kTau) (f64 period)))"

text \<open>The lengths the drawing is laid out with: \<open>S\<close>, \<open>cx\<close>, \<open>cy\<close>, \<open>R\<close>, \<open>W\<close> and \<open>dw\<close>.\<close>

record layout =
  ly_S :: fl
  ly_cx :: fl
  ly_cy :: fl
  ly_R :: fl
  ly_W :: fl
  ly_dw :: fl

definition make_layout :: "libm \<Rightarrow> int \<Rightarrow> avatar_state \<Rightarrow> fl \<Rightarrow> layout" where
  "make_layout lm sz st tt =
     (let S = fi sz;
          bob = (if st = Av_Writing then f32 0 else fmul (fmul (wobble lm tt (32/10)) S) (f32 (22/1000)));
          W = fmul S (f32 (32/1000))
      in \<lparr>ly_S = S, ly_cx = fmul S (f32 (1/2)),
          ly_cy = fadd (fmul S (if st = Av_Writing then f32 (40/100) else f32 (46/100))) bob,
          ly_R = fmul S (f32 (175/1000)), ly_W = W, ly_dw = fmul W (f32 (105/100))\<rparr>)"

definition mix_col :: "col \<Rightarrow> fl \<Rightarrow> col" where
  "mix_col accent m =
     (let mix = (\<lambda>ink acc. fadd ink (fmul (fmul (fsub acc ink) m) (f32 (6/10))))
      in \<lparr>c_r = mix (c_r kInk) (c_r accent), c_g = mix (c_g kInk) (c_g accent), c_b = mix (c_b kInk) (c_b accent)\<rparr>)"

definition draw_aura :: "libm \<Rightarrow> int \<Rightarrow> layout \<Rightarrow> col \<Rightarrow> avatar_state \<Rightarrow> fl \<Rightarrow> fl \<Rightarrow> fl \<Rightarrow> painter" where
  "draw_aura lm sz ly accent st tt phase level =
     (let S = ly_S ly; cx = ly_cx ly; cy = ly_cy ly; R = ly_R ly; W = ly_W ly
      in case st of
           Av_Idle \<Rightarrow> glow lm sz cx cy (fmul S (f32 (34/100))) kInk
             (fadd (f32 (10/100)) (fmul (f32 (4/100)) (wobble lm tt (32/10))))
         | Summoned \<Rightarrow>
             let p = fl_clamp (to_f32 (ddiv phase (f64 (45/100)))) (f32 0) (f32 1)
             in paint_all [
                  glow lm sz cx cy (fmul S (fadd (f32 (30/100)) (fmul (f32 (16/100)) p))) accent
                    (fadd (f32 (15/100)) (fmul (f32 (55/100)) p)),
                  ring lm sz cx cy (fadd R (fmul (fmul S (f32 (30/100))) p)) (fmul W (f32 (6/10))) accent
                    (fmul (f32 (5/10)) (fsub (f32 1) p))]
         | Listening \<Rightarrow> paint_all [
             glow lm sz cx cy (fmul S (fadd (f32 (34/100)) (fmul (f32 (10/100)) level))) accent
               (fadd (f32 (30/100)) (fmul (f32 (50/100)) level)),
             ring lm sz cx cy (fmul R (fadd (f32 (145/100)) (fmul (f32 (55/100)) level))) (fmul W (f32 (55/100))) accent
               (fadd (f32 (25/100)) (fmul (f32 (45/100)) level))]
         | Thinking \<Rightarrow> glow lm sz cx cy (fmul S (f32 (32/100))) accent
             (fadd (f32 (22/100)) (fmul (f32 (8/100)) (wobble lm tt (16/10))))
         | Av_Writing \<Rightarrow> glow lm sz cx cy (fmul S (f32 (28/100))) accent (f32 (20/100))
         | Ambient \<Rightarrow>
             let m = fadd (f32 (5/10)) (fmul (f32 (5/10)) (wobble lm tt 5))
             in glow lm sz cx cy (fmul S (f32 (33/100))) (mix_col accent m) (f32 (16/100))
         | Av_Error \<Rightarrow>
             let blink = (if fl_lt (fl_fmod phase (f64 (5/10))) (f64 (3/10)) then f32 (55/100) else f32 (15/100))
             in glow lm sz cx cy (fmul S (f32 (33/100))) \<lparr>c_r = f32 (83/100), c_g = f32 (58/100), c_b = f32 (18/100)\<rparr> blink
         | Hidden \<Rightarrow> Some)"

text \<open>The mark: the ring and the two side dashes.\<close>

definition draw_mark :: "libm \<Rightarrow> int \<Rightarrow> layout \<Rightarrow> painter" where
  "draw_mark lm sz ly =
     (let S = ly_S ly; cx = ly_cx ly; cy = ly_cy ly; R = ly_R ly; W = ly_W ly; dw = ly_dw ly;
          dash = fmul S (f32 (52/1000)); gap = fadd R (fmul S (f32 (45/1000)))
      in paint_all [
           ring lm sz cx cy R (fmul W (f32 (19/10))) kRim (f32 (55/100)),
           ring lm sz cx cy R W kInk (f32 (95/100)),
           capsule lm sz (fsub (fsub cx gap) dash) cy (fsub cx gap) cy (fmul dw (f32 (22/10))) kRim (f32 (45/100)),
           capsule lm sz (fadd cx gap) cy (fadd (fadd cx gap) dash) cy (fmul dw (f32 (22/10))) kRim (f32 (45/100)),
           capsule lm sz (fsub (fsub cx gap) dash) cy (fsub cx gap) cy dw kInk (f32 (95/100)),
           capsule lm sz (fadd cx gap) cy (fadd (fadd cx gap) dash) cy dw kInk (f32 (95/100))])"

definition draw_wings :: "libm \<Rightarrow> int \<Rightarrow> layout \<Rightarrow> painter" where
  "draw_wings lm sz ly =
     (let cx = ly_cx ly; cy = ly_cy ly; R = ly_R ly; dw = ly_dw ly;
          ax = fmul R (f32 (130/100)); bx = fmul R (f32 (180/100));
          ay = fsub cy (fmul R (f32 (50/100))); by' = fsub cy (fmul R (f32 (105/100)))
      in paint_all (concat (map (\<lambda>sgn. [
           capsule lm sz (fadd cx (fmul sgn ax)) ay (fadd cx (fmul sgn bx)) by' (fmul dw (f32 2)) kRim (f32 (40/100)),
           capsule lm sz (fadd cx (fmul sgn ax)) ay (fadd cx (fmul sgn bx)) by' (fmul dw (f32 (9/10))) kInk (f32 (90/100))])
           [f32 (- 1), f32 1])))"

definition draw_inner_ring :: "libm \<Rightarrow> int \<Rightarrow> layout \<Rightarrow> painter" where
  "draw_inner_ring lm sz ly =
     (let cx = ly_cx ly; cy = ly_cy ly; R = ly_R ly; W = ly_W ly
      in paint_all [
           ring lm sz cx cy (fmul R (f32 (55/100))) (fmul W (f32 (15/10))) kRim (f32 (35/100)),
           ring lm sz cx cy (fmul R (f32 (55/100))) (fmul W (f32 (8/10))) kInk (f32 (80/100))])"

text \<open>Three muse-stars arced above the ring; three dream motes, each with its place, radius and alpha.\<close>

definition draw_star :: "libm \<Rightarrow> int \<Rightarrow> layout \<Rightarrow> int \<Rightarrow> painter" where
  "draw_star lm sz ly i =
     (let S = ly_S ly; cx = ly_cx ly; cy = ly_cy ly; R = ly_R ly;
          ang = fadd (to_f32 (dmul kTau (f32 (25/100)))) (fmul (fi i) (f32 (42/100)));
          sx = fadd cx (fmul (fmul (lm_cosf lm ang) R) (f32 (155/100)));
          sy = fsub cy (fmul (fmul (lm_sinf lm ang) R) (f32 (155/100)));
          r = (if i = 0 then fmul S (f32 (24/1000)) else fmul S (f32 (18/1000)))
      in paint_all [disc lm sz sx sy (fadd r (fmul S (f32 (10/1000)))) kRim (f32 (40/100)),
           disc lm sz sx sy r kInk (f32 (90/100))])"

definition draw_crown :: "libm \<Rightarrow> int \<Rightarrow> layout \<Rightarrow> painter" where
  "draw_crown lm sz ly = paint_all (map (draw_star lm sz ly) [-1..1])"

definition draw_mote :: "libm \<Rightarrow> int \<Rightarrow> layout \<Rightarrow> fl \<Rightarrow> rat \<Rightarrow> rat \<Rightarrow> rat \<Rightarrow> rat \<Rightarrow> rat \<Rightarrow> painter" where
  "draw_mote lm sz ly tt i mx my mr ma =
     (let S = ly_S ly; cx = ly_cx ly; cy = ly_cy ly; R = ly_R ly;
          bob = lm_sin lm (dadd (ddiv (dmul tt kTau) (f64 (28/10))) (dmul (Fin i) (f64 (21/10))));
          x = fadd cx (fmul R (f32 mx));
          oy = fmul (fmul (to_f32 bob) S) (f32 (12/1000));
          y = fadd (fsub cy (fmul R (f32 my))) oy; r = fmul S (f32 mr)
      in paint_all [disc lm sz x y (fadd r (fmul S (f32 (8/1000)))) kRim (f32 (35/100)),
           disc lm sz x y r kInk (f32 ma)])"

definition draw_motes :: "libm \<Rightarrow> int \<Rightarrow> layout \<Rightarrow> fl \<Rightarrow> painter" where
  "draw_motes lm sz ly tt =
     paint_all [
       draw_mote lm sz ly tt 0 (90/100) (100/100) (22/1000) (85/100),
       draw_mote lm sz ly tt 1 (130/100) (132/100) (15/1000) (60/100),
       draw_mote lm sz ly tt 2 (162/100) (160/100) (10/1000) (42/100)]"

definition draw_signature :: "libm \<Rightarrow> int \<Rightarrow> layout \<Rightarrow> avatar_signature \<Rightarrow> fl \<Rightarrow> painter" where
  "draw_signature lm sz ly sig tt =
     (case sig of
        Wings \<Rightarrow> draw_wings lm sz ly
      | Inner_Ring \<Rightarrow> draw_inner_ring lm sz ly
      | Crown \<Rightarrow> draw_crown lm sz ly
      | Motes \<Rightarrow> draw_motes lm sz ly tt
      | Sig_None \<Rightarrow> Some)"

definition draw_orbit :: "libm \<Rightarrow> int \<Rightarrow> layout \<Rightarrow> col \<Rightarrow> fl \<Rightarrow> painter" where
  "draw_orbit lm sz ly accent tt =
     (let S = ly_S ly; cx = ly_cx ly; cy = ly_cy ly; R = ly_R ly;
          ang = ddiv (dmul tt kTau) (f64 (11/10));
          ox = fadd cx (fmul (lm_cosf lm (to_f32 ang)) (fmul R (f32 (155/100))));
          oy = fadd cy (fmul (lm_sinf lm (to_f32 ang)) (fmul R (f32 (155/100))))
      in paint_all [disc lm sz ox oy (fmul S (f32 (30/1000))) accent (f32 (9/10)),
           disc lm sz cx cy (fmul R (f32 (28/100))) kInk (f32 (35/100))])"

text \<open>The three strokes: start of each as a fraction of the line, and its width.\<close>

definition draw_stroke :: "libm \<Rightarrow> int \<Rightarrow> layout \<Rightarrow> col \<Rightarrow> fl \<Rightarrow> rat \<times> fl \<times> fl \<Rightarrow> painter" where
  "draw_stroke lm sz ly accent phase stroke =
     (let (i, start, seg) = stroke; S = ly_S ly; cx = ly_cx ly;
          lineW = fmul S (f32 (58/100)); x0 = fsub cx (fmul lineW (f32 (5/10))); yline = fmul S (f32 (78/100));
          cycle = fl_fmod phase (f64 (16/10));
          begin' = dadd (f64 (12/100)) (dmul (Fin i) (f64 (38/100)));
          p = fl_clamp (to_f32 (ddiv (dsub cycle begin') (f64 (30/100)))) (f32 0) (f32 1)
      in if fl_le p (f32 0) then Some
         else let sx = fadd x0 (fmul lineW start); ex = fadd sx (fmul (fmul lineW seg) p)
              in paint_all [
                   capsule lm sz sx yline ex yline (fmul S (f32 (28/1000))) kInk (f32 (9/10)),
                   if fl_lt p (f32 1) then disc lm sz ex yline (fmul S (f32 (26/1000))) accent (f32 (95/100)) else Some])"

definition draw_strokes :: "libm \<Rightarrow> int \<Rightarrow> layout \<Rightarrow> col \<Rightarrow> fl \<Rightarrow> painter" where
  "draw_strokes lm sz ly accent phase =
     paint_all (map (draw_stroke lm sz ly accent phase)
       [(0, f32 0, f32 (30/100)), (1, fadd (f32 (30/100)) (f32 (8/100)), f32 (22/100)),
        (2, fadd (f32 (30/100)) (fadd (f32 (22/100)) (f32 (16/100))), f32 (34/100))])"

definition draw_actor :: "libm \<Rightarrow> int \<Rightarrow> layout \<Rightarrow> col \<Rightarrow> avatar_state \<Rightarrow> fl \<Rightarrow> fl \<Rightarrow> fl \<Rightarrow> painter" where
  "draw_actor lm sz ly accent st tt phase level =
     (let S = ly_S ly; cx = ly_cx ly; cy = ly_cy ly; R = ly_R ly
      in if st = Listening then
           disc lm sz cx cy (fmul R (fadd (f32 (30/100)) (fmul (f32 (25/100)) level))) accent (f32 (85/100))
         else if st = Thinking then draw_orbit lm sz ly accent tt
         else if st = Av_Writing then draw_strokes lm sz ly accent phase
         else if st = Ambient then
           let dy = fmul (fmul (wobble lm tt (26/10)) S) (f32 (2/100))
           in paint_all [
                disc lm sz (fsub cx (fmul R (f32 (21/10)))) (fadd cy dy) (fmul S (f32 (18/1000))) kInk (f32 (35/100)),
                disc lm sz (fadd cx (fmul R (f32 (21/10)))) (fsub cy dy) (fmul S (f32 (18/1000))) kInk (f32 (35/100))]
         else Some)"

text \<open>The caption on its plate.\<close>

definition draw_caption :: "int \<Rightarrow> layout \<Rightarrow> avatar_state \<Rightarrow> painter" where
  "draw_caption sz ly st =
     (let label = avatar_state_label st; S = ly_S ly; cx = ly_cx ly
      in if label = [] then Some
         else let lx = fmul S (f32 (13/1000));
                  ly' = fmul S (if st = Av_Writing then f32 (90/100) else f32 (88/100));
                  platew = fadd (fmul (fmul (fi (int (length label))) lx) (f32 6)) (fmul S (f32 (6/100)))
              in paint_all [
                   cast_int (fsub ly' (fmul lx (f32 (14/10)))) (\<lambda>y0. cast_int (fadd ly' (fmul lx (f32 (84/10)))) (\<lambda>y1.
                   cast_int (fsub cx (fmul platew (f32 (5/10)))) (\<lambda>x0. cast_int (fadd cx (fmul platew (f32 (5/10)))) (\<lambda>x1.
                     paint_all (map (\<lambda>xy. blend sz (fst xy) (snd xy) kRim (f32 (28/100))) (pixels x0 (x1 - 1) y0 (y1 - 1))))))),
                   draw_label sz label cx ly' lx kInk (f32 (92/100))])"

definition accent_col :: "avatar_character \<Rightarrow> col" where
  "accent_col ch = (case ac_accent ch of (r, g, b) \<Rightarrow> \<lparr>c_r = r, c_g = g, c_b = b\<rparr>)"

definition avatar_rasterize :: "libm \<Rightarrow> int \<Rightarrow> avatar_character \<Rightarrow> avatar_state \<Rightarrow> fl \<Rightarrow> fl \<Rightarrow> fl \<Rightarrow> canvas option" where
  "avatar_rasterize lm sz ch st t phase level =
     (let buf = replicate (nat (sz * sz)) 0
      in if st = Hidden then Some buf
         else let accent = accent_col ch; tt = ddiv t (ac_tempo ch);
                  level' = fl_clamp level (f32 0) (f32 1);
                  ly = make_layout lm sz st tt
              in paint_all [
                   draw_aura lm sz ly accent st tt phase level',
                   draw_mark lm sz ly,
                   draw_signature lm sz ly (ac_signature ch) tt,
                   draw_actor lm sz ly accent st tt phase level',
                   draw_caption sz ly st] buf)"

end
