(* ===== verification/Avatar_Raster_Laws.thy ===== *)
theory Avatar_Raster_Laws
  imports Avatar_Raster
begin

text \<open>
  What the renderer keeps: every pixel stays premultiplied (no colour exceeds its alpha), every
  write lands in the buffer and no conversion to an integer is out of range, for every state and
  character and every size the configuration allows. The arithmetic comes from \<open>Cfloat_Mono\<close>.
\<close>

section \<open>The mathematical library\<close>

definition libm_ok :: "libm \<Rightarrow> bool" where
  "libm_ok lm \<longleftrightarrow>
     (\<forall>q. \<exists>s. lm_sin lm (Fin q) = Fin s \<and> \<bar>s\<bar> \<le> 1) \<and>
     (\<forall>q. f32_exact q \<longrightarrow> flr (- 1) 1 (lm_sinf lm (Fin q)) \<and> flr (- 1) 1 (lm_cosf lm (Fin q))) \<and>
     (\<forall>p q. f32_exact p \<longrightarrow> f32_exact q \<longrightarrow>
        lm_hypotf lm (Fin p) (Fin q) = PInf \<or> (\<exists>r\<ge>0. lm_hypotf lm (Fin p) (Fin q) = Fin r \<and> f32_exact r))"

section \<open>Bytes\<close>

lemma f32_exact_half: "\<bar>m\<bar> < 2 ^ 24 \<Longrightarrow> f32_exact (of_int m / 2)" "\<bar>m\<bar> < 2 ^ 24 \<Longrightarrow> f32_exact (of_int m / 4)"
proof -
  assume m: "\<bar>m\<bar> < 2 ^ 24"
  have "\<bar>of_int m :: rat\<bar> < of_int (2 ^ 24)" using m by (simp only: flip: of_int_abs)
  moreover have "two_pow 128 = 2 ^ 128" by (simp add: two_pow_def)
  ultimately have "\<bar>q\<bar> < two_pow 128" if "\<bar>q\<bar> \<le> \<bar>of_int m\<bar>" for q using that by simp
  then have "fround 24 (- 126) 127 (of_int m * two_pow k) = Fin (of_int m * two_pow k)" if "k \<in> {- 1, - 2}" for k
    using m that by (intro fround_representable [where m = m and k = k]) (auto simp: two_pow_def abs_mult)
  from this [of "- 1"] this [of "- 2"]
  show "f32_exact (of_int m / 2)" "f32_exact (of_int m / 4)" by (simp_all add: f32_exact_def f32_def two_pow_def)
qed

lemma exacts [simp]:
  "f32_exact 0" "f32_exact 1" "f32_exact (- 1)" "f32_exact 2" "f32_exact 16" "f32_exact 192" "f32_exact 255"
  "f32_exact (1/2)" "f32_exact (- (1/2))" "f32_exact (1/4)" "f32_exact (3/4)" "f32_exact (- (3/4))" "f32_exact (511/2)"
  using f32_exact_int [of 0] f32_exact_int [of 1] f32_exact_int [of "- 1"] f32_exact_int [of 2] f32_exact_int [of 16]
    f32_exact_int [of 192] f32_exact_int [of 255] f32_exact_half(1) [of 1] f32_exact_half(1) [of "- 1"]
    f32_exact_half(2) [of 1] f32_exact_half(2) [of 3] f32_exact_half(2) [of "- 3"] f32_exact_half(1) [of 511]
  by simp_all

lemma f32_exactD: "f32_exact q \<Longrightarrow> f32 q = Fin q"
  by (simp add: f32_exact_def)

lemma f32_half [simp]: "f32 (1/2) = Fin (1/2)"
  by (rule f32_exactD) simp

lemma f32_range:
  assumes "f32_exact l" "f32_exact u" "l \<le> q" "q \<le> u"
  obtains r where "f32 q = Fin r" "f32_exact r" "l \<le> r" "r \<le> u"
  using flr_f32 [OF assms] by (elim flrE)

lemma byte_word_mono:
  assumes "0 \<le> i" "i \<le> j" "j \<le> 255"
  shows "(word_of_int i :: u32) \<le> word_of_int j" "(word_of_int j :: u32) \<le> 255"
  using assms by (simp_all add: word_le_def uint_word_of_int)

lemma to_byte_mono:
  assumes "0 \<le> x" "x \<le> y" "y \<le> 1"
  shows "\<exists>i j. to_byte (Fin x) = Some i \<and> to_byte (Fin y) = Some j \<and> i \<le> j \<and> j \<le> 255"
proof -
  obtain p where p: "f32 (x * 255) = Fin p" "0 \<le> p" "p \<le> 255" using assms by (auto intro: f32_range [of 0 255 "x * 255"])
  obtain q where q: "f32 (y * 255) = Fin q" "0 \<le> q" "q \<le> 255" using assms by (auto intro: f32_range [of 0 255 "y * 255"])
  have pq: "p \<le> q" by (rule f32_mono [OF _ p(1) q(1)]) (simp add: assms(2))
  obtain r where r: "f32 (p + 1/2) = Fin r" "1/2 \<le> r" "r \<le> 511/2" using p by (auto intro: f32_range [of "1/2" "511/2" "p + 1/2"])
  obtain s where s: "f32 (q + 1/2) = Fin s" "1/2 \<le> s" "s \<le> 511/2" using q by (auto intro: f32_range [of "1/2" "511/2" "q + 1/2"])
  have rs: "r \<le> s" by (rule f32_mono [OF _ r(1) s(1)]) (simp add: pq)
  have f: "0 \<le> \<lfloor>r\<rfloor>" "\<lfloor>r\<rfloor> \<le> \<lfloor>s\<rfloor>" "\<lfloor>s\<rfloor> \<le> 255"
    using r s floor_mono [OF rs] by (simp_all add: floor_le_iff)
  have "to_byte (Fin x) = Some (word_of_int \<lfloor>r\<rfloor>)" "to_byte (Fin y) = Some (word_of_int \<lfloor>s\<rfloor>)"
    using p q r s f by (simp_all add: to_byte_def fl_mul_def trunc_def)
  moreover have "(word_of_int \<lfloor>r\<rfloor> :: u32) \<le> word_of_int \<lfloor>s\<rfloor>" "(word_of_int \<lfloor>s\<rfloor> :: u32) \<le> 255"
    using byte_word_mono f by blast+
  ultimately show ?thesis by blast
qed

lemma over_mono:
  assumes a: "f32_exact a" "0 \<le> a" "a \<le> 1" and s: "0 \<le> s" "s \<le> s'" "s' \<le> a" and d: "0 \<le> d" "d \<le> d'" "d' \<le> 1"
  shows "\<exists>x y. over (Fin s) (Fin d) (Fin a) = Fin x \<and> over (Fin s') (Fin d') (Fin a) = Fin y \<and> 0 \<le> x \<and> x \<le> y \<and> y \<le> 1"
proof -
  obtain k where k: "f32 (1 - a) = Fin k" "f32_exact k" "0 \<le> k" "k \<le> 1" using a by (auto intro: f32_range [of 0 1 "1 - a"])
  have k1: "k \<le> 1 - a + 1 / 2 ^ 25" using a k(1) by (intro f32_error_below_one) simp_all
  have dk: "0 \<le> d * k" "d * k \<le> d' * k" "d' * k \<le> k"
    using d k(3) mult_right_mono [of d d' k] mult_right_mono [of d' 1 k] by simp_all
  obtain e where e: "f32 (d * k) = Fin e" "0 \<le> e" "e \<le> k" using dk k(2) by (auto intro: f32_range [of 0 k "d * k"])
  obtain e' where e': "f32 (d' * k) = Fin e'" "0 \<le> e'" "e' \<le> k" using dk k(2) by (auto intro: f32_range [of 0 k "d' * k"])
  have ee: "e \<le> e'" by (rule f32_mono [OF dk(2) e(1) e'(1)])
  obtain x where x: "f32 (s + e) = Fin x" "0 \<le> x" using s e a k by (auto intro: f32_range [of 0 2 "s + e"])
  obtain y where y: "f32 (s' + e') = Fin y" "0 \<le> y" using s e' a k by (auto intro: f32_range [of 0 2 "s' + e'"])
  have "x \<le> y" using s(2) ee by (intro f32_mono [OF add_mono x(1) y(1)])
  moreover have "y \<le> 1" using s(3) e'(3) k1 y(1) by (intro f32_above_one [of "s' + e'"]) simp_all
  moreover have "over (Fin s) (Fin d) (Fin a) = Fin x" "over (Fin s') (Fin d') (Fin a) = Fin y"
    using k e e' x y by (simp_all add: over_def fl_sub_def fl_mul_def)
  ultimately show ?thesis using x by blast
qed

section \<open>Pixels\<close>

definition premultiplied :: "u32 \<Rightarrow> bool" where
  "premultiplied px \<longleftrightarrow> channel 16 px \<le> channel 24 px \<and> channel 8 px \<le> channel 24 px \<and> channel 0 px \<le> channel 24 px"

lemma byte_bits: "(w :: u32) \<le> 255 \<Longrightarrow> 8 \<le> n \<Longrightarrow> \<not> bit w n"
proof -
  assume w: "w \<le> 255" "8 \<le> n"
  then have "uint w < 2 ^ 8" by (simp add: word_le_def)
  then have "take_bit 8 (uint w) = uint w" by (intro take_bit_int_eq_self) simp_all
  then have "\<not> bit (uint w) n" using w(2) by (metis bit_take_bit_iff leD)
  then show ?thesis by (metis bit_uint_iff bit_imp_le_length)
qed

lemma bit_channel: "bit (channel k px) n \<longleftrightarrow> n < 8 \<and> bit px (k + n)"
proof -
  have "(0xff :: u32) = mask 8" by (simp add: mask_eq_exp_minus_1)
  then show ?thesis unfolding channel_def by (simp only: bit_and_iff bit_mask_iff bit_drop_bit_eq o_def) auto
qed

lemma pack_channels:
  assumes "a \<le> 255" "r \<le> 255" "g \<le> 255" "b \<le> 255"
  shows "channel 24 (pack a r g b) = a" "channel 16 (pack a r g b) = r"
    "channel 8 (pack a r g b) = g" "channel 0 (pack a r g b) = b"
proof -
  note bits = assms [THEN byte_bits]
  have eq: "x = y" if "\<And>n. n < 8 \<Longrightarrow> bit x n = bit y n" "\<And>n. 8 \<le> n \<Longrightarrow> \<not> bit x n" "\<And>n. 8 \<le> n \<Longrightarrow> \<not> bit y n" for x y :: u32
    using that by (intro bit_word_eqI) (metis not_less)
  show "channel 24 (pack a r g b) = a" "channel 16 (pack a r g b) = r"
    "channel 8 (pack a r g b) = g" "channel 0 (pack a r g b) = b"
    by (rule eq; simp add: bits bit_channel pack_def bit_or_iff bit_push_bit_iff)+
qed

section \<open>Blending\<close>

definition col_ok :: "col \<Rightarrow> bool" where
  "col_ok c \<longleftrightarrow> flr 0 1 (c_r c) \<and> flr 0 1 (c_g c) \<and> flr 0 1 (c_b c)"

lemma channel_le: "channel k px \<le> 255"
  unfolding channel_def by (metis and.commute word_and_le1)

lemma channel_f_mono:
  assumes "channel k px \<le> channel k' px"
  shows "\<exists>d d'. channel_f k px = Fin d \<and> channel_f k' px = Fin d' \<and> 0 \<le> d \<and> d \<le> d' \<and> d' \<le> 1"
proof -
  define i where "i = uint (channel k px)"
  define j where "j = uint (channel k' px)"
  have ij: "0 \<le> i" "i \<le> j" "j \<le> 255" using assms channel_le [of k' px] by (simp_all add: i_def j_def word_le_def)
  obtain d where d: "f32 (of_int i / 255) = Fin d" "0 \<le> d" using ij by (auto intro: f32_range [of 0 1 "of_int i / 255"])
  obtain d' where d': "f32 (of_int j / 255) = Fin d'" "d' \<le> 1" using ij by (auto intro: f32_range [of 0 1 "of_int j / 255"])
  have "d \<le> d'" by (rule f32_mono [OF _ d(1) d'(1)]) (simp add: ij divide_right_mono)
  moreover have "f32 (of_int i) = Fin (of_int i)" "f32 (of_int j) = Fin (of_int j)" using ij by (simp_all add: f32_of_int)
  ultimately show ?thesis using d d' by (simp add: channel_f_def fi_def flip: i_def j_def)
qed

lemma src_le:
  assumes "flr 0 1 c" "f32_exact a" "0 \<le> a"
  shows "\<exists>s. fmul c (Fin a) = Fin s \<and> 0 \<le> s \<and> s \<le> a"
proof -
  obtain q where q: "c = Fin q" "0 \<le> q" "q \<le> 1" using assms(1) by (elim flrE)
  have "q * a \<le> a" "0 \<le> q * a" using q assms(3) mult_right_mono [of q 1 a] by simp_all
  then obtain s where "f32 (q * a) = Fin s" "0 \<le> s" "s \<le> a" using assms(2) by (auto intro: f32_range [of 0 a "q * a"])
  then show ?thesis using q(1) by (simp add: fl_mul_def)
qed

text \<open>One colour against the alpha: both are bytes, and the colour does not exceed the alpha.\<close>

lemma blend_channel:
  assumes "flr 0 1 c" "f32_exact a" "0 \<le> a" "a \<le> 1" "channel k px \<le> channel 24 px"
  shows "\<exists>i j. to_byte (over (fmul c (Fin a)) (channel_f k px) (Fin a)) = Some i \<and>
    to_byte (over (Fin a) (channel_f 24 px) (Fin a)) = Some j \<and> i \<le> j \<and> j \<le> 255"
proof -
  obtain s where s: "fmul c (Fin a) = Fin s" "0 \<le> s" "s \<le> a" using src_le assms(1-3) by blast
  obtain d d' where d: "channel_f k px = Fin d" "channel_f 24 px = Fin d'" "0 \<le> d" "d \<le> d'" "d' \<le> 1"
    using channel_f_mono [OF assms(5)] by blast
  obtain x y where "over (Fin s) (Fin d) (Fin a) = Fin x" "over (Fin a) (Fin d') (Fin a) = Fin y" "0 \<le> x" "x \<le> y" "y \<le> 1"
    using over_mono [OF assms(2-4) s(2,3) order_refl d(3-5)] by blast
  then show ?thesis using to_byte_mono [of x y] s(1) d(1,2) by simp
qed

lemma blend_pixel_ok:
  assumes "premultiplied px" "col_ok c" "flr 0 1 a"
  shows "\<exists>px'. blend_pixel px c a = Some px' \<and> premultiplied px'"
proof -
  obtain q where q: "a = Fin q" "f32_exact q" "0 \<le> q" "q \<le> 1" using assms(3) by (elim flrE)
  note b = blend_channel [OF _ q(2-4)]
  obtain r g bl o1 o2 o3 where
    "to_byte (over (fmul (c_r c) a) (channel_f 16 px) a) = Some r" "to_byte (over a (channel_f 24 px) a) = Some o1" "r \<le> o1" "o1 \<le> 255"
    "to_byte (over (fmul (c_g c) a) (channel_f 8 px) a) = Some g" "to_byte (over a (channel_f 24 px) a) = Some o2" "g \<le> o2" "o2 \<le> 255"
    "to_byte (over (fmul (c_b c) a) (channel_f 0 px) a) = Some bl" "to_byte (over a (channel_f 24 px) a) = Some o3" "bl \<le> o3" "o3 \<le> 255"
    using assms(1,2) b [of "c_r c" 16 px] b [of "c_g c" 8 px] b [of "c_b c" 0 px]
    unfolding q(1) premultiplied_def col_ok_def by blast
  then show ?thesis by (auto simp: blend_pixel_def premultiplied_def pack_channels)
qed

section \<open>Painters that keep the buffer good\<close>

definition good :: "int \<Rightarrow> canvas \<Rightarrow> bool" where
  "good sz buf \<longleftrightarrow> length buf = nat (sz * sz) \<and> list_all premultiplied buf"

definition keeps :: "int \<Rightarrow> painter \<Rightarrow> bool" where
  "keeps sz p \<longleftrightarrow> (\<forall>buf. good sz buf \<longrightarrow> (\<exists>buf'. p buf = Some buf' \<and> good sz buf'))"

named_theorems keeping

lemma keepsD: "keeps sz p \<Longrightarrow> good sz buf \<Longrightarrow> \<exists>buf'. p buf = Some buf' \<and> good sz buf'"
  by (simp add: keeps_def)

lemma keeps_Some [keeping]: "keeps sz Some"
  by (simp add: keeps_def)

lemma keeps_all: "(\<And>p. p \<in> set ps \<Longrightarrow> keeps sz p) \<Longrightarrow> keeps sz (paint_all ps)"
proof (induction ps)
  case Nil
  then show ?case by (simp add: keeps_def)
next
  case (Cons p ps)
  then have "keeps sz p" "keeps sz (paint_all ps)" by simp_all
  then show ?case unfolding keeps_def by (auto simp: bind_eq_Some_conv)
qed

lemma keeps_cast [keeping]: "sm k x \<Longrightarrow> k \<le> 30 \<Longrightarrow> (\<And>i. keeps sz (f i)) \<Longrightarrow> keeps sz (cast_int x f)"
  using sm_cast [of k x] by (auto simp: cast_int_def)

lemma unit_min: "sm k a \<Longrightarrow> \<not> fl_le a (Fin 0) \<Longrightarrow> flr 0 1 (fl_min a (Fin 1))"
  by (elim smE) (auto simp: fl_le_def fl_min_def flr_def)

lemma keeps_blend [keeping]:
  assumes "col_ok c" "sm k a"
  shows "keeps sz (blend sz x y c a)"
  unfolding keeps_def
proof (intro allI impI)
  fix buf
  assume g: "good sz buf"
  show "\<exists>buf'. blend sz x y c a buf = Some buf' \<and> good sz buf'"
  proof (cases "fl_le a (Fin 0) \<or> x < 0 \<or> y < 0 \<or> sz \<le> x \<or> sz \<le> y")
    case True
    then show ?thesis using g by (auto simp: blend_def)
  next
    case False
    let ?i = "nat (y * sz + x)"
    have "y * sz + x < sz * sz"
    proof -
      have "y * sz \<le> (sz - 1) * sz" using False by (intro mult_right_mono) auto
      then show ?thesis using False by (simp add: left_diff_distrib)
    qed
    then have i: "?i < length buf" using g False by (simp add: good_def nat_less_eq_zless)
    then have "premultiplied (buf ! ?i)" using g by (simp add: good_def list_all_length)
    then obtain px where px: "blend_pixel (buf ! ?i) c (fl_min a (Fin 1)) = Some px" "premultiplied px"
      using blend_pixel_ok [OF _ assms(1) unit_min [OF assms(2)]] False by blast
    have "good sz (buf[?i := px])"
      using g px(2) by (auto simp: good_def list_all_iff dest: set_update_subset_insert [THEN subsetD])
    then show ?thesis using False i px(1) unfolding blend_def by (simp add: Let_def)
  qed
qed

section \<open>Numbers\<close>

text \<open>A value that a shape can use: not NaN, and a float if it is finite.\<close>

definition num :: "fl \<Rightarrow> bool" where
  "num x \<longleftrightarrow> x \<noteq> NaN \<and> (\<forall>q. x = Fin q \<longrightarrow> f32_exact q)"

lemma num_f32 [simp]: "num (f32 q)"
proof -
  have "f32 q \<noteq> NaN" by (auto simp: f32_def fround_frd)
  moreover have "f32_exact r" if "f32 q = Fin r" for r
    using frd_idem [of 24 "- 126" 127 q r] that by (simp add: f32_exact_def f32_def)
  ultimately show ?thesis by (simp add: num_def)
qed

lemma flr_num: "flr l u x \<Longrightarrow> num x"
  by (auto simp: flr_def num_def)

lemma sm_num: "sm k x \<Longrightarrow> num x"
  unfolding sm_def by (rule flr_num)

lemma num_simps [simp]: "num PInf" "num NInf" "\<not> num NaN" "num (Fin q) \<longleftrightarrow> f32_exact q"
  by (simp_all add: num_def)

lemma f32_exact_minus: "f32_exact q \<Longrightarrow> f32_exact (- q)"
proof -
  assume "f32_exact q"
  then have "frd 24 (- 126) q = q" "\<bar>q\<bar> < two_pow 128"
    using fround_fixed [of 24 "- 126" 127 q] by (simp_all add: f32_exact_def f32_def)
  then show ?thesis by (simp add: f32_exact_def f32_def fround_frd frd_minus)
qed

lemma num_add_fin: "num x \<Longrightarrow> sm k y \<Longrightarrow> num (fadd x y)" "num x \<Longrightarrow> sm k y \<Longrightarrow> num (fadd y x)"
  by (cases x; auto elim!: smE)+

lemma sm_neg: "sm k x \<Longrightarrow> sm k (fl_neg x)"
  by (elim smE) (auto simp: sm_def flr_def f32_exact_minus abs_le_iff)

lemma num_neg: "num x \<Longrightarrow> num (fl_neg x)"
  by (cases x) (simp_all add: f32_exact_minus)

lemma num_sub: "num x \<Longrightarrow> sm k y \<Longrightarrow> num (fsub x y)" "num x \<Longrightarrow> sm k y \<Longrightarrow> num (fsub y x)"
  unfolding fl_sub_def by (blast intro: num_add_fin sm_neg num_neg)+

lemma sm_sub: "sm i x \<Longrightarrow> sm j y \<Longrightarrow> max i j < 126 \<Longrightarrow> sm (Suc (max i j)) (fsub x y)"
  unfolding fl_sub_def by (intro sm_add sm_neg)

lemma num_abs: "num x \<Longrightarrow> num (fl_abs x)"
  by (cases x) (auto simp: abs_if f32_exact_minus)

lemma num_div_pos: "num x \<Longrightarrow> flr l u y \<Longrightarrow> 0 < l \<Longrightarrow> num (fdiv x y)"
  by (cases x; elim flrE) auto

lemma unit_clamp: "num x \<Longrightarrow> flr 0 1 (fl_clamp x (f32 0) (f32 1))"
  by (cases x) (auto simp: fl_clamp_def flr_def)

lemma sm_min: "sm i x \<Longrightarrow> sm j y \<Longrightarrow> sm (max i j) (fl_min x y)"
  using sm_weaken [of i x "max i j"] sm_weaken [of j y "max i j"] by (auto simp: fl_min_def)

lemma sm_max: "sm i x \<Longrightarrow> sm j y \<Longrightarrow> sm (max i j) (fl_max x y)"
  using sm_weaken [of i x "max i j"] sm_weaken [of j y "max i j"] by (auto simp: fl_max_def)

lemma sm_const: "\<bar>q\<bar> \<le> 8 \<Longrightarrow> sm 3 (f32 q)"
  by (rule sm_f32) simp_all

lemma sm_unit: "flr 0 1 x \<Longrightarrow> sm 0 x" "flr (- 1) 1 x \<Longrightarrow> sm 0 x"
  by (auto elim: flr_sm)

lemma f32_nonneg: "0 \<le> q \<Longrightarrow> f32 q \<noteq> NInf"
  using frd_nonneg [of q 24 "- 126"] by (auto simp: f32_def fround_frd)

lemma cov_unit: "num d \<Longrightarrow> flr 0 1 (cov d)"
proof -
  assume d: "num d"
  have "flr 1 2 (f32 (12/10))" by (rule flr_f32) simp_all
  then have "num (fdiv d (f32 (12/10)))" by (rule num_div_pos [OF d]) simp
  then show ?thesis unfolding cov_def by (intro unit_clamp num_sub(2) [OF _ sm_const]) simp_all
qed

text \<open>An \<open>int\<close> inside the clipped rectangle.\<close>

lemma sm_fi: "0 \<le> i \<Longrightarrow> i < 256 \<Longrightarrow> sm 8 (fi i)"
  unfolding fi_def by (rule sm_f32) simp_all

section \<open>Shapes\<close>

lemma pixels_set: "xy \<in> set (pixels x0 x1 y0 y1) \<longleftrightarrow> x0 \<le> fst xy \<and> fst xy \<le> x1 \<and> y0 \<le> snd xy \<and> snd xy \<le> y1"
  by (cases xy) (auto simp: pixels_def image_iff)

lemma keeps_pixels: "(\<And>xy. keeps sz (f xy)) \<Longrightarrow> keeps sz (paint_all (map f (pixels x0 x1 y0 y1)))"
  by (rule keeps_all) auto

lemma keeps_clipped:
  assumes "sm i minx" "sm j maxx" "sm k miny" "sm l maxy" "i \<le> 30" "j \<le> 30" "k \<le> 30" "l \<le> 30" "sz \<le> 192"
    "\<And>x y. 0 \<le> x \<Longrightarrow> x < 256 \<Longrightarrow> 0 \<le> y \<Longrightarrow> y < 256 \<Longrightarrow> keeps sz (f (x, y))"
  shows "keeps sz (clipped sz minx maxx miny maxy f)"
  unfolding clipped_def
  by (intro keeps_cast [OF assms(1,5)] keeps_cast [OF assms(2,6)] keeps_cast [OF assms(3,7)] keeps_cast [OF assms(4,8)] keeps_all)
    (use assms(9,10) in \<open>auto simp: pixels_set\<close>)

lemma hypot_num:
  assumes "libm_ok lm" "sm i x" "sm j y"
  shows "num (lm_hypotf lm x y)" "\<not> fl_lt (lm_hypotf lm x y) (Fin 0)"
proof -
  obtain p q where "x = Fin p" "f32_exact p" "y = Fin q" "f32_exact q" using assms(2,3) by (elim smE)
  then have "lm_hypotf lm x y = PInf \<or> (\<exists>r\<ge>0. lm_hypotf lm x y = Fin r \<and> f32_exact r)"
    using assms(1) by (simp add: libm_ok_def)
  then show "num (lm_hypotf lm x y)" "\<not> fl_lt (lm_hypotf lm x y) (Fin 0)" by auto
qed

lemma centre_sm:
  assumes "0 \<le> i" "i < 256" "sm k c" "k \<le> 24"
  shows "sm 25 (fsub (fadd (fi i) (f32 (1/2))) c)"
proof -
  have "sm (Suc (max 8 3)) (fadd (fi i) (f32 (1/2)))" by (intro sm_add sm_fi sm_const assms) simp_all
  then have "sm (Suc (max (Suc (max 8 3)) k)) (fsub (fadd (fi i) (f32 (1/2))) c)" using assms by (intro sm_sub) simp_all
  then show ?thesis by (rule sm_weaken) (use assms(4) in simp)
qed

lemma distance_num:
  assumes "libm_ok lm" "sm i cx" "sm j cy" "i \<le> 24" "j \<le> 24" "0 \<le> x" "x < 256" "0 \<le> y" "y < 256"
  shows "num (distance lm cx cy (x, y))" "\<not> fl_lt (distance lm cx cy (x, y)) (Fin 0)"
  unfolding distance_def fst_conv snd_conv by (rule hypot_num; rule assms centre_sm; rule assms)+

lemma box_sm:
  assumes "sm i c" "sm j r" "i \<le> 24" "j \<le> 27"
  shows "sm 29 (fsub (fsub c r) (f32 2))" "sm 29 (fadd (fadd c r) (f32 2))"
proof -
  have "sm (Suc (max (Suc (max i j)) 3)) (fsub (fsub c r) (f32 2))" by (intro sm_sub sm_const assms) (use assms in simp_all)
  then show "sm 29 (fsub (fsub c r) (f32 2))" by (rule sm_weaken) (use assms in simp)
  have "sm (Suc (max (Suc (max i j)) 3)) (fadd (fadd c r) (f32 2))" by (intro sm_add sm_const assms) (use assms in simp_all)
  then show "sm 29 (fadd (fadd c r) (f32 2))" by (rule sm_weaken) (use assms in simp)
qed

lemma alpha_sm: "sm k a \<Longrightarrow> k \<le> 100 \<Longrightarrow> num d \<Longrightarrow> sm k (fmul a (cov d))"
  using sm_mul [OF _ sm_unit(1) [OF cov_unit], of k a d] by simp

lemma keeps_disc [keeping]:
  assumes "libm_ok lm" "sz \<le> 192" "col_ok c" "sm i cx" "sm j cy" "sm k r" "sm l a"
    "i \<le> 24" "j \<le> 24" "k \<le> 24" "l \<le> 100"
  shows "keeps sz (disc lm sz cx cy r c a)"
proof -
  have d: "num (fsub (distance lm cx cy (x, y)) r)" if "0 \<le> x" "x < 256" "0 \<le> y" "y < 256" for x y
    using distance_num(1) [OF assms(1,4,5,8,9) that] assms(6) by (rule num_sub(1))
  have k: "k \<le> 27" using assms(10) by simp
  show ?thesis
    unfolding disc_def Let_def
    by (rule keeps_clipped [OF box_sm [OF assms(4,6,8) k] box_sm [OF assms(5,6,9) k]])
      (simp_all add: assms(2) keeps_blend [OF assms(3) alpha_sm [OF assms(7,11) d]])
qed

lemma keeps_ring [keeping]:
  assumes "libm_ok lm" "sz \<le> 192" "col_ok c" "sm i cx" "sm j cy" "sm k r" "sm m w" "sm l a"
    "i \<le> 24" "j \<le> 24" "k \<le> 24" "m \<le> 20" "l \<le> 100"
  shows "keeps sz (ring lm sz cx cy r w c a)"
proof -
  have w: "sm (m + 3) (fmul w (f32 (1/2)))" using assms by (intro sm_mul sm_const) simp_all
  have d: "num (fsub (fl_abs (fsub (distance lm cx cy (x, y)) r)) (fmul w (f32 (1/2))))" if "0 \<le> x" "x < 256" "0 \<le> y" "y < 256" for x y
    using distance_num(1) [OF assms(1,4,5,9,10) that] assms(6) w by (intro num_sub(1) [OF num_abs] num_sub(1))
  have ro: "sm (Suc (max k (m + 3))) (fadd r (fmul w (f32 (1/2))))" using assms(6) w by (rule sm_add) (use assms in simp)
  have k: "Suc (max k (m + 3)) \<le> 27" using assms by simp
  show ?thesis
    unfolding ring_def Let_def
    by (rule keeps_clipped [OF box_sm [OF assms(4) ro assms(9) k] box_sm [OF assms(5) ro assms(10) k]])
      (use d in \<open>simp_all add: assms(2) keeps_blend [OF assms(3) alpha_sm [OF assms(8,13)]]\<close>)
qed

lemma keeps_glow [keeping]:
  assumes "libm_ok lm" "sz \<le> 192" "col_ok c" "sm i cx" "sm j cy" "flr 16 192 radius" "sm l a"
    "i \<le> 24" "j \<le> 24" "l \<le> 100"
  shows "keeps sz (glow lm sz cx cy radius c a)"
proof -
  have r: "sm 8 radius" using assms(6) by (rule flr_sm) simp_all
  have "sm l (fmul (fmul a (fsub (f32 1) d)) (fsub (f32 1) d))"
    if d: "d = fdiv (distance lm cx cy (x, y)) radius" "\<not> fl_le (f32 1) d" and xy: "0 \<le> x" "x < 256" "0 \<le> y" "y < 256" for x y d
  proof -
    obtain q where q: "radius = Fin q" "16 \<le> q" using assms(6) by (elim flrE)
    note h = distance_num [OF assms(1,4,5,8,9) xy]
    have "num d" using num_div_pos [OF h(1) assms(6)] d(1) by simp
    moreover have "d \<noteq> PInf" "d \<noteq> NInf" "d = Fin u \<Longrightarrow> u \<le> 1" for u
      using d h q f32_nonneg by (auto simp: fl_le_def not_less) (cases "distance lm cx cy (x, y)"; auto simp: not_less)
    ultimately obtain u where u: "d = Fin u" "u \<le> 1" by (cases d) auto
    have "0 \<le> u"
    proof (cases "distance lm cx cy (x, y)")
      case (Fin v)
      then have "0 \<le> v / q" using h(2) q(2) by (simp add: not_less)
      then show ?thesis using u(1) d(1) Fin q f32_mono [of 0 "v / q" 0 u] by auto
    qed (use h u d q in auto)
    with u have "flr 0 1 (fsub (f32 1) d)" by (simp add: fl_sub_def flr_f32)
    then have "sm 0 (fsub (f32 1) d)" by (rule sm_unit)
    then show ?thesis using sm_mul [of "l + 0" "fmul a (fsub (f32 1) d)" 0] sm_mul [of l a 0] assms(7,10) by simp
  qed
  note fall = this
  have b: "keeps sz (let d = fdiv (distance lm cx cy (x, y)) radius in if fl_le (f32 1) d then Some
      else let fall = fsub (f32 1) d in blend sz (fst (x, y)) (snd (x, y)) c (fmul (fmul a fall) fall))"
    if "0 \<le> x" "x < 256" "0 \<le> y" "y < 256" for x y
  proof (cases "fl_le (f32 1) (fdiv (distance lm cx cy (x, y)) radius)")
    case True
    then show ?thesis by (simp only: Let_def if_True keeps_Some)
  next
    case False
    then show ?thesis using keeps_blend [OF assms(3) fall [OF refl False that]] by (simp only: Let_def if_False fst_conv snd_conv)
  qed
  have "sm (Suc (max i 8)) (fsub cx radius)" "sm (Suc (max i 8)) (fadd cx radius)"
    "sm (Suc (max j 8)) (fsub cy radius)" "sm (Suc (max j 8)) (fadd cy radius)"
    using assms(4,5,8,9) r by (simp_all add: sm_add sm_sub)
  then show ?thesis unfolding glow_def by (rule keeps_clipped) (use assms(2,8,9) b in simp_all)
qed

lemma keeps_capsule [keeping]:
  assumes "libm_ok lm" "sz \<le> 192" "col_ok c" "sm i ax" "sm j ay" "sm i' bx" "sm j' by'" "sm k w" "sm l a"
    "i \<le> 22" "j \<le> 22" "i' \<le> 22" "j' \<le> 22" "k \<le> 20" "l \<le> 100"
  shows "keeps sz (capsule lm sz ax ay bx by' w c a)"
proof -
  define vx where "vx = fsub bx ax"
  define vy where "vy = fsub by' ay"
  define len2 where "len2 = fl_max (fadd (fmul vx vx) (fmul vy vy)) (f32 (1/1000000))"
  have v: "sm 23 vx" "sm 23 vy"
    using sm_weaken [OF sm_sub [OF assms(6,4)], of 23] sm_weaken [OF sm_sub [OF assms(7,5)], of 23] assms
    by (simp_all add: vx_def vy_def)
  have sq: "sm 47 (fadd (fmul vx vx) (fmul vy vy))"
    using sm_add [OF sm_mul [OF v(1,1)] sm_mul [OF v(2,2)]] by simp
  have tiny: "flr (1 / 2 ^ 20) 1 (f32 (1/1000000))"
  proof (rule flr_f32)
    have "f32_exact (two_pow (- 20))"
      unfolding f32_exact_def f32_def
      by (rule fround_representable [where m = 1 and k = "- 20"]) (simp_all add: two_pow_def)
    then show "f32_exact (1 / 2 ^ 20)" by (simp add: two_pow_def)
  qed simp_all
  have len2: "flr (1 / 2 ^ 20) (2 ^ 47) len2"
  proof -
    obtain p where p: "fadd (fmul vx vx) (fmul vy vy) = Fin p" "f32_exact p" "\<bar>p\<bar> \<le> 2 ^ 47" using sq by (elim smE)
    obtain q where q: "f32 (1/1000000) = Fin q" "f32_exact q" "1 / 2 ^ 20 \<le> q" "q \<le> 1" using tiny by (elim flrE)
    show ?thesis using p q unfolding len2_def flr_def by (auto simp: fl_max_def)
  qed
  have d: "num (fsub (lm_hypotf lm (fsub px (fmul t vx)) (fsub py (fmul t vy))) (fmul w (f32 (1/2))))"
    if xy: "0 \<le> x" "x < 256" "0 \<le> y" "y < 256"
      and px: "px = fsub (fadd (fi x) (f32 (1/2))) ax" and py: "py = fsub (fadd (fi y) (f32 (1/2))) ay"
      and t: "t = fl_clamp (fdiv (fadd (fmul px vx) (fmul py vy)) len2) (f32 0) (f32 1)" for x y px py t
  proof -
    have p: "sm 25 px" "sm 25 py" unfolding px py using centre_sm [OF xy(1,2) assms(4)] centre_sm [OF xy(3,4) assms(5)] assms by simp_all
    have "sm 49 (fadd (fmul px vx) (fmul py vy))" using sm_add [OF sm_mul [OF p(1) v(1)] sm_mul [OF p(2) v(2)]] by simp
    then have "num (fdiv (fadd (fmul px vx) (fmul py vy)) len2)" by (intro num_div_pos [OF sm_num len2]) simp_all
    then have "sm 0 t" unfolding t by (intro sm_unit unit_clamp)
    then have "sm 26 (fsub px (fmul t vx))" "sm 26 (fsub py (fmul t vy))"
      using sm_sub [OF p(1) sm_mul [OF _ v(1)]] sm_sub [OF p(2) sm_mul [OF _ v(2)]] by fastforce+
    then have "num (lm_hypotf lm (fsub px (fmul t vx)) (fsub py (fmul t vy)))" by (rule hypot_num [OF assms(1)])
    moreover have "sm (k + 3) (fmul w (f32 (1/2)))" using assms by (intro sm_mul sm_const) simp_all
    ultimately show ?thesis by (rule num_sub(1))
  qed
  have k: "k \<le> 27" "max i i' \<le> 24" "max j j' \<le> 24" using assms by simp_all
  show ?thesis
    unfolding capsule_def Let_def vx_def [symmetric] vy_def [symmetric] len2_def [symmetric]
    by (rule keeps_clipped [OF box_sm(1) [OF sm_min [OF assms(4,6)] assms(8) k(2,1)] box_sm(2) [OF sm_max [OF assms(4,6)] assms(8) k(2,1)]
          box_sm(1) [OF sm_min [OF assms(5,7)] assms(8) k(3,1)] box_sm(2) [OF sm_max [OF assms(5,7)] assms(8) k(3,1)]])
      (use d in \<open>simp_all add: assms(2) keeps_blend [OF assms(3) alpha_sm [OF assms(9,15)]]\<close>)
qed

section \<open>Captions\<close>

lemma keeps_glyph:
  assumes "col_ok c" "sm l a" "sm i x" "sm j cy" "sm k px" "i \<le> 28" "j \<le> 28" "k \<le> 20"
  shows "keeps sz (draw_glyph sz rows x cy px c a)"
proof -
  have f: "sm 8 (fi n)" if "n \<in> set [0..6]" for n using that by (intro sm_fi) auto
  have "sm (Suc (max i (8 + k))) (fadd x (fmul (fi n) px))" "sm (Suc (max j (8 + k))) (fadd cy (fmul (fi n) px))"
    "sm (Suc (max k 3)) (fadd px (f32 (1/2)))" if "n \<in> set [0..6]" for n
    by (intro sm_add sm_mul sm_const f that assms; use assms in \<open>simp; fail\<close>)+
  then have c: "keeps sz (cast_int (fadd x (fmul (fi n) px)) F)" "keeps sz (cast_int (fadd cy (fmul (fi n) px)) F)"
    "keeps sz (cast_int (fadd px (f32 (1/2))) F)" if "n \<in> set [0..6]" "\<And>i. keeps sz (F i)" for n F
    using that assms(6-8) by (auto intro!: keeps_cast)
  show ?thesis
    unfolding draw_glyph_def
    by (rule keeps_all)
      (auto simp: Let_def simp del: f32_half intro!: c(1,2) c(3) [of 0] keeps_Some keeps_pixels keeps_blend [OF assms(1,2)])
qed

lemma keeps_glyphs:
  assumes "col_ok c" "sm l a" "sm j cy" "sm k px" "sm m adv" "j \<le> 28" "k \<le> 20" "m \<le> i" "sm i x" "i + length s \<le> 28"
  shows "keeps sz (draw_glyphs sz s x cy px adv c a)"
  using assms(8-10)
proof (induction s arbitrary: x i)
  case Nil
  then show ?case by (simp add: keeps_Some)
next
  case (Cons ch s)
  have "sm (Suc (max i m)) (fadd x adv)" using Cons.prems assms(5) by (intro sm_add) simp_all
  then have "sm (Suc i) (fadd x adv)" using Cons.prems(1) by (simp add: max_absorb1)
  then have "keeps sz (draw_glyphs sz s (fadd x adv) cy px adv c a)" 
    using Cons.prems by (intro Cons.IH [of "Suc i"]) auto
  moreover have "keeps sz (draw_glyph sz (find_glyph ch) x cy px c a)"
    using keeps_glyph [OF assms(1,2) Cons.prems(2) assms(3,4)] Cons.prems(3) assms(6,7) by simp
  ultimately have "keeps sz (paint_all [draw_glyph sz (find_glyph ch) x cy px c a, draw_glyphs sz s (fadd x adv) cy px adv c a])"
    by (intro keeps_all) auto
  then show ?case by (simp only: draw_glyphs.simps)
qed

lemma keeps_label:
  assumes "col_ok c" "sm l a" "sm i cx" "sm j cy" "sm k px" "i \<le> 18" "j \<le> 28" "k \<le> 2" "length s \<le> 9"
  shows "keeps sz (draw_label sz s cx cy px c a)"
proof (cases "s = []")
  case True
  then show ?thesis by (simp add: draw_label_def keeps_Some)
next
  case False
  define gap where "gap = fmul px (f32 (16/10))"
  define adv where "adv = fadd (fmul (f32 5) px) gap"
  define total where "total = fsub (fmul (fi (int (length s))) adv) gap"
  have g: "sm (k + 3) gap" unfolding gap_def using assms by (intro sm_mul sm_const) simp_all
  have "sm (Suc (max (3 + k) (k + 3))) adv"
    unfolding adv_def using assms g by (intro sm_add sm_mul sm_const) simp_all
  then have adv: "sm (k + 4) adv" by (simp add: add.commute)
  have "sm (Suc (max (8 + (k + 4)) (k + 3))) total" unfolding total_def
    by (intro sm_sub sm_mul sm_fi adv g) (use assms(8,9) in simp_all)
  then have "sm (k + 13) total" by (simp add: max_absorb1 add.commute)
  then have "sm (Suc (max i (k + 13 + 3))) (fsub cx (fmul total (f32 (1/2))))"
    using assms(3,6,8) by (intro sm_sub sm_mul sm_const) simp_all
  then have x: "sm 19 (fsub cx (fmul total (f32 (1/2))))" using assms(6,8) by (elim sm_weaken) simp
  have "k \<le> 20" "k + 4 \<le> 19" "19 + length s \<le> 28" using assms(8,9) by simp_all
  then have "keeps sz (draw_glyphs sz s (fsub cx (fmul total (f32 (1/2)))) cy px adv c a)"
    by (rule keeps_glyphs [OF assms(1,2,4,5) adv assms(7) _ _ x])
  then show ?thesis using False by (simp only: draw_label_def Let_def if_False gap_def adv_def total_def)
qed

end
