(* ===== verification/Avatar_Frame.thy ===== *)
theory Avatar_Frame
  imports Avatar_Raster_Laws
begin

text \<open>
  The frame as a whole: the layout stays in range, each part of the drawing keeps the buffer good,
  and so does the frame; then what the X11 shell does with the frame on a visual without alpha.
\<close>

section \<open>Doubles\<close>

definition dfin :: "nat \<Rightarrow> fl \<Rightarrow> bool" where
  "dfin k x \<longleftrightarrow> (\<exists>q. x = Fin q \<and> \<bar>q\<bar> \<le> 2 ^ k)"

lemma f64_exact_pow: "k \<le> 1000 \<Longrightarrow> \<bar>s\<bar> = 1 \<Longrightarrow> f64 (of_int s * two_pow (int k)) = Fin (of_int s * two_pow (int k))"
proof -
  assume k: "k \<le> 1000" and s: "\<bar>s\<bar> = 1"
  have "two_pow (int k) < two_pow 1024" using two_pow_less_iff [of "int k" 1024] k by simp
  moreover have "\<bar>of_int s :: rat\<bar> = 1" using s by (simp flip: of_int_abs)
  ultimately have "\<bar>of_int s * two_pow (int k)\<bar> < two_pow (1023 + 1)" by (simp add: abs_mult abs_of_pos)
  then show ?thesis unfolding f64_def using s by (intro fround_representable [where m = s and k = "int k"]) simp_all
qed

lemma dfin_f64: "\<bar>q\<bar> \<le> 2 ^ k \<Longrightarrow> k \<le> 1000 \<Longrightarrow> dfin k (f64 q)"
proof -
  assume q: "\<bar>q\<bar> \<le> 2 ^ k" and k: "k \<le> 1000"
  have "fround 53 (- 1022) 1023 (- (2 ^ k)) = Fin (- (2 ^ k))" "fround 53 (- 1022) 1023 (2 ^ k) = Fin (2 ^ k)"
    using f64_exact_pow [OF k, of "- 1"] f64_exact_pow [OF k, of 1] by (simp_all add: f64_def two_pow_nat)
  then have "\<exists>r. f64 q = Fin r \<and> - (2 ^ k) \<le> r \<and> r \<le> 2 ^ k"
    unfolding f64_def using q by (intro fround_between) (simp_all add: abs_le_iff)
  then show ?thesis by (auto simp: dfin_def abs_le_iff)
qed

lemma dfin_mul: "dfin i x \<Longrightarrow> dfin j y \<Longrightarrow> i + j \<le> 1000 \<Longrightarrow> dfin (i + j) (dmul x y)"
proof -
  assume "dfin i x" "dfin j y" and k: "i + j \<le> 1000"
  then obtain p q where pq: "x = Fin p" "y = Fin q" "\<bar>p\<bar> \<le> 2 ^ i" "\<bar>q\<bar> \<le> 2 ^ j" by (auto simp: dfin_def)
  then have "\<bar>p * q\<bar> \<le> 2 ^ (i + j)" by (simp add: abs_mult power_add mult_mono)
  from dfin_f64 [OF this k] show ?thesis by (simp add: pq fl_mul_def)
qed

lemma dfin_add: "dfin i x \<Longrightarrow> dfin j y \<Longrightarrow> max i j < 1000 \<Longrightarrow> dfin (Suc (max i j)) (dadd x y)"
proof -
  assume "dfin i x" "dfin j y" and k: "max i j < 1000"
  then obtain p q where pq: "x = Fin p" "y = Fin q" "\<bar>p\<bar> \<le> 2 ^ i" "\<bar>q\<bar> \<le> 2 ^ j" by (auto simp: dfin_def)
  have "(2::rat) ^ i \<le> 2 ^ max i j" "(2::rat) ^ j \<le> 2 ^ max i j" by (simp_all add: power_increasing)
  then have "\<bar>p + q\<bar> \<le> 2 ^ Suc (max i j)"
    unfolding power_Suc using pq(3,4) abs_triangle_ineq [of p q] by linarith
  from dfin_f64 [OF this] k show ?thesis by (simp add: pq)
qed

text \<open>Dividing by something that is not below one half.\<close>

definition dpos :: "fl \<Rightarrow> bool" where
  "dpos y \<longleftrightarrow> (\<exists>q. y = Fin q \<and> 1 / 4 \<le> q)"

lemma dpos_f64: "1 / 4 \<le> c \<Longrightarrow> c \<le> 8 \<Longrightarrow> dpos (f64 c)"
proof -
  assume c: "1 / 4 \<le> c" "c \<le> 8"
  have "fround 53 (- 1022) 1023 (1 / 4) = Fin (1 / 4)"
    by (rule fround_representable [where m = 1 and k = "- 2"]) (simp_all add: two_pow_def)
  moreover have "fround 53 (- 1022) 1023 8 = Fin 8" using f64_of_int [of 8] by (simp add: f64_def)
  ultimately have "\<exists>r. f64 c = Fin r \<and> 1 / 4 \<le> r \<and> r \<le> 8" unfolding f64_def using c by (intro fround_between) simp_all
  then show ?thesis by (auto simp: dpos_def)
qed

lemma dfin_div: "dfin i x \<Longrightarrow> dpos y \<Longrightarrow> i \<le> 900 \<Longrightarrow> dfin (i + 2) (ddiv x y)"
proof -
  assume "dfin i x" "dpos y" and k: "i \<le> 900"
  then obtain p q where pq: "x = Fin p" "y = Fin q" "\<bar>p\<bar> \<le> 2 ^ i" "1 / 4 \<le> q" by (auto simp: dfin_def dpos_def)
  have "2 ^ i * (1 / 4) \<le> 2 ^ i * q" using pq(4) by (rule mult_left_mono) simp
  then have "\<bar>p\<bar> \<le> (2 ^ i * 4) * q" using pq(3) by linarith
  then have "\<bar>p / q\<bar> \<le> 2 ^ (i + 2)" using pq(4) by (simp add: abs_divide pos_divide_le_eq power_add)
  from dfin_f64 [OF this] k show ?thesis using pq by simp
qed

lemma f64_not_NaN [simp]: "f64 q \<noteq> NaN"
  by (simp add: f64_def fround_frd)

lemma to_f32_num: "x \<noteq> NaN \<Longrightarrow> num (to_f32 x)"
  by (cases x) simp_all

lemma ddiv_not_NaN: "x \<noteq> NaN \<Longrightarrow> dpos y \<Longrightarrow> ddiv x y \<noteq> NaN"
  by (cases x) (auto simp: dpos_def)

lemma dfin_not_NaN: "dfin k x \<Longrightarrow> x \<noteq> NaN"
  by (auto simp: dfin_def)

lemma to_f32_unit: "x = Fin q \<Longrightarrow> \<bar>q\<bar> \<le> 1 \<Longrightarrow> flr (- 1) 1 (to_f32 x)"
  by (simp add: abs_le_iff flr_f32)

lemma dfin_kTau: "dfin 3 kTau"
  unfolding kTau_def by (rule dfin_f64) simp_all

lemma wobble_unit:
  assumes "libm_ok lm" "dfin 42 tt" "1 / 4 \<le> period" "period \<le> 8"
  shows "flr (- 1) 1 (wobble lm tt period)"
proof -
  obtain r where "lm_sin lm (ddiv (dmul tt kTau) (f64 period)) = Fin r" "\<bar>r\<bar> \<le> 1"
  proof -
    have "dfin (42 + 3 + 2) (ddiv (dmul tt kTau) (f64 period))"
      by (intro dfin_div dfin_mul assms(2) dfin_kTau dpos_f64 assms(3,4)) simp_all
    then have "\<exists>x. ddiv (dmul tt kTau) (f64 period) = Fin x" by (auto simp: dfin_def)
    then show ?thesis using assms(1) that unfolding libm_ok_def by metis
  qed
  then show ?thesis unfolding wobble_def by (rule to_f32_unit)
qed

section \<open>Layout\<close>

definition layout_ok :: "int \<Rightarrow> layout \<Rightarrow> bool" where
  "layout_ok sz ly \<longleftrightarrow> 64 \<le> sz \<and> sz \<le> 192 \<and> ly_S ly = fi sz \<and> sm 11 (ly_cx ly) \<and> sm 13 (ly_cy ly) \<and>
     sm 11 (ly_R ly) \<and> sm 11 (ly_W ly) \<and> sm 14 (ly_dw ly)"

lemma layout_okD:
  assumes "layout_ok sz ly"
  shows "sz \<le> 192" "sm 8 (ly_S ly)" "sm 11 (ly_cx ly)" "sm 13 (ly_cy ly)" "sm 11 (ly_R ly)" "sm 11 (ly_W ly)" "sm 14 (ly_dw ly)"
  using assms sm_fi [of sz] by (simp_all add: layout_ok_def)

lemmas arith_sm = sm_add sm_sub sm_mul sm_const

lemma radius_ok:
  assumes "layout_ok sz ly" "flr (1/4) 1 x"
  shows "flr 16 192 (fmul (ly_S ly) x)"
proof -
  have "flr 64 192 (ly_S ly)"
    using assms(1) f32_exact_int [of sz] by (simp add: layout_ok_def fi_def flr_def f32_exact_def)
  then show ?thesis by (rule flr_mul [OF _ assms(2)]) simp_all
qed

lemma radius_const: "layout_ok sz ly \<Longrightarrow> 1 / 4 \<le> c \<Longrightarrow> c \<le> 1 \<Longrightarrow> flr 16 192 (fmul (ly_S ly) (f32 c))"
  by (intro radius_ok flr_f32) simp_all

lemma radius_grows:
  assumes "layout_ok sz ly" "flr 0 1 p" "1 / 4 \<le> c" "c \<le> 1 / 2" "0 \<le> e" "e \<le> 1 / 2"
  shows "flr 16 192 (fmul (ly_S ly) (fadd (f32 c) (fmul (f32 e) p)))"
proof -
  have "flr (1/4) (1/2) (f32 c)" "flr 0 (1/2) (f32 e)" using assms(3-6) by (simp_all add: flr_f32)
  moreover from this(2) have "flr 0 (1/2) (fmul (f32 e) p)" by (rule flr_mul [OF _ assms(2)]) simp_all
  ultimately have "flr (1/4 + 0) (1/2 + 1/2) (fadd (f32 c) (fmul (f32 e) p))" by (intro flr_add) simp_all
  then show ?thesis using assms(1) by (intro radius_ok) simp_all
qed

lemma make_layout_ok:
  assumes "libm_ok lm" "64 \<le> sz" "sz \<le> 192" "dfin 42 tt"
  shows "layout_ok sz (make_layout lm sz st tt)"
proof -
  have S: "sm 8 (fi sz)" using assms by (intro sm_fi) simp_all
  have w: "sm 0 (wobble lm tt (32/10))" using assms by (intro sm_unit(2) wobble_unit) simp_all
  have c: "sm (8 + 3) (fmul (fi sz) (f32 q))" if "\<bar>q\<bar> \<le> 8" for q using S that by (intro sm_mul sm_const) simp_all
  have "sm (0 + 8 + 3) (fmul (fmul (wobble lm tt (32/10)) (fi sz)) (f32 (22/1000)))" using w S by (intro sm_mul sm_const) simp_all
  then have bob: "sm 11 (if st = Av_Writing then f32 0 else fmul (fmul (wobble lm tt (32/10)) (fi sz)) (f32 (22/1000)))"
    using sm_weaken [OF sm_const [of 0], of 11] by simp
  have "sm 11 (fmul (fi sz) (if st = Av_Writing then f32 (40/100) else f32 (46/100)))"
    using c [of "40/100"] c [of "46/100"] by simp
  then have "sm (Suc (max 11 11)) (fadd (fmul (fi sz) (if st = Av_Writing then f32 (40/100) else f32 (46/100)))
      (if st = Av_Writing then f32 0 else fmul (fmul (wobble lm tt (32/10)) (fi sz)) (f32 (22/1000))))" using bob by (rule sm_add) simp
  then
  have cy: "sm 13 (fadd (fmul (fi sz) (if st = Av_Writing then f32 (40/100) else f32 (46/100)))
      (if st = Av_Writing then f32 0 else fmul (fmul (wobble lm tt (32/10)) (fi sz)) (f32 (22/1000))))"
    by (rule sm_weaken) simp_all
  have W: "sm 11 (fmul (fi sz) (f32 (32/1000)))" using c [of "32/1000"] by simp
  have "sm (11 + 3) (fmul (fmul (fi sz) (f32 (32/1000))) (f32 (105/100)))" using W by (intro sm_mul sm_const) simp_all
  then show ?thesis
    using assms(2,3) cy W c [of "1/2"] c [of "175/1000"] unfolding layout_ok_def make_layout_def Let_def by simp
qed

section \<open>Parts of the frame\<close>

lemma fixed_cols: "col_ok kInk" "col_ok kRim" "col_ok \<lparr>c_r = f32 (83/100), c_g = f32 (58/100), c_b = f32 (18/100)\<rparr>"
  by (simp_all add: col_ok_def kInk_def kRim_def flr_f32)

text \<open>An accent is nowhere brighter than the ink, so the mix of the two is a colour.\<close>

definition accent_ok :: "col \<Rightarrow> bool" where
  "accent_ok c \<longleftrightarrow> (\<forall>(ink, acc) \<in> {(c_r kInk, c_r c), (c_g kInk, c_g c), (c_b kInk, c_b c)}.
     \<exists>i a. ink = Fin i \<and> acc = Fin a \<and> f32_exact a \<and> 3 / 4 \<le> i \<and> i \<le> 1 \<and> f32_exact i \<and> 0 \<le> a \<and> a \<le> i)"

lemma accent_col_ok: "accent_ok c \<Longrightarrow> col_ok c"
  by (auto simp: accent_ok_def col_ok_def flr_def)

lemma mix_channel:
  assumes "f32_exact i" "3 / 4 \<le> i" "i \<le> 1" "f32_exact a" "0 \<le> a" "a \<le> i" "flr 0 1 m"
  shows "flr 0 1 (fadd (Fin i) (fmul (fmul (fsub (Fin a) (Fin i)) m) (f32 (6/10))))"
proof -
  have "flr (- 1) 0 (fsub (Fin a) (Fin i))" using assms by (simp add: fl_sub_def flr_f32)
  then have "flr (- 1) 0 (fmul (fsub (Fin a) (Fin i)) m)" by (rule flr_mul [OF _ assms(7)]) simp_all
  moreover have "flr (1/2) (3/4) (f32 (6/10))" by (rule flr_f32) simp_all
  ultimately have "flr (- (3/4)) 0 (fmul (fmul (fsub (Fin a) (Fin i)) m) (f32 (6/10)))" by (rule flr_mul) simp_all
  then obtain q where "fmul (fmul (fsub (Fin a) (Fin i)) m) (f32 (6/10)) = Fin q" "- (3/4) \<le> q" "q \<le> 0" by (elim flrE)
  then show ?thesis using assms(2,3) by (simp add: flr_f32)
qed

lemma mix_ok: "accent_ok c \<Longrightarrow> flr 0 1 m \<Longrightarrow> col_ok (mix_col c m)"
  unfolding accent_ok_def col_ok_def mix_col_def Let_def
  by (auto simp del: fl_add.simps intro: mix_channel [simplified])

lemma accents:
  assumes "ch \<in> set AVATAR_CHARACTERS"
  shows "accent_ok (accent_col ch)" "dpos (ac_tempo ch)"
proof -
  have col: "\<exists>i a. f32 q = Fin i \<and> f32 p = Fin a \<and> f32_exact a \<and> 3 / 4 \<le> i \<and> i \<le> 1 \<and> f32_exact i \<and> 0 \<le> a \<and> a \<le> i"
    if "0 \<le> p" "p \<le> q" "3 / 4 \<le> q" "q \<le> 1" for p q
  proof -
    have "flr (3/4) 1 (f32 q)" using that(3,4) by (simp add: flr_f32)
    then obtain i where i: "f32 q = Fin i" "f32_exact i" "3/4 \<le> i" "i \<le> 1" by (elim flrE)
    have "flr 0 1 (f32 p)" using that by (simp add: flr_f32)
    then obtain a where a: "f32 p = Fin a" "f32_exact a" "0 \<le> a" by (elim flrE)
    then show ?thesis using i f32_mono [OF that(2) a(1) i(1)] by blast
  qed
  show "accent_ok (accent_col ch)"
    using assms by (auto simp: AVATAR_CHARACTERS_def character_def accent_col_def accent_ok_def kInk_def simp del: f32_small f32_half intro!: col [simplified])
  have "dpos (f32 t)" if "1/4 \<le> t" "t \<le> 2" for t
    using flr_f32 [of "1/4" 2 t] that by (auto simp: dpos_def flr_def)
  then show "dpos (ac_tempo ch)"
    using assms by (auto simp: AVATAR_CHARACTERS_def character_def simp del: f32_small)
qed

text \<open>
  Each part of the drawing: the shapes it is made of keep the buffer good because their coordinates,
  radii, widths and alphas are bounded.
\<close>

lemma keeps_nil: "keeps sz (paint_all [])"
  by (rule keeps_all) simp

lemma keeps_cons: "keeps sz p \<Longrightarrow> keeps sz (paint_all ps) \<Longrightarrow> keeps sz (paint_all (p # ps))"
  unfolding keeps_def by (auto simp: bind_eq_Some_conv)

lemmas keeps_all2 = keeps_nil keeps_cons

lemmas unit_sm = sm_unit(1) sm_unit(2)

lemma keeps_aura:
  assumes lm: "libm_ok lm" and ly: "layout_ok sz ly" and c: "accent_ok c" and tt: "dfin 42 tt" and ph: "phase = Fin p" and lv: "flr 0 1 level"
  shows "keeps sz (draw_aura lm sz ly c st tt phase level)"
proof -
  note L = layout_okD [OF ly]
  note w = sm_unit(2) [OF wobble_unit [OF lm tt]]
  have q: "flr 0 1 (fl_clamp (to_f32 (ddiv phase (f64 (45/100)))) (f32 0) (f32 1))"
    by (intro unit_clamp to_f32_num ddiv_not_NaN dpos_f64) (simp_all add: ph)
  have m: "flr 0 1 (fadd (f32 (5/10)) (fmul (f32 (5/10)) (wobble lm tt 5)))"
  proof -
    have "flr (1/2) (1/2) (f32 (5/10))" by (rule flr_f32) simp_all
    moreover from this have "flr (- (1/2)) (1/2) (fmul (f32 (5/10)) (wobble lm tt 5))"
      by (rule flr_mul [OF _ wobble_unit [OF lm tt]]) simp_all
    ultimately have "flr (1/2 + - (1/2)) (1/2 + 1/2) (fadd (f32 (5/10)) (fmul (f32 (5/10)) (wobble lm tt 5)))"
      by (rule flr_add) simp_all
    then show ?thesis by simp
  qed
  note acc = accent_col_ok [OF c] and glow = keeps_glow [OF lm] and ring = keeps_ring [OF lm]
  note unit = sm_unit(1) [OF q] sm_unit(1) [OF lv]
  show ?thesis
  proof (cases st)
    case Hidden
    then show ?thesis by (simp add: draw_aura_def keeps_Some)
  next
    case Av_Idle
    show ?thesis unfolding draw_aura_def Let_def Av_Idle avatar_state.case
      by (rule glow fixed_cols radius_const [OF ly] L arith_sm w | (simp; fail))+
  next
    case Summoned
    show ?thesis unfolding draw_aura_def Let_def Summoned avatar_state.case
      by (rule keeps_all2 glow ring acc radius_grows [OF ly q] L arith_sm unit | (simp; fail))+
  next
    case Listening
    show ?thesis unfolding draw_aura_def Let_def Listening avatar_state.case
      by (rule keeps_all2 glow ring acc radius_grows [OF ly lv] L arith_sm unit | (simp; fail))+
  next
    case Thinking
    show ?thesis unfolding draw_aura_def Let_def Thinking avatar_state.case
      by (rule glow acc radius_const [OF ly] L arith_sm w | (simp; fail))+
  next
    case Av_Writing
    show ?thesis unfolding draw_aura_def Let_def Av_Writing avatar_state.case
      by (rule glow acc radius_const [OF ly] L arith_sm w | (simp; fail))+
  next
    case Ambient
    show ?thesis unfolding draw_aura_def Let_def Ambient avatar_state.case
      by (rule glow mix_ok [OF c m] radius_const [OF ly] L arith_sm w | (simp; fail))+
  next
    case Av_Error
    have b: "sm 3 (if b then f32 (55/100) else f32 (15/100))" for b by (simp add: sm_const)
    show ?thesis unfolding draw_aura_def Let_def Av_Error avatar_state.case
      by (rule glow fixed_cols radius_const [OF ly] L b | (simp; fail))+
  qed
qed

lemma keeps_mark:
  assumes lm: "libm_ok lm" and ly: "layout_ok sz ly"
  shows "keeps sz (draw_mark lm sz ly)"
  unfolding draw_mark_def Let_def
  by (rule keeps_all2 keeps_ring [OF lm] keeps_capsule [OF lm] fixed_cols layout_okD [OF ly] arith_sm | (simp; fail))+

lemma keeps_wings:
  assumes lm: "libm_ok lm" and ly: "layout_ok sz ly"
  shows "keeps sz (draw_wings lm sz ly)"
  unfolding draw_wings_def Let_def list.map concat.simps append.simps
  by (rule keeps_all2 keeps_capsule [OF lm] fixed_cols layout_okD [OF ly] arith_sm | (simp; fail))+

lemma keeps_inner_ring:
  assumes lm: "libm_ok lm" and ly: "layout_ok sz ly"
  shows "keeps sz (draw_inner_ring lm sz ly)"
  unfolding draw_inner_ring_def Let_def
  by (rule keeps_all2 keeps_ring [OF lm] fixed_cols layout_okD [OF ly] arith_sm | (simp; fail))+

lemma trig_sm:
  assumes "libm_ok lm" "sm k x"
  shows "sm 0 (lm_sinf lm x)" "sm 0 (lm_cosf lm x)"
  using assms by (auto elim!: smE simp: libm_ok_def intro: sm_unit)

lemma to_f32_sm: "dfin k x \<Longrightarrow> k \<le> 126 \<Longrightarrow> sm k (to_f32 x)"
  by (auto simp: dfin_def sm_f32)

lemma keeps_crown:
  assumes lm: "libm_ok lm" and ly: "layout_ok sz ly"
  shows "keeps sz (draw_crown lm sz ly)"
proof -
  have i: "sm 8 (fi i)" if "- 1 \<le> i" "i \<le> 1" for i
    using that unfolding fi_def by (intro sm_f32) auto
  have "dfin (3 + 3) (dmul kTau (f32 (25/100)))"
    using sm_const [of "25/100"] by (intro dfin_mul dfin_kTau) (auto elim!: smE simp: dfin_def)
  then have a: "sm 6 (to_f32 (dmul kTau (f32 (25/100))))" by (intro to_f32_sm) simp_all
  have r: "sm 11 (if b then fmul (ly_S ly) (f32 (24/1000)) else fmul (ly_S ly) (f32 (18/1000)))" for b
    using sm_mul [OF layout_okD(2) [OF ly] sm_const [of "24/1000"]] sm_mul [OF layout_okD(2) [OF ly] sm_const [of "18/1000"]] by simp
  have "keeps sz (draw_star lm sz ly i)" if "- 1 \<le> i" "i \<le> 1" for i
    unfolding draw_star_def Let_def
    by (rule keeps_all2 keeps_disc [OF lm] fixed_cols layout_okD [OF ly] arith_sm trig_sm [OF lm] a r i [OF that] | (simp; fail))+
  then show ?thesis unfolding draw_crown_def by (intro keeps_all) auto
qed

lemma keeps_motes:
  assumes lm: "libm_ok lm" and ly: "layout_ok sz ly" and tt: "dfin 42 tt"
  shows "keeps sz (draw_motes lm sz ly tt)"
proof -
  have bob: "sm 0 (to_f32 (lm_sin lm (dadd (ddiv (dmul tt kTau) (f64 (28/10))) (dmul (Fin i) (f64 (21/10))))))" if "\<bar>i\<bar> \<le> 2" for i
  proof -
    have i: "dfin 1 (Fin i)" using that by (simp add: dfin_def)
    have "dfin (Suc (max (42 + 3 + 2) (1 + 3))) (dadd (ddiv (dmul tt kTau) (f64 (28/10))) (dmul (Fin i) (f64 (21/10))))"
      by (intro dfin_add dfin_div dfin_mul tt dfin_kTau dpos_f64 dfin_f64 i) simp_all
    then obtain q where "dadd (ddiv (dmul tt kTau) (f64 (28/10))) (dmul (Fin i) (f64 (21/10))) = Fin q" by (auto simp: dfin_def)
    moreover obtain r where "lm_sin lm (Fin q) = Fin r" "\<bar>r\<bar> \<le> 1" using lm unfolding libm_ok_def by blast
    ultimately show ?thesis using to_f32_unit [of "Fin r" r] by (simp add: sm_unit)
  qed
  have "keeps sz (draw_mote lm sz ly tt i mx my mr ma)"
    if "\<bar>i\<bar> \<le> 2" "\<bar>mx\<bar> \<le> 8" "\<bar>my\<bar> \<le> 8" "\<bar>mr\<bar> \<le> 8" "\<bar>ma\<bar> \<le> 8" for i mx my mr ma
    unfolding draw_mote_def Let_def
    by (rule keeps_all2 keeps_disc [OF lm] fixed_cols layout_okD [OF ly] sm_add sm_sub sm_mul bob sm_const that | (simp; fail))+
  then show ?thesis unfolding draw_motes_def by (intro keeps_all2) simp_all
qed

lemma keeps_signature:
  assumes "libm_ok lm" "layout_ok sz ly" "dfin 42 tt"
  shows "keeps sz (draw_signature lm sz ly sig tt)"
  using assms by (cases sig)
    (simp_all add: draw_signature_def keeps_Some keeps_wings keeps_inner_ring keeps_crown keeps_motes)

lemma keeps_orbit:
  assumes lm: "libm_ok lm" and ly: "layout_ok sz ly" and c: "accent_ok c" and tt: "dfin 42 tt"
  shows "keeps sz (draw_orbit lm sz ly c tt)"
proof -
  have "dfin (42 + 3 + 2) (ddiv (dmul tt kTau) (f64 (11/10)))"
    by (intro dfin_div dfin_mul tt dfin_kTau dpos_f64) simp_all
  then have ang: "sm 47 (to_f32 (ddiv (dmul tt kTau) (f64 (11/10))))" using to_f32_sm [of 47] by simp
  show ?thesis
    unfolding draw_orbit_def Let_def
    by (rule keeps_all2 keeps_disc [OF lm] fixed_cols accent_col_ok [OF c] layout_okD [OF ly] arith_sm trig_sm [OF lm ang] | (simp; fail))+
qed

lemma keeps_stroke:
  assumes lm: "libm_ok lm" and ly: "layout_ok sz ly" and c: "accent_ok c" and ph: "phase = Fin p" and s: "sm 5 start" "sm 3 seg" "\<bar>i\<bar> \<le> 2"
  shows "keeps sz (draw_stroke lm sz ly c phase (i, start, seg))"
proof -
  define prog where "prog = fl_clamp (to_f32 (ddiv (dsub (fl_fmod phase (f64 (16/10))) (dadd (f64 (12/100)) (dmul (Fin i) (f64 (38/100))))) (f64 (30/100)))) (f32 0) (f32 1)"
  have i: "dfin 1 (Fin i)" using s(3) by (simp add: dfin_def)
  have "dfin (Suc (max 0 (1 + 0))) (dadd (f64 (12/100)) (dmul (Fin i) (f64 (38/100))))"
    by (intro dfin_add dfin_mul dfin_f64 i) simp_all
  then obtain b where b: "dadd (f64 (12/100)) (dmul (Fin i) (f64 (38/100))) = Fin b" by (auto simp: dfin_def)
  have "dpos (f64 (16/10))" by (rule dpos_f64) simp_all
  then obtain f where f: "fl_fmod phase (f64 (16/10)) = Fin f" using ph by (auto simp: dpos_def)
  have "dsub (Fin f) (Fin b) \<noteq> NaN" by (simp add: fl_sub_def)
  then have "flr 0 1 prog" unfolding prog_def b f by (intro unit_clamp to_f32_num ddiv_not_NaN dpos_f64) simp_all
  then have pr: "sm 0 prog" by (rule sm_unit)
  note rules = keeps_all2 keeps_disc [OF lm] keeps_capsule [OF lm] fixed_cols accent_col_ok [OF c] layout_okD [OF ly] arith_sm s pr keeps_Some
  show ?thesis
  proof (cases "fl_le prog (f32 0)")
    case True
    then show ?thesis unfolding draw_stroke_def Let_def split prog_def by (simp only: if_True keeps_Some)
  next
    case False
    show ?thesis
    proof (cases "fl_lt prog (f32 1)")
      case True
      show ?thesis
        unfolding draw_stroke_def Let_def split prog_def [symmetric] if_not_P [OF False] if_P [OF True]
        by (rule rules | (simp; fail))+
    next
      case False': False
      show ?thesis
        unfolding draw_stroke_def Let_def split prog_def [symmetric] if_not_P [OF False] if_not_P [OF False']
        by (rule rules | (simp; fail))+
    qed
  qed
qed

lemma keeps_actor:
  assumes lm: "libm_ok lm" and ly: "layout_ok sz ly" and c: "accent_ok c" and tt: "dfin 42 tt" and ph: "phase = Fin p" and lv: "flr 0 1 level"
  shows "keeps sz (draw_actor lm sz ly c st tt phase level)"
proof -
  have w: "sm 0 (wobble lm tt (26/10))" by (intro sm_unit(2) wobble_unit [OF lm tt]) simp_all
  note rules = keeps_all2 keeps_disc [OF lm] fixed_cols accent_col_ok [OF c] layout_okD [OF ly] arith_sm w sm_unit(1) [OF lv]
  have lis: "keeps sz (disc lm sz (ly_cx ly) (ly_cy ly) (fmul (ly_R ly) (fadd (f32 (30/100)) (fmul (f32 (25/100)) level))) c (f32 (85/100)))"
    by (rule rules | (simp; fail))+
  have amb: "keeps sz (paint_all [
      disc lm sz (fsub (ly_cx ly) (fmul (ly_R ly) (f32 (21/10)))) (fadd (ly_cy ly) (fmul (fmul (wobble lm tt (26/10)) (ly_S ly)) (f32 (2/100))))
        (fmul (ly_S ly) (f32 (18/1000))) kInk (f32 (35/100)),
      disc lm sz (fadd (ly_cx ly) (fmul (ly_R ly) (f32 (21/10)))) (fsub (ly_cy ly) (fmul (fmul (wobble lm tt (26/10)) (ly_S ly)) (f32 (2/100))))
        (fmul (ly_S ly) (f32 (18/1000))) kInk (f32 (35/100))])"
    by (rule rules | (simp; fail))+
  have start: "sm 4 (fadd (f32 (30/100)) (f32 (8/100)))" "sm 5 (fadd (f32 (30/100)) (fadd (f32 (22/100)) (f32 (16/100))))"
    using sm_add [OF sm_const [of "30/100"] sm_const [of "8/100"]]
      sm_add [OF sm_const [of "30/100"] sm_add [OF sm_const [of "22/100"] sm_const [of "16/100"]]] by simp_all
  note st0 = sm_weaken [OF sm_const [of 0], of 5] sm_weaken [OF start(1), of 5] start(2)
  have str: "keeps sz (draw_strokes lm sz ly c phase)"
    unfolding draw_strokes_def list.map
    by (intro keeps_all2 keeps_stroke [OF lm ly c ph] st0 sm_const) simp_all
  show ?thesis
    using lis amb str keeps_orbit [OF lm ly c tt] unfolding draw_actor_def Let_def by (simp only: keeps_Some split: if_split) blast
qed

lemma caption_length: "length (avatar_state_label st) \<le> 9"
  by (cases st) simp_all

lemma keeps_caption:
  assumes ly: "layout_ok sz ly"
  shows "keeps sz (draw_caption sz ly st)"
proof (cases "avatar_state_label st = []")
  case True
  then show ?thesis by (simp add: draw_caption_def keeps_Some)
next
  case False
  note L = layout_okD [OF ly]
  have "flr 0 (1/64) (f32 (13/1000))"
  proof (rule flr_f32)
    have "fround 24 (- 126) 127 (1/64) = Fin (1/64)"
      by (rule fround_representable [where m = 1 and k = "- 6"]) (simp_all add: two_pow_def)
    then show "f32_exact (1/64)" by (simp add: f32_exact_def f32_def)
  qed simp_all
  moreover have "flr 64 192 (ly_S ly)"
    using ly f32_exact_int [of sz] by (simp add: layout_ok_def fi_def flr_def f32_exact_def)
  moreover have "f32_exact 3" "f32_exact 0" using f32_exact_int [of 3] by simp_all
  ultimately have "flr 0 3 (fmul (ly_S ly) (f32 (13/1000)))" by (intro flr_mul [of 64 192 _ 0 "1/64"]) simp_all
  then have lx: "sm 2 (fmul (ly_S ly) (f32 (13/1000)))" by (rule flr_sm) simp_all
  have len: "sm 8 (fi (int (length (avatar_state_label st))))" using caption_length [of st] by (intro sm_fi) simp_all
  have "sm (8 + 3) (fmul (ly_S ly) (f32 q))" if "\<bar>q\<bar> \<le> 8" for q using L(2) that by (intro sm_mul sm_const) simp_all
  then have y: "sm 11 (fmul (ly_S ly) (if st = Av_Writing then f32 (90/100) else f32 (88/100)))" by simp
  have far: "sm 4 (f32 (84/10))" by (rule sm_f32) simp_all
  note rules = keeps_all2 keeps_cast keeps_pixels keeps_blend fixed_cols lx len y L far arith_sm
    keeps_label [OF fixed_cols(1) _ L(3) y lx _ _ _ caption_length]
  show ?thesis
    unfolding draw_caption_def Let_def if_not_P [OF False]
    by (rule rules | (simp; fail))+
qed

section \<open>The frame\<close>

lemma keeps_frame:
  assumes lm: "libm_ok lm" and sz: "64 \<le> sz" "sz \<le> 192" and ch: "ch \<in> set AVATAR_CHARACTERS"
    and t: "dfin 40 t" and ph: "phase = Fin p" and lv: "num level"
  shows "\<exists>buf. avatar_rasterize lm sz ch st t phase level = Some buf \<and> good sz buf"
proof -
  have blank: "good sz (replicate (nat (sz * sz)) 0)"
    by (simp add: good_def list_all_iff premultiplied_def channel_def)
  have tt: "dfin 42 (ddiv t (ac_tempo ch))" using dfin_div [OF t accents(2) [OF ch]] by simp
  note a = accents(1) [OF ch] and ly = make_layout_ok [OF lm sz tt] and l = unit_clamp [OF lv]
  have "keeps sz (paint_all [
      draw_aura lm sz (make_layout lm sz st (ddiv t (ac_tempo ch))) (accent_col ch) st (ddiv t (ac_tempo ch)) phase (fl_clamp level (f32 0) (f32 1)),
      draw_mark lm sz (make_layout lm sz st (ddiv t (ac_tempo ch))),
      draw_signature lm sz (make_layout lm sz st (ddiv t (ac_tempo ch))) (ac_signature ch) (ddiv t (ac_tempo ch)),
      draw_actor lm sz (make_layout lm sz st (ddiv t (ac_tempo ch))) (accent_col ch) st (ddiv t (ac_tempo ch)) phase (fl_clamp level (f32 0) (f32 1)),
      draw_caption sz (make_layout lm sz st (ddiv t (ac_tempo ch))) st])"
    by (intro keeps_all2 keeps_aura [OF lm ly a tt ph l] keeps_mark [OF lm ly] keeps_signature [OF lm ly tt]
        keeps_actor [OF lm ly a tt ph l] keeps_caption [OF ly])
  from keepsD [OF this blank] blank show ?thesis unfolding avatar_rasterize_def Let_def by (cases "st = Hidden") simp_all
qed

lemma find_character_in: "find_character who \<in> set AVATAR_CHARACTERS"
proof (cases "find (\<lambda>c. ac_id c = who) AVATAR_CHARACTERS")
  case None
  then show ?thesis by (simp add: find_character_def AVATAR_CHARACTERS_def)
next
  case (Some c)
  then have "c \<in> set AVATAR_CHARACTERS" by (auto simp: find_Some_iff)
  then show ?thesis by (simp add: find_character_def Some)
qed

text \<open>What the X11 shell puts on the screen: the frame, on a visual without alpha composed over the plate.\<close>

definition x11_frame :: "libm \<Rightarrow> bool \<Rightarrow> int \<Rightarrow> avatar_character \<Rightarrow> snapshot \<Rightarrow> canvas option" where
  "x11_frame lm argb sz ch snap =
     map_option (\<lambda>buf. if argb then buf else map plate_pixel buf)
       (avatar_rasterize lm sz ch (sn_state snap) (sn_t snap) (sn_phase snap) (sn_level snap))"

lemma plate_add:
  assumes "c \<le> a" "a \<le> 255" "(k :: u32) \<le> 0x17"
  shows "c + (k * (255 - a) + 127) div 255 \<le> 255"
proof -
  have n: "unat c \<le> unat a" "unat a \<le> 255" "unat k \<le> 23" using assms by (simp_all add: word_le_nat_alt)
  have inv: "unat (255 - a) = 255 - unat a" using assms(2) by (simp add: unat_sub)
  have "unat k * (255 - unat a) \<le> 23 * 255" using n by (intro mult_mono) simp_all
  then have m: "unat (k * (255 - a) + 127) = unat k * (255 - unat a) + 127"
    by (simp add: inv unat_word_ariths)
  have "unat k * (255 - unat a) \<le> 23 * (255 - unat a)" using n(3) by (rule mult_right_mono) simp
  then have "unat k * (255 - unat a) + 127 < Suc (255 - unat a) * 255" unfolding mult_Suc by linarith
  then have "(unat k * (255 - unat a) + 127) div 255 < Suc (255 - unat a)" by (rule less_mult_imp_div_less)
  then have d: "(unat k * (255 - unat a) + 127) div 255 \<le> 255 - unat a" by simp
  have "unat ((k * (255 - a) + 127) div 255) \<le> 255 - unat a" using d unfolding unat_div m by simp
  moreover have "unat (c + w) \<le> unat c + unat w" for w by (simp add: unat_word_ariths(1) mod_less_eq_dividend)
  ultimately have "unat (c + (k * (255 - a) + 127) div 255) \<le> unat c + (255 - unat a)" by (meson add_left_mono order_trans)
  then have "unat (c + (k * (255 - a) + 127) div 255) \<le> 255" using n by linarith
  then show ?thesis by (simp add: word_le_nat_alt)
qed

lemma plate_pixel_pack:
  "plate_pixel px = pack 255 (channel 16 px + (0x16 * (255 - drop_bit 24 px) + 127) div 255)
     (channel 8 px + (0x16 * (255 - drop_bit 24 px) + 127) div 255) (channel 0 px + (0x17 * (255 - drop_bit 24 px) + 127) div 255)"
  by (simp add: plate_pixel_def pack_def channel_def Let_def)

lemma alpha_channel: "drop_bit 24 px = channel 24 (px :: u32)"
  by (rule bit_word_eqI) (auto simp: bit_channel bit_drop_bit_eq dest: bit_imp_le_length)

section \<open>Properties\<close>

text \<open>C26: The renderer is safe and its frames are well formed: for every window size the configuration
  allows, every character, every state, any finite time and any level that is a number, no
  conversion is out of range and no write outside the buffer, and the frame it returns has exactly
  size times size pixels, each premultiplied: no colour exceeds its alpha.\<close>

theorem frame_premultiplied:
  assumes "libm_ok lm" "64 \<le> sz" "sz \<le> 192" "dfin 40 t" "phase = Fin p" "num level"
  shows "\<exists>buf. avatar_rasterize lm sz (find_character who) st t phase level = Some buf \<and>
    length buf = nat (sz * sz) \<and> list_all premultiplied buf"
  using keeps_frame [OF assms(1-3) find_character_in assms(4-6), of who st] by (simp add: good_def)

definition flat_libm :: libm where
  "flat_libm = \<lparr>lm_sin = (\<lambda>_. Fin 0), lm_sinf = (\<lambda>_. Fin 0), lm_cosf = (\<lambda>_. Fin 1),
     lm_hypotf = (\<lambda>x y. fl_add f32 (fl_abs x) (fl_abs y))\<rparr>"

lemma flat_libm_ok: "libm_ok flat_libm"
proof -
  have "f32 s = PInf \<or> (\<exists>r\<ge>0. f32 s = Fin r \<and> f32_exact r)" if s: "0 \<le> s" for s
  proof (cases "f32 s")
    case (Fin r)
    have "0 \<le> r" by (rule f32_mono [OF s _ Fin]) simp
    then show ?thesis using num_f32 [of s] Fin by (simp add: num_def)
  qed (use f32_nonneg [OF s] num_f32 [of s] in \<open>simp_all add: num_def\<close>)
  then show ?thesis by (simp add: libm_ok_def flat_libm_def flr_def)
qed

theorem frame_premultiplied_witness:
  "\<exists>buf. avatar_rasterize flat_libm 96 (find_character ''hermes'') Listening (Fin 2) (Fin (1/2)) (Fin (1/2)) = Some buf \<and>
    length buf = nat (96 * 96) \<and> list_all premultiplied buf"
  by (rule frame_premultiplied [OF flat_libm_ok, where p = "1/2"]) (simp_all add: dfin_def)

text \<open>Without a compositor a premultiplied pixel is composed over the dark plate without one channel
  spilling into the next: the result is opaque and each of its channels is exactly the pixel's own plus the
  plate's share, rounded to nearest.\<close>

theorem plate_no_carry:
  assumes "premultiplied px"
  shows "channel 24 (plate_pixel px) = 255 \<and>
    channel 16 (plate_pixel px) = channel 16 px + (0x16 * (255 - channel 24 px) + 127) div 255 \<and>
    channel 8 (plate_pixel px) = channel 8 px + (0x16 * (255 - channel 24 px) + 127) div 255 \<and>
    channel 0 (plate_pixel px) = channel 0 px + (0x17 * (255 - channel 24 px) + 127) div 255"
proof -
  have c: "channel 16 px \<le> channel 24 px" "channel 8 px \<le> channel 24 px" "channel 0 px \<le> channel 24 px"
    using assms by (simp_all add: premultiplied_def)
  have "channel 16 px + (0x16 * (255 - channel 24 px) + 127) div 255 \<le> 255"
    "channel 8 px + (0x16 * (255 - channel 24 px) + 127) div 255 \<le> 255"
    "channel 0 px + (0x17 * (255 - channel 24 px) + 127) div 255 \<le> 255"
    by (rule plate_add [OF c(1) channel_le] plate_add [OF c(2) channel_le] plate_add [OF c(3) channel_le], simp)+
  from pack_channels [OF order_refl this] show ?thesis unfolding plate_pixel_pack alpha_channel by blast
qed

theorem plate_no_carry_witness:
  "channel 24 (plate_pixel 0x80402010) = 255 \<and>
    channel 16 (plate_pixel 0x80402010) = channel 16 0x80402010 + (0x16 * (255 - channel 24 0x80402010) + 127) div 255 \<and>
    channel 8 (plate_pixel 0x80402010) = channel 8 0x80402010 + (0x16 * (255 - channel 24 0x80402010) + 127) div 255 \<and>
    channel 0 (plate_pixel 0x80402010) = channel 0 0x80402010 + (0x17 * (255 - channel 24 0x80402010) + 127) div 255"
  by (rule plate_no_carry) (simp add: premultiplied_def channel_def)

end
