(* ===== verification/Avatar_Shell.thy ===== *)
theory Avatar_Shell
  imports Avatar Step_Systems
begin

text \<open>
  The shells around the companion: the manager's operations, common to the platforms
  (start, stop, set_state of src/src/avatar/platform/avatar_x11.cpp and avatar_win32.cpp), the window
  procedure of the Windows shell, the two threads of a shell as step relations, and the demo command
  (src/src/cli/cli_avatar_demo.cpp). Window system calls are events and effects.
\<close>

section \<open>The manager\<close>

record avatar_manager =
  mg_enabled :: bool
  mg_has_level :: bool
  mg_has_ambient :: bool
  mg_has_toggle :: bool
  mg_running :: bool
  mg_ticker :: "avatar_ticker option"

definition mg_new :: "bool \<Rightarrow> bool \<Rightarrow> bool \<Rightarrow> avatar_manager" where
  "mg_new enabled level ambient = \<lparr>mg_enabled = enabled, mg_has_level = level, mg_has_ambient = ambient,
     mg_has_toggle = False, mg_running = False, mg_ticker = None\<rparr>"

definition mg_on_toggle :: "avatar_manager \<Rightarrow> avatar_manager" where
  "mg_on_toggle m = m\<lparr>mg_has_toggle := True\<rparr>"

text \<open>The second component tells whether a window thread is started.\<close>

definition mg_start :: "avatar_manager \<Rightarrow> avatar_manager \<times> bool" where
  "mg_start m =
     (if \<not> mg_enabled m \<or> mg_running m then (m, False)
      else (m\<lparr>mg_running := True, mg_ticker := Some (new_ticker (mg_has_level m) (mg_has_ambient m))\<rparr>, True))"

definition mg_stop :: "avatar_manager \<Rightarrow> avatar_manager" where
  "mg_stop m = m\<lparr>mg_running := False\<rparr>"

definition mg_set_state :: "avatar_state \<Rightarrow> avatar_manager \<Rightarrow> avatar_manager" where
  "mg_set_state s m = (if mg_running m then m\<lparr>mg_ticker := map_option (tk_request s) (mg_ticker m)\<rparr> else m)"

section \<open>The window procedure of the Windows shell\<close>

text \<open>The cursor position of a button or move message is what \<open>GetCursorPos\<close> gives; a move also has the
  state of the button.\<close>

datatype win_message =
    Wm_Timer
  | Wm_Lbutton_Down int int
  | Wm_Mouse_Move bool int int
  | Wm_Lbutton_Up
  | Wm_Destroy
  | Wm_Other

datatype win_effect =
    Paint
  | Set_Capture
  | Release_Capture
  | Begin_Drag
  | Call_Toggle
  | Kill_Timer
  | Post_Quit
  | Def_Window_Proc

record window_state =
  ws_pressed :: bool
  ws_press_pt :: "int \<times> int"

text \<open>The window has no state until the thread has attached it (\<open>None\<close>).\<close>

fun wnd_proc :: "bool \<Rightarrow> window_state option \<Rightarrow> win_message \<Rightarrow> window_state option \<times> win_effect list" where
  "wnd_proc toggle st Wm_Timer = (st, if st = None then [] else [Paint])"
| "wnd_proc toggle st (Wm_Lbutton_Down x y) =
     (case st of
        None \<Rightarrow> (None, [])
      | Some w \<Rightarrow> (Some (w\<lparr>ws_pressed := True, ws_press_pt := (x, y)\<rparr>), [Set_Capture]))"
| "wnd_proc toggle st (Wm_Mouse_Move held x y) =
     (case st of
        None \<Rightarrow> (None, [])
      | Some w \<Rightarrow>
          if ws_pressed w \<and> held then
            let dx = x - fst (ws_press_pt w); dy = y - snd (ws_press_pt w)
            in if 25 < dx * dx + dy * dy
               then (Some (w\<lparr>ws_pressed := False\<rparr>), [Release_Capture, Release_Capture, Begin_Drag])
               else (Some w, [])
          else (Some w, []))"
| "wnd_proc toggle st Wm_Lbutton_Up =
     (case st of
        None \<Rightarrow> (None, [])
      | Some w \<Rightarrow>
          if ws_pressed w
          then (Some (w\<lparr>ws_pressed := False\<rparr>), Release_Capture # (if toggle then [Call_Toggle] else []))
          else (Some w, []))"
| "wnd_proc toggle st Wm_Destroy = (st, [Kill_Timer, Post_Quit])"
| "wnd_proc toggle st Wm_Other = (st, [Def_Window_Proc])"

fun win_run :: "bool \<Rightarrow> window_state option \<Rightarrow> win_message list \<Rightarrow> window_state option \<times> win_effect list" where
  "win_run toggle st [] = (st, [])"
| "win_run toggle st (e # es) =
     (let (st1, fx) = wnd_proc toggle st e; (st2, fx2) = win_run toggle st1 es in (st2, fx @ fx2))"

section \<open>The threads of a shell\<close>

text \<open>
  The daemon's thread starts the window thread and later stops it: it clears the running flag, tells
  the window to close and joins. On Windows telling is a message to the window, if there is one yet;
  on X11 it is a flag that the window's loop tests.
\<close>

datatype main_at = M_Idle | M_Running | M_Stopping | M_Joining | M_Stopped
datatype window_at = W_None | W_Opening | W_Loop | W_Ended

record shell =
  sh_main :: main_at
  sh_window :: window_at
  sh_hwnd :: bool
  sh_told :: bool

definition sh_init :: shell where
  "sh_init = \<lparr>sh_main = M_Idle, sh_window = W_None, sh_hwnd = False, sh_told = False\<rparr>"

inductive win32_step :: "shell \<Rightarrow> shell \<Rightarrow> bool" where
  w_start: "sh_main s = M_Idle \<Longrightarrow> win32_step s (s\<lparr>sh_main := M_Running, sh_window := W_Opening\<rparr>)"
| w_failed: "sh_window s = W_Opening \<Longrightarrow> win32_step s (s\<lparr>sh_window := W_Ended\<rparr>)"
| w_opened: "sh_window s = W_Opening \<Longrightarrow> win32_step s (s\<lparr>sh_window := W_Loop, sh_hwnd := True\<rparr>)"
| w_message: "sh_window s = W_Loop \<Longrightarrow> \<not> sh_told s \<Longrightarrow> win32_step s s"
| w_closed: "sh_window s = W_Loop \<Longrightarrow> sh_told s \<Longrightarrow> win32_step s (s\<lparr>sh_window := W_Ended, sh_hwnd := False\<rparr>)"
| w_stop: "sh_main s = M_Running \<Longrightarrow> win32_step s (s\<lparr>sh_main := M_Stopping\<rparr>)"
| w_tell: "sh_main s = M_Stopping \<Longrightarrow> win32_step s (s\<lparr>sh_main := M_Joining, sh_told := sh_told s \<or> sh_hwnd s\<rparr>)"
| w_join: "sh_main s = M_Joining \<Longrightarrow> sh_window s = W_Ended \<Longrightarrow> win32_step s (s\<lparr>sh_main := M_Stopped\<rparr>)"

inductive x11_step :: "shell \<Rightarrow> shell \<Rightarrow> bool" where
  x_start: "sh_main s = M_Idle \<Longrightarrow> x11_step s (s\<lparr>sh_main := M_Running, sh_window := W_Opening, sh_told := False\<rparr>)"
| x_failed: "sh_window s = W_Opening \<Longrightarrow> x11_step s (s\<lparr>sh_window := W_Ended\<rparr>)"
| x_opened: "sh_window s = W_Opening \<Longrightarrow> x11_step s (s\<lparr>sh_window := W_Loop\<rparr>)"
| x_frame: "sh_window s = W_Loop \<Longrightarrow> \<not> sh_told s \<Longrightarrow> x11_step s s"
| x_closed: "sh_window s = W_Loop \<Longrightarrow> sh_told s \<Longrightarrow> x11_step s (s\<lparr>sh_window := W_Ended\<rparr>)"
| x_stop: "sh_main s = M_Running \<Longrightarrow> x11_step s (s\<lparr>sh_main := M_Stopping\<rparr>)"
| x_tell: "sh_main s = M_Stopping \<Longrightarrow> x11_step s (s\<lparr>sh_main := M_Joining, sh_told := True\<rparr>)"
| x_join: "sh_main s = M_Joining \<Longrightarrow> sh_window s = W_Ended \<Longrightarrow> x11_step s (s\<lparr>sh_main := M_Stopped\<rparr>)"

inductive_cases win32_stepE: "win32_step s t"
inductive_cases x11_stepE: "x11_step s t"

section \<open>The demo\<close>

text \<open>The synthetic voice, the script with the seconds each state is held, and the events of a run.\<close>

definition demo_voice :: "(fl \<Rightarrow> fl) \<Rightarrow> fl \<Rightarrow> fl" where
  "demo_voice sin' t =
     (let v = fl_add f64 (fl_add f64 (f64 (45/100)) (fl_mul f64 (f64 (4/10)) (sin' (fl_mul f64 t (f64 (22/10))))))
                (fl_mul f64 (f64 (12/100)) (sin' (fl_mul f64 t (f64 9))))
      in to_f32 (if fl_lt v (Fin 0) then Fin 0 else if fl_lt (Fin 1) v then Fin 1 else v))"

definition em_dash :: string where
  "em_dash = [CHR 0xE2, CHR 0x80, CHR 0x94]"

definition demo_script :: "(avatar_state \<times> string \<times> fl) list" where
  "demo_script = [
     (Av_Idle, ''idle '' @ em_dash @ '' afloat'', f64 2),
     (Summoned, ''summoned '' @ em_dash @ '' the hotkey glow'', f64 (12/10)),
     (Listening, ''listening '' @ em_dash @ '' halo follows voice'', f64 4),
     (Thinking, ''thinking '' @ em_dash @ '' transcribing'', f64 (25/10)),
     (Av_Writing, ''writing '' @ em_dash @ '' putting it down'', f64 3),
     (Ambient, ''ambient '' @ em_dash @ '' music is playing'', f64 (25/10)),
     (Av_Error, ''error '' @ em_dash @ '' amber blink'', f64 (16/10)),
     (Av_Idle, ''idle again'', f64 (12/10))]"

definition demo_total :: fl where
  "demo_total = foldl (\<lambda>total st. fl_add f64 total (snd (snd st))) (Fin 0) demo_script"

definition demo_scale :: "int \<Rightarrow> fl" where
  "demo_scale seconds = (if 0 < seconds then fl_div f64 (Fin (of_int seconds)) demo_total else f64 1)"

datatype demo_event = Say string | Avatar_Start | Set_State avatar_state | Sleep_Ms int | Avatar_Stop

fun demo_steps :: "fl \<Rightarrow> (avatar_state \<times> string \<times> fl) list \<Rightarrow> demo_event list option" where
  "demo_steps scale [] = Some []"
| "demo_steps scale ((s, label, hold) # rest) =
     Option.bind (fl_to_int (fl_mul f64 (fl_mul f64 hold scale) (f64 1000))) (\<lambda>ms.
       map_option (\<lambda>es. Say (''  '' @ label) # Set_State s # Sleep_Ms ms # es) (demo_steps scale rest))"

definition cmd_avatar_demo :: "string \<Rightarrow> int \<Rightarrow> demo_event list option" where
  "cmd_avatar_demo character' seconds =
     (let ch = find_character character'
      in map_option (\<lambda>es. [Say (ac_name ch @ '', '' @ ac_epithet ch @ '', appears.''), Avatar_Start] @ es @
           [Avatar_Stop, Say (ac_name ch @ '' rests.'')])
           (demo_steps (demo_scale seconds) demo_script))"

section \<open>Clicks and drags\<close>

text \<open>A gesture: where the button goes down, and where the pointer moves while it is held.\<close>

type_synonym gesture = "(int \<times> int) \<times> (int \<times> int) list"

definition x11_gesture :: "gesture \<Rightarrow> pointer_event list" where
  "x11_gesture g = Press1 (fst (fst g)) (snd (fst g)) # map (\<lambda>(x, y). Motion x y) (snd g) @ [Release1]"

definition win_gesture :: "gesture \<Rightarrow> win_message list" where
  "win_gesture g = Wm_Lbutton_Down (fst (fst g)) (snd (fst g)) # map (\<lambda>(x, y). Wm_Mouse_Move True x y) (snd g) @ [Wm_Lbutton_Up]"

definition stays :: "gesture \<Rightarrow> bool" where
  "stays g \<longleftrightarrow> list_all (\<lambda>(x, y). (x - fst (fst g)) * (x - fst (fst g)) + (y - snd (fst g)) * (y - snd (fst g)) \<le> 25) (snd g)"

definition toggles :: "win_effect list \<Rightarrow> nat" where
  "toggles fx = length (filter (\<lambda>f. f = Call_Toggle) fx)"

lemma toggles_append [simp]: "toggles [] = 0" "toggles (fx @ fx') = toggles fx + toggles fx'"
  by (simp_all add: toggles_def)

lemma win_run_append:
  "win_run b st (es @ es') =
     (let (st1, fx) = win_run b st es; (st2, fx2) = win_run b st1 es' in (st2, fx @ fx2))"
  by (induction es arbitrary: st) (simp_all add: Let_def case_prod_beta)

lemma pointer_run_append:
  "pointer_run d (es @ es') =
     (let (d1, n) = pointer_run d es; (d2, n2) = pointer_run d1 es' in (d2, n + n2))"
  by (induction es arbitrary: d) (simp_all add: Let_def case_prod_beta)

lemma x11_moves:
  "dg_dragging d \<Longrightarrow>
   pointer_run d (map (\<lambda>(x, y). Motion x y) ms) =
     (d\<lparr>dg_moved := dg_moved d \<or> \<not> stays (dg_press d, ms)\<rparr>, 0)"
  by (induction ms arbitrary: d) (auto simp: stays_def Let_def case_prod_beta)

lemma win_moves:
  "\<exists>fx. win_run b (Some w) (map (\<lambda>(x, y). Wm_Mouse_Move True x y) ms) =
     (Some (w\<lparr>ws_pressed := ws_pressed w \<and> stays (ws_press_pt w, ms)\<rparr>), fx) \<and> toggles fx = 0"
proof (induction ms arbitrary: w)
  case Nil
  then show ?case by (simp add: stays_def)
next
  case (Cons m ms)
  obtain x y where m: "m = (x, y)" by (cases m)
  show ?case
    using Cons.IH [of w] Cons.IH [of "w\<lparr>ws_pressed := False\<rparr>"] unfolding m
    by (auto simp: stays_def Let_def toggles_def)
qed

lemma x11_gesture_run:
  "\<exists>d'. pointer_run d (x11_gesture g) = (d', if stays g then 1 else 0)"
proof -
  let ?d = "d\<lparr>dg_dragging := True, dg_moved := False, dg_press := fst g\<rparr>"
  have "pointer_run ?d (map (\<lambda>(x, y). Motion x y) (snd g)) = (?d\<lparr>dg_moved := \<not> stays g\<rparr>, 0)"
    using x11_moves [of ?d "snd g"] by simp
  then show ?thesis by (simp add: x11_gesture_def pointer_run_append Let_def)
qed

lemma win_gesture_run:
  "\<exists>w' fx. win_run True (Some w) (win_gesture g) = (Some w', fx) \<and> toggles fx = (if stays g then 1 else 0)"
proof -
  let ?w = "w\<lparr>ws_pressed := True, ws_press_pt := fst g\<rparr>"
  obtain fx where "win_run True (Some ?w) (map (\<lambda>(x, y). Wm_Mouse_Move True x y) (snd g)) =
      (Some (?w\<lparr>ws_pressed := stays g\<rparr>), fx)" "toggles fx = 0"
    using win_moves [of True ?w "snd g"] by auto
  then show ?thesis by (simp add: win_gesture_def win_run_append Let_def toggles_def)
qed

section \<open>Stopping\<close>

definition win32_stuck :: "shell \<Rightarrow> bool" where
  "win32_stuck s \<longleftrightarrow> sh_main s = M_Joining \<and> sh_window s = W_Loop \<and> \<not> sh_told s"

interpretation win32_shell: step_trap win32_step win32_stuck "\<lambda>s. sh_main s = M_Stopped"
  by unfold_locales (auto simp: win32_stuck_def elim!: win32_stepE)

definition x11_inv :: "shell \<Rightarrow> bool" where
  "x11_inv s \<longleftrightarrow> (sh_main s = M_Joining \<longrightarrow> sh_told s \<and> sh_window s \<noteq> W_None) \<and>
     (sh_main s \<in> {M_Running, M_Stopping} \<longrightarrow> sh_window s \<noteq> W_None)"

interpretation x11_shell: step_system x11_step x11_inv
  by unfold_locales (auto simp: x11_inv_def elim!: x11_stepE)

lemma x11_reachable: "x11_step\<^sup>*\<^sup>* sh_init s \<Longrightarrow> x11_inv s"
  by (erule x11_shell.run_inv) (simp add: x11_inv_def sh_init_def)

text \<open>How many steps are left once stop waits.\<close>

definition stop_rank :: "shell \<Rightarrow> nat" where
  "stop_rank s =
     (if sh_main s = M_Joining
      then (case sh_window s of W_Opening \<Rightarrow> 3 | W_Loop \<Rightarrow> 2 | _ \<Rightarrow> 1)
      else 0)"

section \<open>Properties\<close>

text \<open>The two shells agree on what a click is: whatever gestures the user makes on the companion, the
  Windows window procedure and the X11 loop toggle dictation the same number of times, once for each gesture
  that stays within five pixels.\<close>

theorem click_gestures_agree:
  "toggles (snd (win_run True (Some w) (concat (map win_gesture gs)))) = snd (pointer_run d (concat (map x11_gesture gs))) \<and>
   snd (pointer_run d (concat (map x11_gesture gs))) = length (filter stays gs)"
proof (induction gs arbitrary: w d)
  case (Cons g gs)
  obtain w' fx where w: "win_run True (Some w) (win_gesture g) = (Some w', fx)" "toggles fx = (if stays g then 1 else 0)"
    using win_gesture_run by blast
  obtain d' where d: "pointer_run d (x11_gesture g) = (d', if stays g then 1 else 0)"
    using x11_gesture_run by blast
  show ?case using Cons.IH [of w' d'] w d by (simp add: win_run_append pointer_run_append Let_def case_prod_beta)
qed simp

text \<open>Stopping the Windows shell before its window exists hangs: there is an execution in which
  stop finds no window to tell, joins, and no further step ever lets it return.\<close>

theorem win32_stop_may_hang:
  "\<exists>s. win32_step\<^sup>*\<^sup>* sh_init s \<and> sh_main s = M_Joining \<and> \<not> (\<exists>t. win32_step\<^sup>*\<^sup>* s t \<and> sh_main t = M_Stopped)"
proof -
  let ?s1 = "sh_init\<lparr>sh_main := M_Running, sh_window := W_Opening\<rparr>"
  let ?s2 = "?s1\<lparr>sh_main := M_Stopping\<rparr>"
  let ?s3 = "?s2\<lparr>sh_main := M_Joining, sh_told := sh_told ?s2 \<or> sh_hwnd ?s2\<rparr>"
  let ?s4 = "?s3\<lparr>sh_window := W_Loop, sh_hwnd := True\<rparr>"
  have "win32_step sh_init ?s1" by (rule w_start) (simp add: sh_init_def)
  moreover have "win32_step ?s1 ?s2" by (rule w_stop) simp
  moreover have "win32_step ?s2 ?s3" by (rule w_tell) simp
  moreover have "win32_step ?s3 ?s4" by (rule w_opened) simp
  ultimately have "win32_step\<^sup>*\<^sup>* sh_init ?s4" by (meson rtranclp.rtrancl_into_rtrancl rtranclp.rtrancl_refl)
  moreover have "win32_stuck ?s4" by (simp add: win32_stuck_def sh_init_def)
  ultimately show ?thesis using win32_shell.reaches_trap [of sh_init ?s4] by (metis win32_stuck_def)
qed

text \<open>Stopping the X11 shell always returns: whenever it waits, whatever the window thread was doing,
  some step is possible and every possible step brings it closer to the end, which is at most three steps away.\<close>

theorem x11_stop_returns:
  assumes "x11_step\<^sup>*\<^sup>* sh_init s" "sh_main s = M_Joining"
  shows "stop_rank s \<le> 3 \<and> (\<exists>t. x11_step s t) \<and> \<not> (\<exists>t. x11_step s t \<and> stop_rank s \<le> stop_rank t)"
proof -
  have i: "sh_told s" "sh_window s \<noteq> W_None" using x11_reachable [OF assms(1)] assms(2) by (simp_all add: x11_inv_def)
  have "stop_rank s \<le> 3" by (simp add: stop_rank_def split: window_at.split)
  moreover have "\<exists>t. x11_step s t"
    using i assms(2) x_failed [of s] x_closed [of s] x_join [of s] by (cases "sh_window s") blast+
  moreover have "\<not> stop_rank s \<le> stop_rank t" if "x11_step s t" for t
    using that i assms(2) by (cases rule: x11_step.cases) (auto simp: stop_rank_def split: window_at.splits)
  ultimately show ?thesis by blast
qed

theorem x11_stop_returns_witness:
  "\<exists>s. stop_rank s = 3 \<and> stop_rank s \<le> 3 \<and> (\<exists>t. x11_step s t) \<and> \<not> (\<exists>t. x11_step s t \<and> stop_rank s \<le> stop_rank t)"
proof -
  let ?s1 = "sh_init\<lparr>sh_main := M_Running, sh_window := W_Opening, sh_told := False\<rparr>"
  let ?s2 = "?s1\<lparr>sh_main := M_Stopping\<rparr>"
  let ?s3 = "?s2\<lparr>sh_main := M_Joining, sh_told := True\<rparr>"
  have "x11_step sh_init ?s1" by (rule x_start) (simp add: sh_init_def)
  moreover have "x11_step ?s1 ?s2" by (rule x_stop) simp
  moreover have "x11_step ?s2 ?s3" by (rule x_tell) simp
  ultimately have r: "x11_step\<^sup>*\<^sup>* sh_init ?s3" by (meson rtranclp.rtrancl_into_rtrancl rtranclp.rtrancl_refl)
  have "stop_rank ?s3 = 3" by (simp add: stop_rank_def)
  then show ?thesis using x11_stop_returns [OF r] by (intro exI [of _ ?s3]) simp
qed

lemma demo_steps_states:
  "demo_steps scale sc = Some es \<Longrightarrow> [s. Set_State s \<leftarrow> es] = map fst sc"
  by (induction scale sc arbitrary: es rule: demo_steps.induct) (auto simp: bind_eq_Some_conv)

lemma demo_visits_states:
  "cmd_avatar_demo c seconds = Some es \<Longrightarrow>
   [s. Set_State s \<leftarrow> es] = [Av_Idle, Summoned, Listening, Thinking, Av_Writing, Ambient, Av_Error, Av_Idle]"
proof -
  assume "cmd_avatar_demo c seconds = Some es"
  then obtain es' where "demo_steps (demo_scale seconds) demo_script = Some es'"
    and es: "[s. Set_State s \<leftarrow> es] = [s. Set_State s \<leftarrow> es']"
    by (auto simp: cmd_avatar_demo_def Let_def)
  then have "[s. Set_State s \<leftarrow> es'] = map fst demo_script" by (intro demo_steps_states)
  then show ?thesis unfolding es by (simp add: demo_script_def)
qed

end
