(* ===== verification/Avatar_X11.thy ===== *)
theory Avatar_X11
  imports Avatar_Frame Avatar_Shell
begin

text \<open>
  The window thread of the X11 companion from its first request to its last (\<open>run\<close> of
  src/src/avatar/platform/avatar_x11.cpp): the window it asks for, then turn after turn the pointer
  events, the tick, the frame, until it is told to quit. What the display, the clock, the level and
  the pointer say is a script; the result is the list of drawing requests and how often dictation is
  toggled, or \<open>None\<close> for undefined behaviour.
\<close>

section \<open>Requests\<close>

record x11_screen =
  xn_argb :: bool
  xn_depth :: int
  xn_width :: int
  xn_height :: int

datatype x11_request =
    Create_Window int int int int
  | Set_Type_Utility
  | Store_Name string
  | Select_Buttons
  | Map_Raised
  | Move_Window int int
  | Put_Image canvas
  | Destroy_Image
  | Free_GC
  | Destroy_Window
  | Close_Display

text \<open>The window sits in the lower right corner; an ARGB visual is used when the screen has one.\<close>

definition x11_open :: "x11_screen \<Rightarrow> int \<Rightarrow> x11_request list" where
  "x11_open scr sz =
     [Create_Window (xn_width scr - sz - 28) (xn_height scr - sz - 96) sz (if xn_argb scr then 32 else xn_depth scr),
      Set_Type_Utility, Store_Name ''AutoWhisper companion'', Select_Buttons, Map_Raised]"

definition x11_close :: "x11_request list" where
  "x11_close = [Destroy_Image, Free_GC, Destroy_Window, Close_Display]"

section \<open>The pointer\<close>

text \<open>A press is given in the window and on the screen, a motion on the screen. The state adds to \<open>drag\<close>
  the point of the window that was grabbed.\<close>

datatype shell_event = Sh_Press int int int int | Sh_Release | Sh_Motion int int

fun root_event :: "shell_event \<Rightarrow> pointer_event" where
  "root_event (Sh_Press x y rx ry) = Press1 rx ry"
| "root_event Sh_Release = Release1"
| "root_event (Sh_Motion rx ry) = Motion rx ry"

record grab = drag +
  gb_dx :: int
  gb_dy :: int

definition no_grab :: grab where
  "no_grab = \<lparr>dg_dragging = False, dg_moved = False, dg_press = (0, 0), gb_dx = 0, gb_dy = 0\<rparr>"

fun shell_step :: "grab \<Rightarrow> shell_event \<Rightarrow> grab \<times> bool \<times> x11_request list" where
  "shell_step d (Sh_Press x y rx ry) =
     (d\<lparr>dg_dragging := True, dg_moved := False, gb_dx := x, gb_dy := y, dg_press := (rx, ry)\<rparr>, False, [])"
| "shell_step d Sh_Release = (d\<lparr>dg_dragging := False\<rparr>, \<not> dg_moved d, [])"
| "shell_step d (Sh_Motion rx ry) =
     (if dg_dragging d then
        let dx = rx - fst (dg_press d); dy = ry - snd (dg_press d)
        in (if 25 < dx * dx + dy * dy then d\<lparr>dg_moved := True\<rparr> else d, False, [Move_Window (rx - gb_dx d) (ry - gb_dy d)])
      else (d, False, []))"

fun shell_events :: "grab \<Rightarrow> shell_event list \<Rightarrow> grab \<times> nat \<times> x11_request list" where
  "shell_events d [] = (d, 0, [])"
| "shell_events d (e # es) =
     (let (d1, click, rs) = shell_step d e; (d2, n, rs2) = shell_events d1 es
      in (d2, (if click then 1 else 0) + n, rs @ rs2))"

section \<open>The loop\<close>

text \<open>A turn: what the daemon has requested since the last one, the pointer events, and what the clock and the
  providers say.\<close>

record x11_turn =
  xt_requests :: "avatar_state list"
  xt_events :: "shell_event list"
  xt_now :: fl
  xt_level :: fl
  xt_ambient :: bool

fun x11_turns :: "libm \<Rightarrow> bool \<Rightarrow> int \<Rightarrow> avatar_character \<Rightarrow> grab \<Rightarrow> avatar_ticker \<Rightarrow> x11_turn list \<Rightarrow>
    (x11_request list \<times> nat) option" where
  "x11_turns lm argb sz ch d tk [] = Some ([], 0)"
| "x11_turns lm argb sz ch d tk (t # ts) =
     (let (d1, n, rs) = shell_events d (xt_events t);
          (snap, tk1) = tk_tick (xt_now t) (xt_level t) (xt_ambient t) (fold tk_request (xt_requests t) tk)
      in case x11_frame lm argb sz ch snap of
           None \<Rightarrow> None
         | Some buf \<Rightarrow> map_option (\<lambda>(rest, m). (rs @ Put_Image buf # rest, n + m)) (x11_turns lm argb sz ch d1 tk1 ts))"

text \<open>\<open>scr = None\<close> is a display that cannot be opened.\<close>

definition x11_run :: "libm \<Rightarrow> x11_screen option \<Rightarrow> int \<Rightarrow> string \<Rightarrow> avatar_ticker \<Rightarrow> x11_turn list \<Rightarrow>
    (x11_request list \<times> nat) option" where
  "x11_run lm screen sz who tk ts =
     (case screen of
        None \<Rightarrow> Some ([], 0)
      | Some scr \<Rightarrow>
          map_option (\<lambda>(rs, n). (x11_open scr sz @ rs @ x11_close, n))
            (x11_turns lm (xn_argb scr) sz (find_character who) no_grab tk ts))"

section \<open>Clicks and drags\<close>

lemma shell_step_click: "fst (snd (shell_step d e)) = snd (pointer_step (drag.truncate d) (root_event e))"
  by (cases e) (simp_all add: drag.defs Let_def)

lemma shell_step_drag: "drag.truncate (fst (shell_step d e)) = fst (pointer_step (drag.truncate d) (root_event e))"
  by (cases e) (simp_all add: drag.defs Let_def)

text \<open>Dictation is toggled as often as the abstract pointer machine clicks.\<close>

lemma shell_events_clicks: "fst (snd (shell_events d es)) = snd (pointer_run (drag.truncate d) (map root_event es))"
  by (induction es arbitrary: d)
     (simp_all add: Let_def case_prod_beta shell_step_click shell_step_drag)

text \<open>The window follows the pointer: while it is dragged, the point that was grabbed stays under it.\<close>

theorem drag_keeps_grip:
  assumes "dg_dragging d" "(d', click, rs) = shell_step d (Sh_Motion rx ry)"
  shows "rs = [Move_Window (rx - gb_dx d) (ry - gb_dy d)] \<and> gb_dx d' = gb_dx d \<and> gb_dy d' = gb_dy d \<and> dg_dragging d' \<and> \<not> click"
  using assms by (auto simp: Let_def split: if_splits)

section \<open>The whole run\<close>

text \<open>Times within \<open>2 ^ 39\<close> seconds and levels that are numbers keep the ticker's snapshots in the
  renderer's range.\<close>

definition ticker_inv :: "avatar_ticker \<Rightarrow> bool" where
  "ticker_inv tk \<longleftrightarrow> dfin 39 (tk_start_time tk) \<and> dfin 39 (vm_shown_since (tk_machine tk))"

definition turn_ok :: "x11_turn \<Rightarrow> bool" where
  "turn_ok t \<longleftrightarrow> dfin 39 (xt_now t) \<and> num (xt_level t)"

lemma dfin_sub: "dfin 39 x \<Longrightarrow> dfin 39 y \<Longrightarrow> dfin 40 (fl_sub f64 x y)"
proof -
  assume "dfin 39 x" "dfin 39 y"
  then have "dfin 39 x" "dfin 39 (fl_neg y)" by (auto simp: dfin_def)
  from dfin_add [OF this] show ?thesis by (simp add: fl_sub_def)
qed

lemma ticker_inv_new: "ticker_inv (new_ticker l a)"
  by (simp add: ticker_inv_def new_ticker_def new_machine_def dfin_def)

lemma request_since: "vm_shown_since (vm_request s now m) = vm_shown_since m"
  by (simp add: vm_request_def Let_def)

lemma effective_since: "vm_effective now m = (s, m') \<Longrightarrow> vm_shown_since m' = vm_shown_since m \<or> vm_shown_since m' = now"
  by (auto simp: vm_effective_def Let_def split: if_splits)

lemma ticker_inv_requests: "ticker_inv tk \<Longrightarrow> ticker_inv (fold tk_request ss tk)"
  by (induction ss arbitrary: tk) (simp_all add: ticker_inv_def tk_request_def)

lemma phase_finite: "dfin 39 now \<Longrightarrow> dfin 39 (vm_shown_since m) \<Longrightarrow> \<exists>p. vm_phase now m = Fin p"
  using dfin_sub [of now "vm_shown_since m"] by (auto simp: vm_phase_def fl_max_def dfin_def)

lemma tick_in_range:
  assumes "ticker_inv tk" "dfin 39 now" "num level" "tk_tick now level ambient tk = (snap, tk')"
  shows "ticker_inv tk' \<and> dfin 40 (sn_t snap) \<and> (\<exists>p. sn_phase snap = Fin p) \<and> num (sn_level snap)"
proof -
  define tk1 where "tk1 = (if fl_lt (tk_start_time tk) (Fin 0) then tk\<lparr>tk_start_time := now\<rparr> else tk)"
  define m1 where "m1 = (if tk_dirty tk1 then vm_request (tk_requested tk1) now (tk_machine tk1) else tk_machine tk1)"
  obtain s m2 where e: "vm_effective now m1 = (s, m2)" by (cases "vm_effective now m1")
  have start: "dfin 39 (tk_start_time tk1)" using assms(1,2) by (simp add: tk1_def ticker_inv_def)
  have "vm_shown_since m1 = vm_shown_since (tk_machine tk)" by (simp add: m1_def tk1_def request_since)
  then have since: "dfin 39 (vm_shown_since m2)"
    using effective_since [OF e] assms(1,2) by (auto simp: ticker_inv_def)
  note phase = phase_finite [OF assms(2) since] and elapsed = dfin_sub [OF assms(2) start]
  have z: "num (Fin 0)" by (simp add: num_def)
  show ?thesis
    using assms(4) start since phase elapsed assms(3) z
    by (auto simp: tk_tick_def Let_def tk1_def [symmetric] m1_def [symmetric] e ticker_inv_def split: if_splits)
qed

text \<open>A frame on the screen: of the right size, and either premultiplied or opaque.\<close>

definition image_ok :: "bool \<Rightarrow> int \<Rightarrow> canvas \<Rightarrow> bool" where
  "image_ok argb sz buf \<longleftrightarrow> length buf = nat (sz * sz) \<and>
     list_all (\<lambda>px. if argb then premultiplied px else channel 24 px = 255) buf"

lemma frame_ok:
  assumes "libm_ok lm" "64 \<le> sz" "sz \<le> 192" "dfin 40 (sn_t snap)" "\<exists>p. sn_phase snap = Fin p" "num (sn_level snap)"
  shows "\<exists>buf. x11_frame lm argb sz (find_character who) snap = Some buf \<and> image_ok argb sz buf"
proof -
  obtain p where p: "sn_phase snap = Fin p" using assms(5) by blast
  from keeps_frame [OF assms(1-3) find_character_in assms(4) p assms(6), of who "sn_state snap"]
  obtain buf where "avatar_rasterize lm sz (find_character who) (sn_state snap) (sn_t snap) (sn_phase snap) (sn_level snap) = Some buf"
    "length buf = nat (sz * sz)" "list_all premultiplied buf"
    by (auto simp: good_def)
  moreover have "channel 24 (plate_pixel px) = 255" if "premultiplied px" for px using plate_no_carry [OF that] by simp
  ultimately show ?thesis by (auto simp: x11_frame_def image_ok_def list_all_iff)
qed

definition images :: "x11_request list \<Rightarrow> canvas list" where
  "images rs = List.map_filter (\<lambda>r. case r of Put_Image buf \<Rightarrow> Some buf | _ \<Rightarrow> None) rs"

lemma images_simps [simp]:
  "images [] = []" "images (Put_Image buf # rs) = buf # images rs" "images (rs @ rs') = images rs @ images rs'"
  by (simp_all add: images_def map_filter_simps map_filter_def)

lemma images_shell_events: "images (snd (snd (shell_events d es))) = []"
proof (induction es arbitrary: d)
  case (Cons e es)
  have "images (snd (snd (shell_step d e))) = []"
    by (cases e) (simp_all add: images_def map_filter_simps Let_def)
  then show ?case using Cons by (simp add: Let_def case_prod_beta)
qed simp

lemma shell_events_drag: "drag.truncate (fst (shell_events d es)) = fst (pointer_run (drag.truncate d) (map root_event es))"
  by (induction es arbitrary: d) (simp_all add: Let_def case_prod_beta shell_step_drag)

lemma pointer_run_app:
  "pointer_run d (es @ es') = (let (d1, n) = pointer_run d es; (d2, m) = pointer_run d1 es' in (d2, n + m))"
  by (induction es arbitrary: d) (simp_all add: Let_def case_prod_beta)

lemma turns_ok:
  assumes "libm_ok lm" "64 \<le> sz" "sz \<le> 192"
  shows "list_all turn_ok ts \<Longrightarrow> ticker_inv tk \<Longrightarrow>
    \<exists>rs. x11_turns lm argb sz (find_character who) d tk ts =
        Some (rs, snd (pointer_run (drag.truncate d) (map root_event (concat (map xt_events ts))))) \<and>
      length (images rs) = length ts \<and> list_all (image_ok argb sz) (images rs)"
proof (induction ts arbitrary: d tk)
  case (Cons t ts)
  obtain d1 n rs where ev: "shell_events d (xt_events t) = (d1, n, rs)" by (metis prod.exhaust)
  obtain snap tk1 where tick: "tk_tick (xt_now t) (xt_level t) (xt_ambient t) (fold tk_request (xt_requests t) tk) = (snap, tk1)" by (metis prod.exhaust)
  have r: "ticker_inv tk1 \<and> dfin 40 (sn_t snap) \<and> (\<exists>p. sn_phase snap = Fin p) \<and> num (sn_level snap)"
    using Cons.prems by (intro tick_in_range [OF _ _ _ tick]) (simp_all add: turn_ok_def ticker_inv_requests)
  obtain buf where buf: "x11_frame lm argb sz (find_character who) snap = Some buf" "image_ok argb sz buf"
    using frame_ok [OF assms] r by blast
  obtain rest where rest: "x11_turns lm argb sz (find_character who) d1 tk1 ts =
        Some (rest, snd (pointer_run (drag.truncate d1) (map root_event (concat (map xt_events ts)))))"
    "length (images rest) = length ts" "list_all (image_ok argb sz) (images rest)"
    using Cons.IH [of tk1 d1] Cons.prems r by auto
  show ?case
    using ev tick buf rest images_shell_events [of d "xt_events t"] shell_events_clicks [of d "xt_events t"]
      shell_events_drag [of d "xt_events t"]
    by (simp add: pointer_run_app Let_def case_prod_beta)
qed simp

lemma images_frame [simp]: "images (x11_open scr sz) = []" "images x11_close = []"
  by (simp_all add: images_def x11_open_def x11_close_def map_filter_simps)

text \<open>C27: However long the companion runs, whatever the pointer does, whatever states are requested and shown:
  the window thread never has undefined behaviour, puts exactly one image per turn on the screen, each
  of the window's size and premultiplied (opaque without an alpha visual), toggles dictation once per
  click, and asks for the window first and closes the display last.\<close>

theorem companion_run:
  assumes "libm_ok lm" "64 \<le> sz" "sz \<le> 192" "list_all turn_ok ts" "ticker_inv tk"
  shows "\<exists>rs. x11_run lm (Some scr) sz who tk ts =
      Some (x11_open scr sz @ rs @ x11_close,
        snd (pointer_run (drag.truncate no_grab) (map root_event (concat (map xt_events ts))))) \<and>
    length (images rs) = length ts \<and> list_all (image_ok (xn_argb scr) sz) (images rs)"
proof -
  from turns_ok [OF assms] obtain rs where
    "x11_turns lm (xn_argb scr) sz (find_character who) no_grab tk ts =
        Some (rs, snd (pointer_run (drag.truncate no_grab) (map root_event (concat (map xt_events ts)))))"
    "length (images rs) = length ts" "list_all (image_ok (xn_argb scr) sz) (images rs)"
    by blast
  then show ?thesis by (simp add: x11_run_def)
qed

theorem companion_run_witness:
  "\<exists>rs. x11_run flat_libm (Some \<lparr>xn_argb = False, xn_depth = 24, xn_width = 1920, xn_height = 1080\<rparr>) 96 ''hermes'' (new_ticker True False)
        [\<lparr>xt_requests = [Listening], xt_events = [Sh_Press 10 10 1800 900, Sh_Release], xt_now = Fin 5, xt_level = Fin 0, xt_ambient = False\<rparr>] =
      Some (x11_open \<lparr>xn_argb = False, xn_depth = 24, xn_width = 1920, xn_height = 1080\<rparr> 96 @ rs @ x11_close, 1) \<and>
    length (images rs) = 1 \<and> list_all (image_ok False 96) (images rs)"
  using companion_run [OF flat_libm_ok, of 96
      "[\<lparr>xt_requests = [Listening], xt_events = [Sh_Press 10 10 1800 900, Sh_Release], xt_now = Fin 5, xt_level = Fin 0, xt_ambient = False\<rparr>]"
      "new_ticker True False" "\<lparr>xn_argb = False, xn_depth = 24, xn_width = 1920, xn_height = 1080\<rparr>" "''hermes''"]
  by (simp add: turn_ok_def dfin_def num_def ticker_inv_new no_grab_def drag.defs)

end
