(* ===== verification/Hotkey_Win32.thy ===== *)
theory Hotkey_Win32
  imports Hotkey Step_Systems
begin

text \<open>
  The listener thread of the Windows hotkey source (start, signal_stop and stop of
  src/src/hotkey/platform/hotkey_win32.cpp) as a step relation of two threads: the caller, which
  starts and stops, and the hook thread, which publishes its thread id, installs the hook and pumps
  messages until \<open>WM_QUIT\<close>. What the hook does with a key is \<open>Hotkey.keyboard_hook\<close>.
\<close>

datatype hook_thread = Hk_None | Hk_New | Hk_Hooking | Hk_Loop | Hk_Ended
datatype hook_caller = Hc_Free | Hc_Posting | Hc_Joining | Hc_Terminated

record hook_listener =
  hl_caller :: hook_caller
  hl_thread :: hook_thread
  hl_running :: bool
  hl_thread_id :: bool
  hl_quit :: bool

definition hl_init :: hook_listener where
  "hl_init = \<lparr>hl_caller = Hc_Free, hl_thread = Hk_None, hl_running = False, hl_thread_id = False, hl_quit = False\<rparr>"

text \<open>
  Assigning to a thread object that is still joinable ends the process (\<open>hook_restart\<close>). A quit message
  reaches any thread whose id is known; the caller may also be told to stop while it is free
  (\<open>hook_signal\<close>).
\<close>

inductive hook_step :: "hook_listener \<Rightarrow> hook_listener \<Rightarrow> bool" where
  hook_again: "hl_caller s = Hc_Free \<Longrightarrow> hl_running s \<Longrightarrow> hook_step s s"
| hook_start: "hl_caller s = Hc_Free \<Longrightarrow> \<not> hl_running s \<Longrightarrow> hl_thread s = Hk_None \<Longrightarrow>
    hook_step s (s\<lparr>hl_running := True, hl_thread := Hk_New\<rparr>)"
| hook_restart: "hl_caller s = Hc_Free \<Longrightarrow> \<not> hl_running s \<Longrightarrow> hl_thread s \<noteq> Hk_None \<Longrightarrow>
    hook_step s (s\<lparr>hl_running := True, hl_caller := Hc_Terminated\<rparr>)"
| hook_id: "hl_thread s = Hk_New \<Longrightarrow> hook_step s (s\<lparr>hl_thread := Hk_Hooking, hl_thread_id := True\<rparr>)"
| hook_failed: "hl_thread s = Hk_Hooking \<Longrightarrow> hook_step s (s\<lparr>hl_thread := Hk_Ended, hl_running := False\<rparr>)"
| hook_active: "hl_thread s = Hk_Hooking \<Longrightarrow> hook_step s (s\<lparr>hl_thread := Hk_Loop\<rparr>)"
| hook_message: "hl_thread s = Hk_Loop \<Longrightarrow> \<not> hl_quit s \<Longrightarrow> hook_step s s"
| hook_quits: "hl_thread s = Hk_Loop \<Longrightarrow> hl_quit s \<Longrightarrow> hook_step s (s\<lparr>hl_thread := Hk_Ended\<rparr>)"
| hook_signal: "hl_caller s = Hc_Free \<Longrightarrow> hl_running s \<Longrightarrow> hook_step s (s\<lparr>hl_quit := hl_quit s \<or> hl_thread_id s\<rparr>)"
| hook_stop: "hl_caller s = Hc_Free \<Longrightarrow> hook_step s (s\<lparr>hl_running := False, hl_caller := Hc_Posting\<rparr>)"
| hook_post: "hl_caller s = Hc_Posting \<Longrightarrow>
    hook_step s (s\<lparr>hl_caller := Hc_Joining, hl_quit := hl_quit s \<or> hl_thread_id s\<rparr>)"
| hook_joined: "hl_caller s = Hc_Joining \<Longrightarrow> hl_thread s = Hk_None \<or> hl_thread s = Hk_Ended \<Longrightarrow>
    hook_step s (s\<lparr>hl_caller := Hc_Free, hl_thread := Hk_None, hl_thread_id := False, hl_quit := False\<rparr>)"

inductive_cases hook_stepE: "hook_step s t"

lemma hook_steps: "hook_step\<^sup>*\<^sup>* s t \<Longrightarrow> hook_step t u \<Longrightarrow> hook_step\<^sup>*\<^sup>* s u"
  by (rule rtranclp.rtrancl_into_rtrancl)

definition hook_stuck :: "hook_listener \<Rightarrow> bool" where
  "hook_stuck s \<longleftrightarrow> hl_caller s = Hc_Joining \<and> hl_thread s = Hk_Loop \<and> \<not> hl_quit s"

interpretation hook_waits: step_trap hook_step hook_stuck "\<lambda>s. hl_caller s = Hc_Free"
  by unfold_locales (auto simp: hook_stuck_def elim!: hook_stepE)

text \<open>Stopping before the thread has published its id joins a message loop that nobody will ever end.\<close>

theorem hook_stop_may_hang:
  "\<exists>s. hook_step\<^sup>*\<^sup>* hl_init s \<and> hl_caller s = Hc_Joining \<and> \<not> (\<exists>t. hook_step\<^sup>*\<^sup>* s t \<and> hl_caller t = Hc_Free)"
proof -
  let ?s1 = "hl_init\<lparr>hl_running := True, hl_thread := Hk_New\<rparr>"
  let ?s2 = "?s1\<lparr>hl_running := False, hl_caller := Hc_Posting\<rparr>"
  let ?s3 = "?s2\<lparr>hl_caller := Hc_Joining, hl_quit := hl_quit ?s2 \<or> hl_thread_id ?s2\<rparr>"
  let ?s4 = "?s3\<lparr>hl_thread := Hk_Hooking, hl_thread_id := True\<rparr>"
  let ?s5 = "?s4\<lparr>hl_thread := Hk_Loop\<rparr>"
  have a: "hook_step hl_init ?s1" by (rule hook_start) (simp_all add: hl_init_def)
  have b: "hook_step ?s1 ?s2" by (rule hook_stop) (simp add: hl_init_def)
  have c: "hook_step ?s2 ?s3" by (rule hook_post) simp
  have d: "hook_step ?s3 ?s4" by (rule hook_id) simp
  have e: "hook_step ?s4 ?s5" by (rule hook_active) simp
  have "hook_step\<^sup>*\<^sup>* hl_init ?s5"
    by (rule rtranclp.rtrancl_refl [THEN hook_steps, OF a, THEN hook_steps, OF b, THEN hook_steps, OF c, THEN hook_steps, OF d,
        THEN hook_steps, OF e])
  moreover have "hook_stuck ?s5" by (simp add: hook_stuck_def hl_init_def)
  ultimately show ?thesis using hook_waits.reaches_trap [of hl_init ?s5] by (metis hook_stuck_def)
qed

text \<open>After a hook that could not be installed, a second start ends the process.\<close>

theorem hook_restart_terminates:
  "\<exists>s t. hook_step\<^sup>*\<^sup>* hl_init s \<and> hl_caller s = Hc_Free \<and> \<not> hl_running s \<and> hook_step s t \<and> hl_caller t = Hc_Terminated"
proof -
  let ?s1 = "hl_init\<lparr>hl_running := True, hl_thread := Hk_New\<rparr>"
  let ?s2 = "?s1\<lparr>hl_thread := Hk_Hooking, hl_thread_id := True\<rparr>"
  let ?s3 = "?s2\<lparr>hl_thread := Hk_Ended, hl_running := False\<rparr>"
  let ?s4 = "?s3\<lparr>hl_running := True, hl_caller := Hc_Terminated\<rparr>"
  have a: "hook_step hl_init ?s1" by (rule hook_start) (simp_all add: hl_init_def)
  have b: "hook_step ?s1 ?s2" by (rule hook_id) simp
  have c: "hook_step ?s2 ?s3" by (rule hook_failed) simp
  have "hook_step\<^sup>*\<^sup>* hl_init ?s3"
    by (rule rtranclp.rtrancl_refl [THEN hook_steps, OF a, THEN hook_steps, OF b, THEN hook_steps, OF c])
  moreover have "hook_step ?s3 ?s4" by (rule hook_restart) (simp_all add: hl_init_def)
  ultimately show ?thesis by (intro exI [of _ ?s3] exI [of _ ?s4]) (simp add: hl_init_def)
qed

text \<open>The thread id is published exactly while the hook thread exists beyond its first instruction.\<close>

definition hook_inv :: "hook_listener \<Rightarrow> bool" where
  "hook_inv s \<longleftrightarrow> (hl_thread_id s = (hl_thread s \<in> {Hk_Hooking, Hk_Loop, Hk_Ended}))"

interpretation hook_system: step_system hook_step hook_inv
  by unfold_locales (auto simp: hook_inv_def elim!: hook_stepE)

lemma hook_inv_reachable: "hook_step\<^sup>*\<^sup>* hl_init s \<Longrightarrow> hook_inv s"
  by (erule hook_system.run_inv) (simp add: hook_inv_def hl_init_def)

end
