(* ===== verification/Hotkey_X11.thy ===== *)
theory Hotkey_X11
  imports Hotkey
begin

text \<open>
  The listener thread of the X11 hotkey source (start, signal_stop, stop and the destructor of
  src/src/hotkey/platform/hotkey_x11.cpp) as a step relation: the caller, the listener, the listeners
  that stop gave up on, and the X server, which may go away. \<open>Hotkey.x11_start\<close> and
  \<open>Hotkey.x11_stop\<close> are the sequential view of the same operations.
\<close>

section \<open>State\<close>

subsection \<open>Which input a record event is\<close>

text \<open>\<open>record_callback\<close> between its guards and the handlers: the handler call an event leads to.\<close>

definition record_input ::
  "(xk_name \<Rightarrow> nat) \<Rightarrow> (nat \<Rightarrow> nat) \<Rightarrow> (nat \<Rightarrow> string option) \<Rightarrow> record_type \<Rightarrow> nat \<Rightarrow> key_input option" where
  "record_input xk keysym ksname type kc =
     (let m = keycode_to_modifier xk keysym kc; name = keycode_to_name xk keysym ksname kc
      in case type of
           KeyPress \<Rightarrow> if m \<noteq> [] then Some (ModDown m) else if name \<noteq> [] then Some (KeyDown name) else None
         | KeyRelease \<Rightarrow> if m \<noteq> [] then Some (ModUp m) else if name \<noteq> [] then Some (KeyUp name) else None
         | OtherType \<Rightarrow> None)"

lemma record_callback_input:
  "record_callback xk keysym ksname from_server type kc st =
     (if hm_running st \<and> from_server
      then case record_input xk keysym ksname type kc of Some i \<Rightarrow> hotkey_step i st | None \<Rightarrow> (st, [])
      else (st, []))"
  by (cases type) (simp_all add: record_callback_def record_input_def Let_def)

lemma hotkey_step_stopped: "\<not> hm_running st \<Longrightarrow> hotkey_step i st = (st, [])"
  by (cases i) (simp_all add: on_modifier_press_def on_modifier_release_def on_key_press_def on_key_release_def)

subsection \<open>The threads\<close>

text \<open>
  Where the listener is: waiting for \<open>x_mutex\<close> to open the displays, holding it, and so on down the
  body of the thread. \<open>L_Callback\<close> is inside \<open>record_callback\<close>, past its guards. \<open>L_Gone\<close> has
  run the exit flag's destructor; \<open>L_Null\<close> has dereferenced the null manager and \<open>L_Freed\<close> has
  written to a manager that is no more.
\<close>

datatype listener_at =
    L_None | L_Wait_Open | L_Open | L_Check | L_Version | L_Range | L_Wait_Create | L_Create | L_Created
  | L_Sync | L_Enable | L_Enabled | L_Callback key_input | L_Wait_Close | L_Close
  | L_Wait_Fail | L_Fail | L_Gone | L_Null | L_Freed

datatype mutex_holder = By_Nobody | By_Listener | By_Caller

text \<open>
  \<open>Impl\<close>: whether the pointers are set, whether the thread object is joinable, who holds the mutex,
  the exit flag; then the thread's position and whether the server is recording for it.
\<close>

record x11_impl =
  xi_manager :: bool
  xi_data :: bool
  xi_ctrl :: bool
  xi_ctx :: bool
  xi_joinable :: bool
  xi_mutex :: mutex_holder
  xi_exited :: bool
  xi_at :: listener_at
  xi_active :: bool

definition xi_fresh :: x11_impl where
  "xi_fresh = \<lparr>xi_manager = True, xi_data = False, xi_ctrl = False, xi_ctx = False, xi_joinable = False,
     xi_mutex = By_Nobody, xi_exited = False, xi_at = L_None, xi_active = False\<rparr>"

text \<open>The caller: where a nudge returns to, with the turns left to the wait loop of stop (a turn
  sleeps 50 ms and the loop ends after 5 s, so there are at most a hundred).\<close>

datatype nudge_for = For_Signal | For_Stop nat

datatype caller_at =
    C_Free | C_Poll nat | C_Nudge nudge_for | C_Holding nudge_for | C_Calling nudge_for | C_Sleep nat
  | C_Leave | C_Terminated | C_Exited | C_Deleted

definition stop_turns :: nat where
  "stop_turns = 5000 div 50"

fun nudged :: "nudge_for \<Rightarrow> caller_at" where
  "nudged For_Signal = C_Free"
| "nudged (For_Stop n) = C_Sleep n"

record x11_world =
  xw_mgr :: "hotkey_manager option"
  xw_impl :: x11_impl
  xw_caller :: caller_at
  xw_leaked :: "x11_impl list"
  xw_server :: bool
  xw_sent :: "hotkey_event list"

definition xw_init :: "hotkey_manager \<Rightarrow> x11_world" where
  "xw_init st = \<lparr>xw_mgr = Some st, xw_impl = xi_fresh, xw_caller = C_Free, xw_leaked = [], xw_server = True, xw_sent = []\<rparr>"

section \<open>Steps\<close>

subsection \<open>The listener\<close>

text \<open>
  One step of a listener thread on its own \<open>Impl\<close> and the manager (\<open>None\<close>: destroyed), with the events it
  sends; \<open>up\<close> tells whether the server answers. With the server gone an X call enters the IO error
  handler, which ends the thread: its locks are released and the exit flag set (\<open>l_lost\<close>).
\<close>

definition uses_x :: "x11_impl \<Rightarrow> bool" where
  "uses_x i = (case xi_at i of
     L_Version \<Rightarrow> True | L_Create \<Rightarrow> True | L_Sync \<Rightarrow> True | L_Enable \<Rightarrow> True | L_Enabled \<Rightarrow> True
   | L_Callback k \<Rightarrow> True | L_Close \<Rightarrow> True | L_Fail \<Rightarrow> xi_data i \<or> xi_ctrl i | _ \<Rightarrow> False)"

definition unlocked :: "x11_impl \<Rightarrow> x11_impl" where
  "unlocked i = (if xi_mutex i = By_Listener then i\<lparr>xi_mutex := By_Nobody\<rparr> else i)"

definition ended :: "x11_impl \<Rightarrow> x11_impl" where
  "ended i = (unlocked i)\<lparr>xi_exited := True, xi_at := L_Gone\<rparr>"

inductive listener_step ::
  "bool \<Rightarrow> x11_impl \<Rightarrow> hotkey_manager option \<Rightarrow> x11_impl \<Rightarrow> hotkey_manager option \<Rightarrow> hotkey_event list \<Rightarrow> bool"
  for up :: bool and i :: x11_impl and m :: "hotkey_manager option" where
  l_lock_open: "xi_at i = L_Wait_Open \<Longrightarrow> xi_mutex i = By_Nobody \<Longrightarrow>
    listener_step up i m (i\<lparr>xi_mutex := By_Listener, xi_at := L_Open\<rparr>) m []"
| l_open: "xi_at i = L_Open \<Longrightarrow> up \<or> \<not> c \<and> \<not> d \<Longrightarrow>
    listener_step up i m ((unlocked i)\<lparr>xi_ctrl := c, xi_data := d, xi_at := L_Check\<rparr>) m []"
| l_no_display: "xi_at i = L_Check \<Longrightarrow> \<not> xi_data i \<or> \<not> xi_ctrl i \<Longrightarrow>
    listener_step up i m (i\<lparr>xi_at := L_Wait_Fail\<rparr>) m []"
| l_displays: "xi_at i = L_Check \<Longrightarrow> xi_data i \<Longrightarrow> xi_ctrl i \<Longrightarrow>
    listener_step up i m (i\<lparr>xi_at := L_Version\<rparr>) m []"
| l_no_record: "xi_at i = L_Version \<Longrightarrow> up \<Longrightarrow> listener_step up i m (i\<lparr>xi_at := L_Wait_Fail\<rparr>) m []"
| l_record: "xi_at i = L_Version \<Longrightarrow> up \<Longrightarrow> listener_step up i m (i\<lparr>xi_at := L_Range\<rparr>) m []"
| l_no_range: "xi_at i = L_Range \<Longrightarrow> listener_step up i m (i\<lparr>xi_at := L_Wait_Fail\<rparr>) m []"
| l_range: "xi_at i = L_Range \<Longrightarrow> listener_step up i m (i\<lparr>xi_at := L_Wait_Create\<rparr>) m []"
| l_lock_create: "xi_at i = L_Wait_Create \<Longrightarrow> xi_mutex i = By_Nobody \<Longrightarrow>
    listener_step up i m (i\<lparr>xi_mutex := By_Listener, xi_at := L_Create\<rparr>) m []"
| l_create: "xi_at i = L_Create \<Longrightarrow> up \<Longrightarrow>
    listener_step up i m ((unlocked i)\<lparr>xi_ctx := c, xi_at := L_Created\<rparr>) m []"
| l_no_context: "xi_at i = L_Created \<Longrightarrow> \<not> xi_ctx i \<Longrightarrow> listener_step up i m (i\<lparr>xi_at := L_Wait_Fail\<rparr>) m []"
| l_context: "xi_at i = L_Created \<Longrightarrow> xi_ctx i \<Longrightarrow> listener_step up i m (i\<lparr>xi_at := L_Sync\<rparr>) m []"
| l_sync: "xi_at i = L_Sync \<Longrightarrow> up \<Longrightarrow> listener_step up i m (i\<lparr>xi_at := L_Enable\<rparr>) m []"
| l_not_enabled: "xi_at i = L_Enable \<Longrightarrow> up \<Longrightarrow> listener_step up i m (i\<lparr>xi_at := L_Wait_Close\<rparr>) m []"
| l_enabled: "xi_at i = L_Enable \<Longrightarrow> up \<Longrightarrow>
    listener_step up i m (i\<lparr>xi_at := L_Enabled, xi_active := True\<rparr>) m []"
| l_ignored: "xi_at i = L_Enabled \<Longrightarrow> listener_step up i m i m []"
| l_callback: "xi_at i = L_Enabled \<Longrightarrow> xi_manager i \<Longrightarrow> m = Some st \<Longrightarrow> hm_running st \<Longrightarrow>
    listener_step up i m (i\<lparr>xi_at := L_Callback k\<rparr>) m []"
| l_dispatch: "xi_at i = L_Callback k \<Longrightarrow> xi_manager i \<Longrightarrow> m = Some st \<Longrightarrow> hotkey_step k st = (st', evs) \<Longrightarrow>
    listener_step up i m (i\<lparr>xi_at := L_Enabled\<rparr>) (Some st') evs"
| l_null: "xi_at i = L_Callback k \<Longrightarrow> \<not> xi_manager i \<Longrightarrow> listener_step up i m (i\<lparr>xi_at := L_Null\<rparr>) m []"
| l_disabled: "xi_at i = L_Enabled \<Longrightarrow> \<not> xi_active i \<Longrightarrow> listener_step up i m (i\<lparr>xi_at := L_Wait_Close\<rparr>) m []"
| l_lock_close: "xi_at i = L_Wait_Close \<Longrightarrow> xi_mutex i = By_Nobody \<Longrightarrow>
    listener_step up i m (i\<lparr>xi_mutex := By_Listener, xi_at := L_Close\<rparr>) m []"
| l_close: "xi_at i = L_Close \<Longrightarrow> up \<Longrightarrow>
    listener_step up i m (ended (i\<lparr>xi_data := False, xi_ctx := False, xi_ctrl := False\<rparr>)) m []"
| l_lock_fail: "xi_at i = L_Wait_Fail \<Longrightarrow> xi_mutex i = By_Nobody \<Longrightarrow>
    listener_step up i m (i\<lparr>xi_mutex := By_Listener, xi_at := L_Fail\<rparr>) m []"
| l_fail: "xi_at i = L_Fail \<Longrightarrow> up \<or> \<not> xi_data i \<and> \<not> xi_ctrl i \<Longrightarrow> m = Some st \<Longrightarrow>
    listener_step up i m (ended (i\<lparr>xi_data := False, xi_ctrl := False\<rparr>)) (Some (st\<lparr>hm_running := False\<rparr>)) []"
| l_freed: "xi_at i = L_Fail \<Longrightarrow> up \<or> \<not> xi_data i \<and> \<not> xi_ctrl i \<Longrightarrow> m = None \<Longrightarrow>
    listener_step up i m (i\<lparr>xi_data := False, xi_ctrl := False, xi_at := L_Freed\<rparr>) m []"
| l_lost: "uses_x i \<Longrightarrow> \<not> up \<Longrightarrow> listener_step up i m (ended i) m []"

inductive_cases listener_stepE: "listener_step up i m i' m' evs"

subsection \<open>The caller\<close>

text \<open>
  Assigning a thread to a joinable thread object ends the process (\<open>c_restart\<close>); so does an IO error
  on the caller's thread, which the handler passes on (\<open>c_nudge_lost\<close>). The destructor is stop,
  then \<open>c_delete\<close>.
\<close>

inductive caller_step :: "x11_world \<Rightarrow> x11_world \<Rightarrow> bool" for w :: x11_world where
  c_again: "xw_caller w = C_Free \<Longrightarrow> xw_mgr w = Some st \<Longrightarrow> hm_running st \<Longrightarrow> caller_step w w"
| c_signal_idle: "xw_caller w = C_Free \<Longrightarrow> xw_mgr w = Some st \<Longrightarrow> \<not> hm_running st \<Longrightarrow> caller_step w w"
| c_start: "xw_caller w = C_Free \<Longrightarrow> xw_mgr w = Some st \<Longrightarrow> \<not> hm_running st \<Longrightarrow> \<not> xi_joinable (xw_impl w) \<Longrightarrow>
    caller_step w (w\<lparr>xw_mgr := Some (st\<lparr>hm_running := True\<rparr>),
      xw_impl := (xw_impl w)\<lparr>xi_exited := False, xi_joinable := True, xi_at := L_Wait_Open, xi_active := False\<rparr>\<rparr>)"
| c_restart: "xw_caller w = C_Free \<Longrightarrow> xw_mgr w = Some st \<Longrightarrow> \<not> hm_running st \<Longrightarrow> xi_joinable (xw_impl w) \<Longrightarrow>
    caller_step w (w\<lparr>xw_mgr := Some (st\<lparr>hm_running := True\<rparr>), xw_caller := C_Terminated\<rparr>)"
| c_config: "xw_caller w = C_Free \<Longrightarrow> xw_mgr w = Some st \<Longrightarrow>
    caller_step w (w\<lparr>xw_mgr := Some (hm_set_config cfg st)\<rparr>)"
| c_signal: "xw_caller w = C_Free \<Longrightarrow> xw_mgr w = Some st \<Longrightarrow> hm_running st \<Longrightarrow>
    caller_step w (w\<lparr>xw_mgr := Some (st\<lparr>hm_running := False\<rparr>), xw_caller := C_Nudge For_Signal\<rparr>)"
| c_stop_idle: "xw_caller w = C_Free \<Longrightarrow> xw_mgr w = Some st \<Longrightarrow> \<not> xi_joinable (xw_impl w) \<Longrightarrow>
    caller_step w (w\<lparr>xw_mgr := Some (reset_input_state (st\<lparr>hm_running := False\<rparr>))\<rparr>)"
| c_stop: "xw_caller w = C_Free \<Longrightarrow> xw_mgr w = Some st \<Longrightarrow> xi_joinable (xw_impl w) \<Longrightarrow>
    caller_step w (w\<lparr>xw_mgr := Some (st\<lparr>hm_running := False\<rparr>), xw_caller := C_Poll stop_turns\<rparr>)"
| c_turn: "xw_caller w = C_Poll (Suc n) \<Longrightarrow> \<not> xi_exited (xw_impl w) \<Longrightarrow>
    caller_step w (w\<lparr>xw_caller := C_Nudge (For_Stop n)\<rparr>)"
| c_leave: "xw_caller w = C_Poll n \<Longrightarrow> caller_step w (w\<lparr>xw_caller := C_Leave\<rparr>)"
| c_lock: "xw_caller w = C_Nudge f \<Longrightarrow> xi_mutex (xw_impl w) = By_Nobody \<Longrightarrow>
    caller_step w (w\<lparr>xw_impl := (xw_impl w)\<lparr>xi_mutex := By_Caller\<rparr>, xw_caller := C_Holding f\<rparr>)"
| c_timed_out: "xw_caller w = C_Nudge f \<Longrightarrow> xi_mutex (xw_impl w) \<noteq> By_Nobody \<Longrightarrow>
    caller_step w (w\<lparr>xw_caller := nudged f\<rparr>)"
| c_nothing: "xw_caller w = C_Holding f \<Longrightarrow> \<not> xi_ctrl (xw_impl w) \<or> \<not> xi_ctx (xw_impl w) \<Longrightarrow>
    caller_step w (w\<lparr>xw_impl := (xw_impl w)\<lparr>xi_mutex := By_Nobody\<rparr>, xw_caller := nudged f\<rparr>)"
| c_call: "xw_caller w = C_Holding f \<Longrightarrow> xi_ctrl (xw_impl w) \<Longrightarrow> xi_ctx (xw_impl w) \<Longrightarrow>
    caller_step w (w\<lparr>xw_caller := C_Calling f\<rparr>)"
| c_nudged: "xw_caller w = C_Calling f \<Longrightarrow> xw_server w \<Longrightarrow>
    caller_step w (w\<lparr>xw_impl := (xw_impl w)\<lparr>xi_mutex := By_Nobody, xi_active := False\<rparr>, xw_caller := nudged f\<rparr>)"
| c_nudge_lost: "xw_caller w = C_Calling f \<Longrightarrow> \<not> xw_server w \<Longrightarrow> caller_step w (w\<lparr>xw_caller := C_Exited\<rparr>)"
| c_slept: "xw_caller w = C_Sleep n \<Longrightarrow> caller_step w (w\<lparr>xw_caller := C_Poll n\<rparr>)"
| c_join: "xw_caller w = C_Leave \<Longrightarrow> xw_mgr w = Some st \<Longrightarrow> xi_exited (xw_impl w) \<Longrightarrow>
    caller_step w (w\<lparr>xw_mgr := Some (reset_input_state st), xw_impl := (xw_impl w)\<lparr>xi_joinable := False\<rparr>,
      xw_caller := C_Free\<rparr>)"
| c_abandon: "xw_caller w = C_Leave \<Longrightarrow> xw_mgr w = Some st \<Longrightarrow> \<not> xi_exited (xw_impl w) \<Longrightarrow>
    caller_step w (w\<lparr>xw_mgr := Some (reset_input_state st),
      xw_leaked := (xw_impl w)\<lparr>xi_joinable := False, xi_manager := False\<rparr> # xw_leaked w,
      xw_impl := xi_fresh, xw_caller := C_Free\<rparr>)"
| c_delete: "xw_caller w = C_Free \<Longrightarrow> \<not> xi_joinable (xw_impl w) \<Longrightarrow>
    caller_step w (w\<lparr>xw_mgr := None, xw_caller := C_Deleted\<rparr>)"

inductive_cases caller_stepE: "caller_step w w'"

subsection \<open>All of them\<close>

inductive world_step :: "x11_world \<Rightarrow> x11_world \<Rightarrow> bool" for w :: x11_world where
  w_caller: "caller_step w w' \<Longrightarrow> world_step w w'"
| w_listener: "listener_step (xw_server w) (xw_impl w) (xw_mgr w) i m evs \<Longrightarrow>
    world_step w (w\<lparr>xw_impl := i, xw_mgr := m, xw_sent := xw_sent w @ evs\<rparr>)"
| w_leaked: "j < length (xw_leaked w) \<Longrightarrow> listener_step (xw_server w) (xw_leaked w ! j) (xw_mgr w) i m evs \<Longrightarrow>
    world_step w (w\<lparr>xw_leaked := (xw_leaked w)[j := i], xw_mgr := m, xw_sent := xw_sent w @ evs\<rparr>)"
| w_server: "world_step w (w\<lparr>xw_server := False\<rparr>)"

inductive_cases world_stepE: "world_step w w'"

lemma world_steps: "world_step\<^sup>*\<^sup>* s t \<Longrightarrow> world_step t u \<Longrightarrow> world_step\<^sup>*\<^sup>* s u"
  by (rule rtranclp.rtrancl_into_rtrancl)

end
