(* ===== verification/Hotkey_X11_Laws.thy ===== *)
theory Hotkey_X11_Laws
  imports Hotkey_X11 Step_Systems
begin

text \<open>
  Laws of the X11 listener: the lock discipline of the nudge, that stop returns whatever the listener
  does, that nothing is sent once it runs, that the loop of nudges makes up for a lost one; and what
  a listener that stop gave up on can still do.
\<close>

section \<open>Invariants\<close>

text \<open>The positions of the listener that hold \<open>x_mutex\<close>, that have both connections, that have a record
  context; then those of the caller.\<close>

fun locking :: "listener_at \<Rightarrow> bool" where
  "locking L_Open = True" | "locking L_Create = True" | "locking L_Close = True" | "locking L_Fail = True"
| "locking p = False"

fun connected :: "listener_at \<Rightarrow> bool" where
  "connected L_None = False" | "connected L_Wait_Open = False" | "connected L_Open = False" | "connected L_Check = False"
| "connected L_Wait_Fail = False" | "connected L_Fail = False" | "connected L_Gone = False" | "connected L_Freed = False"
| "connected p = True"

fun recording :: "listener_at \<Rightarrow> bool" where
  "recording L_Sync = True" | "recording L_Enable = True" | "recording L_Enabled = True"
| "recording (L_Callback k) = True" | "recording L_Wait_Close = True" | "recording L_Close = True" | "recording p = False"

fun nudging :: "caller_at \<Rightarrow> bool" where
  "nudging (C_Holding f) = True" | "nudging (C_Calling f) = True" | "nudging c = False"

fun calling :: "caller_at \<Rightarrow> bool" where
  "calling (C_Calling f) = True" | "calling c = False"

fun quiet :: "caller_at \<Rightarrow> bool" where
  "quiet (C_Poll n) = True" | "quiet (C_Nudge f) = True" | "quiet (C_Holding f) = True"
| "quiet (C_Calling f) = True" | "quiet (C_Sleep n) = True" | "quiet C_Leave = True" | "quiet c = False"

fun stopping :: "caller_at \<Rightarrow> bool" where
  "stopping (C_Poll n) = True" | "stopping (C_Nudge f) = (f \<noteq> For_Signal)" | "stopping (C_Holding f) = (f \<noteq> For_Signal)"
| "stopping (C_Calling f) = (f \<noteq> For_Signal)" | "stopping (C_Sleep n) = True" | "stopping C_Leave = True" | "stopping c = False"

definition impl_inv :: "caller_at \<Rightarrow> x11_impl \<Rightarrow> bool" where
  "impl_inv c i \<longleftrightarrow>
     xi_manager i \<and> (locking (xi_at i) \<longleftrightarrow> xi_mutex i = By_Listener) \<and>
     (nudging c \<longrightarrow> xi_mutex i = By_Caller) \<and> (xi_mutex i = By_Caller \<longrightarrow> nudging c \<or> c = C_Exited) \<and>
     (calling c \<longrightarrow> nudging c \<and> xi_ctrl i \<and> xi_ctx i) \<and>
     (connected (xi_at i) \<longrightarrow> xi_data i \<and> xi_ctrl i) \<and> (recording (xi_at i) \<longrightarrow> xi_ctx i) \<and>
     (if xi_joinable i then xi_exited i = (xi_at i = L_Gone) \<and> xi_at i \<noteq> L_Null \<and> xi_at i \<noteq> L_Freed
      else xi_at i = L_None \<or> xi_at i = L_Gone) \<and>
     (stopping c \<longrightarrow> xi_joinable i) \<and> (c = C_Deleted \<longrightarrow> \<not> xi_joinable i)"

definition mgr_inv :: "caller_at \<Rightarrow> hotkey_manager option \<Rightarrow> bool" where
  "mgr_inv c m \<longleftrightarrow>
     (case m of None \<Rightarrow> c = C_Deleted | Some st \<Rightarrow> c \<noteq> C_Deleted \<and> (quiet c \<longrightarrow> \<not> hm_running st))"

definition xw_inv :: "x11_world \<Rightarrow> bool" where
  "xw_inv w \<longleftrightarrow> impl_inv (xw_caller w) (xw_impl w) \<and> mgr_inv (xw_caller w) (xw_mgr w) \<and>
     list_all (\<lambda>z. \<not> xi_manager z) (xw_leaked w)"

lemmas xw_inv_defs = impl_inv_def mgr_inv_def

lemma unlocked_simps [simp]:
  "xi_manager (unlocked i) = xi_manager i" "xi_data (unlocked i) = xi_data i" "xi_ctrl (unlocked i) = xi_ctrl i"
  "xi_ctx (unlocked i) = xi_ctx i" "xi_joinable (unlocked i) = xi_joinable i" "xi_exited (unlocked i) = xi_exited i"
  "xi_at (unlocked i) = xi_at i" "xi_active (unlocked i) = xi_active i"
  "xi_mutex (unlocked i) = (if xi_mutex i = By_Listener then By_Nobody else xi_mutex i)"
  by (simp_all add: unlocked_def)

text \<open>What a step of a listener leaves alone.\<close>

lemma listener_keeps:
  "listener_step up i m i' m' evs \<Longrightarrow> xi_manager i' = xi_manager i \<and> xi_joinable i' = xi_joinable i"
  by (erule listener_step.cases) (simp_all add: ended_def)

text \<open>What a step does to the manager: a handler call, or switching it off.\<close>

lemma listener_no_manager: "listener_step up i None i' m' evs \<Longrightarrow> m' = None"
  by (erule listener_step.cases) simp_all

lemma listener_some_manager: "listener_step up i (Some st) i' m' evs \<Longrightarrow> m' \<noteq> None"
  by (erule listener_step.cases) simp_all

lemma listener_quiet:
  "listener_step up i (Some st) i' m' evs \<Longrightarrow> \<not> hm_running st \<Longrightarrow> m' = Some st \<and> evs = []"
  by (erule listener_step.cases) (simp_all add: hotkey_step_stopped)

lemma listener_leaked:
  "listener_step up i m i' m' evs \<Longrightarrow> \<not> xi_manager i \<Longrightarrow>
     evs = [] \<and> (m' = m \<or> m' = map_option (hm_running_update (\<lambda>x. False)) m)"
  by (erule listener_step.cases) simp_all

lemma xw_inv_init: "xw_inv (xw_init st)"
  by (simp add: xw_inv_def xw_init_def xw_inv_defs xi_fresh_def)

lemma nudged_simps [simp]:
  "\<not> nudging (nudged f)" "\<not> calling (nudged f)" "nudged f \<noteq> C_Deleted" "stopping (nudged f) = (f \<noteq> For_Signal)"
  by (cases f; simp)+

lemma caller_keeps_inv: "caller_step w w' \<Longrightarrow> xw_inv w \<Longrightarrow> xw_inv w'"
  by (erule caller_step.cases)
     (auto simp: xw_inv_def xw_inv_defs xi_fresh_def reset_input_state_def split: option.splits)

lemma listener_keeps_impl:
  "listener_step up i m i' m' evs \<Longrightarrow> mgr_inv c m \<Longrightarrow> impl_inv c i \<Longrightarrow> impl_inv c i'"
  by (erule listener_step.cases)
     (auto simp: impl_inv_def mgr_inv_def ended_def uses_x_def split: if_splits)

lemma listener_keeps_mgr: "listener_step up i m i' m' evs \<Longrightarrow> mgr_inv c m \<Longrightarrow> mgr_inv c m'"
  using listener_no_manager listener_some_manager listener_quiet
  by (cases m; cases m'; fastforce simp: mgr_inv_def)

lemma world_keeps_inv:
  assumes "world_step w w'" "xw_inv w"
  shows "xw_inv w'"
  using assms(1)
proof cases
  case w_caller
  then show ?thesis using assms(2) by (rule caller_keeps_inv)
next
  case (w_listener i m evs)
  then show ?thesis
    using assms(2) listener_keeps_impl [OF w_listener(2)] listener_keeps_mgr [OF w_listener(2)] by (simp add: xw_inv_def)
next
  case (w_leaked j i m evs)
  then show ?thesis
    using assms(2) listener_keeps_mgr [OF w_leaked(3)] listener_keeps [OF w_leaked(3)]
    by (auto simp: xw_inv_def list_all_length nth_list_update)
next
  case w_server
  then show ?thesis using assms(2) by (simp add: xw_inv_def)
qed

interpretation x11_world: step_system world_step xw_inv
  by unfold_locales (rule world_keeps_inv)

lemma xw_reachable: "world_step\<^sup>*\<^sup>* (xw_init st) w \<Longrightarrow> xw_inv w"
  by (rule x11_world.run_inv [OF _ xw_inv_init])

section \<open>The nudge\<close>

text \<open>C24: Whenever the caller is about to issue the X calls of a nudge (from signal_stop or from stop), it holds
  the mutex and both the control display and the record context are still there: the listener never
  closes them under the caller's hands.\<close>

theorem nudge_display_open:
  "\<not> (\<exists>w f. world_step\<^sup>*\<^sup>* (xw_init st) w \<and> xw_caller w = C_Calling f \<and>
      \<not> (xi_mutex (xw_impl w) = By_Caller \<and> xi_ctrl (xw_impl w) \<and> xi_ctx (xw_impl w)))"
  using xw_reachable by (fastforce simp: xw_inv_def impl_inv_def)

section \<open>Stopping\<close>

text \<open>The caller's own steps left until stop has returned.\<close>

fun stop_left :: "caller_at \<Rightarrow> nat" where
  "stop_left (C_Poll n) = 5 * n + 2"
| "stop_left (C_Nudge (For_Stop n)) = 5 * n + 6"
| "stop_left (C_Holding (For_Stop n)) = 5 * n + 5"
| "stop_left (C_Calling (For_Stop n)) = 5 * n + 4"
| "stop_left (C_Sleep n) = 5 * n + 3"
| "stop_left C_Leave = 1"
| "stop_left c = 0"

lemma not_signal: "f \<noteq> For_Signal \<longleftrightarrow> (\<exists>n. f = For_Stop n)"
  by (cases f) simp_all

lemma stop_left_falls: "caller_step w w' \<Longrightarrow> stopping (xw_caller w) \<Longrightarrow> stop_left (xw_caller w') < stop_left (xw_caller w)"
  by (erule caller_step.cases) (auto simp: not_signal)

lemma stop_left_starts: "caller_step w w' \<Longrightarrow> \<not> stopping (xw_caller w) \<Longrightarrow> stop_left (xw_caller w') \<le> 5 * stop_turns + 2"
  by (erule caller_step.cases) auto

lemma others_keep_caller: "world_step w w' \<Longrightarrow> \<not> caller_step w w' \<Longrightarrow> xw_caller w' = xw_caller w"
  by (erule world_step.cases) auto

lemma stop_left_bound: "world_step\<^sup>*\<^sup>* (xw_init st) w \<Longrightarrow> stop_left (xw_caller w) \<le> 5 * stop_turns + 2"
proof (induction rule: rtranclp_induct)
  case (step v w)
  then show ?case using stop_left_falls stop_left_starts others_keep_caller
    by (metis le_trans less_imp_le)
qed (simp add: xw_init_def)

lemma stop_not_stuck: "xw_inv w \<Longrightarrow> stopping (xw_caller w) \<Longrightarrow> \<exists>w'. caller_step w w'"
proof -
  assume i: "xw_inv w" "stopping (xw_caller w)"
  then obtain st where st: "xw_mgr w = Some st" by (auto simp: xw_inv_def mgr_inv_def split: option.splits)
  show ?thesis
  proof (cases "xw_caller w")
    case C_Leave
    then show ?thesis using c_join [OF C_Leave st] c_abandon [OF C_Leave st] by blast
  next
    case (C_Nudge f)
    then show ?thesis using c_lock [OF C_Nudge] c_timed_out [OF C_Nudge] by blast
  next
    case (C_Holding f)
    then show ?thesis using c_nothing [OF C_Holding] c_call [OF C_Holding] by blast
  next
    case (C_Calling f)
    then show ?thesis using c_nudged [OF C_Calling] c_nudge_lost [OF C_Calling] by blast
  qed (use i st in \<open>auto intro: caller_step.intros\<close>)
qed

text \<open>C23: Stopping never waits for the listener: in every reachable state inside stop, whatever the listener, the
  abandoned ones and the server do, the caller has a step to take, each of them brings stop closer to
  its end, of at most 502, and no step of the others takes it back.\<close>

theorem stop_wait_free:
  assumes "world_step\<^sup>*\<^sup>* (xw_init st) w" "stopping (xw_caller w)"
  shows "stop_left (xw_caller w) \<le> 502 \<and> (\<exists>w'. caller_step w w') \<and>
    \<not> (\<exists>w'. caller_step w w' \<and> stop_left (xw_caller w) \<le> stop_left (xw_caller w')) \<and>
    \<not> (\<exists>w'. world_step w w' \<and> \<not> caller_step w w' \<and> xw_caller w' \<noteq> xw_caller w)"
proof (intro conjI)
  show "stop_left (xw_caller w) \<le> 502" using stop_left_bound [OF assms(1)] by (simp add: stop_turns_def)
  show "\<exists>w'. caller_step w w'" by (rule stop_not_stuck [OF xw_reachable [OF assms(1)] assms(2)])
  show "\<not> (\<exists>w'. caller_step w w' \<and> stop_left (xw_caller w) \<le> stop_left (xw_caller w'))"
    using stop_left_falls [OF _ assms(2)] by (meson leD)
  show "\<not> (\<exists>w'. world_step w w' \<and> \<not> caller_step w w' \<and> xw_caller w' \<noteq> xw_caller w)"
    using others_keep_caller by blast
qed

text \<open>While it stops, no thread changes the manager or sends anything; what stop leaves is what
  \<open>x11_stop\<close> computes, joined or not.\<close>

lemma quiet_when_stopping: "stopping c \<Longrightarrow> quiet c"
  by (cases c) simp_all

lemma reset_is_x11_stop: "\<not> hm_running st \<Longrightarrow> reset_input_state st = fst (x11_stop j polls final st)"
  by (simp add: reset_input_state_def x11_stop_def Let_def)

text \<open>A step taken while stop runs either leaves the manager as it is and stop still running, or kills the
  process because the server has gone, or ends stop with exactly the manager that x11_stop computes; it
  sends nothing in any case.\<close>

theorem stop_refines:
  assumes "world_step\<^sup>*\<^sup>* (xw_init st0) w" "stopping (xw_caller w)" "world_step w w'"
  shows "\<exists>st. xw_mgr w = Some st \<and> xw_sent w' = xw_sent w \<and>
    (stopping (xw_caller w') \<and> xw_mgr w' = Some st \<or>
     \<not> xw_server w \<and> xw_caller w' = C_Exited \<and> xw_mgr w' = Some st \<or>
     xw_caller w' = C_Free \<and> xw_mgr w' = Some (fst (x11_stop j polls final st)) \<and> \<not> xi_joinable (xw_impl w'))"
proof -
  have "xw_inv w" by (rule xw_reachable [OF assms(1)])
  then obtain st where st: "xw_mgr w = Some st" "\<not> hm_running st"
    using quiet_when_stopping [OF assms(2)] assms(2) by (auto simp: xw_inv_def mgr_inv_def split: option.splits)
  note quiet = listener_quiet [OF _ st(2)] and result = reset_is_x11_stop [OF st(2), of j polls final]
  from assms(3) show ?thesis
  proof cases
    case w_caller
    then show ?thesis using assms(2) st result by (elim caller_step.cases) (auto simp: xi_fresh_def)
  qed (use assms(2) st(1) in \<open>auto dest: quiet\<close>)
qed

section \<open>Abandoned listeners\<close>

lemma leaked_silent:
  assumes "world_step\<^sup>*\<^sup>* (xw_init st0) w" "z \<in> set (xw_leaked w)" "listener_step up z m z' m' evs"
  shows "evs = [] \<and> (m' = m \<or> m' = map_option (hm_running_update (\<lambda>x. False)) m)"
proof -
  have "\<not> xi_manager z" using xw_reachable [OF assms(1)] assms(2) by (auto simp: xw_inv_def list_all_iff)
  then show ?thesis by (rule listener_leaked [OF assms(3)])
qed

subsection \<open>Runs of a listener\<close>

text \<open>Runs of one listener that leave the manager alone, and how they make runs of the whole.\<close>

abbreviation listener_run :: "hotkey_manager option \<Rightarrow> x11_impl \<Rightarrow> x11_impl \<Rightarrow> bool" where
  "listener_run m \<equiv> (\<lambda>i i'. listener_step True i m i' m [])\<^sup>*\<^sup>*"

lemma listener_then: "listener_step True i m i1 m [] \<Longrightarrow> listener_run m i1 i2 \<Longrightarrow> listener_run m i i2"
  by (rule converse_rtranclp_into_rtranclp)

definition xw_free :: "hotkey_manager option \<Rightarrow> x11_impl \<Rightarrow> x11_impl list \<Rightarrow> x11_world" where
  "xw_free m i zs = \<lparr>xw_mgr = m, xw_impl = i, xw_caller = C_Free, xw_leaked = zs, xw_server = True, xw_sent = []\<rparr>"

lemma xw_free_simps [simp]:
  "xw_mgr (xw_free m i zs) = m" "xw_impl (xw_free m i zs) = i" "xw_caller (xw_free m i zs) = C_Free"
  "xw_leaked (xw_free m i zs) = zs" "xw_server (xw_free m i zs)" "xw_sent (xw_free m i zs) = []"
  by (simp_all add: xw_free_def)

lemma xw_init_free: "xw_init st = xw_free (Some st) xi_fresh []"
  by (simp add: xw_init_def xw_free_def)

lemma free_step: "listener_step True i m i' m' [] \<Longrightarrow> world_step (xw_free m i zs) (xw_free m' i' zs)"
  using w_listener [of "xw_free m i zs" i' m' "[]"] by (simp add: xw_free_def)

lemma free_leaked_step: "listener_step True z m z' m' [] \<Longrightarrow> world_step (xw_free m i (z # zs)) (xw_free m' i (z' # zs))"
  using w_leaked [of 0 "xw_free m i (z # zs)" z' m' "[]"] by (simp add: xw_free_def)

lemma free_run: "listener_run m i i' \<Longrightarrow> world_step\<^sup>*\<^sup>* (xw_free m i zs) (xw_free m i' zs)"
  by (induction rule: rtranclp_induct) (auto intro: world_steps free_step)

lemma free_leaked_run: "listener_run m z z' \<Longrightarrow> world_step\<^sup>*\<^sup>* (xw_free m i (z # zs)) (xw_free m i (z' # zs))"
  by (induction rule: rtranclp_induct) (auto intro: world_steps free_leaked_step)

text \<open>A thread that has just been started, one that is about to query the version, one that records.\<close>

definition xi_started :: x11_impl where
  "xi_started = xi_fresh\<lparr>xi_joinable := True, xi_at := L_Wait_Open\<rparr>"

definition xi_connected :: x11_impl where
  "xi_connected = xi_started\<lparr>xi_ctrl := True, xi_data := True, xi_at := L_Version\<rparr>"

definition xi_recording :: x11_impl where
  "xi_recording = xi_connected\<lparr>xi_ctx := True, xi_active := True, xi_at := L_Enabled\<rparr>"

lemmas run_defs = xi_fresh_def xi_started_def xi_connected_def xi_recording_def unlocked_def ended_def uses_x_def

lemma run_connect: "listener_run m xi_started xi_connected"
  apply (rule listener_then [OF l_lock_open], simp_all add: run_defs)
  apply (rule listener_then [OF l_open [where c = True and d = True]], simp_all add: run_defs)
  apply (rule listener_then [OF l_displays], simp_all)
  done

lemma run_record: "listener_run m xi_connected xi_recording"
  apply (rule listener_then [OF l_record], simp_all add: run_defs)
  apply (rule listener_then [OF l_range], simp_all)
  apply (rule listener_then [OF l_lock_create], simp_all)
  apply (rule listener_then [OF l_create [where c = True]], simp_all add: run_defs)
  apply (rule listener_then [OF l_context], simp_all)
  apply (rule listener_then [OF l_sync], simp_all)
  apply (rule listener_then [OF l_enabled], simp_all)
  done

abbreviation abandoned :: "x11_impl \<Rightarrow> x11_impl" where
  "abandoned i \<equiv> i\<lparr>xi_joinable := False, xi_manager := False\<rparr>"

abbreviation xi_failing :: x11_impl where
  "xi_failing \<equiv> (abandoned xi_connected)\<lparr>xi_mutex := By_Listener, xi_at := L_Fail\<rparr>"

lemma run_fail_wait: "listener_run m (abandoned xi_connected) xi_failing"
  apply (rule listener_then [OF l_no_record], simp_all add: run_defs)
  apply (rule listener_then [OF l_lock_fail], simp_all)
  done

subsection \<open>Runs of the caller\<close>

abbreviation switched :: "bool \<Rightarrow> hotkey_manager \<Rightarrow> hotkey_manager" where
  "switched b st \<equiv> st\<lparr>hm_running := b\<rparr>"

lemma free_start:
  "\<not> hm_running st \<Longrightarrow> world_step\<^sup>*\<^sup>* (xw_free (Some st) xi_fresh zs) (xw_free (Some (switched True st)) xi_started zs)"
  by (rule r_into_rtranclp, rule w_caller)
     (use c_start [of "xw_free (Some st) xi_fresh zs" st] in \<open>simp add: xw_free_def run_defs\<close>)

lemma free_abandon:
  assumes "xi_joinable i" "\<not> xi_exited i"
  shows "world_step\<^sup>*\<^sup>* (xw_free (Some st) i zs)
    (xw_free (Some (reset_input_state (switched False st))) xi_fresh (i\<lparr>xi_joinable := False, xi_manager := False\<rparr> # zs))"
    (is "world_step\<^sup>*\<^sup>* ?w ?w3")
proof -
  let ?w1 = "?w\<lparr>xw_mgr := Some (switched False st), xw_caller := C_Poll stop_turns\<rparr>"
  let ?w2 = "?w1\<lparr>xw_caller := C_Leave\<rparr>"
  have "world_step ?w ?w1" by (rule w_caller, rule c_stop) (simp_all add: assms(1))
  moreover have "world_step ?w1 ?w2" by (rule w_caller, rule c_leave) simp
  moreover have "world_step ?w2 ?w3"
    using w_caller [OF c_abandon [of ?w2 "switched False st"]] assms(2) by (simp add: xw_free_def)
  ultimately show ?thesis by (meson rtranclp.rtrancl_into_rtrancl rtranclp.rtrancl_refl)
qed

lemmas world_run = rtranclp_trans [of world_step]

text \<open>A started listener that is recording, or connected, or left behind by stop.\<close>

lemma free_connected:
  "\<not> hm_running st \<Longrightarrow> world_step\<^sup>*\<^sup>* (xw_free (Some st) xi_fresh zs) (xw_free (Some (switched True st)) xi_connected zs)"
  by (rule world_run [OF free_start free_run [OF run_connect]])

lemma free_recording:
  "\<not> hm_running st \<Longrightarrow> world_step\<^sup>*\<^sup>* (xw_free (Some st) xi_fresh zs) (xw_free (Some (switched True st)) xi_recording zs)"
  by (rule world_run [OF free_connected free_run [OF run_record]])

lemma free_left_behind:
  "\<not> hm_running st \<Longrightarrow> world_step\<^sup>*\<^sup>* (xw_free (Some st) xi_fresh zs)
     (xw_free (Some (reset_input_state (switched False st))) xi_fresh (abandoned xi_connected # zs))"
  using world_run [OF free_connected free_abandon [of xi_connected "switched True st"]] by (simp add: run_defs)

lemma free_failing:
  "\<not> hm_running st \<Longrightarrow> world_step\<^sup>*\<^sup>* (xw_free (Some st) xi_fresh [])
     (xw_free (Some (reset_input_state (switched False st))) xi_fresh [xi_failing])"
  by (rule world_run [OF free_left_behind free_leaked_run [OF run_fail_wait]])

subsection \<open>What an abandoned listener can still do\<close>

text \<open>The manager is switched off under the listener of the next start.\<close>

lemma abandoned_switches_off:
  assumes "\<not> hm_running st"
  shows "\<exists>w w'. world_step\<^sup>*\<^sup>* (xw_init st) w \<and> world_step w w' \<and> xi_at (xw_impl w) = L_Enabled \<and> xw_caller w = C_Free \<and>
      map_option hm_running (xw_mgr w) = Some True \<and> map_option hm_running (xw_mgr w') = Some False \<and>
      xw_caller w' = C_Free \<and> xw_impl w' = xw_impl w"
proof -
  let ?st = "switched True (reset_input_state (switched False st))"
  have "world_step\<^sup>*\<^sup>* (xw_init st) (xw_free (Some ?st) xi_recording [xi_failing])"
    unfolding xw_init_free
    by (rule world_run [OF free_failing [OF assms] free_recording]) (simp add: reset_input_state_def)
  moreover have "world_step (xw_free (Some ?st) xi_recording [xi_failing])
      (xw_free (Some (switched False ?st)) xi_recording [ended (xi_failing\<lparr>xi_data := False, xi_ctrl := False\<rparr>)])"
    by (rule free_leaked_step, rule l_fail) simp_all
  ultimately show ?thesis by (intro exI conjI) (assumption | simp add: xi_recording_def)+
qed

text \<open>The manager is null when the callback comes to use it.\<close>

lemma abandoned_uses_null:
  assumes "\<not> hm_running st"
  shows "\<exists>w. world_step\<^sup>*\<^sup>* (xw_init st) w \<and> L_Null \<in> xi_at ` set (xw_leaked w)"
proof -
  let ?c = "xi_recording\<lparr>xi_at := L_Callback (KeyDown ''a'')\<rparr>"
  let ?m = "Some (switched True st)"
  let ?m' = "Some (reset_input_state (switched False (switched True st)))"
  have "world_step\<^sup>*\<^sup>* (xw_init st) (xw_free ?m xi_recording [])"
    unfolding xw_init_free by (rule free_recording [OF assms])
  moreover have "world_step (xw_free ?m xi_recording []) (xw_free ?m ?c [])"
    by (rule free_step, rule l_callback [where st = "switched True st"]) (simp_all add: run_defs)
  moreover have "world_step\<^sup>*\<^sup>* (xw_free ?m ?c []) (xw_free ?m' xi_fresh [abandoned ?c])"
    by (rule free_abandon) (simp_all add: run_defs)
  moreover have "world_step (xw_free ?m' xi_fresh [abandoned ?c]) (xw_free ?m' xi_fresh [(abandoned ?c)\<lparr>xi_at := L_Null\<rparr>])"
    by (rule free_leaked_step, rule l_null) simp_all
  ultimately have "world_step\<^sup>*\<^sup>* (xw_init st) (xw_free ?m' xi_fresh [(abandoned ?c)\<lparr>xi_at := L_Null\<rparr>])"
    by (meson world_run world_steps)
  then show ?thesis by (intro exI conjI) (assumption | simp)+
qed

text \<open>The manager is gone when the failing thread switches it off.\<close>

lemma abandoned_uses_freed:
  assumes "\<not> hm_running st"
  shows "\<exists>w. world_step\<^sup>*\<^sup>* (xw_init st) w \<and> L_Freed \<in> xi_at ` set (xw_leaked w)"
proof -
  let ?w = "xw_free (Some (reset_input_state (switched False st))) xi_fresh [xi_failing]"
  let ?d = "?w\<lparr>xw_mgr := None, xw_caller := C_Deleted\<rparr>"
  let ?z = "xi_failing\<lparr>xi_data := False, xi_ctrl := False, xi_at := L_Freed\<rparr>"
  have "world_step\<^sup>*\<^sup>* (xw_init st) ?w" unfolding xw_init_free by (rule free_failing [OF assms])
  moreover have "world_step ?w ?d" by (rule w_caller, rule c_delete) (simp_all add: run_defs)
  moreover have "world_step ?d (?d\<lparr>xw_leaked := [?z]\<rparr>)"
    using w_leaked [of 0 ?d ?z None "[]"] l_freed [of xi_failing True None] by (simp add: xw_free_def)
  ultimately have "world_step\<^sup>*\<^sup>* (xw_init st) (?d\<lparr>xw_leaked := [?z]\<rparr>)" by (meson world_steps)
  then show ?thesis by (intro exI conjI) (assumption | simp)+
qed

text \<open>C32: What a listener that stop has given up on can still do, with the server merely slow: switch off the
  next listener, which stays connected but ignores every key; dereference the null manager, when it
  was inside the callback; write to a manager that has been destroyed.\<close>

theorem abandoned_listener_harms:
  "(\<exists>w w'. world_step\<^sup>*\<^sup>* (xw_init (switched False st)) w \<and> world_step w w' \<and> xi_at (xw_impl w) = L_Enabled \<and>
      xw_caller w = C_Free \<and> map_option hm_running (xw_mgr w) = Some True \<and>
      map_option hm_running (xw_mgr w') = Some False \<and> xw_caller w' = C_Free \<and> xw_impl w' = xw_impl w) \<and>
   (\<exists>w. world_step\<^sup>*\<^sup>* (xw_init (switched False st)) w \<and> L_Null \<in> xi_at ` set (xw_leaked w)) \<and>
   (\<exists>w. world_step\<^sup>*\<^sup>* (xw_init (switched False st)) w \<and> L_Freed \<in> xi_at ` set (xw_leaked w))"
  by (intro conjI abandoned_switches_off abandoned_uses_null abandoned_uses_freed) simp_all

section \<open>Other endings\<close>

text \<open>A start after a listener that could not connect ends the process: the thread object is still joinable.\<close>

theorem restart_after_failure_terminates:
  "\<exists>w w'. world_step\<^sup>*\<^sup>* (xw_init (switched False st)) w \<and> xw_caller w = C_Free \<and>
     map_option hm_running (xw_mgr w) = Some False \<and> world_step w w' \<and> xw_caller w' = C_Terminated"
proof -
  let ?st = "switched False st"
  let ?f = "xi_started\<lparr>xi_mutex := By_Listener, xi_at := L_Fail\<rparr>"
  let ?w = "xw_free (Some ?st) (ended ?f) []"
  have "listener_run m xi_started ?f" for m
    apply (rule listener_then [OF l_lock_open], simp_all add: run_defs)
    apply (rule listener_then [OF l_open [where c = False and d = False]], simp_all add: run_defs)
    apply (rule listener_then [OF l_no_display], simp_all)
    apply (rule listener_then [OF l_lock_fail], simp_all)
    done
  then have "world_step\<^sup>*\<^sup>* (xw_init ?st) (xw_free (Some (switched True ?st)) ?f [])"
    unfolding xw_init_free by (intro world_run [OF free_start free_run]) simp_all
  moreover have "world_step (xw_free (Some (switched True ?st)) ?f []) ?w"
    using l_fail [of ?f True "Some (switched True ?st)"] by (intro free_step) (simp add: run_defs)
  ultimately have "world_step\<^sup>*\<^sup>* (xw_init ?st) ?w" by (rule world_steps)
  moreover have "world_step ?w (?w\<lparr>xw_mgr := Some (switched True ?st), xw_caller := C_Terminated\<rparr>)"
    by (rule w_caller, rule c_restart) (simp_all add: run_defs)
  ultimately show ?thesis by (intro exI conjI) (assumption | simp)+
qed

text \<open>Once the listener has died with the server, signal_stop ends the whole process.\<close>

theorem signal_after_loss_exits:
  "\<exists>w w'. world_step\<^sup>*\<^sup>* (xw_init (switched False st)) w \<and> xw_caller w = C_Free \<and> xi_at (xw_impl w) = L_Gone \<and>
     world_step\<^sup>*\<^sup>* w w' \<and> xw_caller w' = C_Exited"
proof -
  let ?w0 = "xw_free (Some (switched True st)) xi_recording []"
  let ?w1 = "?w0\<lparr>xw_server := False\<rparr>"
  let ?i = "ended xi_recording"
  let ?w2 = "?w1\<lparr>xw_impl := ?i\<rparr>"
  let ?w3 = "?w2\<lparr>xw_mgr := Some (switched False st), xw_caller := C_Nudge For_Signal\<rparr>"
  let ?w4 = "?w3\<lparr>xw_impl := ?i\<lparr>xi_mutex := By_Caller\<rparr>, xw_caller := C_Holding For_Signal\<rparr>"
  let ?w5 = "?w4\<lparr>xw_caller := C_Calling For_Signal\<rparr>"
  let ?w6 = "?w5\<lparr>xw_caller := C_Exited\<rparr>"
  have a: "world_step\<^sup>*\<^sup>* (xw_init (switched False st)) ?w0"
    using free_recording [of "switched False st" "[]"] by (simp add: xw_init_free)
  have b: "world_step ?w0 ?w1" by (rule w_server)
  have c: "world_step ?w1 ?w2"
    using w_listener [of ?w1 ?i "Some (switched True st)" "[]"] l_lost [of xi_recording False "Some (switched True st)"]
    by (simp add: run_defs xw_free_def)
  have d: "world_step ?w2 ?w3"
    using w_caller [OF c_signal [of ?w2 "switched True st"]] by simp
  have e: "world_step ?w3 ?w4" using w_caller [OF c_lock [of ?w3 For_Signal]] by (simp add: run_defs)
  have f: "world_step ?w4 ?w5" using w_caller [OF c_call [of ?w4 For_Signal]] by (simp add: run_defs)
  have g: "world_step ?w5 ?w6" using w_caller [OF c_nudge_lost [of ?w5 For_Signal]] by simp
  have "world_step\<^sup>*\<^sup>* (xw_init (switched False st)) ?w2" by (rule world_steps [OF world_steps [OF a b] c])
  moreover have "world_step\<^sup>*\<^sup>* ?w2 ?w6"
    by (rule rtranclp.rtrancl_refl [THEN world_steps, OF d, THEN world_steps, OF e, THEN world_steps, OF f, THEN world_steps, OF g])
  ultimately show ?thesis by (intro exI conjI) (assumption | simp add: ended_def)+
qed

section \<open>The loop of nudges\<close>

text \<open>A caller that stops, at the head of its wait loop with a listener in some position.\<close>

lemma free_stopping:
  "xi_joinable i \<Longrightarrow> world_step (xw_free (Some st) i zs)
     ((xw_free (Some (switched False st)) i zs)\<lparr>xw_caller := C_Poll stop_turns\<rparr>)"
  using w_caller [OF c_stop [of "xw_free (Some st) i zs"]] by (simp add: xw_free_def)

lemma reach_stopping:
  "world_step\<^sup>*\<^sup>* (xw_init (switched False st)) ((xw_free (Some (switched False st)) xi_recording [])\<lparr>xw_caller := C_Poll stop_turns\<rparr>)"
proof -
  have "world_step\<^sup>*\<^sup>* (xw_init (switched False st)) (xw_free (Some (switched True st)) xi_recording [])"
    using free_recording [of "switched False st" "[]"] by (simp add: xw_init_free)
  from world_steps [OF this free_stopping] show ?thesis by (simp add: xi_recording_def xi_connected_def xi_started_def)
qed

text \<open>A nudge before the context is enabled is lost: signal_stop has returned, and the listener records on.
  With the server up nothing it does itself ends the recording.\<close>

theorem early_nudge_lost:
  "\<exists>w. world_step\<^sup>*\<^sup>* (xw_init (switched False st)) w \<and> xw_caller w = C_Free \<and> map_option hm_running (xw_mgr w) = Some False \<and>
     xi_at (xw_impl w) = L_Enabled \<and> \<not> (\<exists>i m evs. listener_step True (xw_impl w) (xw_mgr w) i m evs \<and> i \<noteq> xw_impl w)"
proof -
  let ?w0 = "xw_free (Some (switched True st)) xi_connected []"
  let ?w1 = "(xw_free (Some (switched False st)) xi_connected [])\<lparr>xw_caller := C_Nudge For_Signal\<rparr>"
  let ?w2 = "?w1\<lparr>xw_impl := xi_connected\<lparr>xi_mutex := By_Caller\<rparr>, xw_caller := C_Holding For_Signal\<rparr>"
  let ?w3 = "xw_free (Some (switched False st)) xi_connected []"
  have a: "world_step\<^sup>*\<^sup>* (xw_init (switched False st)) ?w0"
    using free_connected [of "switched False st" "[]"] by (simp add: xw_init_free)
  have b: "world_step ?w0 ?w1" using w_caller [OF c_signal [of ?w0 "switched True st"]] by (simp add: xw_free_def)
  have c: "world_step ?w1 ?w2" using w_caller [OF c_lock [of ?w1 For_Signal]] by (simp add: run_defs)
  have d: "world_step ?w2 ?w3" using w_caller [OF c_nothing [of ?w2 For_Signal]] by (simp add: run_defs xw_free_def)
  have "world_step\<^sup>*\<^sup>* (xw_init (switched False st)) (xw_free (Some (switched False st)) xi_recording [])"
    by (rule world_run [OF world_steps [OF world_steps [OF world_steps [OF a b] c] d] free_run [OF run_record]])
  moreover have "i = xi_recording" if "listener_step True xi_recording (Some (switched False st)) i m evs" for i m evs
    using that by (cases rule: listener_step.cases) (auto simp: run_defs)
  ultimately show ?thesis by (intro exI conjI) (assumption | simp add: xi_recording_def | fastforce)+
qed

text \<open>One turn of the loop that reaches the server; the listener closing down; the join.\<close>

lemma nudge_run:
  assumes "xw_caller w = C_Poll (Suc n)" "xw_server w" "\<not> xi_exited (xw_impl w)" "xi_mutex (xw_impl w) = By_Nobody"
    "xi_ctrl (xw_impl w)" "xi_ctx (xw_impl w)"
  shows "world_step\<^sup>*\<^sup>* w (w\<lparr>xw_caller := C_Sleep n, xw_impl := (xw_impl w)\<lparr>xi_mutex := By_Nobody, xi_active := False\<rparr>\<rparr>)"
proof -
  let ?w1 = "w\<lparr>xw_caller := C_Nudge (For_Stop n)\<rparr>"
  let ?w2 = "?w1\<lparr>xw_caller := C_Holding (For_Stop n), xw_impl := (xw_impl w)\<lparr>xi_mutex := By_Caller\<rparr>\<rparr>"
  let ?w3 = "?w2\<lparr>xw_caller := C_Calling (For_Stop n)\<rparr>"
  have "world_step w ?w1" by (rule w_caller, rule c_turn) (simp_all add: assms)
  moreover have "world_step ?w1 ?w2" using w_caller [OF c_lock [of ?w1 "For_Stop n"]] assms(4) by (cases w) simp
  moreover have "world_step ?w2 ?w3" by (rule w_caller, rule c_call) (simp_all add: assms)
  moreover have "world_step ?w3
      (w\<lparr>xw_caller := C_Sleep n, xw_impl := (xw_impl w)\<lparr>xi_mutex := By_Nobody, xi_active := False\<rparr>\<rparr>)"
    using w_caller [OF c_nudged [of ?w3 "For_Stop n"]] assms(2) by (cases w) simp
  ultimately show ?thesis by (meson rtranclp.rtrancl_into_rtrancl rtranclp.rtrancl_refl)
qed

lemma own_step:
  assumes "listener_step True (xw_impl w) (xw_mgr w) i (xw_mgr w) []" "xw_server w"
  shows "world_step w (w\<lparr>xw_impl := i\<rparr>)"
proof -
  have "w\<lparr>xw_impl := i, xw_mgr := xw_mgr w, xw_sent := xw_sent w @ []\<rparr> = w\<lparr>xw_impl := i\<rparr>" by simp
  then show ?thesis using w_listener [of w i "xw_mgr w" "[]"] assms by metis
qed

lemma close_run:
  assumes "xw_server w" "xi_at (xw_impl w) = L_Enabled" "\<not> xi_active (xw_impl w)" "xi_mutex (xw_impl w) = By_Nobody"
  shows "world_step\<^sup>*\<^sup>* w
    (w\<lparr>xw_impl := (xw_impl w)\<lparr>xi_mutex := By_Nobody, xi_data := False, xi_ctx := False, xi_ctrl := False,
       xi_exited := True, xi_at := L_Gone\<rparr>\<rparr>)" (is "world_step\<^sup>*\<^sup>* w ?w3")
proof -
  let ?w1 = "w\<lparr>xw_impl := (xw_impl w)\<lparr>xi_at := L_Wait_Close\<rparr>\<rparr>"
  let ?w2 = "w\<lparr>xw_impl := (xw_impl w)\<lparr>xi_mutex := By_Listener, xi_at := L_Close\<rparr>\<rparr>"
  have "world_step w ?w1" by (rule own_step, rule l_disabled) (simp_all add: assms)
  moreover have "world_step ?w1 ?w2" using own_step [of ?w1, OF l_lock_close] assms by (cases "xw_impl w") simp
  moreover have "world_step ?w2 ?w3" using own_step [of ?w2, OF l_close] assms
    by (cases "xw_impl w") (simp add: ended_def unlocked_def)
  ultimately show ?thesis by (meson rtranclp.rtrancl_into_rtrancl rtranclp.rtrancl_refl)
qed

lemma join_run:
  assumes "xw_caller w = C_Sleep n" "xw_mgr w = Some st" "xi_exited (xw_impl w)"
  shows "world_step\<^sup>*\<^sup>* w (w\<lparr>xw_caller := C_Free, xw_mgr := Some (reset_input_state st),
    xw_impl := (xw_impl w)\<lparr>xi_joinable := False\<rparr>\<rparr>)" (is "world_step\<^sup>*\<^sup>* w ?w3")
proof -
  let ?w1 = "w\<lparr>xw_caller := C_Poll n\<rparr>"
  let ?w2 = "w\<lparr>xw_caller := C_Leave\<rparr>"
  have "world_step w ?w1" by (rule w_caller, rule c_slept) (rule assms)
  moreover have "world_step ?w1 ?w2" using w_caller [OF c_leave [of ?w1 n]] by simp
  moreover have "world_step ?w2 ?w3" using w_caller [OF c_join [of ?w2 st]] assms by (cases w) simp
  ultimately show ?thesis by (meson rtranclp.rtrancl_into_rtrancl rtranclp.rtrancl_refl)
qed

text \<open>The loop of stop makes up for it: wherever it finds the listener recording, one more turn can end the
  stream and join the thread, with nothing leaked.\<close>

theorem retry_joins:
  assumes "world_step\<^sup>*\<^sup>* (xw_init st) w" "xw_caller w = C_Poll (Suc n)" "xw_server w" "xi_at (xw_impl w) = L_Enabled"
  shows "\<exists>w'. world_step\<^sup>*\<^sup>* w w' \<and> xw_caller w' = C_Free \<and> \<not> xi_joinable (xw_impl w') \<and> \<not> xi_ctrl (xw_impl w') \<and>
    \<not> xi_data (xw_impl w') \<and> \<not> xi_ctx (xw_impl w') \<and> xw_leaked w' = xw_leaked w"
proof -
  let ?i = "xw_impl w"
  have inv: "impl_inv (xw_caller w) ?i" "mgr_inv (xw_caller w) (xw_mgr w)"
    using xw_reachable [OF assms(1)] by (simp_all add: xw_inv_def)
  then have i: "xi_mutex ?i = By_Nobody" "xi_ctrl ?i" "xi_ctx ?i" "\<not> xi_exited ?i"
    using assms(2,4) by (cases "xi_mutex ?i"; simp add: impl_inv_def)+
  obtain m where m: "xw_mgr w = Some m" using inv(2) assms(2) by (auto simp: mgr_inv_def split: option.splits)
  let ?w1 = "w\<lparr>xw_caller := C_Sleep n, xw_impl := ?i\<lparr>xi_mutex := By_Nobody, xi_active := False\<rparr>\<rparr>"
  obtain w2 where w2: "world_step\<^sup>*\<^sup>* ?w1 w2" "xw_caller w2 = C_Sleep n" "xw_mgr w2 = Some m" "xi_exited (xw_impl w2)"
    "\<not> xi_ctrl (xw_impl w2)" "\<not> xi_data (xw_impl w2)" "\<not> xi_ctx (xw_impl w2)" "xw_leaked w2 = xw_leaked w"
    using close_run [of ?w1] assms(3,4) m by simp
  have "world_step\<^sup>*\<^sup>* w w2" by (rule world_run [OF nudge_run [OF assms(2,3) i(4,1,2,3)] w2(1)])
  note joined = world_run [OF this join_run [OF w2(2,3,4)]]
  show ?thesis by (rule exI, rule conjI, rule joined) (simp add: w2)
qed

section \<open>Witnesses\<close>

theorem stop_wait_free_witness:
  "\<exists>w st. world_step\<^sup>*\<^sup>* (xw_init st) w \<and> stop_left (xw_caller w) = 502 \<and> (\<exists>w'. caller_step w w')"
proof -
  fix st
  let ?w = "(xw_free (Some (switched False st)) xi_recording [])\<lparr>xw_caller := C_Poll stop_turns\<rparr>"
  have "stopping (xw_caller ?w)" by simp
  note free = stop_wait_free [OF reach_stopping this]
  moreover have "stop_left (xw_caller ?w) = 502" by (simp add: stop_turns_def)
  ultimately show ?thesis using reach_stopping by blast
qed

theorem stop_refines_witness:
  "\<exists>w w' st0. world_step\<^sup>*\<^sup>* (xw_init st0) w \<and> world_step w w' \<and> stopping (xw_caller w) \<and> xw_sent w' = xw_sent w"
proof -
  fix st
  let ?w = "(xw_free (Some (switched False st)) xi_recording [])\<lparr>xw_caller := C_Poll stop_turns\<rparr>"
  have "world_step ?w (?w\<lparr>xw_caller := C_Leave\<rparr>)" by (rule w_caller, rule c_leave) simp
  then show ?thesis using stop_refines [OF reach_stopping [of st]] reach_stopping [of st] by fastforce
qed

end
