(* ===== verification/Tray_Gtk.thy ===== *)
theory Tray_Gtk
  imports Tray Step_Systems
begin

text \<open>
  The GTK thread of the tray icon (start, stop and set_state of src/src/tray/platform/tray_gtk.cpp) as a step
  relation of two threads: the daemon, which starts the tray, gives it hotkeys and states and stops it,
  and the GTK thread, which builds the indicator and the menu and then runs a main loop. A change of
  state is queued for the loop (\<open>g_idle_add\<close>), so what is on display follows the state at a distance.
  The daemon starts the tray once.
\<close>

section \<open>The two threads\<close>

datatype gtk_at = G_None | G_Init | G_Indicator | G_Menu | G_Loop | G_Running | G_Ended | G_Thrown
datatype tray_caller = T_Free | T_Joining

text \<open>
  \<open>gt_shown\<close>: icon and title of the indicator, \<open>None\<close> while its pointer is null; \<open>gt_queue\<close>: the
  \<open>UpdateData\<close> waiting for the loop; \<open>gt_quit\<close>: \<open>g_main_loop_quit\<close> was called. \<open>gt_behind\<close> is not
  in the code: the last change of state came before there was an indicator to update.
\<close>

record gtk_tray =
  gt_mgr :: tray_manager
  gt_caller :: tray_caller
  gt_at :: gtk_at
  gt_shown :: "(string \<times> string) option"
  gt_menu :: "menu_entry list option"
  gt_queue :: "(string \<times> string) list"
  gt_quit :: bool
  gt_behind :: bool

definition gt_init :: "bool \<Rightarrow> bool \<Rightarrow> gtk_tray" where
  "gt_init have_indicator enabled = \<lparr>gt_mgr = tray_new have_indicator enabled, gt_caller = T_Free, gt_at = G_None,
     gt_shown = None, gt_menu = None, gt_queue = [], gt_quit = False, gt_behind = False\<rparr>"

text \<open>What an update of a state displays; \<open>icon\<close> is \<open>get_icon_path\<close> in the environment of the process.\<close>

definition display_of :: "(tray_state \<Rightarrow> string) \<Rightarrow> tray_state \<Rightarrow> string \<times> string" where
  "display_of icon s = (icon s, state_title s)"

text \<open>\<open>set_state\<close> with its update: nothing when disabled or unchanged; queued when there is an indicator.\<close>

definition gt_set_state :: "(tray_state \<Rightarrow> string) \<Rightarrow> tray_state \<Rightarrow> gtk_tray \<Rightarrow> gtk_tray" where
  "gt_set_state icon s t =
     (if \<not> ty_on (gt_mgr t) \<or> s = ty_state (gt_mgr t) then t
      else let t1 = t\<lparr>gt_mgr := tray_set_state s (gt_mgr t)\<rparr>
           in if gt_shown t = None then t1\<lparr>gt_behind := True\<rparr>
              else t1\<lparr>gt_queue := gt_queue t @ [display_of icon s], gt_behind := False\<rparr>)"

text \<open>
  A quit of a loop that is not running yet may or may not count (\<open>g_runs\<close>). The menu's Quit calls stop
  on the GTK thread, which then joins itself: \<open>join\<close> throws (\<open>g_menu_quit\<close>).
\<close>

inductive gtk_step :: "(tray_state \<Rightarrow> string) \<Rightarrow> string \<Rightarrow> gtk_tray \<Rightarrow> gtk_tray \<Rightarrow> bool"
  for icon :: "tray_state \<Rightarrow> string" and version :: string and t :: gtk_tray where
  g_off: "gt_caller t = T_Free \<Longrightarrow> \<not> ty_on (gt_mgr t) \<Longrightarrow> gtk_step icon version t t"
| g_start: "gt_caller t = T_Free \<Longrightarrow> ty_on (gt_mgr t) \<Longrightarrow> gt_at t = G_None \<Longrightarrow>
    gtk_step icon version t (t\<lparr>gt_mgr := (gt_mgr t)\<lparr>ty_thread := True\<rparr>, gt_at := G_Init\<rparr>)"
| g_state: "gt_caller t = T_Free \<Longrightarrow> gtk_step icon version t (gt_set_state icon s t)"
| g_hotkey: "gt_caller t = T_Free \<Longrightarrow> gtk_step icon version t (t\<lparr>gt_mgr := tray_set_hotkey ks (gt_mgr t)\<rparr>)"
| g_cancel: "gt_caller t = T_Free \<Longrightarrow> gtk_step icon version t (t\<lparr>gt_mgr := tray_set_cancel_hotkey ks (gt_mgr t)\<rparr>)"
| g_stop: "gt_caller t = T_Free \<Longrightarrow>
    gtk_step icon version t (t\<lparr>gt_mgr := (gt_mgr t)\<lparr>ty_loop := False\<rparr>, gt_quit := gt_quit t \<or> ty_loop (gt_mgr t),
      gt_caller := (if ty_thread (gt_mgr t) then T_Joining else T_Free)\<rparr>)"
| g_joined: "gt_caller t = T_Joining \<Longrightarrow> gt_at t = G_Ended \<Longrightarrow>
    gtk_step icon version t (t\<lparr>gt_mgr := (gt_mgr t)\<lparr>ty_thread := False\<rparr>, gt_caller := T_Free\<rparr>)"
| g_init: "gt_at t = G_Init \<Longrightarrow>
    gtk_step icon version t (t\<lparr>gt_shown := Some (display_of icon Tr_Idle), gt_at := G_Indicator\<rparr>)"
| g_menu: "gt_at t = G_Indicator \<Longrightarrow>
    gtk_step icon version t (t\<lparr>gt_menu := Some (tray_menu version (gt_mgr t)), gt_at := G_Menu\<rparr>)"
| g_loop: "gt_at t = G_Menu \<Longrightarrow>
    gtk_step icon version t (t\<lparr>gt_mgr := (gt_mgr t)\<lparr>ty_loop := True\<rparr>, gt_at := G_Loop\<rparr>)"
| g_runs: "gt_at t = G_Loop \<Longrightarrow> gtk_step icon version t (t\<lparr>gt_quit := gt_quit t \<and> counts, gt_at := G_Running\<rparr>)"
| g_update: "gt_at t = G_Running \<Longrightarrow> gt_queue t = d # ds \<Longrightarrow>
    gtk_step icon version t (t\<lparr>gt_shown := Some d, gt_queue := ds\<rparr>)"
| g_menu_quit: "gt_at t = G_Running \<Longrightarrow> gtk_step icon version t (t\<lparr>gt_mgr := (gt_mgr t)\<lparr>ty_loop := False\<rparr>, gt_at := G_Thrown\<rparr>)"
| g_ends: "gt_at t = G_Running \<Longrightarrow> gt_quit t \<Longrightarrow> gtk_step icon version t (t\<lparr>gt_at := G_Ended\<rparr>)"

lemma gtk_steps: "(gtk_step icon version)\<^sup>*\<^sup>* s t \<Longrightarrow> gtk_step icon version t u \<Longrightarrow> (gtk_step icon version)\<^sup>*\<^sup>* s u"
  by (rule rtranclp.rtrancl_into_rtrancl)

section \<open>What is on display\<close>

text \<open>The display once the loop has worked off its queue.\<close>

definition gt_settled :: "gtk_tray \<Rightarrow> (string \<times> string) option" where
  "gt_settled t = (if gt_queue t = [] then gt_shown t else Some (last (gt_queue t)))"

fun unbuilt :: "gtk_at \<Rightarrow> bool" where
  "unbuilt G_None = True" | "unbuilt G_Init = True" | "unbuilt p = False"

definition gt_inv :: "(tray_state \<Rightarrow> string) \<Rightarrow> gtk_tray \<Rightarrow> bool" where
  "gt_inv icon t \<longleftrightarrow>
     (if unbuilt (gt_at t) then gt_shown t = None \<and> gt_queue t = [] \<and> (\<not> gt_behind t \<longrightarrow> ty_state (gt_mgr t) = Tr_Idle)
      else gt_shown t \<noteq> None \<and> (\<not> gt_behind t \<longrightarrow> gt_settled t = Some (display_of icon (ty_state (gt_mgr t)))))"

lemma gt_set_state_inv:
  assumes "gt_inv icon t"
  shows "gt_inv icon (gt_set_state icon s t)"
proof (cases "\<not> ty_on (gt_mgr t) \<or> s = ty_state (gt_mgr t)")
  case True
  then show ?thesis using assms by (simp only: gt_set_state_def if_True)
next
  case False
  then show ?thesis using assms
    by (cases "unbuilt (gt_at t)"; cases "gt_shown t") (simp_all add: gt_inv_def gt_set_state_def gt_settled_def)
qed

lemma gt_step_inv: "gtk_step icon version t t' \<Longrightarrow> gt_inv icon t \<Longrightarrow> gt_inv icon t'"
  by (erule gtk_step.cases)
     (simp_all add: gt_set_state_inv, simp_all add: gt_inv_def gt_settled_def tray_set_hotkey_def tray_set_cancel_hotkey_def
        split: if_splits)

interpretation gtk_system: step_system "gtk_step icon version" "gt_inv icon" for icon version
  by unfold_locales (rule gt_step_inv)

lemma gt_init_inv: "gt_inv icon (gt_init have enabled)"
  by (simp add: gt_inv_def gt_init_def tray_new_def)

lemma gt_reachable: "(gtk_step icon version)\<^sup>*\<^sup>* (gt_init have enabled) t \<Longrightarrow> gt_inv icon t"
  by (rule gtk_system.run_inv [OF _ gt_init_inv])

text \<open>Once the queue is worked off the indicator shows the state, unless its last change came too early.\<close>

theorem tray_shows_state:
  assumes "(gtk_step icon version)\<^sup>*\<^sup>* (gt_init have enabled) t" "gt_at t = G_Running" "\<not> gt_behind t"
  shows "gt_settled t = Some (display_of icon (ty_state (gt_mgr t)))"
  using gt_reachable [OF assms(1)] assms(2,3) by (simp add: gt_inv_def)

text \<open>The loop can always work it off, and that changes nothing else.\<close>

lemma tray_settles:
  "gt_at t = G_Running \<Longrightarrow> (gtk_step icon version)\<^sup>*\<^sup>* t (t\<lparr>gt_queue := [], gt_shown := gt_settled t\<rparr>)"
proof (induction "gt_queue t" arbitrary: t)
  case Nil
  then have "t\<lparr>gt_queue := [], gt_shown := gt_settled t\<rparr> = t" by (simp add: gt_settled_def)
  then show ?case by simp
next
  case (Cons d ds)
  let ?t = "t\<lparr>gt_shown := Some d, gt_queue := ds\<rparr>"
  have "gtk_step icon version t ?t" using Cons by (intro g_update) simp_all
  moreover have "(gtk_step icon version)\<^sup>*\<^sup>* ?t (?t\<lparr>gt_queue := [], gt_shown := gt_settled ?t\<rparr>)"
    using Cons by (intro Cons(1)) simp_all
  moreover have "?t\<lparr>gt_queue := [], gt_shown := gt_settled ?t\<rparr> = t\<lparr>gt_queue := [], gt_shown := gt_settled t\<rparr>"
    using Cons(2) [symmetric] by (simp add: gt_settled_def)
  ultimately show ?case by (metis converse_rtranclp_into_rtranclp)
qed

section \<open>Executions in which it fails\<close>

text \<open>The tray up to the point where the thread is about to build the indicator.\<close>

abbreviation gt_started :: gtk_tray where
  "gt_started \<equiv> (gt_init True True)\<lparr>gt_mgr := (tray_new True True)\<lparr>ty_thread := True\<rparr>, gt_at := G_Init\<rparr>"

lemma gt_starts: "(gtk_step icon version)\<^sup>*\<^sup>* (gt_init True True) gt_started"
  using g_start [of "gt_init True True" icon version] by (intro r_into_rtranclp) (simp add: gt_init_def tray_new_def)

text \<open>A recording begun before the indicator exists is never shown, as the state no longer changes.\<close>

theorem early_state_not_shown:
  "\<exists>t. (gtk_step icon version)\<^sup>*\<^sup>* (gt_init True True) t \<and> gt_at t = G_Running \<and> gt_queue t = [] \<and>
     ty_state (gt_mgr t) = Tr_Recording \<and> gt_shown t = Some (display_of icon Tr_Idle) \<and> gt_set_state icon Tr_Recording t = t"
proof -
  let ?m = "(tray_new True True)\<lparr>ty_thread := True, ty_state := Tr_Recording\<rparr>"
  let ?t1 = "gt_started\<lparr>gt_mgr := ?m, gt_behind := True\<rparr>"
  let ?t2 = "?t1\<lparr>gt_shown := Some (display_of icon Tr_Idle), gt_at := G_Indicator\<rparr>"
  let ?t3 = "?t2\<lparr>gt_menu := Some (tray_menu version ?m), gt_at := G_Menu\<rparr>"
  let ?t4 = "?t3\<lparr>gt_mgr := ?m\<lparr>ty_loop := True\<rparr>, gt_at := G_Loop\<rparr>"
  let ?t5 = "?t4\<lparr>gt_quit := False, gt_at := G_Running\<rparr>"
  have a: "gtk_step icon version gt_started ?t1"
    using g_state [of gt_started icon version Tr_Recording]
    by (simp add: gt_set_state_def gt_init_def tray_new_def tray_set_state_def)
  have b: "gtk_step icon version ?t1 ?t2" by (rule g_init) simp
  have c: "gtk_step icon version ?t2 ?t3" using g_menu [of ?t2 icon version] by simp
  have d: "gtk_step icon version ?t3 ?t4" using g_loop [of ?t3 icon version] by simp
  have e: "gtk_step icon version ?t4 ?t5" using g_runs [of ?t4 icon version True] by (simp add: gt_init_def)
  have "(gtk_step icon version)\<^sup>*\<^sup>* (gt_init True True) ?t5"
    by (rule gt_starts [THEN gtk_steps, OF a, THEN gtk_steps, OF b, THEN gtk_steps, OF c, THEN gtk_steps, OF d, THEN gtk_steps, OF e])
  then show ?thesis by (intro exI conjI) (assumption | simp add: gt_init_def gt_set_state_def)+
qed

text \<open>Stopping before the loop object exists joins a thread that nobody will ever tell to end.\<close>

definition gt_stuck :: "gtk_tray \<Rightarrow> bool" where
  "gt_stuck t \<longleftrightarrow> gt_caller t = T_Joining \<and> \<not> gt_quit t \<and> gt_at t \<noteq> G_Ended"

interpretation gtk_waits: step_trap "gtk_step icon version" gt_stuck "\<lambda>t. gt_caller t = T_Free" for icon version
  by unfold_locales (auto simp: gt_stuck_def elim!: gtk_step.cases)

theorem tray_stop_may_hang:
  "\<exists>s. (gtk_step icon version)\<^sup>*\<^sup>* (gt_init True True) s \<and> gt_caller s = T_Joining \<and>
     \<not> (\<exists>t. (gtk_step icon version)\<^sup>*\<^sup>* s t \<and> gt_caller t = T_Free)"
proof -
  let ?s = "gt_started\<lparr>gt_caller := T_Joining\<rparr>"
  have "gtk_step icon version gt_started ?s"
    using g_stop [of gt_started icon version] by (simp add: gt_init_def tray_new_def)
  then have "(gtk_step icon version)\<^sup>*\<^sup>* (gt_init True True) ?s" by (rule gtk_steps [OF gt_starts])
  moreover have "gt_stuck ?s" by (simp add: gt_stuck_def gt_init_def)
  ultimately show ?thesis using gtk_waits.reaches_trap [of icon version "gt_init True True" ?s] by (metis gt_stuck_def)
qed

end
