(* ===== verification/Bench.thy ===== *)
theory Bench
  imports Runtime Wer
begin

text \<open>
  The benchmark harness (src/tools/bench/bench_main.cpp): its command line, the manifest, the runs,
  the scores and the two reports. The model library, the audio decoder, the clock and the formatting
  of a \<open>double\<close> on a stream are parameters. A run may end with an exit code, by an exception nothing
  catches, or in undefined behaviour.
\<close>

section \<open>Environment and outcomes\<close>

text \<open>\<open>be_clock n\<close> is the \<open>n\<close>-th reading of the steady clock, in nanoseconds; \<open>be_show\<close> prints a double;
  \<open>be_open\<close> says whether a file can be opened for writing.\<close>

record 'c bench_env =
  be_ma :: ma_api
  be_wh :: "'c whisper_api"
  be_home :: "string option"
  be_clock :: "nat \<Rightarrow> int"
  be_show :: "fl \<Rightarrow> string"
  be_open :: "string \<Rightarrow> bool"

record bench_report =
  br_code :: int
  br_cout :: string
  br_cerr :: string
  br_fs :: fsys

datatype bench_outcome = Bench_Exit bench_report | Bench_Uncaught | Bench_Undefined

abbreviation newline :: string where
  "newline \<equiv> [CHR 0x0A]"

abbreviation tabulator :: string where
  "tabulator \<equiv> [CHR 0x09]"

text \<open>\<open>duration<double>(t1 - t0).count()\<close>\<close>

definition seconds_between :: "int \<Rightarrow> int \<Rightarrow> fl" where
  "seconds_between t0 t1 = fl_div f64 (f64 (of_int (t1 - t0))) (f64 1000000000)"

section \<open>The command line\<close>

record bench_options =
  bo_manifest :: string
  bo_model :: string
  bo_device :: string
  bo_json :: string
  bo_threads :: int
  bo_runs :: int

definition bench_defaults :: bench_options where
  "bench_defaults = \<lparr>bo_manifest = ''bench/manifest.tsv'', bo_model = ''distil-small.en'', bo_device = ''cpu'',
     bo_json = [], bo_threads = 4, bo_runs = 3\<rparr>"

definition bench_usage :: string where
  "bench_usage = ''Usage: autowhisper_bench --manifest FILE --model NAME [--device cpu|cuda|auto] [--threads N] [--runs N] [--json FILE]'' @ newline"

text \<open>What stops the parsing: an exit with a message, or the exception of \<open>std::stoi\<close>.\<close>

datatype parse_stop = Parse_Exit int string | Parse_Throws

fun bench_parse :: "bench_options \<Rightarrow> string list \<Rightarrow> parse_stop + bench_options" where
  "bench_parse o1 [] = Inr o1"
| "bench_parse o1 (arg # rest) =
     (if arg \<in> {''--manifest'', ''--model'', ''--device'', ''--threads'', ''--runs'', ''--json''} then
        (case rest of
           [] \<Rightarrow> Inl (Parse_Exit 2 (''Missing value for '' @ arg @ newline))
         | v # args \<Rightarrow>
             if arg = ''--manifest'' then bench_parse (o1\<lparr>bo_manifest := v\<rparr>) args
             else if arg = ''--model'' then bench_parse (o1\<lparr>bo_model := v\<rparr>) args
             else if arg = ''--device'' then bench_parse (o1\<lparr>bo_device := v\<rparr>) args
             else if arg = ''--threads'' then
               (case stoi v of None \<Rightarrow> Inl Parse_Throws | Some (i, pos) \<Rightarrow> bench_parse (o1\<lparr>bo_threads := i\<rparr>) args)
             else if arg = ''--runs'' then
               (case stoi v of None \<Rightarrow> Inl Parse_Throws | Some (i, pos) \<Rightarrow> bench_parse (o1\<lparr>bo_runs := i\<rparr>) args)
             else bench_parse (o1\<lparr>bo_json := v\<rparr>) args)
      else Inl (Parse_Exit 2 (''Unknown argument: '' @ arg @ newline @ bench_usage)))"

section \<open>The manifest\<close>

record utterance =
  ut_wav_path :: string
  ut_reference :: string

definition path_append :: "string \<Rightarrow> string \<Rightarrow> string" where
  "path_append base p = (if base = [] \<or> last base = CHR ''/'' then base @ p else base @ ''/'' @ p)"

fun manifest_lines :: "string \<Rightarrow> string list \<Rightarrow> exn + utterance list" where
  "manifest_lines base [] = Inr []"
| "manifest_lines base (line # rest) =
     (if line = [] \<or> hd line = CHR ''#'' then manifest_lines base rest
      else if CHR 0x09 \<notin> set line then Inl (OtherException (''Manifest line missing tab separator: '' @ line))
      else let wav = takeWhile (\<lambda>c. c \<noteq> CHR 0x09) line;
               u = \<lparr>ut_wav_path = (if starts_with ''/'' wav then wav else path_append base wav),
                    ut_reference = drop (length wav + 1) line\<rparr>
           in bind_r (manifest_lines base rest) (\<lambda>us. Inr (u # us)))"

definition load_manifest :: "fsys \<Rightarrow> string \<Rightarrow> exn + utterance list" where
  "load_manifest fs path =
     (if fs path = None then Inl (OtherException (''Cannot open manifest: '' @ path))
      else bind_r (manifest_lines (parent_path path)
                     (getlines (CHR 0x0A) (case fs_content fs path of Some c \<Rightarrow> c | None \<Rightarrow> [])))
             (\<lambda>us. if us = [] then Inl (OtherException (''Manifest has no utterances: '' @ path)) else Inr us))"

section \<open>Scores\<close>

text \<open>Sorting the latencies, and the median; of no value at all the code reads before the vector (\<open>None\<close>).\<close>

fun fl_insert :: "fl \<Rightarrow> fl list \<Rightarrow> fl list" where
  "fl_insert x [] = [x]"
| "fl_insert x (y # ys) = (if fl_lt y x then y # fl_insert x ys else x # y # ys)"

definition fl_sort :: "fl list \<Rightarrow> fl list" where
  "fl_sort v = foldr fl_insert v []"

definition median :: "fl list \<Rightarrow> fl option" where
  "median v =
     (let s = fl_sort v; n = length s
      in if n mod 2 = 1 then Some (s ! (n div 2))
         else if n = 0 then None
         else Some (fl_div f64 (fl_add f64 (s ! (n div 2 - 1)) (s ! (n div 2))) (f64 2)))"

record utterance_result =
  ur_wav_path :: string
  ur_audio_seconds :: fl
  ur_latency_seconds :: fl
  ur_rtf :: fl
  ur_wer :: fl
  ur_hypothesis :: string

text \<open>The runs of one utterance: the readings of the clock are numbered on from \<open>k\<close>.\<close>

fun bench_runs ::
  "'c bench_env \<Rightarrow> fl list \<Rightarrow> nat \<Rightarrow> 'c whisper_inference \<Rightarrow> nat \<Rightarrow> string \<Rightarrow> exn + (string \<times> fl list \<times> 'c whisper_inference \<times> nat)" where
  "bench_runs env samples 0 i k transcript = Inr (transcript, [], i, k)"
| "bench_runs env samples (Suc n) i k transcript =
     (case inference_transcribe (be_wh env) i samples [] of
        (Inl e, i') \<Rightarrow> Inl e
      | (Inr t, i') \<Rightarrow>
          bind_r (bench_runs env samples n i' (k + 2) t) (\<lambda>(t', ls, i'', k').
            Inr (t', seconds_between (be_clock env k) (be_clock env (k + 1)) # ls, i'', k')))"

datatype bench_stop = Stop_Throw exn | Stop_Undefined

fun bench_utterances ::
  "'c bench_env \<Rightarrow> fsys \<Rightarrow> int \<Rightarrow> utterance list \<Rightarrow> 'c whisper_inference \<Rightarrow> nat \<Rightarrow> bench_stop + utterance_result list" where
  "bench_utterances env fs runs [] i k = Inr []"
| "bench_utterances env fs runs (u # us) i k =
     (case decode_audio_file (be_ma env) fs (ut_wav_path u) of
        Inl e \<Rightarrow> Inl (Stop_Throw e)
      | Inr audio \<Rightarrow>
          let seconds = fl_div f64 (f64 (of_nat (length (da_samples audio)))) (f64 16000)
          in case bench_runs env (da_samples audio) (nat runs) i k [] of
               Inl e \<Rightarrow> Inl (Stop_Throw e)
             | Inr (t, latencies, i', k') \<Rightarrow>
                 case median latencies of
                   None \<Rightarrow> Inl Stop_Undefined
                 | Some latency \<Rightarrow>
                     let r = \<lparr>ur_wav_path = ut_wav_path u, ur_audio_seconds = seconds, ur_latency_seconds = latency,
                              ur_rtf = (if fl_lt (Fin 0) seconds then fl_div f64 latency seconds else Fin 0),
                              ur_wer = word_error_rate (ut_reference u) t, ur_hypothesis = t\<rparr>
                     in bind_r (bench_utterances env fs runs us i' k') (\<lambda>rs. Inr (r # rs)))"

definition sum_of :: "(utterance_result \<Rightarrow> fl) \<Rightarrow> utterance_result list \<Rightarrow> fl" where
  "sum_of f rs = foldl (\<lambda>acc r. fl_add f64 acc (f r)) (Fin 0) rs"

definition mean_wer :: "utterance_result list \<Rightarrow> fl" where
  "mean_wer rs = fl_div f64 (sum_of ur_wer rs) (f64 (of_nat (length rs)))"

definition overall_rtf :: "utterance_result list \<Rightarrow> fl" where
  "overall_rtf rs =
     (if fl_lt (Fin 0) (sum_of ur_audio_seconds rs)
      then fl_div f64 (sum_of ur_latency_seconds rs) (sum_of ur_audio_seconds rs) else Fin 0)"

section \<open>Reports\<close>

definition escape_char :: "char \<Rightarrow> string" where
  "escape_char c =
     (if c = CHR 0x22 then [CHR 0x5C, CHR 0x22]
      else if c = CHR 0x5C then [CHR 0x5C, CHR 0x5C]
      else if c = CHR 0x0A then [CHR 0x5C, CHR ''n'']
      else if c = CHR 0x09 then [CHR 0x5C, CHR ''t'']
      else [c])"

definition json_escape :: "string \<Rightarrow> string" where
  "json_escape s = concat (map escape_char s)"

definition dq :: "string \<Rightarrow> string" where
  "dq s = [CHR 0x22] @ s @ [CHR 0x22]"

definition text_report :: "'c bench_env \<Rightarrow> bench_options \<Rightarrow> fl \<Rightarrow> utterance_result list \<Rightarrow> string" where
  "text_report env o1 load_seconds rs =
     newline @ ''model: '' @ bo_model o1 @ ''  device: '' @ bo_device o1 @ ''  threads: '' @ show_int (bo_threads o1) @
     ''  runs/utterance: '' @ show_int (bo_runs o1) @ newline @
     ''model load: '' @ be_show env load_seconds @ '' s'' @ newline @ newline @
     ''audio_s'' @ tabulator @ ''latency_s'' @ tabulator @ ''rtf'' @ tabulator @ ''wer'' @ tabulator @ ''file'' @ newline @
     concat (map (\<lambda>r. be_show env (ur_audio_seconds r) @ tabulator @ be_show env (ur_latency_seconds r) @ tabulator @
       be_show env (ur_rtf r) @ tabulator @ be_show env (ur_wer r) @ tabulator @ file_name (ur_wav_path r) @ newline) rs) @
     newline @ ''overall: rtf='' @ be_show env (overall_rtf rs) @ '' mean_wer='' @ be_show env (mean_wer rs) @ newline"

definition json_field :: "string \<Rightarrow> string \<Rightarrow> string" where
  "json_field key v = dq key @ '': '' @ v"

definition json_utterance :: "'c bench_env \<Rightarrow> utterance_result \<Rightarrow> string" where
  "json_utterance env r =
     ''    {'' @ json_field ''file'' (dq (json_escape (ur_wav_path r))) @ '', '' @
     json_field ''audio_seconds'' (be_show env (ur_audio_seconds r)) @ '', '' @
     json_field ''latency_seconds'' (be_show env (ur_latency_seconds r)) @ '', '' @
     json_field ''rtf'' (be_show env (ur_rtf r)) @ '', '' @
     json_field ''wer'' (be_show env (ur_wer r)) @ '', '' @
     json_field ''hypothesis'' (dq (json_escape (ur_hypothesis r))) @ ''}''"

definition json_report :: "'c bench_env \<Rightarrow> bench_options \<Rightarrow> fl \<Rightarrow> utterance_result list \<Rightarrow> string" where
  "json_report env o1 load_seconds rs =
     ''{'' @ newline @
     ''  '' @ json_field ''model'' (dq (json_escape (bo_model o1))) @ '','' @ newline @
     ''  '' @ json_field ''device'' (dq (json_escape (bo_device o1))) @ '','' @ newline @
     ''  '' @ json_field ''threads'' (show_int (bo_threads o1)) @ '','' @ newline @
     ''  '' @ json_field ''runs_per_utterance'' (show_int (bo_runs o1)) @ '','' @ newline @
     ''  '' @ json_field ''load_seconds'' (be_show env load_seconds) @ '','' @ newline @
     ''  '' @ json_field ''overall_rtf'' (be_show env (overall_rtf rs)) @ '','' @ newline @
     ''  '' @ json_field ''mean_wer'' (be_show env (mean_wer rs)) @ '','' @ newline @
     ''  '' @ json_field ''utterances'' ''['' @ newline @
     concat (map (\<lambda>i. json_utterance env (rs ! i) @ (if i + 1 < length rs then '','' else []) @ newline) [0..<length rs]) @
     ''  ]'' @ newline @ ''}'' @ newline"

section \<open>main\<close>

definition bench_failed :: "fsys \<Rightarrow> exn \<Rightarrow> bench_outcome" where
  "bench_failed fs e =
     Bench_Exit \<lparr>br_code = 1, br_cout = [], br_cerr = ''bench failed: '' @ what e @ newline, br_fs = fs\<rparr>"

definition bench_finish :: "'c bench_env \<Rightarrow> bench_options \<Rightarrow> fl \<Rightarrow> utterance_result list \<Rightarrow> fsys \<Rightarrow> bench_report" where
  "bench_finish env o1 load_seconds rs fs =
     (if bo_json o1 = [] then \<lparr>br_code = 0, br_cout = text_report env o1 load_seconds rs, br_cerr = [], br_fs = fs\<rparr>
      else \<lparr>br_code = 0, br_cout = text_report env o1 load_seconds rs @ ''wrote '' @ bo_json o1 @ newline, br_cerr = [],
             br_fs = (if be_open env (bo_json o1) then fs_write fs (bo_json o1) (json_report env o1 load_seconds rs) else fs)\<rparr>)"

definition bench_config :: "bench_options \<Rightarrow> model_config" where
  "bench_config o1 = default_model\<lparr>md_size := bo_model o1, md_device := bo_device o1, md_num_threads := bo_threads o1,
     md_language := (if model_is_english_only (bo_model o1) then ''en'' else ''auto'')\<rparr>"

definition bench_run :: "'c bench_env \<Rightarrow> bench_options \<Rightarrow> fsys \<Rightarrow> bench_outcome" where
  "bench_run env o1 fs =
     (if \<not> is_model_downloaded (be_home env) fs (bo_model o1) then
        Bench_Exit \<lparr>br_code = 1, br_cout = [], br_cerr = ''Model '' @ [CHR 0x27] @ bo_model o1 @ [CHR 0x27] @
          '' is not downloaded. Run: autowhisper model download '' @ bo_model o1 @ newline, br_fs = fs\<rparr>
      else case load_manifest fs (bo_manifest o1) of
        Inl e \<Rightarrow> bench_failed fs e
      | Inr us \<Rightarrow>
          case inference_load (be_wh env) (be_home env) fs (inference_new (bench_config o1)) of
            Inl e \<Rightarrow> bench_failed fs e
          | Inr i \<Rightarrow>
              let load_seconds = seconds_between (be_clock env 0) (be_clock env 1)
              in case bench_utterances env fs (bo_runs o1) us i 2 of
                   Inl (Stop_Throw e) \<Rightarrow> bench_failed fs e
                 | Inl Stop_Undefined \<Rightarrow> Bench_Undefined
                 | Inr rs \<Rightarrow> Bench_Exit (bench_finish env o1 load_seconds rs fs))"

definition bench_main :: "'c bench_env \<Rightarrow> string list \<Rightarrow> fsys \<Rightarrow> bench_outcome" where
  "bench_main env args fs =
     (case bench_parse bench_defaults args of
        Inl (Parse_Exit rc msg) \<Rightarrow> Bench_Exit \<lparr>br_code = rc, br_cout = [], br_cerr = msg, br_fs = fs\<rparr>
      | Inl Parse_Throws \<Rightarrow> Bench_Uncaught
      | Inr o1 \<Rightarrow> bench_run env o1 fs)"

end
