(* ===== verification/Bench_Laws.thy ===== *)
theory Bench_Laws
  imports Bench "HOL-Library.Multiset"
begin

text \<open>
  Facts about the benchmark harness: sorting and the median, the escaping of strings for JSON, the
  manifest, and what a non-positive number of runs does.
\<close>

section \<open>Sorting\<close>

lemma fl_insert_mset: "mset (fl_insert x ys) = add_mset x (mset ys)"
  by (induction ys) auto

lemma fl_sort_mset: "mset (fl_sort v) = mset v"
  unfolding fl_sort_def by (induction v) (simp_all add: fl_insert_mset)

lemma fl_sort_length [simp]: "length (fl_sort v) = length v"
  by (metis fl_sort_mset size_mset)

lemma fl_insert_Fin: "fl_insert (Fin x) (map Fin ys) = map Fin (insort x ys)"
  by (induction ys) auto

lemma fl_sort_Fin: "fl_sort (map Fin qs) = map Fin (sort qs)"
  unfolding fl_sort_def sort_key_def by (induction qs) (simp_all add: fl_insert_Fin)

section \<open>Escaping\<close>

text \<open>Reading an escaped string back, and when a string between quotes is one of JSON.\<close>

fun json_unescape :: "string \<Rightarrow> string" where
  "json_unescape [] = []"
| "json_unescape [c] = [c]"
| "json_unescape (c # d # cs) =
     (if c = CHR 0x5C then
        (if d = CHR ''n'' then CHR 0x0A else if d = CHR ''t'' then CHR 0x09 else d) # json_unescape cs
      else c # json_unescape (d # cs))"

fun json_body :: "string \<Rightarrow> bool" where
  "json_body [] = True"
| "json_body [c] = (c \<noteq> CHR 0x5C \<and> c \<noteq> CHR 0x22 \<and> 0x20 \<le> code c)"
| "json_body (c # d # cs) =
     (if c = CHR 0x5C then d \<in> {CHR 0x22, CHR 0x5C, CHR ''n'', CHR ''t''} \<and> json_body cs
      else c \<noteq> CHR 0x22 \<and> 0x20 \<le> code c \<and> json_body (d # cs))"

lemma json_escape_simps [simp]: "json_escape [] = []" "json_escape (c # s) = escape_char c @ json_escape s"
  by (simp_all add: json_escape_def)

lemma unescape_plain: "c \<noteq> CHR 0x5C \<Longrightarrow> json_unescape (c # cs) = c # json_unescape cs"
  by (cases cs) auto

lemma body_plain: "c \<noteq> CHR 0x5C \<Longrightarrow> json_body (c # cs) \<longleftrightarrow> c \<noteq> CHR 0x22 \<and> 0x20 \<le> code c \<and> json_body cs"
  by (cases cs) auto

lemma unescape_escape: "json_unescape (json_escape s) = s"
  by (induction s) (auto simp: escape_char_def unescape_plain)

lemma body_escape:
  "json_body (json_escape s) \<longleftrightarrow> list_all (\<lambda>c. 0x20 \<le> code c \<or> c = CHR 0x0A \<or> c = CHR 0x09) s"
proof (induction s)
  case (Cons c s)
  have "code (CHR 0x22) = 0x22" "code (CHR 0x5C) = 0x5C" by (simp_all add: code_def)
  then show ?case using Cons.IH by (auto simp: escape_char_def body_plain)
qed simp

section \<open>The manifest\<close>

lemma manifest_lines_count:
  "manifest_lines base ls = Inr us \<Longrightarrow> length us = length (filter (\<lambda>l. \<not> (l = [] \<or> hd l = CHR ''#'')) ls)"
  by (induction base ls arbitrary: us rule: manifest_lines.induct)
    (auto simp: Let_def bind_r_def split: if_splits sum.splits)

section \<open>Runs\<close>

lemma bench_runs_length:
  "bench_runs env samples n i k t = Inr (t', ls, i', k') \<Longrightarrow> length ls = n \<and> k' = k + 2 * n"
  by (induction env samples n i k t arbitrary: ls i' k' t' rule: bench_runs.induct)
    (auto simp: bind_r_def split: prod.splits sum.splits)

lemma median_defined: "median v \<noteq> None \<longleftrightarrow> v \<noteq> []"
  by (auto simp: median_def Let_def)

lemma utterances_defined:
  "0 < runs \<Longrightarrow> bench_utterances env fs runs us i k \<noteq> Inl Stop_Undefined"
proof (induction env fs runs us i k rule: bench_utterances.induct)
  case (2 env fs runs u us i k)
  have m: "median ls \<noteq> None" if "bench_runs env s (nat runs) i k [] = Inr (t, ls, i', k')" for s t ls i' k'
    using bench_runs_length [OF that] 2(2) median_defined [of ls] by auto
  show ?case
  proof (cases "decode_audio_file (be_ma env) fs (ut_wav_path u)")
    case (Inr audio)
    show ?thesis
    proof (cases "bench_runs env (da_samples audio) (nat runs) i k []")
      case r: (Inr res)
      obtain t ls i' k' where res: "res = (t, ls, i', k')" by (cases res)
      obtain l where l: "median ls = Some l" using m [of "da_samples audio" t ls i' k'] r res by auto
      have "bench_utterances env fs runs us i' k' \<noteq> Inl Stop_Undefined"
        using 2(1) [OF Inr refl r [unfolded res] refl refl refl l refl 2(2)] .
      then show ?thesis using Inr r res l by (auto simp: Let_def bind_r_def split: sum.splits)
    qed (simp add: Inr)
  qed simp
qed simp

lemma no_runs_undefined:
  assumes "runs \<le> 0" "decode_audio_file (be_ma env) fs (ut_wav_path u) = Inr audio"
  shows "bench_utterances env fs runs (u # us) i k = Inl Stop_Undefined"
  using assms median_defined [of "[]"] by (simp add: Let_def)

lemma median_odd:
  "length qs mod 2 = 1 \<Longrightarrow> median (map Fin qs) = Some (Fin (sort qs ! (length qs div 2)))"
  by (simp add: median_def fl_sort_Fin)

section \<open>Properties\<close>

text \<open>The strings of the benchmark's JSON report can be read back, and the report is valid JSON exactly
  when its strings hold no control character other than newline and tab: a carriage return in a transcript or a
  file name makes the file unreadable.\<close>

theorem json_escape_exact:
  "json_unescape (json_escape s) = s \<and>
   (json_body (json_escape s) \<longleftrightarrow> list_all (\<lambda>c. 0x20 \<le> code c \<or> c = CHR 0x0A \<or> c = CHR 0x09) s)"
  by (simp add: unescape_escape body_escape)

text \<open>Once the model and the manifest are there and the first fixture decodes, the benchmark runs into
  undefined behaviour (the median of no latency reads before the vector) exactly when it is asked for no run at
  all; with a positive number of runs its outcome is defined whatever the library and the clock answer.\<close>

theorem bench_undefined_iff_no_runs:
  assumes "bench_parse bench_defaults args = Inr o1" "is_model_downloaded (be_home env) fs (bo_model o1)"
    "load_manifest fs (bo_manifest o1) = Inr (u # us)"
    "inference_load (be_wh env) (be_home env) fs (inference_new (bench_config o1)) = Inr i"
    "decode_audio_file (be_ma env) fs (ut_wav_path u) = Inr audio"
  shows "bench_main env args fs = Bench_Undefined \<longleftrightarrow> bo_runs o1 \<le> 0"
proof -
  have m: "bench_main env args fs =
      (case bench_utterances env fs (bo_runs o1) (u # us) i 2 of
         Inl (Stop_Throw e) \<Rightarrow> bench_failed fs e
       | Inl Stop_Undefined \<Rightarrow> Bench_Undefined
       | Inr rs \<Rightarrow> Bench_Exit (bench_finish env o1 (seconds_between (be_clock env 0) (be_clock env 1)) rs fs))"
    using assms(1-4) by (simp only: bench_main_def bench_run_def sum.case Let_def if_False simp_thms)
  show ?thesis
  proof (cases "bo_runs o1 \<le> 0")
    case True
    then show ?thesis unfolding m no_runs_undefined [OF True assms(5)] by simp
  next
    case False
    then have "bench_utterances env fs (bo_runs o1) (u # us) i 2 \<noteq> Inl Stop_Undefined" by (intro utterances_defined) simp
    then show ?thesis using False unfolding m
      by (simp add: bench_failed_def split: sum.split bench_stop.split del: bench_utterances.simps)
  qed
qed

definition bench_fs :: fsys where
  "bench_fs = [''/a.wav'' \<mapsto> File ''RIFF'', ''/m.tsv'' \<mapsto> File (''/a.wav'' @ tabulator @ ''hello''),
     get_model_path None ''distil-small.en'' \<mapsto> File ''ggml'']"

definition bench_sample :: "nat bench_env" where
  "bench_sample = \<lparr>be_ma = sample_ma, be_wh = broken_engine, be_home = None, be_clock = (\<lambda>n. int n), be_show = (\<lambda>x. ''0''),
     be_open = (\<lambda>p. True)\<rparr>"

lemma distil_path: "get_model_path None ''distil-small.en'' = ''/tmp/.cache/whisper/ggml-distil-small.en.bin''"
  by code_simp

lemma bench_sample_manifest:
  "load_manifest bench_fs ''/m.tsv'' = Inr [\<lparr>ut_wav_path = ''/a.wav'', ut_reference = ''hello''\<rparr>]"
  unfolding bench_fs_def distil_path by code_simp

lemma bench_sample_decodes:
  "decode_audio_file sample_ma bench_fs ''/a.wav'' = Inr \<lparr>da_samples = replicate 40 (Fin 0) @ [Fin 1], da_sample_rate = 16000\<rparr>"
proof -
  have "decode_audio_file sample_ma bench_fs ''/a.wav'' = decode_audio_file sample_ma sample_fs ''/a.wav''"
    by (simp add: decode_audio_file_def sample_ma_def sample_fs_def bench_fs_def distil_path fs_regular_def fs_size_def)
  then show ?thesis by (simp add: sample_decodes)
qed

theorem bench_undefined_iff_no_runs_witness:
  "bench_main bench_sample [''--manifest'', ''/m.tsv'', ''--runs'', ''0''] bench_fs = Bench_Undefined"
proof -
  let ?o = "bench_defaults\<lparr>bo_manifest := ''/m.tsv'', bo_runs := 0\<rparr>"
  have "stoi ''0'' = Some (0, 1)" by code_simp
  then have p: "bench_parse bench_defaults [''--manifest'', ''/m.tsv'', ''--runs'', ''0''] = Inr ?o" by simp
  have d: "is_model_downloaded (be_home bench_sample) bench_fs (bo_model ?o)"
    by (simp add: is_model_downloaded_def bench_sample_def bench_defaults_def bench_fs_def distil_path fs_exists_def)
  have m: "load_manifest bench_fs (bo_manifest ?o) = Inr (\<lparr>ut_wav_path = ''/a.wav'', ut_reference = ''hello''\<rparr> # [])"
    by (simp add: bench_sample_manifest)
  have l: "\<exists>i. inference_load (be_wh bench_sample) (be_home bench_sample) bench_fs (inference_new (bench_config ?o)) = Inr i"
  proof -
    have c: "wi_config (inference_new (bench_config ?o)) = bench_config ?o" "md_size (bench_config ?o) = ''distil-small.en''"
      by (simp_all add: inference_new_def bench_config_def bench_defaults_def)
    obtain info where info: "find_model ''distil-small.en'' = Some info"
      "''/tmp/.cache/whisper/'' @ mi_ggml_file info = ''/tmp/.cache/whisper/ggml-distil-small.en.bin''"
      using distil_path by (auto simp: get_model_path_def get_cache_dir_def split: option.splits)
    have "fs_exists bench_fs ''/tmp/.cache/whisper/ggml-distil-small.en.bin''"
      by (simp add: fs_exists_def bench_fs_def distil_path)
    then have "resolve_model_path None bench_fs (bench_config ?o) = Inr ''/tmp/.cache/whisper/ggml-distil-small.en.bin''"
      using info by (simp add: resolve_model_path_def search_paths_def c Let_def)
    then show ?thesis by (simp add: inference_load_def bench_sample_def c broken_engine_def)
  qed
  have a: "decode_audio_file (be_ma bench_sample) bench_fs (ut_wav_path \<lparr>ut_wav_path = ''/a.wav'', ut_reference = ''hello''\<rparr>) =
      Inr \<lparr>da_samples = replicate 40 (Fin 0) @ [Fin 1], da_sample_rate = 16000\<rparr>"
    by (simp add: bench_sample_def bench_sample_decodes)
  from l obtain i where "inference_load (be_wh bench_sample) (be_home bench_sample) bench_fs (inference_new (bench_config ?o)) = Inr i" ..
  from bench_undefined_iff_no_runs [OF p d m this a] show ?thesis by simp
qed

end
