(* ===== verification/Platform.thy ===== *)
theory Platform
  imports Transcription
begin

text \<open>
  What the program says of the platform it was built for (src/src/platform/capabilities.h and
  capabilities.cpp): one table per build target, and the document the local protocol's clients and the
  settings page show. The target is fixed by the compiler, so it is an argument here.
\<close>

datatype feature_state = Ready | Partial | Placeholder | Unsupported

fun platform_feature_state_name :: "feature_state \<Rightarrow> string" where
  "platform_feature_state_name Ready = ''ready''"
| "platform_feature_state_name Partial = ''partial''"
| "platform_feature_state_name Placeholder = ''placeholder''"
| "platform_feature_state_name Unsupported = ''unsupported''"

record platform_feature =
  pf_id :: string
  pf_label :: string
  pf_state :: feature_state
  pf_operator_note :: string

record platform_capabilities =
  pc_id :: string
  pc_display_name :: string
  pc_buildable :: bool
  pc_summary :: string
  pc_features :: "platform_feature list"

definition feature :: "string \<Rightarrow> string \<Rightarrow> feature_state \<Rightarrow> string \<Rightarrow> platform_feature" where
  "feature i l s n = \<lparr>pf_id = i, pf_label = l, pf_state = s, pf_operator_note = n\<rparr>"

datatype build_target = Macos | Windows | Linux | Unknown_Target

fun current_platform_capabilities :: "build_target \<Rightarrow> platform_capabilities" where
  "current_platform_capabilities Macos = \<lparr>
     pc_id = ''macos'', pc_display_name = ''macOS'', pc_buildable = True,
     pc_summary = ''This build compiles on macOS, but core desktop integrations are still placeholder-level until the native menu bar, permissions, hotkey, and insertion slices land.'',
     pc_features = [
       feature ''audio_capture'' ''Audio capture'' Partial
         (''miniaudio can compile on macOS; a release app still needs an explicit microphone permission/onboarding flow.''),
       feature ''global_hotkey'' ''Global hotkey'' Placeholder
         (''macOS hotkey capture is not implemented yet; the current platform file only logs an unsupported warning.''),
       feature ''text_insertion'' ''Text insertion'' Placeholder
         (''macOS-native insertion and clipboard fallback are not implemented yet.''),
       feature ''tray_or_menu_bar'' ''Menu bar'' Placeholder
         (''NSStatusItem/menu-bar behavior is not implemented yet.''),
       feature ''service_integration'' ''Launch/service integration'' Unsupported
         (''Linux systemd commands do not apply on macOS; launchd packaging is a later slice.'')]\<rparr>"
| "current_platform_capabilities Windows = \<lparr>
     pc_id = ''windows'', pc_display_name = ''Windows'', pc_buildable = True,
     pc_summary = ''Windows desktop integrations are implemented natively (Win32) and build green on MSVC and MinGW CI; hardware smoke beyond CI is recommended before a stable release.'',
     pc_features = [
       feature ''audio_capture'' ''Audio capture'' Partial
         (''miniaudio targets WASAPI; real device and permission smoke tests benefit from a Windows host.''),
       feature ''global_hotkey'' ''Global hotkey'' Ready
         (''WH_KEYBOARD_LL low-level keyboard hook delivers push-to-talk and toggle, including modifier-only chords.''),
       feature ''text_insertion'' ''Text insertion'' Ready
         (''SendInput Unicode injection with CF_UNICODETEXT clipboard fallback and synthesized paste.''),
       feature ''tray_or_menu_bar'' ''System tray'' Placeholder
         (''Shell_NotifyIcon system tray is a later slice; the floating companion provides a visible control surface in the meantime.''),
       feature ''service_integration'' ''Startup/service integration'' Unsupported
         (''Windows startup (Run key) integration and installer support are later slices.'')]\<rparr>"
| "current_platform_capabilities Linux = \<lparr>
     pc_id = ''linux'', pc_display_name = ''Linux/X11'', pc_buildable = True,
     pc_summary = ''Linux/X11 remains the currently implemented desktop product path.'',
     pc_features = [
       feature ''audio_capture'' ''Audio capture'' Ready
         (''PulseAudio/miniaudio path is implemented for the current Linux target.''),
       feature ''global_hotkey'' ''Global hotkey'' Ready
         (''X11 global hotkey support is implemented.''),
       feature ''text_insertion'' ''Text insertion'' Ready
         (''X11 text insertion and clipboard tooling are implemented for supported Linux desktops.''),
       feature ''tray_or_menu_bar'' ''Tray'' Ready
         (''GTK/AppIndicator tray support is implemented when dependencies are present.''),
       feature ''service_integration'' ''systemd user service'' Ready
         (''systemd user service commands are implemented for Linux.'')]\<rparr>"
| "current_platform_capabilities Unknown_Target = \<lparr>
     pc_id = ''unknown'', pc_display_name = ''Unknown'', pc_buildable = False,
     pc_summary = ''This platform is not a supported AutoWhisper target.'',
     pc_features = [
       feature ''audio_capture'' ''Audio capture'' Unsupported
         (''Unsupported platform.''),
       feature ''global_hotkey'' ''Global hotkey'' Unsupported
         (''Unsupported platform.''),
       feature ''text_insertion'' ''Text insertion'' Unsupported
         (''Unsupported platform.''),
       feature ''tray_or_menu_bar'' ''Tray/menu bar'' Unsupported
         (''Unsupported platform.''),
       feature ''service_integration'' ''Service integration'' Unsupported
         (''Unsupported platform.'')]\<rparr>"

definition feature_json :: "'j json_api \<Rightarrow> platform_feature \<Rightarrow> 'j" where
  "feature_json J f = j_obj J [
     (''id'', j_str J (pf_id f)), (''label'', j_str J (pf_label f)), (''name'', j_str J (pf_label f)),
     (''state'', j_str J (platform_feature_state_name (pf_state f))),
     (''operator_note'', j_str J (pf_operator_note f)), (''detail'', j_str J (pf_operator_note f))]"

definition platform_capabilities_json :: "'j json_api \<Rightarrow> string \<Rightarrow> platform_capabilities \<Rightarrow> 'j" where
  "platform_capabilities_json J version c = j_obj J [
     (''id'', j_str J (pc_id c)), (''platform'', j_str J (pc_id c)),
     (''display_name'', j_str J (pc_display_name c)), (''build_target'', j_str J (pc_display_name c)),
     (''buildable'', j_bool J (pc_buildable c)), (''summary'', j_str J (pc_summary c)),
     (''version'', j_str J version), (''features'', j_arr J (map (feature_json J) (pc_features c)))]"

section \<open>Facts\<close>

text \<open>Every target answers for the same five features, in the same order, and only the unknown one says it
  cannot be built.\<close>

lemma same_features:
  "map pf_id (pc_features (current_platform_capabilities t)) =
     [''audio_capture'', ''global_hotkey'', ''text_insertion'', ''tray_or_menu_bar'', ''service_integration'']"
  by (cases t) (simp_all add: feature_def)

lemma buildable_targets: "pc_buildable (current_platform_capabilities t) \<longleftrightarrow> t \<noteq> Unknown_Target"
  by (cases t) simp_all

end
