(* ===== verification/Spec2Isabelle.thy ===== *)
theory Spec2Isabelle
  imports AW_Prelude Step_Systems Cfloat Sha256 Wer Config_Records Transcript_Pipeline Transcript_Laws
    Hotkey Hotkey_Laws File_System Config_Schema Models_Catalog Config Config_Laws
    Json_Laws Settings Settings_Laws Transcription Audio_File Inference Runtime
    Local_Protocol Local_Protocol_Laws Output Output_Laws Audio Pulseaudio Feedback Feedback_Threads Avatar Tray
    Daemon Daemon_Laws Subprocess Subprocess_Laws Terminal Strtod Logging Service Doctor Doctor_Laws
    Cli Cli_Laws Settings_Ui Settings_Ui_Laws Settings_Shutdown Cfloat_Mono Avatar_Raster Avatar_Raster_Laws Avatar_Frame
    Avatar_Shell Avatar_X11 Hotkey_Win32 Hotkey_X11 Hotkey_X11_Laws Tray_Gtk Bench Bench_Laws Platform
begin

text \<open>
  AutoWhisper, a local dictation program.

  A hotkey starts a recording, a second one (or its release) ends it; the recording is trimmed,
  transcribed by a whisper model, cleaned up and typed into the focused window or put on the
  clipboard. Around this core stand a command line, a settings page served on the loopback
  interface, a transcription server on standard input and output, a model downloader, a diagnosis
  command, an animated companion and a benchmark. This library models the C++ of the program and
  proves what makes each part correct. Paths below are under src/.

  \<^bold>\<open>Parts and how they interact.\<close>

    \<^item> The daemon (src/daemon/daemon.cpp) owns every other part of a dictation: the hotkey manager, the
      recorder, the muting of other programs, the feedback tones, the runtime that transcribes, the
      transcript pipeline, the text output, the tray icon and the companion. Key events enter a queue
      from the hotkey thread; the main loop takes them one at a time and calls \<open>handle_start\<close>,
      \<open>handle_stop\<close> or \<open>handle_cancel\<close>. \<open>Daemon\<close> models it as a step relation in which the main loop
      and the other threads (capture callback, delayed mute, key events, window) interleave.
    \<^item> The configuration file is read by the daemon (which reloads it), by the command line and by the
      settings page, each through the same load and validation functions.
    \<^item> The runtime is used by the daemon, by \<open>transcribe\<close> and by the local protocol server.
    \<^item> Instances of the settings page find each other through a locked sidecar file.

  \<^bold>\<open>Theories and sources.\<close> Every definition carries the name of the source's function or type where
  Isabelle allows it, and the definitions of a theory stand in the order of the code.

    \<^item> \<open>Step_Systems\<close>: invariants and traps of step relations. \<open>AW_Prelude\<close>: strings as byte lists, the C
      character classes, \<open>getline\<close>, \<open>std::stoi\<close>, printing of integers, errors as sums (\<open>bind_r\<close>).
      \<open>Cfloat\<close>, \<open>Cfloat_Mono\<close>: float and double arithmetic, rounded operation by operation, with monotonicity of rounding and interval rules. \<open>File_System\<close>,
      \<open>Terminal\<close>, \<open>Strtod\<close>: what the library and the system provide.
    \<^item> \<open>Sha256\<close>: src/util/sha256.cpp. \<open>Models_Catalog\<close>: src/models/models.cpp. \<open>Subprocess\<close>,
      \<open>Subprocess_Laws\<close>: src/util/subprocess.cpp. \<open>Logging\<close>: src/util/logging.cpp.
    \<^item> \<open>Config_Records\<close>, \<open>Config_Schema\<close>, \<open>Config\<close>, \<open>Config_Laws\<close>: src/config. \<open>Json_Laws\<close>: what is relied on
      of the JSON library, with a small library that satisfies it.
    \<^item> \<open>Hotkey\<close>, \<open>Hotkey_Laws\<close>, \<open>Hotkey_Win32\<close>, \<open>Hotkey_X11\<close>, \<open>Hotkey_X11_Laws\<close>: src/hotkey.
      \<open>Audio\<close>: src/audio. \<open>Pulseaudio\<close>: src/pulseaudio. \<open>Feedback\<close>, \<open>Feedback_Threads\<close>: src/feedback.
      \<open>Output\<close>, \<open>Output_Laws\<close>: src/output. \<open>Tray\<close>, \<open>Tray_Gtk\<close>: src/tray. \<open>Avatar\<close>, \<open>Avatar_Raster\<close>,
      \<open>Avatar_Raster_Laws\<close>, \<open>Avatar_Frame\<close>, \<open>Avatar_Shell\<close>, \<open>Avatar_X11\<close>: src/avatar and
      src/cli/cli_avatar_demo.cpp.
    \<^item> \<open>Audio_File\<close>, \<open>Inference\<close>, \<open>Transcription\<close>, \<open>Runtime\<close>: src/runtime and src/inference.
      \<open>Local_Protocol\<close>, \<open>Local_Protocol_Laws\<close>: src/protocol. \<open>Transcript_Pipeline\<close>, \<open>Transcript_Laws\<close>:
      src/pipeline.
    \<^item> \<open>Daemon\<close>, \<open>Daemon_Laws\<close>: src/daemon.
    \<^item> \<open>Settings\<close>, \<open>Settings_Laws\<close>: src/settings. \<open>Settings_Ui\<close>, \<open>Settings_Ui_Laws\<close>,
      \<open>Settings_Shutdown\<close>: src/cli/cli_settings_ui.cpp. \<open>Service\<close>: src/service. \<open>Doctor\<close>,
      \<open>Doctor_Laws\<close>: src/doctor. \<open>Cli\<close>, \<open>Cli_Laws\<close>: src/cli/cli.cpp and src/main.cpp. \<open>Platform\<close>:
      src/platform/capabilities.cpp.
    \<^item> \<open>Wer\<close>: src/bench/wer.cpp. \<open>Bench\<close>, \<open>Bench_Laws\<close>: tools/bench/bench_main.cpp.

  \<^bold>\<open>State and effects.\<close> A class is a record, a method a function from the record to its successor; an
  exception is the left side of a sum, a crash or undefined behaviour \<open>None\<close>. Threads that share state
  are inductive step relations (the daemon, the recorder's lock, the delayed mute, the shells of the
  companion, the key listeners of X11 and Windows with their callers, the GTK thread of the tray, the
  threads that play tones, the instances of the settings page and the shutdown of one); their theorems hold for every
  interleaving. Integers are kept at their width where that matters (hash words, 32-bit casts, pixels,
  exit codes).

  \<^bold>\<open>Interfaces.\<close> Each is a locale with an interpretation on the model's own definitions:
  \<open>incremental_hash\<close> (by the SHA-256 object), \<open>transcriber\<close> and \<open>total_transcriber\<close> (by the runtime, used by
  the protocol server), \<open>platform_output\<close> (by the X11 and the Windows backend, used by the output
  manager), \<open>app_muter\<close> (by the PulseAudio manager, used by the daemon), \<open>service_manager\<close> (by systemd
  and by the Windows placeholder), \<open>step_system\<close> and \<open>step_trap\<close> (by the thread models of the shells, the
  key listeners, the tray, the tones and the shutdown of the settings server).

  \<^bold>\<open>What the lemmas show.\<close>

    \<^item> \<open>Daemon_Laws\<close>: the invariant of all components together, that other programs are audible whenever
      the daemon is idle, the outcome of every branch of \<open>handle_stop\<close>, one dictation from key press to
      text, and that saved hotkeys take effect.
    \<^item> \<open>Sha256\<close>, \<open>Wer\<close>, \<open>Transcript_Laws\<close>, \<open>Local_Protocol_Laws\<close>: refinement of a specification: the FIPS
      digest of the concatenated updates, the least cost of an edit script, functions on the words of a
      text, a server over whole lines.
    \<^item> \<open>Config_Laws\<close>, \<open>Settings_Laws\<close>, \<open>Transcription\<close>: round trips through TOML, JSON and the wire format;
      a validated configuration satisfies the published schema; the gate of the HTTP server.
    \<^item> \<open>Hotkey_Laws\<close>, \<open>Audio\<close>, \<open>Pulseaudio\<close>, \<open>Output_Laws\<close>, \<open>Subprocess_Laws\<close>, \<open>Settings_Ui_Laws\<close>: protocols
      and invariants of the parts, with the executions in which they fail.
    \<^item> \<open>Hotkey_X11_Laws\<close>: stopping the X11 listener never waits for it, its nudge never meets a closed
      display, stop leaves what the sequential \<open>x11_stop\<close> computes; and what a listener that stop gave up
      on can still do. \<open>Tray_Gtk\<close>: the icon follows the state, with the executions in which it does not.
      \<open>Feedback_Threads\<close>: tones never overlap and each is played to its end.
      \<open>Settings_Shutdown\<close>: one signal ends a serving \<open>config ui\<close>, with the executions in which none does.
    \<^item> \<open>Cfloat_Mono\<close>, \<open>Avatar_Raster_Laws\<close>, \<open>Avatar_Frame\<close>: the renderer never converts a float out of range,
      never writes outside its buffer and keeps every pixel premultiplied; \<open>Avatar_Shell\<close>: both shells
      count clicks alike, and stopping returns on X11 but may hang on Windows; \<open>Avatar_X11\<close>: the ticker, the
      renderer and the pointer together, over the whole run of the window.
    \<^item> \<open>Cli_Laws\<close>, \<open>Doctor_Laws\<close>, \<open>Bench_Laws\<close>: effect and exit code of the commands.

  \<^bold>\<open>Loops, bounds and fuel.\<close> Loops over a text or a table are structural or have a measure (the text to
  the right of the position, the bytes still unread, the samples still allowed). Loops that wait for
  the system have no fuel: their script, the list of what the system answers, is an argument, and the
  result is \<open>None\<close> when it ends first, so a theorem about a result speaks of every script long enough.
  The sizes in which the renderer is proved safe, 64 to 192 pixels, are those the schema allows; the
  clock bounds of \<open>2 ^ 39\<close> and \<open>2 ^ 40\<close> seconds keep the arguments of the sine finite.

  \<^bold>\<open>Parameters.\<close> Code that is not in the repository is an argument: the whisper, miniaudio, TOML, JSON,
  HTTP and command line libraries, PulseAudio, X11 and Win32, the mathematical functions, the clock and
  the operating system. What is assumed of them is documented behaviour, stated as named predicates
  (\<open>json_ok\<close>, \<open>toml_ok\<close>, \<open>libm_ok\<close>, \<open>x11_tools_ok\<close>, \<open>win32_ok\<close>), each satisfied by a concrete instance
  in a witness.

  \<^bold>\<open>Not modelled.\<close> The Objective-C++ sources of macOS (.mm) and the iOS app, scripts, packaging, the web
  pages and the generated assets are not C++. Drawing contexts and atoms of X11, the layered window of
  Win32 and the widgets of GTK are calls without a result the program uses; of the window of X11 the
  requests are modelled, of the menu of GTK its entries and actions. The X server, the sound devices
  and the HTTP library answer as they like within the step relations of the threads that use them. The log message of a
  branch is left out, the branch is not. Floating-point contraction and excess precision are assumed
  absent, as the build's target guarantees; the sign of a zero is not represented.
\<close>

end
